(* ===== verification/Prelude.thy ===== *)
theory Prelude
  imports Main "HOL-Library.Word" "HOL-Library.Monad_Syntax"
begin

text \<open>
  The prelude of the development: the machine-level conventions every component shares.

  \<^item> A C object of type \<open>char[]\<close> is a list of characters of the length of the object; a read
    or a write outside it has no value (\<open>rd\<close>, \<open>wr\<close>, \<open>blit\<close> return \<open>None\<close>).
  \<^item> A pointer is an \<open>nat option\<close>: \<open>None\<close> is \<open>NULL\<close>, \<open>Some a\<close> the address of a heap
    object. A heap of objects of one type is a map from addresses to objects; a freed or
    never allocated address is outside its domain.
  \<^item> A computation that may run into undefined behaviour has an option type: \<open>None\<close> is
    undefined behaviour (or a loop that does not return), \<open>Some\<close> a normal return.
  \<^item> An \<open>int\<close> of the source is an \<open>int\<close> in the range of 32 bits: \<open>cint\<close> checks the range of an
    arithmetic result (signed overflow is undefined), \<open>to_cint\<close> is the conversion of a
    wider unsigned value (reduced modulo two to the 32).
\<close>

section \<open>Collections\<close>

named_theorems heap_simps \<open>rewriting of heap paths under updates\<close>
named_theorems world_simps \<open>frame facts: which parts of the state an operation leaves alone\<close>
named_theorems cstr_simps \<open>facts on buffers and the strings they hold\<close>

section \<open>Types\<close>

type_synonym ptr = "nat option"
type_synonym 'a heap = "nat \<Rightarrow> 'a option"
type_synonym buf = "char list"
type_synonym cptr = "(nat \<times> nat) option"

section \<open>Integers\<close>

definition INT_MAX :: int where
  "INT_MAX = 2147483647"

definition INT_MIN :: int where
  "INT_MIN = - 2147483648"

definition cint :: "int \<Rightarrow> int option" where
  "cint x = (if INT_MIN \<le> x \<and> x \<le> INT_MAX then Some x else None)"

definition to_cint :: "nat \<Rightarrow> int" where
  "to_cint n = sint (word_of_nat n :: 32 word)"

lemma cint_in_range [simp]: "INT_MIN \<le> x \<Longrightarrow> x \<le> INT_MAX \<Longrightarrow> cint x = Some x"
  by (simp add: cint_def)

lemma cint_eq_Some: "cint x = Some y \<longleftrightarrow> y = x \<and> INT_MIN \<le> x \<and> x \<le> INT_MAX"
  by (auto simp: cint_def)

lemma to_cint_small: "n < 2 ^ 31 \<Longrightarrow> to_cint n = int n"
  by (simp add: to_cint_def signed_of_nat signed_take_bit_int_eq_self)

section \<open>Characters\<close>

abbreviation NUL :: char where
  "NUL \<equiv> CHR 0x00"

abbreviation SP :: char where
  "SP \<equiv> CHR '' ''"

abbreviation NL :: char where
  "NL \<equiv> CHR 0x0A"

abbreviation CR :: char where
  "CR \<equiv> CHR 0x0D"

text \<open>The value of a plain \<open>char\<close> after the integer promotions, for a signed \<open>char\<close>.\<close>

definition schar :: "char \<Rightarrow> int" where
  "schar c = (let n = of_char c in if n < 128 then n else n - 256)"

lemma of_char_int_range: "0 \<le> (of_char c :: int)" "(of_char c :: int) < 256"
proof -
  have "(of_char c :: nat) < 256"
    by simp
  moreover have "(of_char c :: int) = int (of_char c)"
    by (simp add: of_char_def)
  ultimately show "0 \<le> (of_char c :: int)" "(of_char c :: int) < 256"
    by simp_all
qed

lemma schar_inject [simp]: "schar a = schar b \<longleftrightarrow> a = b"
proof
  assume "schar a = schar b"
  then have "(of_char a :: int) = of_char b"
    using of_char_int_range [of a] of_char_int_range [of b]
    by (auto simp: schar_def Let_def split: if_splits)
  then show "a = b"
    by (simp add: of_char_eq_iff)
qed simp

section \<open>Checked access to a buffer\<close>

definition rd :: "'a list \<Rightarrow> nat \<Rightarrow> 'a option" where
  "rd b i = (if i < length b then Some (b ! i) else None)"

definition wr :: "'a list \<Rightarrow> nat \<Rightarrow> 'a \<Rightarrow> 'a list option" where
  "wr b i c = (if i < length b then Some (b[i := c]) else None)"

definition blit :: "'a list \<Rightarrow> nat \<Rightarrow> 'a list \<Rightarrow> 'a list option" where
  "blit b off src =
     (if off + length src \<le> length b
      then Some (take off b @ src @ drop (off + length src) b) else None)"

lemma rd_eq_Some: "rd b i = Some c \<longleftrightarrow> i < length b \<and> b ! i = c"
  by (auto simp: rd_def)

lemma rd_lt [simp]: "i < length b \<Longrightarrow> rd b i = Some (b ! i)"
  by (simp add: rd_def)

lemma rd_ge [simp]: "\<not> i < length b \<Longrightarrow> rd b i = None"
  by (simp add: rd_def)

lemma wr_lt [simp]: "i < length b \<Longrightarrow> wr b i c = Some (b[i := c])"
  by (simp add: wr_def)

lemma wr_eq_Some: "wr b i c = Some b' \<longleftrightarrow> i < length b \<and> b' = b[i := c]"
  by (auto simp: wr_def)

lemma blit_length: "blit b off src = Some b' \<Longrightarrow> length b' = length b"
  by (auto simp: blit_def split: if_splits)

lemma blit_app:
  "length pre = off \<Longrightarrow> length src \<le> length post \<Longrightarrow>
     blit (pre @ post) off src = Some (pre @ src @ drop (length src) post)"
  by (simp add: blit_def)

section \<open>Lists\<close>

lemma takeWhile_replicate_app:
  "takeWhile P (xs @ y # ys) = xs" if "\<forall>x\<in>set xs. P x" "\<not> P y"
  using that by (simp add: takeWhile_tail)

lemma takeWhile_length_nth:
  "x \<in> set b \<Longrightarrow> \<not> P x \<Longrightarrow>
     length (takeWhile P b) < length b \<and> \<not> P (b ! length (takeWhile P b))"
  by (induction b) auto

lemma dropWhile_length_drop: "drop (length (takeWhile P xs)) xs = dropWhile P xs"
  by (simp add: dropWhile_eq_drop)

lemma list_all2_in1: "list_all2 P xs ys \<Longrightarrow> x \<in> set xs \<Longrightarrow> \<exists>y\<in>set ys. P x y"
  by (induction rule: list_all2_induct) auto

lemma list_all2_in2: "list_all2 P xs ys \<Longrightarrow> y \<in> set ys \<Longrightarrow> \<exists>x\<in>set xs. P x y"
  by (induction rule: list_all2_induct) auto

lemma div_succ:
  assumes "0 < (p :: int)"
  shows "(x + 1) div p = x div p + (if x mod p + 1 = p then 1 else 0)"
proof -
  have "x + 1 = (x mod p + 1) + (x div p) * p" by simp
  then have "(x + 1) div p = (x mod p + 1) div p + x div p"
    using assms by (metis div_mult_self1 less_irrefl mult.commute add.commute)
  moreover have m: "x mod p < p" "0 \<le> x mod p" using assms by simp_all
  have "(x mod p + 1) div p = 0" if "x mod p + 1 \<noteq> p"
    using m that by (intro div_pos_pos_trivial) linarith+
  ultimately show ?thesis using assms by simp
qed

end
