(* ===== verification/LinkedHeap.thy ===== *)
theory LinkedHeap
  imports Prelude
begin

text \<open>
  Singly linked lists on a heap. \<open>lpath nx h p as q\<close> says that following the link \<open>nx\<close> from
  the pointer \<open>p\<close> visits the addresses \<open>as\<close>, each of an allocated object, and arrives at \<open>q\<close>.
  The three node types of the program (\<open>onedate\<close>, \<open>filedate\<close>, \<open>cycdata\<close>) are instances of
  the locale \<open>linked\<close>, which gives the laws of appending, unlinking and freeing nodes.
\<close>

section \<open>Paths\<close>

fun lpath :: "('n \<Rightarrow> ptr) \<Rightarrow> 'n heap \<Rightarrow> ptr \<Rightarrow> nat list \<Rightarrow> ptr \<Rightarrow> bool" where
  "lpath nx h p [] q \<longleftrightarrow> p = q"
| "lpath nx h p (a # as) q \<longleftrightarrow>
     p = Some a \<and> (case h a of None \<Rightarrow> False | Some n \<Rightarrow> lpath nx h (nx n) as q)"

lemma lpath_NULL [simp]: "lpath nx h None as q \<longleftrightarrow> as = [] \<and> q = None"
  by (cases as) auto

lemma lpath_start: "lpath nx h p as None \<Longrightarrow> p = (case as of [] \<Rightarrow> None | a # _ \<Rightarrow> Some a)"
  by (cases as) auto

lemma lpath_append [heap_simps]:
  "lpath nx h p (as @ bs) q \<longleftrightarrow> (\<exists>m. lpath nx h p as m \<and> lpath nx h m bs q)"
  by (induction as arbitrary: p) (auto split: option.splits)

lemma lpath_alloc: "lpath nx h p as q \<Longrightarrow> a \<in> set as \<Longrightarrow> \<exists>n. h a = Some n"
  by (induction as arbitrary: p) (auto split: option.splits)

lemma lpath_dom: "lpath nx h p as q \<Longrightarrow> set as \<subseteq> dom h"
  using lpath_alloc by fast

lemma lpath_upd_other [heap_simps]:
  "a \<notin> set as \<Longrightarrow> lpath nx (h(a := v)) p as q \<longleftrightarrow> lpath nx h p as q"
  by (induction as arbitrary: p) (auto split: option.splits)

lemma lpath_same_links:
  "(\<And>a. a \<in> set as \<Longrightarrow> map_option nx (h' a) = map_option nx (h a)) \<Longrightarrow>
     lpath nx h' p as q \<longleftrightarrow> lpath nx h p as q"
proof (induction as arbitrary: p)
  case Nil
  then show ?case by simp
next
  case (Cons a as)
  have "map_option nx (h' a) = map_option nx (h a)" by (rule Cons.prems) simp
  moreover have "\<And>p. lpath nx h' p as q \<longleftrightarrow> lpath nx h p as q"
    by (rule Cons.IH) (simp add: Cons.prems)
  ultimately show ?case by (cases "h a"; cases "h' a") auto
qed

lemma lpath_unique: "lpath nx h p as None \<Longrightarrow> lpath nx h p bs None \<Longrightarrow> as = bs"
proof (induction as arbitrary: p bs)
  case Nil
  then show ?case by simp
next
  case (Cons a as)
  then show ?case by (cases bs) (auto split: option.splits)
qed

lemma lpath_head_notin_tail:
  assumes "lpath nx h p (a # as) None"
  shows "a \<notin> set as"
proof
  assume "a \<in> set as"
  then obtain us vs where as: "as = us @ a # vs" by (auto simp: in_set_conv_decomp)
  obtain n where n: "h a = Some n" and t: "lpath nx h (nx n) as None"
    using assms by (auto split: option.splits)
  from t as have "lpath nx h (Some a) (a # vs) None"
    by (auto simp: heap_simps)
  moreover from n t have "lpath nx h (Some a) (a # as) None" by simp
  ultimately have "a # vs = a # as" by (rule lpath_unique)
  then have "length as = length vs" by simp
  then show False using as by simp
qed

lemma lpath_distinct: "lpath nx h p as None \<Longrightarrow> distinct as"
proof (induction as arbitrary: p)
  case Nil
  then show ?case by simp
next
  case (Cons a as)
  have "a \<notin> set as" by (rule lpath_head_notin_tail [OF Cons.prems])
  then show ?case using Cons by (auto split: option.splits)
qed

lemma lpath_next:
  "lpath nx h p (as @ a # bs) None \<Longrightarrow> h a = Some n \<Longrightarrow> lpath nx h (nx n) bs None"
  by (auto simp: heap_simps split: option.splits)

lemma lpath_split_at:
  "lpath nx h p (as @ a # bs) None \<Longrightarrow> lpath nx h p as (Some a) \<and> lpath nx h (Some a) (a # bs) None"
  by (auto simp: heap_simps)

lemma lpath_last: "lpath nx h p as None \<Longrightarrow> as \<noteq> [] \<Longrightarrow> \<exists>n. h (last as) = Some n \<and> nx n = None"
  by (cases as rule: rev_cases) (auto simp: heap_simps split: option.splits)

section \<open>Nodes with a link field\<close>

locale linked =
  fixes nx :: "'n \<Rightarrow> ptr"
    and set_nx :: "ptr \<Rightarrow> 'n \<Rightarrow> 'n"
  assumes nx_set [simp]: "nx (set_nx q n) = q"
begin

text \<open>Linking a new node behind the last one.\<close>

lemma append_node:
  assumes "lpath nx h p (as @ [a]) None" "h a = Some n" "b \<notin> set (as @ [a])" "nx m = None"
  shows "lpath nx (h(a \<mapsto> set_nx (Some b) n, b \<mapsto> m)) p (as @ [a, b]) None"
proof -
  have "a \<notin> set as" using lpath_distinct [OF assms(1)] by simp
  with assms show ?thesis by (auto simp: heap_simps split: option.splits)
qed

text \<open>Unlinking the node behind \<open>a\<close>.\<close>

lemma unlink_node:
  assumes "lpath nx h p (as @ a # b # bs) None" "h a = Some n" "h b = Some m"
  shows "lpath nx (h(a \<mapsto> set_nx (nx m) n, b := v)) p (as @ a # bs) None"
proof -
  have "distinct (as @ a # b # bs)" by (rule lpath_distinct [OF assms(1)])
  with assms show ?thesis by (auto simp: heap_simps split: option.splits)
qed

text \<open>Unlinking the first node.\<close>

lemma unlink_head:
  assumes "lpath nx h p (a # as) None" "h a = Some n"
  shows "lpath nx (h(a := v)) (nx n) as None"
  using assms lpath_head_notin_tail [OF assms(1)] by (auto simp: heap_simps split: option.splits)

end

section \<open>Freeing a set of addresses\<close>

definition drop_addrs :: "nat list \<Rightarrow> 'n heap \<Rightarrow> 'n heap" where
  "drop_addrs as h = (\<lambda>a. if a \<in> set as then None else h a)"

lemma drop_addrs_Nil [simp]: "drop_addrs [] h = h"
  by (simp add: drop_addrs_def)

lemma drop_addrs_Cons: "drop_addrs (a # as) h = drop_addrs as (h(a := None))"
  by (auto simp: drop_addrs_def fun_eq_iff)

lemma drop_addrs_append: "drop_addrs bs (drop_addrs as h) = drop_addrs (as @ bs) h"
  by (auto simp: drop_addrs_def fun_eq_iff)

lemma drop_addrs_apply [heap_simps]: "drop_addrs as h a = (if a \<in> set as then None else h a)"
  by (simp add: drop_addrs_def)

lemma dom_drop_addrs [simp]: "dom (drop_addrs as h) = dom h - set as"
  by (auto simp: dom_def drop_addrs_def)

lemma lpath_drop_addrs:
  "set as \<inter> set bs = {} \<Longrightarrow> lpath nx (drop_addrs bs h) p as q \<longleftrightarrow> lpath nx h p as q"
  by (rule lpath_same_links) (auto simp: drop_addrs_def)

end
