(* ===== verification/CString.thy ===== *)
theory CString
  imports Prelude
begin

text \<open>
  The string routines of \<^verbatim>\<open>src/main.c\<close>: \<open>trimspace\<close>, which cleans one configuration line in
  place, and \<open>strIsSame\<close>, which compares two names with or without regard to case. The
  loops of the source that scan a buffer for a character (\<open>strlen\<close>, the search for the
  colon in \<open>fetchInf\<close>, the search for the first non-space in \<open>trimspace\<close>) share one contract,
  the locale \<open>scan_loop\<close>.

  Every access is checked: a routine that would read or write outside its buffer has the
  value \<open>None\<close>.
\<close>

section \<open>Scanning loops\<close>

locale scan_loop =
  fixes stop :: "char \<Rightarrow> bool"
    and scan :: "buf \<Rightarrow> nat \<Rightarrow> nat option"
  assumes scan_step: "scan b i = do { c \<leftarrow> rd b i; if stop c then Some i else scan b (Suc i) }"
begin

lemma scan_found:
  "i \<le> length b \<Longrightarrow> \<exists>c\<in>set (drop i b). stop c \<Longrightarrow>
     scan b i = Some (i + length (takeWhile (\<lambda>c. \<not> stop c) (drop i b)))"
proof (induction "length b - i" arbitrary: i)
  case 0
  then show ?case by simp
next
  case (Suc n)
  then have lt: "i < length b" by simp
  then have d: "drop i b = b ! i # drop (Suc i) b"
    by (simp add: Cons_nth_drop_Suc)
  show ?case
  proof (cases "stop (b ! i)")
    case True
    then show ?thesis using lt d by (subst scan_step) simp
  next
    case False
    have "scan b (Suc i) = Some (Suc i + length (takeWhile (\<lambda>c. \<not> stop c) (drop (Suc i) b)))"
      using Suc.hyps(2) Suc.prems(2) False d lt by (intro Suc.hyps(1)) auto
    then show ?thesis using lt d False by (subst scan_step) simp
  qed
qed

lemma scan_runs_off:
  "i \<le> length b \<Longrightarrow> \<forall>c\<in>set (drop i b). \<not> stop c \<Longrightarrow> scan b i = None"
proof (induction "length b - i" arbitrary: i)
  case 0
  then show ?case by (subst scan_step) simp
next
  case (Suc n)
  then have lt: "i < length b" by simp
  then have d: "drop i b = b ! i # drop (Suc i) b"
    by (simp add: Cons_nth_drop_Suc)
  have "scan b (Suc i) = None"
    using Suc.hyps(2) Suc.prems(2) d lt by (intro Suc.hyps(1)) auto
  then show ?case using lt d Suc.prems(2) by (subst scan_step) simp
qed

lemma scan_app:
  "length pre = i \<Longrightarrow> \<forall>c\<in>set s. \<not> stop c \<Longrightarrow> stop d \<Longrightarrow>
     scan (pre @ s @ d # post) i = Some (i + length s)"
  using scan_found [of i "pre @ s @ d # post"]
  by (auto simp: takeWhile_replicate_app)

end

function strlen_from :: "buf \<Rightarrow> nat \<Rightarrow> nat option" where
  "strlen_from b i = do { c \<leftarrow> rd b i; if c = NUL then Some i else strlen_from b (Suc i) }"
  by pat_completeness auto
termination
  by (relation "measure (\<lambda>(b, i). length b - i)") (auto simp: rd_eq_Some)

function lead_from :: "buf \<Rightarrow> nat \<Rightarrow> nat option" where
  "lead_from dat j = do { c \<leftarrow> rd dat j; if c \<noteq> SP then Some j else lead_from dat (Suc j) }"
  by pat_completeness auto
termination
  by (relation "measure (\<lambda>(b, i). length b - i)") (auto simp: rd_eq_Some)

declare strlen_from.simps [simp del] lead_from.simps [simp del]

definition strlen :: "buf \<Rightarrow> nat option" where
  "strlen b = strlen_from b 0"

interpretation sl: scan_loop "\<lambda>c. c = NUL" strlen_from
  by unfold_locales (rule strlen_from.simps)

interpretation ls: scan_loop "\<lambda>c. c \<noteq> SP" lead_from
  by unfold_locales (rule lead_from.simps)

text \<open>The C string a buffer holds: its characters before the first NUL.\<close>

definition cstr :: "buf \<Rightarrow> string" where
  "cstr b = takeWhile (\<lambda>c. c \<noteq> NUL) b"

lemma cstr_app [cstr_simps]: "NUL \<notin> set s \<Longrightarrow> cstr (s @ NUL # rest) = s"
  unfolding cstr_def by (rule takeWhile_replicate_app) auto

lemma cstr_no_NUL [cstr_simps]: "NUL \<notin> set (cstr b)"
  by (auto simp: cstr_def dest: set_takeWhileD)

lemma strlen_cstr: "NUL \<in> set b \<Longrightarrow> strlen b = Some (length (cstr b))"
  using sl.scan_found [of 0 b] by (auto simp: strlen_def cstr_def)

lemma strlen_runs_off: "NUL \<notin> set b \<Longrightarrow> strlen b = None"
  using sl.scan_runs_off [of 0 b] by (auto simp: strlen_def)

section \<open>trimspace\<close>

definition blank :: "char \<Rightarrow> bool" where
  "blank c \<longleftrightarrow> c = CR \<or> c = NL \<or> c = SP"

text \<open>
  The first loop runs the index down from \<open>len - 1\<close>; the argument here is the index plus one,
  the second component of the result the value of \<open>i\<close> after the loop.
\<close>

fun trim_tail :: "buf \<Rightarrow> nat \<Rightarrow> (buf \<times> int) option" where
  "trim_tail dat 0 = Some (dat, -1)"
| "trim_tail dat (Suc i) = do {
     c \<leftarrow> rd dat i;
     if blank c then do { dat' \<leftarrow> wr dat i NUL; trim_tail dat' i }
     else Some (dat, int i)
   }"

function shift_left :: "buf \<Rightarrow> nat \<Rightarrow> nat \<Rightarrow> nat \<Rightarrow> (buf \<times> nat) option" where
  "shift_left dat k j i =
     (if j \<le> i
      then do { c \<leftarrow> rd dat j; dat' \<leftarrow> wr dat k c; shift_left dat' (Suc k) (Suc j) i }
      else Some (dat, k))"
  by pat_completeness auto
termination
  by (relation "measure (\<lambda>(dat, k, j, i). Suc i - j)") auto

function fill_zero :: "buf \<Rightarrow> nat \<Rightarrow> nat \<Rightarrow> buf option" where
  "fill_zero dat k i =
     (if k \<le> i then do { dat' \<leftarrow> wr dat k NUL; fill_zero dat' (Suc k) i } else Some dat)"
  by pat_completeness auto
termination
  by (relation "measure (\<lambda>(dat, k, i). Suc i - k)") auto

declare shift_left.simps [simp del] fill_zero.simps [simp del]

definition trimspace :: "buf option \<Rightarrow> int \<Rightarrow> buf option option" where
  "trimspace datp num =
     (case datp of
        None \<Rightarrow> Some None
      | Some dat \<Rightarrow>
          if num < 1 then Some (Some dat)
          else do {
            l \<leftarrow> strlen dat;
            let len = to_cint l;
            let len = (if len > num then num else len);
            (dat, i) \<leftarrow> trim_tail dat (nat len);
            if i \<le> 0 then Some (Some dat)
            else do {
              c \<leftarrow> rd dat 0;
              if c \<noteq> SP then Some (Some dat)
              else do {
                j \<leftarrow> lead_from dat 0;
                (dat, k) \<leftarrow> shift_left dat 0 j (nat i);
                dat \<leftarrow> fill_zero dat k (nat i);
                Some (Some dat)
              }
            }
          })"

section \<open>What trimspace computes\<close>

definition rtrim :: "string \<Rightarrow> string" where
  "rtrim s = rev (dropWhile blank (rev s))"

definition trimmed :: "string \<Rightarrow> string" where
  "trimmed s = dropWhile (\<lambda>c. c = SP) (rtrim s)"

lemma rtrim_snoc: "rtrim (s @ [c]) = (if blank c then rtrim s else s @ [c])"
  by (simp add: rtrim_def)

lemma rtrim_Nil [simp]: "rtrim [] = []"
  by (simp add: rtrim_def)

lemma rtrim_length: "length (rtrim s) \<le> length s"
  by (simp add: rtrim_def) (metis length_dropWhile_le length_rev)

lemma trimmed_length: "length (trimmed s) \<le> length (rtrim s)"
  by (simp add: trimmed_def length_dropWhile_le)

lemma rtrim_last: "rtrim s \<noteq> [] \<Longrightarrow> \<not> blank (last (rtrim s))"
  unfolding rtrim_def by (metis hd_dropWhile last_rev rev_is_Nil_conv)

lemma trim_tail_eq:
  "trim_tail (u @ post) (length u) =
     Some (rtrim u @ replicate (length u - length (rtrim u)) NUL @ post, int (length (rtrim u)) - 1)"
proof (induction u arbitrary: post rule: rev_induct)
  case Nil
  then show ?case by simp
next
  case (snoc c u)
  show ?case
  proof (cases "blank c")
    case True
    have "Suc (length u) - length (rtrim u) = Suc (length u - length (rtrim u))"
      using rtrim_length [of u] by simp
    then show ?thesis
      using snoc.IH [of "NUL # post"] True
      by (simp add: rtrim_snoc replicate_append_same [symmetric])
  next
    case False
    then show ?thesis by (simp add: rtrim_snoc)
  qed
qed

lemma shift_left_eq:
  "k + m \<le> Suc i \<Longrightarrow> i < length dat \<Longrightarrow>
     shift_left dat k (k + m) i =
       Some (take k dat @ drop (k + m) (take (Suc i) dat) @ drop (Suc i - m) dat, Suc i - m)"
proof (induction "Suc i - (k + m)" arbitrary: k dat)
  case 0
  then have "k + m = Suc i" by simp
  then have "Suc i - m = k" by simp
  then show ?case using \<open>k + m = Suc i\<close> by (simp add: shift_left.simps)
next
  case (Suc n)
  let ?dat = "dat[k := dat ! (k + m)]"
  have le: "k + m \<le> i" using Suc.hyps(2) by simp
  then have kl: "k < length dat" "k + m < length dat" using Suc.prems by simp_all
  have "shift_left dat k (k + m) i = shift_left ?dat (Suc k) (Suc k + m) i"
    using le kl by (subst shift_left.simps) simp
  also have "\<dots> = Some (take (Suc k) ?dat @ drop (Suc k + m) (take (Suc i) ?dat)
                       @ drop (Suc i - m) ?dat, Suc i - m)"
    using Suc.hyps(2) Suc.prems le by (intro Suc.hyps(1)) simp_all
  also have "take (Suc k) ?dat = take k dat @ [dat ! (k + m)]"
    using kl by (simp add: take_Suc_conv_app_nth)
  also have "drop (Suc i - m) ?dat = drop (Suc i - m) dat"
    using le by simp
  also have "drop (Suc k + m) (take (Suc i) ?dat) = drop (Suc k + m) (take (Suc i) dat)"
    by (simp add: take_update_swap)
  finally show ?case
    using le kl Suc.prems by (simp add: Cons_nth_drop_Suc [symmetric])
qed

lemma fill_zero_eq:
  "k \<le> Suc i \<Longrightarrow> i < length dat \<Longrightarrow>
     fill_zero dat k i = Some (take k dat @ replicate (Suc i - k) NUL @ drop (Suc i) dat)"
proof (induction "Suc i - k" arbitrary: k dat)
  case 0
  then show ?case by (simp add: fill_zero.simps)
next
  case (Suc n)
  have le: "k \<le> i" and kl: "k < length dat" using Suc.hyps(2) Suc.prems by simp_all
  have "fill_zero dat k i = fill_zero (dat[k := NUL]) (Suc k) i"
    using le kl by (subst fill_zero.simps) simp
  also have "\<dots> = Some (take (Suc k) (dat[k := NUL]) @ replicate (Suc i - Suc k) NUL
                       @ drop (Suc i) (dat[k := NUL]))"
    using Suc.hyps(2) Suc.prems le by (intro Suc.hyps(1)) simp_all
  finally show ?case
    using le kl by (simp add: take_Suc_conv_app_nth Suc_diff_le)
qed

text \<open>
  The rest of the routine, for a trimmed tail that starts with a space: the block is moved
  to the front and the freed places are zeroed.
\<close>

lemma trim_lead_eq:
  assumes r: "1 < length r" "last r \<noteq> SP"
  defines "m \<equiv> length (takeWhile (\<lambda>c. c = SP) r)"
  shows "lead_from (r @ q) 0 = Some m"
    and "shift_left (r @ q) 0 m (length r - 1) =
           Some (drop m r @ drop (length r - m) (r @ q), length r - m)"
    and "fill_zero (drop m r @ drop (length r - m) (r @ q)) (length r - m) (length r - 1) =
           Some (drop m r @ replicate m NUL @ q)"
proof -
  have "last r \<in> set r" using r by (intro last_in_set) auto
  then have ex: "\<exists>c\<in>set r. c \<noteq> SP" using r(2) by blast
  then have "takeWhile (\<lambda>c. c = SP) (r @ q) = takeWhile (\<lambda>c. c = SP) r"
    by (metis (mono_tags, lifting) takeWhile_append1)
  then show "lead_from (r @ q) 0 = Some m"
    using ls.scan_found [of 0 "r @ q"] ex by (auto simp: m_def)
  have ml: "m < length r"
    using ex takeWhile_length_nth [of _ r "\<lambda>c. c = SP"] unfolding m_def by blast
  then show "shift_left (r @ q) 0 m (length r - 1) =
           Some (drop m r @ drop (length r - m) (r @ q), length r - m)"
    using shift_left_eq [of 0 m "length r - 1" "r @ q"] by simp
  let ?d = "drop m r @ drop (length r - m) (r @ q)"
  have "drop (length r) ?d = drop m (drop (length r - m) (r @ q))"
    using ml by simp
  also have "\<dots> = drop (length r) (r @ q)"
    using ml by (simp only: drop_drop) simp
  finally have "drop (length r) ?d = q" by simp
  then show "fill_zero ?d (length r - m) (length r - 1) = Some (drop m r @ replicate m NUL @ q)"
    using fill_zero_eq [of "length r - m" "length r - 1" ?d] ml by simp
qed

lemma trimmed_short:
  assumes "length (rtrim u) \<le> 1 \<or> hd (rtrim u) \<noteq> SP"
  shows "trimmed u = rtrim u"
proof (cases "rtrim u")
  case Nil
  then show ?thesis by (simp add: trimmed_def)
next
  case (Cons c cs)
  have "c \<noteq> SP"
    using assms Cons rtrim_last [of u] by (cases cs) (auto simp: blank_def)
  then show ?thesis using Cons by (simp add: trimmed_def)
qed

lemma trimspace_eq:
  assumes b: "b = s @ NUL # rest" "NUL \<notin> set s" and num: "1 \<le> num" and sz: "length b < 2 ^ 31"
  defines "u \<equiv> take (nat num) s"
  shows "trimspace (Some b) num =
           Some (Some (trimmed u @ replicate (length u - length (trimmed u)) NUL @ drop (length u) b))"
proof -
  let ?r = "rtrim u" and ?q = "replicate (length u - length (rtrim u)) NUL @ drop (length u) b"
  have "u = take (length u) b"
    using b(1) by (simp add: u_def min_def)
  then have bu: "b = u @ drop (length u) b"
    by (metis append_take_drop_id)
  have len: "strlen b = Some (length s)" "to_cint (length s) = int (length s)"
    using b sz by (auto simp: strlen_cstr cstr_app to_cint_small)
  have m: "nat (if int (length s) > num then num else int (length s)) = length u"
    using num by (auto simp: u_def)
  have tt: "trim_tail b (length u) = Some (?r @ ?q, int (length ?r) - 1)"
    using trim_tail_eq [of u "drop (length u) b"] bu by simp
  have rd0: "\<not> length ?r \<le> Suc 0 \<Longrightarrow> rd (?r @ ?q) 0 = Some (hd ?r)"
    by (cases ?r) (simp_all add: rd_def)
  show ?thesis
  proof (cases "length ?r \<le> 1 \<or> hd ?r \<noteq> SP")
    case True
    then show ?thesis
      using trimmed_short [OF True] num len m tt rd0
      by (cases "length ?r \<le> 1") (auto simp: trimspace_def Let_def simp del: rd_lt)
  next
    case False
    let ?m = "length (takeWhile (\<lambda>c. c = SP) ?r)"
    have ne: "?r \<noteq> []" using False by (cases ?r) simp_all
    then have r: "1 < length ?r" "last ?r \<noteq> SP"
      using False rtrim_last [of u] by (auto simp: blank_def)
    have t: "trimmed u = drop ?m ?r" by (simp add: trimmed_def dropWhile_eq_drop)
    have "?m \<le> length ?r" by (rule length_takeWhile_le)
    then have "replicate ?m NUL @ ?q
        = replicate (length u - length (trimmed u)) NUL @ drop (length u) b"
      using rtrim_length [of u] by (simp add: t replicate_add [symmetric])
    moreover have "nat (int (length ?r) - 1) = length ?r - 1" by simp
    ultimately show ?thesis
      using False num len m tt rd0 r trim_lead_eq [OF r(1,2), of ?q]
      by (cases "num < int (length s)") (simp_all add: trimspace_def Let_def t del: rd_lt)
  qed
qed

section \<open>strIsSame\<close>

text \<open>
  The loop ends in one of two ways: it returns from inside with a result (\<open>Inl\<close>), or it
  leaves the loop with the index (\<open>Inr\<close>).
\<close>

function same_loop :: "buf \<Rightarrow> buf \<Rightarrow> nat \<Rightarrow> int \<Rightarrow> nat \<Rightarrow> (int + nat) option" where
  "same_loop AA BB num Aanum i =
     (if \<not> i < num then Some (Inr i)
      else do {
        a \<leftarrow> rd AA i;
        if a = NUL then Some (Inr i)
        else do {
          b \<leftarrow> rd BB i;
          if b = NUL then Some (Inr i)
          else if schar a = schar b then same_loop AA BB num Aanum (Suc i)
          else if schar a + Aanum = schar b \<or> schar a = schar b + Aanum
          then if schar a < schar (CHR ''A'') \<or> schar b < schar (CHR ''A'') \<or>
                  schar a > schar (CHR ''z'') \<or> schar b > schar (CHR ''z'')
               then Some (Inl (int i + 1))
               else same_loop AA BB num Aanum (Suc i)
          else Some (Inl (int i + 1))
        }
      })"
  by pat_completeness auto
termination
  by (relation "measure (\<lambda>(AA, BB, num, Aanum, i). num - i)") auto

declare same_loop.simps [simp del]

text \<open>What follows the loop: the index is \<open>num\<close>, or one of the strings has ended.\<close>

definition same_end :: "buf \<Rightarrow> buf \<Rightarrow> int \<Rightarrow> int + nat \<Rightarrow> int option" where
  "same_end AA BB num r =
     (case r of
        Inl v \<Rightarrow> Some v
      | Inr i \<Rightarrow>
          if int i = num then Some 0
          else do {
            a \<leftarrow> rd AA i;
            if a = NUL
            then do { b \<leftarrow> rd BB i; if b = NUL then Some 0 else Some (int i + 1) }
            else Some (int i + 1)
          })"

definition strIsSame :: "buf option \<Rightarrow> buf option \<Rightarrow> int \<Rightarrow> int \<Rightarrow> int option" where
  "strIsSame AAp BBp num nAa =
     (case (AAp, BBp) of
        (Some AA, Some BB) \<Rightarrow>
          if num < 1 then Some (-1)
          else do {
            let Aanum = (if nAa \<noteq> 0 then schar (CHR ''a'') - schar (CHR ''A'') else 0);
            r \<leftarrow> same_loop AA BB (nat num) Aanum 0;
            same_end AA BB num r
          }
      | _ \<Rightarrow> Some (-1))"

text \<open>
  The reference: two characters are the same when their foldings are equal, where the
  folding maps an upper-case ASCII letter to the lower-case one, or is the identity. The
  comparison looks at the strings the buffers hold, cut at \<open>num\<close> characters.
\<close>

definition tolower :: "char \<Rightarrow> char" where
  "tolower c = (if schar (CHR ''A'') \<le> schar c \<and> schar c \<le> schar (CHR ''Z'')
                then char_of ((of_char c :: nat) + 32) else c)"

definition fold_char :: "int \<Rightarrow> char \<Rightarrow> char" where
  "fold_char nAa = (if nAa \<noteq> 0 then tolower else id)"

definition name_of :: "nat \<Rightarrow> buf \<Rightarrow> string" where
  "name_of n b = take n (cstr b)"

fun first_diff :: "(char \<Rightarrow> char) \<Rightarrow> string \<Rightarrow> string \<Rightarrow> nat option" where
  "first_diff f [] [] = None"
| "first_diff f (a # as) (b # bs) =
     (if f a = f b then map_option Suc (first_diff f as bs) else Some 0)"
| "first_diff f _ _ = Some 0"

lemma first_diff_None: "first_diff f as bs = None \<longleftrightarrow> map f as = map f bs"
  by (induction f as bs rule: first_diff.induct) auto

lemma schar_tolower:
  "schar (tolower c) =
     (if 65 \<le> schar c \<and> schar c \<le> 90 then schar c + 32 else schar c)"
proof -
  have "schar (char_of ((of_char c :: nat) + 32)) = schar c + 32"
    if "65 \<le> schar c" "schar c \<le> 90"
  proof -
    define N where "N = (of_char c :: nat)"
    have "N < 256" and e: "(of_char c :: int) = int N"
      by (simp_all add: of_char_def N_def)
    then have n: "N \<le> 90" and s: "schar c = int N"
      using that by (auto simp: schar_def Let_def split: if_splits)
    have "(of_char (char_of (N + 32)) :: int) = int (N + 32)"
      using n by (subst of_nat_of_char [symmetric]) simp
    then have "schar (char_of (N + 32)) = int N + 32"
      using n by (simp add: schar_def Let_def)
    then show ?thesis using s by (simp add: N_def)
  qed
  then show ?thesis by (auto simp: tolower_def schar_def [of "CHR ''A''"] schar_def [of "CHR ''Z''"])
qed

text \<open>The two tests of the loop decide exactly equality of the foldings.\<close>

lemma fold_char_test:
  "fold_char nAa a = fold_char nAa b \<longleftrightarrow>
     schar a = schar b \<or>
     (let Aanum = (if nAa \<noteq> 0 then schar (CHR ''a'') - schar (CHR ''A'') else 0)
      in (schar a + Aanum = schar b \<or> schar a = schar b + Aanum) \<and>
         \<not> (schar a < schar (CHR ''A'') \<or> schar b < schar (CHR ''A'') \<or>
            schar a > schar (CHR ''z'') \<or> schar b > schar (CHR ''z'')))"
proof -
  have k: "schar (CHR ''A'') = 65" "schar (CHR ''z'') = 122" "schar (CHR ''a'') = 97"
    by (simp_all add: schar_def)
  show ?thesis
  proof (cases "nAa = 0")
    case True
    then show ?thesis by (auto simp: fold_char_def Let_def)
  next
    case False
    have "tolower a = tolower b \<longleftrightarrow> schar (tolower a) = schar (tolower b)" by simp
    then show ?thesis using False by (auto simp: fold_char_def Let_def k schar_tolower simp del: schar_inject)
  qed
qed

lemma same_loop_unfold:
  "i < num \<Longrightarrow> i < length AA \<Longrightarrow> AA ! i \<noteq> NUL \<Longrightarrow> i < length BB \<Longrightarrow> BB ! i \<noteq> NUL \<Longrightarrow>
     same_loop AA BB num (if nAa \<noteq> 0 then schar (CHR ''a'') - schar (CHR ''A'') else 0) i =
       (if fold_char nAa (AA ! i) = fold_char nAa (BB ! i)
        then same_loop AA BB num (if nAa \<noteq> 0 then schar (CHR ''a'') - schar (CHR ''A'') else 0) (Suc i)
        else Some (Inl (int i + 1)))"
  by (subst same_loop.simps) (simp add: fold_char_test Let_def)

lemma same_loop_stop:
  "\<not> i < num \<Longrightarrow> same_loop AA BB num Aanum i = Some (Inr i)"
  "i < num \<Longrightarrow> i < length AA \<Longrightarrow> AA ! i = NUL \<Longrightarrow> same_loop AA BB num Aanum i = Some (Inr i)"
  "i < num \<Longrightarrow> i < length AA \<Longrightarrow> i < length BB \<Longrightarrow> BB ! i = NUL \<Longrightarrow>
     same_loop AA BB num Aanum i = Some (Inr i)"
  by (subst same_loop.simps, simp)+

text \<open>A buffer that can be read up to \<open>n\<close> characters: it has them, or a NUL before.\<close>

definition readable :: "nat \<Rightarrow> buf \<Rightarrow> bool" where
  "readable n b \<longleftrightarrow> n \<le> length b \<or> NUL \<in> set b"

lemma readable_cases:
  assumes "readable n b" "\<forall>c\<in>set (take i b). c \<noteq> NUL" "i < n" "i \<le> length b"
  obtains "i < length b" "b ! i = NUL" "take (n - i) (cstr (drop i b)) = []"
  | "i < length b" "b ! i \<noteq> NUL"
    "take (n - i) (cstr (drop i b)) = b ! i # take (n - Suc i) (cstr (drop (Suc i) b))"
proof -
  have lt: "i < length b"
  proof (rule ccontr)
    assume "\<not> i < length b"
    then show False using assms by (auto simp: readable_def)
  qed
  then have d: "drop i b = b ! i # drop (Suc i) b" by (simp add: Cons_nth_drop_Suc)
  have "n - i = Suc (n - Suc i)" using assms(3) by simp
  then show thesis using lt d that by (cases "b ! i = NUL") (simp_all add: cstr_def)
qed

lemma no_NUL_take_Suc:
  "i < length b \<Longrightarrow> b ! i \<noteq> NUL \<Longrightarrow> \<forall>c\<in>set (take i b). c \<noteq> NUL \<Longrightarrow>
     \<forall>c\<in>set (take (Suc i) b). c \<noteq> NUL"
  by (simp add: take_Suc_conv_app_nth)

lemma same_loop_eq:
  assumes "readable n AA" "readable n BB"
  shows "i \<le> n \<Longrightarrow> i \<le> length AA \<Longrightarrow> i \<le> length BB \<Longrightarrow>
     \<forall>c\<in>set (take i AA). c \<noteq> NUL \<Longrightarrow> \<forall>c\<in>set (take i BB). c \<noteq> NUL \<Longrightarrow>
     same_loop AA BB n (if nAa \<noteq> 0 then schar (CHR ''a'') - schar (CHR ''A'') else 0) i
       \<bind> same_end AA BB (int n) =
     Some (case first_diff (fold_char nAa) (take (n - i) (cstr (drop i AA)))
                  (take (n - i) (cstr (drop i BB)))
           of None \<Rightarrow> 0 | Some d \<Rightarrow> int (i + d) + 1)"
proof (induction "n - i" arbitrary: i)
  case 0
  then show ?case by (simp add: same_loop_stop same_end_def)
next
  case (Suc m)
  let ?Aa = "if nAa \<noteq> 0 then schar (CHR ''a'') - schar (CHR ''A'') else 0"
  have lt: "i < n" using Suc.hyps(2) by simp
  show ?case
  proof (rule readable_cases [OF assms(1) Suc.prems(4) lt Suc.prems(2)];
         rule readable_cases [OF assms(2) Suc.prems(5) lt Suc.prems(3)])
    assume a: "i < length AA" "AA ! i = NUL" "take (n - i) (cstr (drop i AA)) = []"
      and b: "i < length BB" "BB ! i = NUL" "take (n - i) (cstr (drop i BB)) = []"
    show ?thesis
      using lt a(1,2) b(1,2) same_loop_stop(2) [OF lt a(1,2)]
      by (simp add: a(3) b(3) same_end_def)
  next
    assume a: "i < length AA" "AA ! i = NUL" "take (n - i) (cstr (drop i AA)) = []"
      and b: "i < length BB" "BB ! i \<noteq> NUL"
        "take (n - i) (cstr (drop i BB)) = BB ! i # take (n - Suc i) (cstr (drop (Suc i) BB))"
    show ?thesis
      using lt a(1,2) b(1,2) same_loop_stop(2) [OF lt a(1,2)]
      by (simp add: a(3) b(3) same_end_def)
  next
    assume a: "i < length AA" "AA ! i \<noteq> NUL"
        "take (n - i) (cstr (drop i AA)) = AA ! i # take (n - Suc i) (cstr (drop (Suc i) AA))"
      and b: "i < length BB" "BB ! i = NUL" "take (n - i) (cstr (drop i BB)) = []"
    show ?thesis
      using lt a(1,2) b(1,2) same_loop_stop(3) [OF lt a(1) b(1,2)]
      by (simp add: a(3) b(3) same_end_def)
  next
    assume a: "i < length AA" "AA ! i \<noteq> NUL"
        "take (n - i) (cstr (drop i AA)) = AA ! i # take (n - Suc i) (cstr (drop (Suc i) AA))"
      and b: "i < length BB" "BB ! i \<noteq> NUL"
        "take (n - i) (cstr (drop i BB)) = BB ! i # take (n - Suc i) (cstr (drop (Suc i) BB))"
    have "same_loop AA BB n ?Aa (Suc i) \<bind> same_end AA BB (int n) =
        Some (case first_diff (fold_char nAa) (take (n - Suc i) (cstr (drop (Suc i) AA)))
                     (take (n - Suc i) (cstr (drop (Suc i) BB)))
              of None \<Rightarrow> 0 | Some d \<Rightarrow> int (Suc i + d) + 1)"
      using Suc.hyps(2) Suc.prems lt a(1,2) b(1,2)
      by (intro Suc.hyps(1) no_NUL_take_Suc) simp_all
    then show ?thesis
      using same_loop_unfold [OF lt a(1,2) b(1,2), of nAa]
      by (simp add: a(3) b(3) same_end_def split: option.splits)
  qed
qed

lemma strIsSame_eq:
  assumes "readable (nat num) AA" "readable (nat num) BB" "1 \<le> num"
  shows "strIsSame (Some AA) (Some BB) num nAa =
    Some (case first_diff (fold_char nAa) (name_of (nat num) AA) (name_of (nat num) BB)
          of None \<Rightarrow> 0 | Some d \<Rightarrow> int d + 1)"
  using same_loop_eq [OF assms(1,2), of 0 nAa] assms(3)
  by (simp add: strIsSame_def Let_def name_of_def split: option.split)

lemma strIsSame_zero:
  assumes "readable (nat num) AA" "readable (nat num) BB" "1 \<le> num"
  shows "strIsSame (Some AA) (Some BB) num nAa = Some 0 \<longleftrightarrow>
     map (fold_char nAa) (name_of (nat num) AA) = map (fold_char nAa) (name_of (nat num) BB)"
  unfolding strIsSame_eq [OF assms] first_diff_None [symmetric]
  by (simp split: option.splits)

section \<open>Properties\<close>

text \<open>
  C24: \<open>trimspace(dat, num)\<close> on a buffer that holds the string \<open>s\<close> removes the blanks, line feeds and
  carriage returns at the end of the first \<open>num\<close> characters and the blanks at their start, moves
  the rest to the front, fills up with NUL, and changes nothing behind.
\<close>

theorem trimspace_correct:
  assumes "b = s @ NUL # rest" "NUL \<notin> set s" "1 \<le> num" "length b < 2 ^ 31"
  shows "trimspace (Some b) num =
    Some (Some (trimmed (take (nat num) s) @
      replicate (length (take (nat num) s) - length (trimmed (take (nat num) s))) NUL @
      drop (length (take (nat num) s)) b))"
  using trimspace_eq [OF assms] .

theorem trimspace_correct_witness:
  "trimspace (Some (''  a b'' @ [SP, NL, NUL, NUL])) 1024 =
     Some (Some (''a b'' @ [NUL, NUL, NUL, NUL, NUL, NUL]))"
proof -
  have s: "trimmed (''  a b'' @ [SP, NL]) = ''a b''" "take 1024 (''  a b'' @ [SP, NL]) = ''  a b'' @ [SP, NL]"
    by (simp_all add: trimmed_def rtrim_def blank_def)
  then show ?thesis
    using trimspace_correct [of "''  a b'' @ [SP, NL, NUL, NUL]" "''  a b'' @ [SP, NL]" "[NUL]" 1024]
    by simp
qed

text \<open>
  C23: \<open>strIsSame(AA, BB, num, nAa)\<close> returns 0 exactly when the two strings, cut at \<open>num\<close> characters, are
  equal, up to the case of ASCII letters when \<open>nAa\<close> is not 0; otherwise it returns the position,
  counted from 1, of the first difference.
\<close>

theorem strIsSame_correct:
  assumes "readable (nat num) AA" "readable (nat num) BB" "1 \<le> num"
  shows "strIsSame (Some AA) (Some BB) num nAa =
    Some (case first_diff (fold_char nAa) (name_of (nat num) AA) (name_of (nat num) BB)
          of None \<Rightarrow> 0 | Some d \<Rightarrow> int d + 1)"
  using strIsSame_eq [OF assms] .

theorem strIsSame_correct_witness:
  "strIsSame (Some (''Mail'' @ [NUL])) (Some (''mAIL'' @ [NUL])) 32 1 = Some 0 \<and>
   strIsSame (Some (''Mail'' @ [NUL])) (Some (''main'' @ [NUL])) 32 1 = Some 4"
proof -
  have r: "readable (nat 32) (''Mail'' @ [NUL])" "readable (nat 32) (''mAIL'' @ [NUL])"
    "readable (nat 32) (''main'' @ [NUL])" by (simp_all add: readable_def)
  have "first_diff (fold_char 1) (name_of (nat 32) (''Mail'' @ [NUL])) (name_of (nat 32) (''mAIL'' @ [NUL])) = None"
    "first_diff (fold_char 1) (name_of (nat 32) (''Mail'' @ [NUL])) (name_of (nat 32) (''main'' @ [NUL])) = Some 3"
    by code_simp+
  then show ?thesis
    using strIsSame_correct [OF r(1,2), of 1] strIsSame_correct [OF r(1,3), of 1] by simp
qed

end
