(* ===== verification/World.thy ===== *)
theory World
  imports LinkedHeap CString
begin

text \<open>
  The data types of \<^verbatim>\<open>src/type.h\<close> and \<^verbatim>\<open>src/logLog.h\<close> and the state of the process.

  The structures of the headers are records with one field per member. The state \<open>world\<close>
  holds one typed heap per structure, the global variables of \<^verbatim>\<open>src/main.c\<close> under their own
  names, and what the process sees of the operating system: the files (a directory of paths
  and a table of inodes), the open streams, the library handles it holds, the number of open
  directory streams, and the trace of the calls it makes into loaded libraries.

  What is not in the repository is a parameter, the record \<open>env\<close>: which resource requests
  are refused (\<open>deny\<close>, indexed by the serial number of the request), the text the clock
  gives, the directory listing, the dynamic linker, the methods of the loaded task
  libraries (\<open>call\<close>), which may change the state in any way, and what \<open>fork\<close>, \<open>setsid\<close> and
  the opening of \<^verbatim>\<open>/dev/null\<close> return.
\<close>

section \<open>type.h\<close>

abbreviation (input) TCS_OTHER_ERR :: int where
  "TCS_OTHER_ERR \<equiv> - 10"

abbreviation (input) TCS_ARG_NULL :: int where
  "TCS_ARG_NULL \<equiv> - 1"

abbreviation (input) TCS_MALLOC_NULL :: int where
  "TCS_MALLOC_NULL \<equiv> - 2"

abbreviation (input) TCS_OK :: int where
  "TCS_OK \<equiv> 0"

abbreviation (input) TCS_DATA_NULL :: int where
  "TCS_DATA_NULL \<equiv> 1"

record mystring =
  ms_date :: cptr
  ms_len :: int

record onedate =
  od_key :: mystring
  od_value :: mystring
  od_next :: ptr

record filedate =
  fd_name :: buf
  fd_date :: ptr
  fd_next :: ptr

record libsodata =
  lb_fdlib :: ptr
  lb_name :: buf
  lb_wherename :: buf

record cycdata =
  cy_tidata :: onedate
  cy_para :: ptr
  cy_libdata :: libsodata
  cy_fdate :: ptr
  cy_init :: ptr
  cy_login :: ptr
  cy_seach :: ptr
  cy_howdo :: ptr
  cy_send :: ptr
  cy_deldate :: ptr
  cy_ld :: ptr
  cy_next :: ptr

text \<open>The connection data the RabbitMQ and MySQL libraries keep behind \<open>para\<close>.\<close>

record rabbitdata =
  rb_port :: int
  rb_host :: mystring
  rb_exchan :: mystring
  rb_queueNa :: mystring
  rb_name :: mystring
  rb_passwd :: mystring
  rb_handle :: ptr

record mysqldata =
  my_port :: int
  my_host :: mystring
  my_user :: mystring
  my_passwd :: mystring
  my_db :: mystring
  my_tablename :: mystring
  my_handle :: ptr
  my_resData :: ptr

text \<open>Objects after \<open>memset(p, 0, sizeof(*p))\<close>.\<close>

definition zero_mystring :: mystring where
  "zero_mystring = \<lparr>ms_date = None, ms_len = 0\<rparr>"

definition zero_onedate :: onedate where
  "zero_onedate = \<lparr>od_key = zero_mystring, od_value = zero_mystring, od_next = None\<rparr>"

definition zero_filedate :: filedate where
  "zero_filedate = \<lparr>fd_name = replicate 32 NUL, fd_date = None, fd_next = None\<rparr>"

definition zero_cycdata :: cycdata where
  "zero_cycdata =
     \<lparr>cy_tidata = zero_onedate, cy_para = None,
      cy_libdata = \<lparr>lb_fdlib = None, lb_name = replicate 32 NUL, lb_wherename = replicate 64 NUL\<rparr>,
      cy_fdate = None, cy_init = None, cy_login = None, cy_seach = None, cy_howdo = None,
      cy_send = None, cy_deldate = None, cy_ld = None, cy_next = None\<rparr>"

interpretation one_list: linked od_next "\<lambda>q n. n\<lparr>od_next := q\<rparr>"
  by unfold_locales simp

interpretation file_list: linked fd_next "\<lambda>q n. n\<lparr>fd_next := q\<rparr>"
  by unfold_locales simp

interpretation cyc_list: linked cy_next "\<lambda>q n. n\<lparr>cy_next := q\<rparr>"
  by unfold_locales simp

section \<open>logLog.h\<close>

abbreviation (input) LOGERR :: int where
  "LOGERR \<equiv> 1"

abbreviation (input) LOGINF :: int where
  "LOGINF \<equiv> 2"

abbreviation (input) LOGWAR :: int where
  "LOGWAR \<equiv> 3"

record logdata =
  lg_fg :: ptr
  lg_filename :: ptr
  lg_maxsize :: int

definition zero_logdata :: logdata where
  "zero_logdata = \<lparr>lg_fg = None, lg_filename = None, lg_maxsize = 0\<rparr>"

section \<open>The process and its environment\<close>

datatype event =
    Call nat nat int   \<comment> \<open>a library method was called on the \<open>cycdata\<close> at an address, with its result\<close>
  | Dlclose nat        \<comment> \<open>a library handle was closed\<close>

record world =
  brk :: nat
  clk :: nat
  cycs :: "cycdata heap"
  files :: "filedate heap"
  ones :: "onedate heap"
  logs :: "logdata heap"
  bufs :: "buf heap"
  dir :: "string \<Rightarrow> nat option"
  ino :: "nat \<Rightarrow> string option"
  strms :: "nat \<Rightarrow> nat option"
  dls :: "nat list"
  dirs :: nat
  tr :: "event list"
  cychead :: ptr
  cycheadnext :: ptr
  shead :: ptr
  mainld :: ptr
  filehead :: ptr

record env =
  deny :: "nat \<Rightarrow> bool"
  asc :: "nat \<Rightarrow> string"
  entries :: "string \<Rightarrow> string list option"
  dlopen :: "string \<Rightarrow> ptr"
  dlsym :: "nat \<Rightarrow> string \<Rightarrow> ptr"
  dlerror :: "string \<Rightarrow> string"
  call :: "nat \<Rightarrow> nat \<Rightarrow> world \<Rightarrow> (int \<times> world) option"
  fork_ret :: int
  setsid_ret :: int
  null_fd :: int

text \<open>No request for memory or for a stream is refused.\<close>

definition calm :: "env \<Rightarrow> bool" where
  "calm E \<longleftrightarrow> (\<forall>n. \<not> deny E n)"

text \<open>Addresses that were never handed out hold no object.\<close>

definition fresh :: "world \<Rightarrow> bool" where
  "fresh w \<longleftrightarrow> (\<forall>a. brk w \<le> a \<longrightarrow>
     cycs w a = None \<and> files w a = None \<and> ones w a = None \<and> logs w a = None \<and>
     bufs w a = None \<and> strms w a = None \<and> ino w a = None)"

section \<open>Memory\<close>

definition malloc :: "env \<Rightarrow> world \<Rightarrow> ptr \<times> world" where
  "malloc E w = (if deny E (brk w) then None else Some (brk w), w\<lparr>brk := Suc (brk w)\<rparr>)"

definition free_cyc :: "nat \<Rightarrow> world \<Rightarrow> world option" where
  "free_cyc a w = do { _ \<leftarrow> cycs w a; Some (w\<lparr>cycs := (cycs w)(a := None)\<rparr>) }"

definition free_file :: "nat \<Rightarrow> world \<Rightarrow> world option" where
  "free_file a w = do { _ \<leftarrow> files w a; Some (w\<lparr>files := (files w)(a := None)\<rparr>) }"

definition free_one :: "nat \<Rightarrow> world \<Rightarrow> world option" where
  "free_one a w = do { _ \<leftarrow> ones w a; Some (w\<lparr>ones := (ones w)(a := None)\<rparr>) }"

definition free_log :: "nat \<Rightarrow> world \<Rightarrow> world option" where
  "free_log a w = do { _ \<leftarrow> logs w a; Some (w\<lparr>logs := (logs w)(a := None)\<rparr>) }"

definition free_buf :: "nat \<Rightarrow> world \<Rightarrow> world option" where
  "free_buf a w = do { _ \<leftarrow> bufs w a; Some (w\<lparr>bufs := (bufs w)(a := None)\<rparr>) }"

lemmas free_defs = free_cyc_def free_file_def free_one_def free_log_def free_buf_def

definition upd_cyc :: "nat \<Rightarrow> (cycdata \<Rightarrow> cycdata) \<Rightarrow> world \<Rightarrow> world option" where
  "upd_cyc a f w = do { c \<leftarrow> cycs w a; Some (w\<lparr>cycs := (cycs w)(a \<mapsto> f c)\<rparr>) }"

definition upd_file :: "nat \<Rightarrow> (filedate \<Rightarrow> filedate) \<Rightarrow> world \<Rightarrow> world option" where
  "upd_file a f w = do { c \<leftarrow> files w a; Some (w\<lparr>files := (files w)(a \<mapsto> f c)\<rparr>) }"

definition upd_one :: "nat \<Rightarrow> (onedate \<Rightarrow> onedate) \<Rightarrow> world \<Rightarrow> world option" where
  "upd_one a f w = do { c \<leftarrow> ones w a; Some (w\<lparr>ones := (ones w)(a \<mapsto> f c)\<rparr>) }"

definition upd_log :: "nat \<Rightarrow> (logdata \<Rightarrow> logdata) \<Rightarrow> world \<Rightarrow> world option" where
  "upd_log a f w = do { c \<leftarrow> logs w a; Some (w\<lparr>logs := (logs w)(a \<mapsto> f c)\<rparr>) }"

lemmas upd_defs = upd_cyc_def upd_file_def upd_one_def upd_log_def

section \<open>Streams and files\<close>

text \<open>\<open>fopen(path, "a")\<close>, \<open>fopen(path, "r")\<close>, \<open>fclose\<close>, \<open>fwrite\<close> with \<open>fflush\<close>, \<open>rename\<close>, \<open>stat\<close>.\<close>

definition fopen_a :: "env \<Rightarrow> string \<Rightarrow> world \<Rightarrow> ptr \<times> world" where
  "fopen_a E p w =
     (let n = brk w; w1 = w\<lparr>brk := Suc n\<rparr>
      in if deny E n then (None, w1)
         else case dir w p of
           Some i \<Rightarrow> (Some n, w1\<lparr>strms := (strms w)(n \<mapsto> i)\<rparr>)
         | None \<Rightarrow> (Some n, w1\<lparr>dir := (dir w)(p \<mapsto> n), ino := (ino w)(n \<mapsto> []),
                             strms := (strms w)(n \<mapsto> n)\<rparr>))"

definition fopen_r :: "env \<Rightarrow> string \<Rightarrow> world \<Rightarrow> ptr \<times> world" where
  "fopen_r E p w =
     (let n = brk w; w1 = w\<lparr>brk := Suc n\<rparr>
      in if deny E n then (None, w1)
         else case dir w p of
           Some i \<Rightarrow> (Some n, w1\<lparr>strms := (strms w)(n \<mapsto> i)\<rparr>)
         | None \<Rightarrow> (None, w1))"

definition fclose :: "nat \<Rightarrow> world \<Rightarrow> world option" where
  "fclose h w = do { _ \<leftarrow> strms w h; Some (w\<lparr>strms := (strms w)(h := None)\<rparr>) }"

definition fwrite :: "nat \<Rightarrow> string \<Rightarrow> world \<Rightarrow> world option" where
  "fwrite h s w = do {
     i \<leftarrow> strms w h;
     c \<leftarrow> ino w i;
     Some (w\<lparr>ino := (ino w)(i \<mapsto> c @ s)\<rparr>)
   }"

definition rename :: "env \<Rightarrow> string \<Rightarrow> string \<Rightarrow> world \<Rightarrow> world" where
  "rename E old new w =
     (let w1 = w\<lparr>brk := Suc (brk w)\<rparr>
      in if deny E (brk w) then w1
         else case dir w old of
           None \<Rightarrow> w1
         | Some i \<Rightarrow> if old = new then w1 else w1\<lparr>dir := (dir w)(old := None, new \<mapsto> i)\<rparr>)"

definition stat_size :: "string \<Rightarrow> world \<Rightarrow> nat option" where
  "stat_size p w = do { i \<leftarrow> dir w p; c \<leftarrow> ino w i; Some (length c) }"

text \<open>The text of the file a path names.\<close>

definition file_text :: "world \<Rightarrow> string \<Rightarrow> string option" where
  "file_text w fn = do { i \<leftarrow> dir w fn; ino w i }"

section \<open>Library methods and handles\<close>

text \<open>
  A call through one of the function pointers of a \<open>cycdata\<close>, recorded in the trace; and
  \<open>dlclose\<close>, defined on the handles the process holds.
\<close>

definition invoke :: "env \<Rightarrow> nat \<Rightarrow> nat \<Rightarrow> world \<Rightarrow> (int \<times> world) option" where
  "invoke E f a w = do {
     (ret, w) \<leftarrow> call E f a w;
     Some (ret, w\<lparr>tr := tr w @ [Call f a ret]\<rparr>)
   }"

definition dlclose :: "nat \<Rightarrow> world \<Rightarrow> world option" where
  "dlclose h w =
     (if h \<in> set (dls w) then Some (w\<lparr>dls := remove1 h (dls w), tr := tr w @ [Dlclose h]\<rparr>) else None)"

section \<open>Formatted output\<close>

fun dec_nat :: "nat \<Rightarrow> string" where
  "dec_nat n = (if n < 10 then [char_of (48 + n)] else dec_nat (n div 10) @ [char_of (48 + n mod 10)])"

declare dec_nat.simps [simp del]

text \<open>The conversion \<open>%d\<close>.\<close>

definition dec :: "int \<Rightarrow> string" where
  "dec x = (if x < 0 then ''-'' @ dec_nat (nat (- x)) else dec_nat (nat x))"

text \<open>The conversion \<open>%s\<close> on an array: undefined unless the array holds a NUL.\<close>

definition str_of :: "buf \<Rightarrow> string option" where
  "str_of b = (if NUL \<in> set b then Some (cstr b) else None)"

text \<open>\<open>sprintf\<close> and \<open>strcat\<close> into an array of \<open>cap\<close> characters, on the strings the arrays hold.\<close>

definition sprintf :: "nat \<Rightarrow> string \<Rightarrow> string option" where
  "sprintf cap s = (if length s < cap then Some s else None)"

definition strcat :: "nat \<Rightarrow> string \<Rightarrow> string \<Rightarrow> string option" where
  "strcat cap d s = (if length d + length s < cap then Some (d @ s) else None)"

lemma dec_nat_length: "n < 10 ^ k \<Longrightarrow> 0 < k \<Longrightarrow> length (dec_nat n) \<le> k"
proof (induction n arbitrary: k rule: dec_nat.induct)
  case (1 n)
  show ?case
  proof (cases "n < 10")
    case True
    then show ?thesis using "1.prems" by (subst dec_nat.simps) simp
  next
    case False
    then obtain k' where k: "k = Suc k'" "0 < k'"
      using "1.prems" by (cases k; cases "k - 1") auto
    have "length (dec_nat (n div 10)) \<le> k'"
      using "1.prems" k False by (intro "1.IH") auto
    then show ?thesis using False k by (subst dec_nat.simps) simp
  qed
qed

lemma dec_length:
  assumes "INT_MIN \<le> x" "x \<le> INT_MAX"
  shows "length (dec x) \<le> 11"
proof -
  have "nat \<bar>x\<bar> < 10 ^ 10" using assms by (simp add: INT_MIN_def INT_MAX_def)
  then have "length (dec_nat (nat \<bar>x\<bar>)) \<le> 10" by (rule dec_nat_length) simp
  then show ?thesis by (auto simp: dec_def)
qed

section \<open>A concrete environment and a concrete state\<close>

text \<open>
  For the examples that show the theorems at work: an environment that refuses nothing, whose
  clock stands still, that has no libraries and whose methods do nothing; and the state of a
  process at its start.
\<close>

definition still :: env where
  "still = \<lparr>deny = (\<lambda>_. False), asc = (\<lambda>_. ''Thu Jan  1 00:00:00 1970'' @ [NL]),
     entries = (\<lambda>_. None), dlopen = (\<lambda>_. None), dlsym = (\<lambda>_ _. None), dlerror = (\<lambda>_. []),
     call = (\<lambda>f a w. Some (0, w)), fork_ret = 0, setsid_ret = 1, null_fd = 3\<rparr>"

definition boot :: world where
  "boot = \<lparr>brk = 0, clk = 0, cycs = Map.empty, files = Map.empty, ones = Map.empty, logs = Map.empty,
     bufs = Map.empty, dir = Map.empty, ino = Map.empty, strms = Map.empty, dls = [], dirs = 0, tr = [],
     cychead = None, cycheadnext = None, shead = None, mainld = None, filehead = None\<rparr>"

lemma still_calm [simp]: "calm still"
  by (simp add: calm_def still_def)

end
