(* ===== verification/LogLog.thy ===== *)
theory LogLog
  imports World
begin

text \<open>
  The log library \<^verbatim>\<open>src/logLog.c\<close>: opening and closing a log (\<open>logInit\<close>, \<open>logDel\<close>), writing one
  line with rotation of the file (\<open>logInf\<close>, the macro \<open>logLog\<close>), and its two helpers
  \<open>isneedcp\<close> and \<open>charChange\<close>.

  The arrays \<open>buff\<close> and \<open>temchar\<close> of \<open>logInf\<close> are modelled by the strings they hold, with the
  capacity checked at every write; the argument \<open>msg\<close> is the expansion of the format and its
  arguments, the text \<open>vsprintf\<close> produces.
\<close>

section \<open>charChange and isneedcp\<close>

function change_from :: "buf \<Rightarrow> char \<Rightarrow> char \<Rightarrow> nat \<Rightarrow> buf option" where
  "change_from dat oldC newC tem = do {
     c \<leftarrow> rd dat tem;
     if c = NUL then Some dat
     else if c = oldC
     then do { dat' \<leftarrow> wr dat tem newC; change_from dat' oldC newC (Suc tem) }
     else change_from dat oldC newC (Suc tem)
   }"
  by pat_completeness auto
termination
  by (relation "measure (\<lambda>(dat, old, new, i). length dat - i)") (auto simp: rd_eq_Some wr_eq_Some)

declare change_from.simps [simp del]

definition charChange :: "buf option \<Rightarrow> char \<Rightarrow> char \<Rightarrow> buf option option" where
  "charChange datp oldC newC =
     (case datp of
        None \<Rightarrow> Some None
      | Some dat \<Rightarrow> do { dat' \<leftarrow> change_from dat oldC newC 0; Some (Some dat') })"

definition isneedcp :: "string option \<Rightarrow> int \<Rightarrow> world \<Rightarrow> int" where
  "isneedcp path sz w =
     (case path of
        None \<Rightarrow> - 1
      | Some p \<Rightarrow>
          if sz < 1024 then - 1
          else case stat_size p w of
            None \<Rightarrow> - 1
          | Some st_size \<Rightarrow>
              let filesize = to_cint st_size
              in if filesize \<ge> sz - 1024 then 1 else 0)"

section \<open>logInit and logDel\<close>

definition logDel :: "ptr \<Rightarrow> world \<Rightarrow> (int \<times> world) option" where
  "logDel ldp w =
     (case ldp of
        None \<Rightarrow> Some (- 1, w)
      | Some a \<Rightarrow> do {
          d \<leftarrow> logs w a;
          w \<leftarrow> (case lg_fg d of
                 None \<Rightarrow> Some w
               | Some h \<Rightarrow> do { w \<leftarrow> fclose h w; upd_log a (\<lambda>d. d\<lparr>lg_fg := None\<rparr>) w });
          w \<leftarrow> (case lg_filename d of
                 None \<Rightarrow> Some w
               | Some b \<Rightarrow> do { w \<leftarrow> free_buf b w; upd_log a (\<lambda>d. d\<lparr>lg_filename := None\<rparr>) w });
          w \<leftarrow> free_log a w;
          Some (0, w)
        })"

definition logInit :: "env \<Rightarrow> string option \<Rightarrow> int \<Rightarrow> world \<Rightarrow> (ptr \<times> world) option" where
  "logInit E path sz w =
     (case path of
        None \<Rightarrow> Some (None, w)
      | Some p \<Rightarrow>
          (case fopen_a E p w of
             (None, w) \<Rightarrow> Some (None, w)
           | (Some logfg, w) \<Rightarrow>
               (case malloc E w of
                  (None, w) \<Rightarrow> do { w \<leftarrow> fclose logfg w; Some (None, w) }
                | (Some ld, w) \<Rightarrow>
                    let w = w\<lparr>logs := (logs w)(ld \<mapsto> zero_logdata)\<rparr>
                    in case malloc E w of
                      (None, w) \<Rightarrow> do {
                        w \<leftarrow> upd_log ld (\<lambda>d. d\<lparr>lg_filename := None\<rparr>) w;
                        w \<leftarrow> fclose logfg w;
                        w \<leftarrow> free_log ld w;
                        Some (None, w)
                      }
                    | (Some b, w) \<Rightarrow> do {
                        let w = w\<lparr>bufs := (bufs w)(b \<mapsto> replicate (length p + 1) NUL)\<rparr>;
                        blk \<leftarrow> bufs w b;
                        blk \<leftarrow> blit blk 0 p;
                        let w = w\<lparr>bufs := (bufs w)(b \<mapsto> blk)\<rparr>;
                        let sz = (if sz > 1024 then 1024 else sz);
                        mx \<leftarrow> cint (sz * 1024);
                        w \<leftarrow> upd_log ld (\<lambda>d. d\<lparr>lg_fg := Some logfg, lg_filename := Some b,
                                             lg_maxsize := mx\<rparr>) w;
                        Some (Some ld, w)
                      })))"

section \<open>logInf\<close>

definition log_tag :: "int \<Rightarrow> string" where
  "log_tag type =
     (if type = LOGERR then '' [ERROR]''
      else if type = LOGINF then '' [INF]  ''
      else if type = LOGWAR then '' [WARN] ''
      else [])"

text \<open>The line assembled in \<open>buff\<close>.\<close>

definition log_line :: "string \<Rightarrow> string \<Rightarrow> int \<Rightarrow> int \<Rightarrow> string \<Rightarrow> string option" where
  "log_line tim file line type msg = do {
     buff \<leftarrow> strcat 1024 ''['' tim;
     buff \<leftarrow> wr buff (length tim) (CHR '']'');
     buff \<leftarrow> strcat 1024 buff (log_tag type);
     temchar \<leftarrow> sprintf 1024 ('' ['' @ file @ '':'' @ dec line @ ''] '');
     buff \<leftarrow> strcat 1024 buff temchar;
     temchar \<leftarrow> sprintf 1024 msg;
     buff \<leftarrow> strcat 1024 buff temchar;
     strcat 1024 buff [NL]
   }"

text \<open>The name a full log file is moved to.\<close>

definition rotated_name :: "string \<Rightarrow> string \<Rightarrow> string option" where
  "rotated_name filename tim = do {
     temchar \<leftarrow> sprintf 1024 (filename @ ''_'' @ tim @ ''.log'');
     temchar \<leftarrow> wr temchar (length temchar - 5) (CHR ''_'');
     r \<leftarrow> charChange (Some (temchar @ [NUL])) SP (CHR ''_'');
     map_option cstr r
   }"

definition logInf :: "env \<Rightarrow> ptr \<Rightarrow> string \<Rightarrow> int \<Rightarrow> int \<Rightarrow> string \<Rightarrow> world \<Rightarrow> (int \<times> world) option" where
  "logInf E ldp file line type msg w =
     (case ldp of
        None \<Rightarrow> Some (- 1, w)
      | Some a \<Rightarrow> do {
          d \<leftarrow> logs w a;
          case lg_fg d of
            None \<Rightarrow> Some (- 1, w)
          | Some fg \<Rightarrow> do {
              let tim = asc E (clk w);
              let w = w\<lparr>clk := Suc (clk w)\<rparr>;
              buff \<leftarrow> log_line tim file line type msg;
              fname \<leftarrow> (case lg_filename d of
                          None \<Rightarrow> Some None
                        | Some b \<Rightarrow> do { blk \<leftarrow> bufs w b; s \<leftarrow> str_of blk; Some (Some s) });
              case fname of
                Some fn \<Rightarrow>
                  if isneedcp fname (lg_maxsize d) w = 1
                  then do {
                    temchar \<leftarrow> rotated_name fn tim;
                    w \<leftarrow> fclose fg w;
                    w \<leftarrow> upd_log a (\<lambda>d. d\<lparr>lg_fg := None\<rparr>) w;
                    let w = rename E fn temchar w;
                    case fopen_a E fn w of
                      (None, w) \<Rightarrow> do { (_, w) \<leftarrow> logDel ldp w; Some (- 2, w) }
                    | (Some fg, w) \<Rightarrow> do {
                        w \<leftarrow> upd_log a (\<lambda>d. d\<lparr>lg_fg := Some fg\<rparr>) w;
                        w \<leftarrow> fwrite fg buff w;
                        Some (0, w)
                      }
                  }
                  else do { w \<leftarrow> fwrite fg buff w; Some (0, w) }
              | None \<Rightarrow> do { w \<leftarrow> fwrite fg buff w; Some (0, w) }
            }
        })"

text \<open>The macro \<open>logLog(mainld, type, ...)\<close> as \<^verbatim>\<open>src/main.c\<close> uses it, with the line of the call.\<close>

definition logLog :: "env \<Rightarrow> int \<Rightarrow> int \<Rightarrow> string \<Rightarrow> world \<Rightarrow> world option" where
  "logLog E line type msg w = do {
     (_, w) \<leftarrow> logInf E (mainld w) ''main.c'' line type msg w;
     Some w
   }"

section \<open>charChange replaces every occurrence\<close>

lemma change_from_eq:
  "newC \<noteq> NUL \<Longrightarrow> NUL \<notin> set s \<Longrightarrow>
     change_from (pre @ s @ NUL # post) oldC newC (length pre) =
       Some (pre @ map (\<lambda>c. if c = oldC then newC else c) s @ NUL # post)"
proof (induction s arbitrary: pre)
  case Nil
  then show ?case by (subst change_from.simps) simp
next
  case (Cons c s)
  have "change_from ((pre @ [x]) @ s @ NUL # post) oldC newC (length (pre @ [x])) =
      Some ((pre @ [x]) @ map (\<lambda>c. if c = oldC then newC else c) s @ NUL # post)" for x
    using Cons.prems by (intro Cons.IH) simp_all
  then have *: "change_from (pre @ x # s @ NUL # post) oldC newC (Suc (length pre)) =
      Some (pre @ x # map (\<lambda>c. if c = oldC then newC else c) s @ NUL # post)" for x
    by simp
  show ?case
    using Cons.prems * by (subst change_from.simps) auto
qed

lemma charChange_eq:
  "newC \<noteq> NUL \<Longrightarrow> NUL \<notin> set s \<Longrightarrow>
     charChange (Some (s @ NUL # post)) oldC newC =
       Some (Some (map (\<lambda>c. if c = oldC then newC else c) s @ NUL # post))"
  using change_from_eq [of newC s "[]"] by (simp add: charChange_def)

section \<open>The texts logInf produces\<close>

text \<open>
  What \<open>asctime\<close> returns, by the C standard: 25 characters of which the last is a newline.
\<close>

definition asc_ok :: "env \<Rightarrow> bool" where
  "asc_ok E \<longleftrightarrow> (\<forall>n. length (asc E n) = 25 \<and> last (asc E n) = NL \<and> NUL \<notin> set (asc E n))"

definition line_text :: "string \<Rightarrow> string \<Rightarrow> int \<Rightarrow> int \<Rightarrow> string \<Rightarrow> string" where
  "line_text tim file line type msg =
     ''['' @ butlast tim @ '']'' @ log_tag type @ '' ['' @ file @ '':'' @ dec line @ ''] '' @ msg @ [NL]"

definition moved_name :: "string \<Rightarrow> string \<Rightarrow> string" where
  "moved_name fn tim =
     map (\<lambda>c. if c = SP then CHR ''_'' else c) (fn @ ''_'' @ butlast tim @ ''_.log'')"

lemma log_line_eq:
  assumes "tim \<noteq> []"
  shows "log_line tim file line type msg =
    (if length (line_text tim file line type msg) < 1024
     then Some (line_text tim file line type msg) else None)"
proof -
  obtain t c where t: "tim = t @ [c]" using assms by (metis append_butlast_last_id)
  then have w: "wr (''['' @ tim) (length tim) (CHR '']'') = Some (''['' @ t @ '']'')"
    by (simp add: wr_def)
  show ?thesis
    using w t by (simp add: log_line_def strcat_def sprintf_def line_text_def del: append.simps)
qed

lemma rotated_name_eq:
  assumes "tim \<noteq> []" "last tim = NL" "NUL \<notin> set tim" "NUL \<notin> set fn"
    and "length fn + length tim + 5 < 1024"
  shows "rotated_name fn tim = Some (moved_name fn tim)"
proof -
  obtain t where t: "tim = t @ [NL]" using assms(1,2) by (metis append_butlast_last_id)
  let ?m = "map (\<lambda>c. if c = SP then CHR ''_'' else c)"
  define n where "n = fn @ ''_'' @ t @ ''_.log''"
  have w: "wr (fn @ ''_'' @ tim @ ''.log'') (length (fn @ ''_'' @ tim @ ''.log'') - 5) (CHR ''_'') = Some n"
    using t by (simp add: wr_def list_update_append n_def)
  have n: "NUL \<notin> set n" using assms(3,4) t by (auto simp: n_def)
  then have "NUL \<notin> set (?m n)" by auto
  then have c: "charChange (Some (n @ [NUL])) SP (CHR ''_'') = Some (Some (?m n @ [NUL]))"
      "cstr (?m n @ [NUL]) = ?m n"
    using n by (simp_all add: charChange_eq cstr_app)
  have "sprintf 1024 (fn @ ''_'' @ tim @ ''.log'') = Some (fn @ ''_'' @ tim @ ''.log'')"
    using assms(5) by (simp add: sprintf_def)
  then have "rotated_name fn tim = Some (?m n)"
    unfolding rotated_name_def using w c by (simp del: append.simps)
  then show ?thesis using t by (simp add: moved_name_def n_def)
qed

lemma moved_name_longer: "tim \<noteq> [] \<Longrightarrow> moved_name fn tim \<noteq> fn"
proof
  assume "tim \<noteq> []" "moved_name fn tim = fn"
  then have "length (moved_name fn tim) = length fn" by simp
  then show False by (simp add: moved_name_def)
qed

section \<open>An open log\<close>

text \<open>
  \<open>log_at w a fn mx\<close>: the object at \<open>a\<close> is a log on the file \<open>fn\<close> with the size limit \<open>mx\<close>,
  its stream is open and writes to that file.
\<close>

definition log_at :: "world \<Rightarrow> nat \<Rightarrow> string \<Rightarrow> int \<Rightarrow> bool" where
  "log_at w a fn mx \<longleftrightarrow> (\<exists>fg b i s.
     logs w a = Some \<lparr>lg_fg = Some fg, lg_filename = Some b, lg_maxsize = mx\<rparr> \<and>
     bufs w b = Some (fn @ [NUL]) \<and> NUL \<notin> set fn \<and>
     strms w fg = Some i \<and> dir w fn = Some i \<and> ino w i = Some s)"

text \<open>
  What a log call leaves alone: everything but the stream of the log object, the files and the
  streams.
\<close>

definition kept :: "world \<Rightarrow> world \<Rightarrow> bool" where
  "kept w w' \<longleftrightarrow>
     cycs w' = cycs w \<and> files w' = files w \<and> ones w' = ones w \<and> bufs w' = bufs w \<and>
     (\<forall>a. map_option lg_filename (logs w' a) = map_option lg_filename (logs w a)) \<and>
     dls w' = dls w \<and> dirs w' = dirs w \<and> tr w' = tr w \<and> cychead w' = cychead w \<and>
     cycheadnext w' = cycheadnext w \<and> shead w' = shead w \<and> mainld w' = mainld w \<and>
     filehead w' = filehead w \<and> brk w \<le> brk w'"

lemma kept_refl [simp]: "kept w w"
  by (simp add: kept_def)

lemma kept_trans: "kept u v \<Longrightarrow> kept v w \<Longrightarrow> kept u w"
  by (auto simp: kept_def)

lemmas keptD = kept_def [THEN iffD1]

text \<open>Every path names an existing file.\<close>

definition dir_total :: "world \<Rightarrow> bool" where
  "dir_total w \<longleftrightarrow> (\<forall>p i. dir w p = Some i \<longrightarrow> ino w i \<noteq> None)"

definition rotates :: "world \<Rightarrow> string \<Rightarrow> int \<Rightarrow> bool" where
  "rotates w fn mx \<longleftrightarrow> isneedcp (Some fn) mx w = 1"

lemma str_of_app [cstr_simps]: "NUL \<notin> set s \<Longrightarrow> str_of (s @ NUL # r) = Some s"
  by (simp add: str_of_def cstr_app)

lemma isneedcp_clk [simp]: "isneedcp p m (w\<lparr>clk := n\<rparr>) = isneedcp p m w"
  by (simp add: isneedcp_def stat_size_def split: option.splits)

lemma logInf_append:
  assumes l: "log_at w a fn mx" and nr: "\<not> rotates w fn mx" and t: "asc E (clk w) \<noteq> []"
    and len: "length (line_text (asc E (clk w)) file line type msg) < 1024"
    and ct: "file_text w fn = Some s"
  obtains w' where "logInf E (Some a) file line type msg w = Some (0, w')"
    "log_at w' a fn mx" "kept w w'" "fresh w \<Longrightarrow> fresh w'"
    "file_text w' fn = Some (s @ line_text (asc E (clk w)) file line type msg)"
    "\<And>j x. ino w' j = Some x \<Longrightarrow> ino w j = Some x \<or> x = s @ line_text (asc E (clk w)) file line type msg"
    "\<And>b. map_option lg_maxsize (logs w' b) = map_option lg_maxsize (logs w b)"
    "dir_total w \<Longrightarrow> dir_total w'"
proof -
  obtain fg b i s' where
    lg: "logs w a = Some \<lparr>lg_fg = Some fg, lg_filename = Some b, lg_maxsize = mx\<rparr>"
    and f: "bufs w b = Some (fn @ [NUL])" "NUL \<notin> set fn"
    and st: "strms w fg = Some i" "dir w fn = Some i" "ino w i = Some s'"
    using l by (auto simp: log_at_def)
  have s: "s' = s" using ct st by (simp add: file_text_def)
  let ?t = "line_text (asc E (clk w)) file line type msg"
  let ?w = "w\<lparr>clk := Suc (clk w), ino := (ino w)(i \<mapsto> s @ ?t)\<rparr>"
  have "logInf E (Some a) file line type msg w = Some (0, ?w)"
    using lg f st s t len nr
    by (simp add: logInf_def Let_def log_line_eq cstr_simps rotates_def fwrite_def)
  moreover have "log_at ?w a fn mx" using lg f st by (auto simp: log_at_def)
  moreover have "kept w ?w" by (simp add: kept_def)
  moreover have "fresh w \<Longrightarrow> fresh ?w"
    using st by (auto simp: fresh_def)
  moreover have "file_text ?w fn = Some (s @ ?t)" using st by (simp add: file_text_def)
  moreover have "ino ?w j = Some x \<Longrightarrow> ino w j = Some x \<or> x = s @ ?t" for j x by (auto split: if_splits)
  moreover have "dir_total w \<Longrightarrow> dir_total ?w" by (simp add: dir_total_def)
  ultimately show thesis using that [of ?w] by simp
qed

lemma logInf_rotate:
  assumes l: "log_at w a fn mx" and r: "rotates w fn mx" and t: "asc_ok E" and E: "calm E"
    and fl: "length fn \<le> 900"
    and len: "length (line_text (asc E (clk w)) file line type msg) < 1024"
    and ct: "file_text w fn = Some s" and fr: "fresh w"
  obtains w' where "logInf E (Some a) file line type msg w = Some (0, w')"
    "log_at w' a fn mx" "kept w w'" "fresh w'"
    "file_text w' fn = Some (line_text (asc E (clk w)) file line type msg)"
    "file_text w' (moved_name fn (asc E (clk w))) = Some s"
    "\<And>j x. ino w' j = Some x \<Longrightarrow> ino w j = Some x \<or> x = line_text (asc E (clk w)) file line type msg"
    "\<And>b. map_option lg_maxsize (logs w' b) = map_option lg_maxsize (logs w b)"
    "dir_total w \<Longrightarrow> dir_total w'"
proof -
  let ?tim = "asc E (clk w)"
  let ?t = "line_text ?tim file line type msg" and ?m = "moved_name fn ?tim" and ?n = "Suc (brk w)"
  have tim: "length ?tim = 25" "?tim \<noteq> []" "last ?tim = NL" "NUL \<notin> set ?tim"
    using t by (auto simp: asc_ok_def dest: spec [of _ "clk w"])
  obtain fg b i s' where
    lg: "logs w a = Some \<lparr>lg_fg = Some fg, lg_filename = Some b, lg_maxsize = mx\<rparr>"
    and f: "bufs w b = Some (fn @ [NUL])" "NUL \<notin> set fn"
    and st: "strms w fg = Some i" "dir w fn = Some i" "ino w i = Some s'"
    using l by (auto simp: log_at_def)
  have s: "s' = s" using ct st by (simp add: file_text_def)
  have rn: "rotated_name fn ?tim = Some ?m"
    using tim f fl by (intro rotated_name_eq) simp_all
  have mn: "?m \<noteq> fn" using tim by (intro moved_name_longer)
  have ine: "i \<noteq> ?n" using fr st by (auto simp: fresh_def)
  let ?w = "w\<lparr>clk := Suc (clk w), brk := Suc ?n,
      logs := (logs w)(a \<mapsto> \<lparr>lg_fg = Some ?n, lg_filename = Some b, lg_maxsize = mx\<rparr>),
      dir := (dir w)(?m \<mapsto> i, fn \<mapsto> ?n), ino := (ino w)(?n \<mapsto> ?t),
      strms := (strms w)(fg := None, ?n \<mapsto> ?n)\<rparr>"
  have "logInf E (Some a) file line type msg w = Some (0, ?w)"
    using lg f st s tim len r rn mn E ine
    by (simp add: logInf_def Let_def log_line_eq cstr_simps rotates_def fwrite_def fclose_def
        upd_log_def rename_def fopen_a_def calm_def fun_upd_twist)
  moreover have "log_at ?w a fn mx" using f by (auto simp: log_at_def)
  moreover have "kept w ?w" using lg by (auto simp: kept_def)
  moreover have "fresh ?w" using fr lg by (auto simp: fresh_def)
  moreover have "file_text ?w fn = Some ?t" by (simp add: file_text_def)
  moreover have "file_text ?w ?m = Some s" using mn st ine s by (simp add: file_text_def)
  moreover have "ino ?w j = Some x \<Longrightarrow> ino w j = Some x \<or> x = ?t" for j x by (auto split: if_splits)
  moreover have "map_option lg_maxsize (logs ?w c) = map_option lg_maxsize (logs w c)" for c using lg by simp
  moreover have "dir_total w \<Longrightarrow> dir_total ?w" using st by (simp add: dir_total_def)
  ultimately show thesis by (rule that)
qed

text \<open>The two cases together: the call succeeds, the log stays open, nothing else changes.\<close>

lemma logInf_ok:
  assumes "log_at w a fn mx" "asc_ok E" "calm E" "length fn \<le> 900" "fresh w"
    and "length (line_text (asc E (clk w)) file line type msg) < 1024"
  shows "\<exists>w'. logInf E (Some a) file line type msg w = Some (0, w') \<and>
     log_at w' a fn mx \<and> kept w w' \<and> fresh w'"
proof -
  obtain s where s: "file_text w fn = Some s"
    using assms(1) by (auto simp: log_at_def file_text_def)
  have ne: "asc E (clk w) \<noteq> []" using assms(2) by (auto simp: asc_ok_def dest: spec [of _ "clk w"])
  show ?thesis
  proof (cases "rotates w fn mx")
    case True
    then show ?thesis
      using logInf_rotate [OF assms(1) True assms(2,3,4,6) s assms(5)] by metis
  next
    case False
    then show ?thesis
      using logInf_append [OF assms(1) False ne assms(6) s] assms(5) by metis
  qed
qed

text \<open>
  The files that are not the log: a path that is neither the log nor the name of a moved log, and that names another
  file. They keep their text.
\<close>

definition not_log :: "env \<Rightarrow> string \<Rightarrow> string \<Rightarrow> world \<Rightarrow> bool" where
  "not_log E fn p w \<longleftrightarrow> p \<noteq> fn \<and> (\<forall>n. p \<noteq> moved_name fn (asc E n)) \<and> dir w p \<noteq> dir w fn"

lemma logInf_other:
  assumes l: "log_at w a fn mx" and t: "asc_ok E" and E: "calm E" and fl: "length fn \<le> 900" and fr: "fresh w"
    and len: "length (line_text (asc E (clk w)) file line type msg) < 1024"
    and eq: "logInf E (Some a) file line type msg w = Some (r, w')"
    and p: "not_log E fn p w" "file_text w p = Some s"
  shows "file_text w' p = Some s \<and> not_log E fn p w'"
proof -
  let ?tim = "asc E (clk w)"
  let ?m = "moved_name fn ?tim" and ?t = "line_text ?tim file line type msg"
  have tim: "length ?tim = 25" "?tim \<noteq> []" "last ?tim = NL" "NUL \<notin> set ?tim"
    using t by (auto simp: asc_ok_def dest: spec [of _ "clk w"])
  obtain fg b i s' where
    lg: "logs w a = Some \<lparr>lg_fg = Some fg, lg_filename = Some b, lg_maxsize = mx\<rparr>"
    and f: "bufs w b = Some (fn @ [NUL])" "NUL \<notin> set fn"
    and st: "strms w fg = Some i" "dir w fn = Some i" "ino w i = Some s'"
    using l by (auto simp: log_at_def)
  obtain j where j: "dir w p = Some j" "ino w j = Some s" "j \<noteq> i"
    using p st(2) by (auto simp: file_text_def not_log_def bind_eq_Some_conv)
  have rn: "rotated_name fn ?tim = Some ?m" using tim f fl by (intro rotated_name_eq) simp_all
  have nm: "?m \<noteq> fn" "p \<noteq> fn" "p \<noteq> ?m" using tim p(1) by (auto simp: not_log_def moved_name_longer)
  have ne: "j \<noteq> Suc (brk w)" "i \<noteq> Suc (brk w)" using fr j(2) st(3) by (auto simp: fresh_def)
  show ?thesis
  proof (cases "rotates w fn mx")
    case True
    then have "dir w' = (dir w)(?m \<mapsto> i, fn \<mapsto> Suc (brk w))" "ino w' = (ino w)(Suc (brk w) \<mapsto> ?t)"
      using eq lg f st tim len rn nm E ne
      by (auto simp: logInf_def Let_def log_line_eq cstr_simps rotates_def fwrite_def fclose_def
          upd_log_def rename_def fopen_a_def calm_def fun_upd_twist)
    then show ?thesis using j nm ne p(1) by (simp add: file_text_def not_log_def)
  next
    case False
    then have "dir w' = dir w" "ino w' = (ino w)(i \<mapsto> s' @ ?t)"
      using eq lg f st tim len by (auto simp: logInf_def Let_def log_line_eq cstr_simps rotates_def fwrite_def)
    then show ?thesis using j p(1) by (simp add: file_text_def not_log_def)
  qed
qed

text \<open>The size limit: whatever a call writes, it writes into a file that stays below the limit.\<close>

lemma rotates_iff:
  assumes "file_text w fn = Some s" "1024 \<le> mx" "int (length s) \<le> INT_MAX"
  shows "rotates w fn mx \<longleftrightarrow> mx - 1024 \<le> int (length s)"
proof -
  have "stat_size fn w = Some (length s)"
    using assms(1) by (auto simp: stat_size_def file_text_def bind_eq_Some_conv)
  moreover have "to_cint (length s) = int (length s)"
    using assms(3) by (intro to_cint_small) (simp add: INT_MAX_def)
  ultimately show ?thesis using assms(2) by (simp add: rotates_def isneedcp_def)
qed

lemma logInf_bound:
  assumes l: "log_at w a fn mx" and E: "asc_ok E" "calm E" and fl: "length fn \<le> 900" and fr: "fresh w"
    and len: "length (line_text (asc E (clk w)) file line type msg) < 1024"
    and s: "file_text w fn = Some s" "int (length s) \<le> INT_MAX" and mx: "1024 \<le> mx"
  shows "\<exists>w' s'. logInf E (Some a) file line type msg w = Some (0, w') \<and> log_at w' a fn mx \<and>
    file_text w' fn = Some s' \<and> int (length s') < mx \<and>
    (\<forall>j x. ino w' j = Some x \<longrightarrow> ino w j = Some x \<or> int (length x) < mx) \<and>
    (\<forall>b. map_option lg_maxsize (logs w' b) = map_option lg_maxsize (logs w b)) \<and>
    (dir_total w \<longrightarrow> dir_total w')"
proof (cases "rotates w fn mx")
  case True
  obtain w' where "logInf E (Some a) file line type msg w = Some (0, w')" "log_at w' a fn mx"
      "file_text w' fn = Some (line_text (asc E (clk w)) file line type msg)"
      "\<And>j x. ino w' j = Some x \<Longrightarrow> ino w j = Some x \<or> x = line_text (asc E (clk w)) file line type msg"
      "\<And>b. map_option lg_maxsize (logs w' b) = map_option lg_maxsize (logs w b)" "dir_total w \<Longrightarrow> dir_total w'"
    using logInf_rotate [OF l True E fl len s(1) fr] by metis
  then show ?thesis using len mx by fastforce
next
  case False
  have ne: "asc E (clk w) \<noteq> []" using E(1) by (auto simp: asc_ok_def dest: spec [of _ "clk w"])
  obtain w' where "logInf E (Some a) file line type msg w = Some (0, w')" "log_at w' a fn mx"
      "file_text w' fn = Some (s @ line_text (asc E (clk w)) file line type msg)"
      "\<And>j x. ino w' j = Some x \<Longrightarrow> ino w j = Some x \<or> x = s @ line_text (asc E (clk w)) file line type msg"
      "\<And>b. map_option lg_maxsize (logs w' b) = map_option lg_maxsize (logs w b)" "dir_total w \<Longrightarrow> dir_total w'"
    using logInf_append [OF l False ne len s(1)] by metis
  moreover have "int (length (s @ line_text (asc E (clk w)) file line type msg)) < mx"
    using False rotates_iff [OF s(1) mx s(2)] len by simp
  ultimately show ?thesis by fastforce
qed

section \<open>The log as a service\<close>

text \<open>
  What the rest of the program relies on: as long as the log is in order (\<open>ok\<close>), writing a
  message that \<open>fits\<close> returns, keeps the log in order and keeps everything else.
\<close>

locale logger =
  fixes put :: "'m \<Rightarrow> world \<Rightarrow> world option"
    and ok :: "world \<Rightarrow> bool"
    and fits :: "'m \<Rightarrow> bool"
  assumes put_ok: "ok w \<Longrightarrow> fits m \<Longrightarrow> \<exists>w'. put m w = Some w' \<and> ok w' \<and> kept w w'"
begin

fun put_all :: "'m list \<Rightarrow> world \<Rightarrow> world option" where
  "put_all [] w = Some w"
| "put_all (m # ms) w = do { w \<leftarrow> put m w; put_all ms w }"

lemma put_obtain:
  assumes "ok w" "fits m"
  obtains w' where "put m w = Some w'" "ok w'" "kept w w'"
  using put_ok [OF assms] by blast

lemma put_cases:
  assumes "ok w" "fits m"
  shows "\<exists>w'. (if b then put m w else Some w) = Some w' \<and> ok w' \<and> kept w w'"
  using put_ok [OF assms] assms(1) by auto

lemma put_all_ok:
  "ok w \<Longrightarrow> \<forall>m\<in>set ms. fits m \<Longrightarrow> \<exists>w'. put_all ms w = Some w' \<and> ok w' \<and> kept w w'"
proof (induction ms arbitrary: w)
  case Nil
  then show ?case by simp
next
  case (Cons m ms)
  then obtain w1 where 1: "put m w = Some w1" "ok w1" "kept w w1"
    using put_obtain by (metis list.set_intros(1))
  then show ?case
    using Cons.IH [of w1] Cons.prems(2) by (auto intro: kept_trans)
qed

end

text \<open>
  The main log of the process: \<open>mainld\<close> points to an open log. A message fits when its text
  has at most 900 characters and the line number is one of an \<open>int\<close>.
\<close>

definition main_log_ok :: "env \<Rightarrow> world \<Rightarrow> bool" where
  "main_log_ok E w \<longleftrightarrow> asc_ok E \<and> calm E \<and> fresh w \<and>
     (\<exists>a fn mx. mainld w = Some a \<and> length fn \<le> 900 \<and> log_at w a fn mx)"

definition msg_fits :: "int \<times> int \<times> string \<Rightarrow> bool" where
  "msg_fits m = (case m of (line, type, msg) \<Rightarrow>
     INT_MIN \<le> line \<and> line \<le> INT_MAX \<and> length msg \<le> 900)"

lemma line_text_length:
  assumes "length tim = 25" "INT_MIN \<le> line" "line \<le> INT_MAX" "length msg \<le> 900" "length file \<le> 20"
  shows "length (line_text tim file line type msg) < 1024"
  using assms dec_length [of line] by (simp add: line_text_def log_tag_def)

lemma logLog_ok:
  assumes "main_log_ok E w" "msg_fits (line, type, msg)"
  shows "\<exists>w'. logLog E line type msg w = Some w' \<and> main_log_ok E w' \<and> kept w w'"
proof -
  obtain a fn mx where a: "mainld w = Some a" "length fn \<le> 900" "log_at w a fn mx"
    and E: "asc_ok E" "calm E" "fresh w"
    using assms(1) by (auto simp: main_log_ok_def)
  have "length (line_text (asc E (clk w)) ''main.c'' line type msg) < 1024"
    using assms(2) E by (intro line_text_length) (auto simp: msg_fits_def asc_ok_def)
  then obtain w' where w': "logInf E (Some a) ''main.c'' line type msg w = Some (0, w')"
    "log_at w' a fn mx" "kept w w'" "fresh w'"
    using logInf_ok [OF a(3) E(1,2) a(2) E(3)] by blast
  have "main_log_ok E w'"
    unfolding main_log_ok_def using w' a E by (metis keptD)
  then show ?thesis using w' a by (simp add: logLog_def)
qed

interpretation mlog: logger "\<lambda>(line, type, msg). logLog E line type msg" "main_log_ok E" msg_fits
  for E
  by unfold_locales (use logLog_ok in auto)

text \<open>
  All files are small, and the limit of the main log is one \<open>logInit\<close> can set. The log keeps
  this so.
\<close>

definition files_small :: "world \<Rightarrow> bool" where
  "files_small w \<longleftrightarrow> dir_total w \<and> (\<forall>i s. ino w i = Some s \<longrightarrow> length s \<le> 10 ^ 9) \<and>
     (\<forall>a m. mainld w = Some a \<longrightarrow> map_option lg_maxsize (logs w a) = Some m \<longrightarrow> 1024 \<le> m \<and> m \<le> 1024 * 1024)"

lemma logLog_small:
  assumes l: "main_log_ok E w" and m: "msg_fits (line, type, msg)" and f: "files_small w"
    and eq: "logLog E line type msg w = Some w'"
  shows "files_small w'"
proof -
  obtain a fn mx where a: "mainld w = Some a" "length fn \<le> 900" "log_at w a fn mx"
    and E: "asc_ok E" "calm E" "fresh w"
    using l by (auto simp: main_log_ok_def)
  obtain s i where s: "file_text w fn = Some s" "ino w i = Some s" "map_option lg_maxsize (logs w a) = Some mx"
    using a(3) by (auto simp: log_at_def file_text_def)
  have mx: "1024 \<le> mx" "mx \<le> 1024 * 1024" using f a(1) s(3) unfolding files_small_def by blast+
  have "length s \<le> 10 ^ 9" using f s(2) unfolding files_small_def by blast
  then have sl: "int (length s) \<le> INT_MAX" by (simp add: INT_MAX_def)
  have len: "length (line_text (asc E (clk w)) ''main.c'' line type msg) < 1024"
    using m E by (intro line_text_length) (auto simp: msg_fits_def asc_ok_def)
  obtain w1 where w1: "logInf E (Some a) ''main.c'' line type msg w = Some (0, w1)"
      "\<forall>j x. ino w1 j = Some x \<longrightarrow> ino w j = Some x \<or> int (length x) < mx"
      "\<forall>b. map_option lg_maxsize (logs w1 b) = map_option lg_maxsize (logs w b)" "dir_total w \<longrightarrow> dir_total w1"
    using logInf_bound [OF a(3) E(1,2) a(2) E(3) len s(1) sl mx(1)] by metis
  have w': "w' = w1" using eq w1(1) a(1) by (simp add: logLog_def)
  have "length x \<le> 10 ^ 9" if "ino w1 j = Some x" for j x
    using w1(2) that f mx(2) unfolding files_small_def by fastforce
  moreover have "mainld w1 = mainld w" using logLog_ok [OF l m] eq w' by (auto simp: kept_def)
  ultimately show ?thesis using f w1(3,4) unfolding w' files_small_def by simp
qed

definition apart_from_log :: "env \<Rightarrow> string \<Rightarrow> world \<Rightarrow> bool" where
  "apart_from_log E p w \<longleftrightarrow> (\<forall>a fn mx. mainld w = Some a \<longrightarrow> log_at w a fn mx \<longrightarrow> not_log E fn p w)"

lemma logLog_other:
  assumes l: "main_log_ok E w" and m: "msg_fits (line, type, msg)" and eq: "logLog E line type msg w = Some w'"
    and p: "apart_from_log E p w" "file_text w p = Some s"
  shows "file_text w' p = Some s \<and> apart_from_log E p w'"
proof -
  obtain a fn mx where a: "mainld w = Some a" "length fn \<le> 900" "log_at w a fn mx"
    and E: "asc_ok E" "calm E" "fresh w"
    using l by (auto simp: main_log_ok_def)
  have len: "length (line_text (asc E (clk w)) ''main.c'' line type msg) < 1024"
    using m E by (intro line_text_length) (auto simp: msg_fits_def asc_ok_def)
  obtain w1 where w1: "logInf E (Some a) ''main.c'' line type msg w = Some (0, w1)" "log_at w1 a fn mx" "kept w w1"
    using logInf_ok [OF a(3) E(1,2) a(2) E(3) len] by blast
  have w': "w' = w1" using eq w1(1) a(1) by (simp add: logLog_def)
  have "not_log E fn p w" using p(1) a by (auto simp: apart_from_log_def)
  note o = logInf_other [OF a(3) E(1,2) a(2) E(3) len w1(1) this p(2)]
  have "fn' = fn" if "log_at w1 a fn' mx'" for fn' mx'
    using that w1(2) by (auto simp: log_at_def)
  then have "apart_from_log E p w1" using o w1(3) a(1) by (auto simp: apart_from_log_def kept_def)
  then show ?thesis using o w' by simp
qed

section \<open>Opening and closing\<close>

lemma logInit_ok:
  assumes E: "calm E" and w: "fresh w" "dir_total w" and p: "NUL \<notin> set p"
    and sz: "- 2097152 \<le> sz"
  obtains ld w' where "logInit E (Some p) sz w = Some (Some ld, w')"
    "log_at w' ld p (1024 * min sz 1024)" "fresh w'" "dir_total w'"
    "logs w ld = None" "logs w' = (logs w)(ld := logs w' ld)"
    "\<And>x. brk w' \<le> x \<Longrightarrow> brk w \<le> x"
proof -
  let ?n = "brk w" and ?ld = "Suc (brk w)" and ?b = "Suc (Suc (brk w))"
  let ?i = "case dir w p of None \<Rightarrow> ?n | Some i \<Rightarrow> i"
  let ?lg = "\<lparr>lg_fg = Some ?n, lg_filename = Some ?b, lg_maxsize = 1024 * min sz 1024\<rparr>"
  let ?w = "(if dir w p = None then w\<lparr>dir := (dir w)(p \<mapsto> ?n), ino := (ino w)(?n \<mapsto> [])\<rparr> else w)
    \<lparr>brk := Suc ?b, strms := (strms w)(?n \<mapsto> ?i), logs := (logs w)(?ld \<mapsto> ?lg),
     bufs := (bufs w)(?b \<mapsto> p @ [NUL])\<rparr>"
  have c: "cint ((if sz > 1024 then 1024 else sz) * 1024) = Some (1024 * min sz 1024)"
    using sz by (simp add: cint_def INT_MIN_def INT_MAX_def min_def)
  have b: "blit (NUL # replicate (length p) NUL) 0 p = Some (p @ [NUL])"
    by (simp add: blit_def replicate_append_same [symmetric])
  have "logInit E (Some p) sz w = Some (Some ?ld, ?w)"
    using E b c by (cases "dir w p")
      (simp_all add: logInit_def fopen_a_def malloc_def calm_def Let_def upd_log_def zero_logdata_def)
  moreover have "log_at ?w ?ld p (1024 * min sz 1024)"
    using w(2) p by (cases "dir w p") (auto simp: log_at_def dir_total_def)
  moreover have "fresh ?w" using w(1) by (auto simp: fresh_def)
  moreover have "dir_total ?w" using w(2) by (auto simp: dir_total_def)
  moreover have "logs w ?ld = None" using w(1) by (simp add: fresh_def)
  ultimately show thesis using that [of ?ld ?w] by simp
qed

text \<open>The resources a log holds: its object, its name and its stream.\<close>

definition log_cells :: "world \<Rightarrow> logdata heap \<times> buf heap \<times> (nat \<Rightarrow> nat option)" where
  "log_cells w = (logs w, bufs w, strms w)"

lemmas logInit_defs = logInit_def fopen_a_def malloc_def Let_def upd_log_def fclose_def free_log_def

lemma logDel_cells:
  assumes "logs w a = Some d" "lg_fg d = Some h" "lg_filename d = Some b" "strms w h = Some i" "bufs w b = Some blk"
  shows "\<exists>w2. logDel (Some a) w = Some (0, w2) \<and>
    log_cells w2 = ((logs w)(a := None), (bufs w)(b := None), (strms w)(h := None))"
  using assms by (simp add: logDel_def fclose_def upd_log_def free_buf_def free_log_def log_cells_def)

lemma logInit_success:
  assumes "logInit E path sz w = Some (Some ld, w')"
  shows "ld = Suc (brk w)" "map_option lg_fg (logs w' ld) = Some (Some (brk w))"
    "map_option lg_filename (logs w' ld) = Some (Some (Suc ld))"
    "logs w' = (logs w)(ld := logs w' ld)" "bufs w' = (bufs w)(Suc ld \<mapsto> the (bufs w' (Suc ld)))"
    "strms w' = (strms w)(brk w \<mapsto> the (strms w' (brk w)))"
  using assms
  by (auto simp: logInit_defs bind_eq_Some_conv split: option.splits if_splits)

lemma logInit_frame:
  assumes "logInit E path sz w = Some (r, w')"
  shows "cychead w' = cychead w" "cycs w' = cycs w" "shead w' = shead w" "filehead w' = filehead w" "files w' = files w"
    "dls w' = dls w" "ino w' i = Some s \<Longrightarrow> ino w i = Some s \<or> s = []"
  using assms
  by (auto simp: logInit_defs bind_eq_Some_conv split: option.splits if_splits)

lemma logInit_other:
  assumes "calm E" "fresh w" "logInit E (Some fn) sz w = Some (Some ld, w')" "not_log E fn p w" "file_text w p = Some s"
  shows "file_text w' p = Some s \<and> not_log E fn p w'"
proof -
  obtain i where i: "dir w p = Some i" "ino w i = Some s" using assms(5) by (auto simp: file_text_def bind_eq_Some_conv)
  then have "i \<noteq> brk w" using assms(2) by (auto simp: fresh_def)
  moreover have "dir w' = (if dir w fn = None then (dir w)(fn \<mapsto> brk w) else dir w)"
    "ino w' = (if dir w fn = None then (ino w)(brk w \<mapsto> []) else ino w)"
    using assms(1,3) by (cases "dir w fn"; auto simp: logInit_defs calm_def bind_eq_Some_conv split: option.splits)+
  ultimately show ?thesis using assms(4) i by (auto simp: not_log_def file_text_def)
qed

lemma logInit_cases:
  assumes "fresh w" "logInit E path sz w = Some (r, w')"
  shows "case r of
      None \<Rightarrow> log_cells w' = log_cells w
    | Some ld \<Rightarrow> \<exists>w2. logDel (Some ld) w' = Some (0, w2) \<and> log_cells w2 = log_cells w"
proof -
  have "strms w (brk w) = None" "logs w (Suc (brk w)) = None" "bufs w (Suc (Suc (brk w))) = None"
    using assms(1) by (simp_all add: fresh_def)
  then have f: "(strms w)(brk w := None) = strms w" "(logs w)(Suc (brk w) := None) = logs w"
      "(bufs w)(Suc (Suc (brk w)) := None) = bufs w"
    by (simp_all add: fun_upd_idem)
  show ?thesis
  proof (cases r)
    case None
    then show ?thesis
      using assms(2) f
      by (auto simp: logInit_defs log_cells_def bind_eq_Some_conv split: option.splits if_splits)
  next
    case (Some ld)
    note ok = logInit_success [OF assms(2) [unfolded Some]]
    obtain d where d: "logs w' ld = Some d" "lg_fg d = Some (brk w)" "lg_filename d = Some (Suc ld)"
      using ok(2,3) by auto
    have h: "strms w' (brk w) = Some (the (strms w' (brk w)))" "bufs w' (Suc ld) = Some (the (bufs w' (Suc ld)))"
      by (subst ok(5,6); simp)+
    obtain w2 where "logDel (Some ld) w' = Some (0, w2)"
      "log_cells w2 = ((logs w')(ld := None), (bufs w')(Suc ld := None), (strms w')(brk w := None))"
      using logDel_cells [OF d h] by blast
    moreover have "(logs w')(ld := None) = logs w" "(bufs w')(Suc ld := None) = bufs w" "(strms w')(brk w := None) = strms w"
      using f unfolding ok(1) [symmetric] by (subst ok(4,5,6); simp)+
    ultimately show ?thesis using Some by (simp add: log_cells_def)
  qed
qed

section \<open>A concrete open log\<close>

definition opened :: world where
  "opened = boot\<lparr>brk := 6, logs := [4 \<mapsto> \<lparr>lg_fg = Some 0, lg_filename = Some 5, lg_maxsize = 2048\<rparr>],
     bufs := [5 \<mapsto> ''m.log'' @ [NUL]], dir := [''m.log'' \<mapsto> 0], ino := [0 \<mapsto> replicate 1500 (CHR ''x'')],
     strms := [0 \<mapsto> 0], mainld := Some 4\<rparr>"

lemma still_asc [simp]: "asc still n = ''Thu Jan  1 00:00:00 1970'' @ [NL]"
  by (simp add: still_def)

lemma still_asc_ok [simp]: "asc_ok still"
  by (simp add: asc_ok_def)

lemma boot_ok [simp]: "fresh boot" "dir_total boot"
  by (simp_all add: fresh_def dir_total_def boot_def)

lemma opened_log [simp]: "log_at opened 4 ''m.log'' 2048"
  by (auto simp: log_at_def opened_def)

lemma opened_ok [simp]: "fresh opened" "dir_total opened" "file_text opened ''m.log'' = Some (replicate 1500 (CHR ''x''))"
  by (simp_all add: fresh_def dir_total_def opened_def boot_def file_text_def)

lemma opened_main [simp]: "main_log_ok still opened" "files_small opened"
proof -
  have m: "mainld opened = Some 4" "map_option lg_maxsize (logs opened 4) = Some 2048"
    by (simp_all add: opened_def)
  show "main_log_ok still opened" unfolding main_log_ok_def using m
    by (auto intro!: exI [of _ "''m.log''"] exI [of _ 2048])
  show "files_small opened" unfolding files_small_def m
    by (auto simp: m dir_total_def opened_def boot_def split: if_splits)
qed

section \<open>Properties\<close>

text \<open>
  \<open>charChange(dat, old, new)\<close> replaces every \<open>old\<close> of the string by \<open>new\<close> in place, keeps the
  terminating NUL and everything behind it, and never leaves the buffer.
\<close>

lemma charChange_correct:
  assumes "newC \<noteq> NUL" "NUL \<notin> set s"
  shows "charChange (Some (s @ NUL # post)) oldC newC =
    Some (Some (map (\<lambda>c. if c = oldC then newC else c) s @ NUL # post))"
  using assms by (rule charChange_eq)

lemma charChange_correct_witness:
  "charChange (Some (''a b c'' @ [NUL, SP])) SP (CHR ''_'') = Some (Some (''a_b_c'' @ [NUL, SP]))"
  using charChange_correct [of "CHR ''_''" "''a b c''" "[SP]" SP] by simp

text \<open>
  C14: \<open>logInf\<close> on an open log writes one line of the fixed form (time, level, file, line, message)
  and returns 0. If the file has not reached the limit less 1024 characters, the line is appended
  to it. Otherwise the old text is kept under the name with the time in it and the file holds the
  new line alone.
\<close>

theorem logInf_correct:
  assumes "log_at w a fn mx" "asc_ok E" "calm E" "length fn \<le> 900" "fresh w"
    and "length (line_text (asc E (clk w)) file line type msg) < 1024"
    and "file_text w fn = Some s" "int (length s) \<le> INT_MAX" "1024 \<le> mx"
  shows "\<exists>w'. logInf E (Some a) file line type msg w = Some (0, w') \<and> log_at w' a fn mx \<and> kept w w' \<and>
    (if int (length s) < mx - 1024
     then file_text w' fn = Some (s @ line_text (asc E (clk w)) file line type msg)
     else file_text w' fn = Some (line_text (asc E (clk w)) file line type msg) \<and>
          file_text w' (moved_name fn (asc E (clk w))) = Some s)"
proof (cases "rotates w fn mx")
  case True
  then have "\<not> int (length s) < mx - 1024" using rotates_iff [OF assms(7,9,8)] by simp
  then show ?thesis
    using logInf_rotate [OF assms(1) True assms(2,3,4,6,7,5)] by (metis (full_types))
next
  case False
  then have "int (length s) < mx - 1024" using rotates_iff [OF assms(7,9,8)] by simp
  moreover have "asc E (clk w) \<noteq> []" using assms(2) by (auto simp: asc_ok_def dest: spec [of _ "clk w"])
  ultimately show ?thesis
    using logInf_append [OF assms(1) False _ assms(6,7)] by (metis (full_types))
qed

theorem logInf_correct_witness:
  "\<exists>w'. logInf still (Some 4) ''main.c'' 7 LOGERR ''no'' opened = Some (0, w') \<and>
     file_text w' ''m.log'' = Some (''[Thu Jan  1 00:00:00 1970] [ERROR] [main.c:7] no'' @ [NL]) \<and>
     file_text w' ''m.log_Thu_Jan__1_00:00:00_1970_.log'' = Some (replicate 1500 (CHR ''x''))"
proof -
  have t: "line_text (asc still (clk opened)) ''main.c'' 7 LOGERR ''no'' =
      ''[Thu Jan  1 00:00:00 1970] [ERROR] [main.c:7] no'' @ [NL]"
    by code_simp
  moreover have "moved_name ''m.log'' (asc still (clk opened)) = ''m.log_Thu_Jan__1_00:00:00_1970_.log''"
    by (simp add: moved_name_def)
  ultimately show ?thesis
    using logInf_correct [OF opened_log still_asc_ok still_calm _ opened_ok(1) _ opened_ok(3), of "''main.c''" 7 LOGERR "''no''"]
    by (auto simp: INT_MAX_def)
qed

text \<open>
  C15: The log keeps its size limit: after any call of \<open>logInf\<close> the file is shorter than the limit of
  the log, and the call has written no other file that is longer.
\<close>

theorem logInf_bounded:
  assumes "log_at w a fn mx" "asc_ok E" "calm E" "length fn \<le> 900" "fresh w"
    and "length (line_text (asc E (clk w)) file line type msg) < 1024"
    and "file_text w fn = Some s" "int (length s) \<le> INT_MAX" "1024 \<le> mx"
  shows "\<exists>w' s'. logInf E (Some a) file line type msg w = Some (0, w') \<and>
    file_text w' fn = Some s' \<and> int (length s') < mx \<and>
    (\<forall>j x. ino w' j = Some x \<longrightarrow> ino w j = Some x \<or> int (length x) < mx)"
  using logInf_bound [OF assms] by blast

theorem logInf_bounded_witness:
  "\<exists>w' s'. logInf still (Some 4) ''main.c'' 7 LOGERR ''no'' opened = Some (0, w') \<and>
     file_text w' ''m.log'' = Some s' \<and> length s' < 2048"
proof -
  have "length (line_text (asc still (clk opened)) ''main.c'' 7 LOGERR ''no'') < 1024"
    by (simp add: line_text_def log_tag_def dec_def dec_nat.simps)
  then show ?thesis
    using logInf_bounded [OF opened_log still_asc_ok still_calm _ opened_ok(1) _ opened_ok(3), of "''main.c''" 7 LOGERR "''no''"]
    by (auto simp: INT_MAX_def)
qed

text \<open>
  \<open>logInit\<close> opens a log on the path with a limit of \<open>sz\<close> kilobytes, at most one megabyte: the
  object is new, its stream is open for appending to the file of that path.
\<close>

lemma logInit_opens:
  assumes "calm E" "fresh w" "dir_total w" "NUL \<notin> set p" "- 2097152 \<le> sz"
  shows "\<exists>ld w'. logInit E (Some p) sz w = Some (Some ld, w') \<and>
    log_at w' ld p (1024 * min sz 1024) \<and> logs w ld = None \<and> fresh w'"
  using logInit_ok [OF assms] by metis

lemma logInit_opens_witness:
  "\<exists>ld w'. logInit still (Some ''m.log'') 2048 boot = Some (Some ld, w') \<and> log_at w' ld ''m.log'' 1048576"
  using logInit_opens [OF still_calm boot_ok, of "''m.log''" 2048] by auto

text \<open>
  C16: Whatever is refused on the way, \<open>logInit\<close> leaks nothing: when it returns NULL, the log objects,
  the buffers and the open streams are those from before; when it returns a log, \<open>logDel\<close> on it
  returns 0 and gives exactly those resources back.
\<close>

theorem logInit_logDel:
  assumes "fresh w" "logInit E path sz w = Some (r, w')"
  shows "case r of
      None \<Rightarrow> log_cells w' = log_cells w
    | Some ld \<Rightarrow> \<exists>w2. logDel (Some ld) w' = Some (0, w2) \<and> log_cells w2 = log_cells w"
  using logInit_cases [OF assms] .

theorem logInit_logDel_witness:
  "\<exists>ld w' w2. logInit still (Some ''m.log'') 10 boot = Some (Some ld, w') \<and>
     logDel (Some ld) w' = Some (0, w2) \<and> log_cells w2 = log_cells boot"
proof -
  have m: "NUL \<notin> set ''m.log''" "- 2097152 \<le> (10 :: int)" by simp_all
  obtain ld w' where "logInit still (Some ''m.log'') 10 boot = Some (Some ld, w')"
    using logInit_ok [OF still_calm boot_ok, of "''m.log''" 10] by (metis (no_types) m)
  then show ?thesis using logInit_logDel [OF boot_ok(1), of still "Some ''m.log''" 10 "Some ld" w'] by auto
qed

lemma rename_frame:
  "logs (rename E p q w) = logs w" "bufs (rename E p q w) = bufs w" "mainld (rename E p q w) = mainld w"
  "brk (rename E p q w) = Suc (brk w)"
  by (simp_all add: rename_def Let_def split: option.splits)

text \<open>
  C28: When the rotation cannot open the log file again, \<open>logInf\<close> deletes the log object, but the caller still
  has the pointer to it: the log call itself returns, \<open>mainld\<close> is dangling, and the next line the
  program logs, whatever it is, reads freed memory.
\<close>

theorem logLog_reopen_fails:
  assumes "mainld w = Some a" "log_at w a fn mx" "rotates w fn mx" "asc_ok E" "length fn \<le> 900"
    and "length (line_text (asc E (clk w)) ''main.c'' line type msg) < 1024" "deny E (Suc (brk w))"
  shows "\<exists>w'. logLog E line type msg w = Some w' \<and> mainld w' = Some a \<and> logs w' a = None \<and>
    (\<forall>line' type' msg'. logLog E line' type' msg' w' = None)"
proof -
  let ?tim = "asc E (clk w)"
  have tim: "length ?tim = 25" "?tim \<noteq> []" "last ?tim = NL" "NUL \<notin> set ?tim"
    using assms(4) by (auto simp: asc_ok_def dest: spec [of _ "clk w"])
  obtain fg b i s where
    lg: "logs w a = Some \<lparr>lg_fg = Some fg, lg_filename = Some b, lg_maxsize = mx\<rparr>"
    and f: "bufs w b = Some (fn @ [NUL])" "NUL \<notin> set fn"
    and st: "strms w fg = Some i" "dir w fn = Some i" "ino w i = Some s"
    using assms(2) by (auto simp: log_at_def)
  have rn: "rotated_name fn ?tim = Some (moved_name fn ?tim)"
    using tim f assms(5) by (intro rotated_name_eq) simp_all
  obtain w' where w': "logLog E line type msg w = Some w'" "mainld w' = Some a" "logs w' a = None"
    using assms(1,3,6,7) lg f st tim rn
    by (simp add: logLog_def logInf_def Let_def log_line_eq cstr_simps rotates_def fclose_def
        upd_log_def rename_frame fopen_a_def logDel_def free_buf_def free_log_def)
  moreover have "logLog E line' type' msg' w' = None" for line' type' msg'
    using w' by (simp add: logLog_def logInf_def)
  ultimately show ?thesis by blast
qed

theorem logLog_reopen_fails_witness:
  "\<exists>w'. logLog (still\<lparr>deny := \<lambda>n. n = Suc (brk opened)\<rparr>) 7 LOGERR ''no'' opened = Some w' \<and>
     logLog (still\<lparr>deny := \<lambda>n. n = Suc (brk opened)\<rparr>) 8 LOGERR ''again'' w' = None"
proof -
  let ?E = "still\<lparr>deny := \<lambda>n. n = Suc (brk opened)\<rparr>"
  have "rotates opened ''m.log'' 2048" by (subst rotates_iff [OF opened_ok(3)]) (simp_all add: INT_MAX_def)
  moreover have "asc_ok ?E" using still_asc_ok by (simp add: asc_ok_def)
  moreover have "length (line_text (asc ?E (clk opened)) ''main.c'' 7 LOGERR ''no'') < 1024"
    by (simp add: line_text_def log_tag_def dec_def dec_nat.simps)
  ultimately show ?thesis
    using logLog_reopen_fails [OF _ opened_log, of ?E 7 LOGERR "''no''"] by (auto simp: opened_def)
qed

end
