(* ===== verification/CycList.thy ===== *)
theory CycList
  imports LogLog "HOL-Library.Multiset"
begin

text \<open>
  The list of tasks of \<^verbatim>\<open>src/main.c\<close>: one \<open>cycdata\<close> per loaded library, linked from the global
  \<open>cychead\<close>, with \<open>cycheadnext\<close> the last node. \<open>cycmake\<close> appends a node, \<open>freeCycdata\<close> removes
  one. The theory also holds the invariant of the list (\<open>tasks\<close>) the later components share.
\<close>

section \<open>cycmake\<close>

definition cycmake :: "env \<Rightarrow> ptr \<Rightarrow> world \<Rightarrow> (ptr \<times> world) option" where
  "cycmake E dat w =
     (case malloc E w of
        (None, w) \<Rightarrow> Some (None, w)
      | (Some tem, w) \<Rightarrow> do {
          let w = w\<lparr>cycs := (cycs w)(tem \<mapsto> zero_cycdata\<lparr>cy_fdate := dat\<rparr>)\<rparr>;
          if cychead w = None
          then Some (Some tem, w\<lparr>cychead := Some tem, cycheadnext := Some tem\<rparr>)
          else do {
            t \<leftarrow> cycheadnext w;
            w \<leftarrow> upd_cyc t (\<lambda>c. c\<lparr>cy_next := Some tem\<rparr>) w;
            Some (Some tem, w\<lparr>cycheadnext := Some tem\<rparr>)
          }
        })"

section \<open>freeCycdata\<close>

text \<open>
  Letting go of a node's log and of its library, the lines \<open>freeCycdata\<close> and \<open>gameover\<close> share.
\<close>

definition drop_ld :: "nat \<Rightarrow> world \<Rightarrow> world option" where
  "drop_ld a w = do {
     w \<leftarrow> upd_cyc a (\<lambda>c. c\<lparr>cy_fdate := None\<rparr>) w;
     c \<leftarrow> cycs w a;
     w \<leftarrow> (if cy_ld c \<noteq> None \<and> cy_ld c \<noteq> mainld w
          then do { (_, w) \<leftarrow> logDel (cy_ld c) w; Some w }
          else Some w);
     upd_cyc a (\<lambda>c. c\<lparr>cy_ld := None\<rparr>) w
   }"

definition drop_lib :: "nat \<Rightarrow> world \<Rightarrow> world option" where
  "drop_lib a w = do {
     c \<leftarrow> cycs w a;
     case lb_fdlib (cy_libdata c) of
       None \<Rightarrow> Some w
     | Some h \<Rightarrow> do {
         w \<leftarrow> dlclose h w;
         upd_cyc a (\<lambda>c. c\<lparr>cy_libdata := (cy_libdata c)\<lparr>lb_fdlib := None\<rparr>\<rparr>) w
       }
   }"

definition cyc_unlink :: "ptr \<Rightarrow> nat \<Rightarrow> world \<Rightarrow> world option" where
  "cyc_unlink BB cdata w =
     (case BB of
        None \<Rightarrow> do { h \<leftarrow> cychead w; n \<leftarrow> cycs w h; Some (w\<lparr>cychead := cy_next n\<rparr>) }
      | Some b \<Rightarrow> do { n \<leftarrow> cycs w cdata; upd_cyc b (\<lambda>c. c\<lparr>cy_next := cy_next n\<rparr>) w })"

partial_function (option) free_search :: "nat \<Rightarrow> ptr \<Rightarrow> ptr \<Rightarrow> world \<Rightarrow> (int \<times> world) option" where
  "free_search cdata AA BB w =
     (case AA of
        None \<Rightarrow> Some (- 2, w)
      | Some a \<Rightarrow>
          if a = cdata
          then do {
            w \<leftarrow> cyc_unlink BB cdata w;
            w \<leftarrow> drop_ld cdata w;
            w \<leftarrow> drop_lib cdata w;
            w \<leftarrow> upd_cyc cdata (\<lambda>c. c\<lparr>cy_next := None\<rparr>) w;
            w \<leftarrow> free_cyc cdata w;
            Some (0, w)
          }
          else do { n \<leftarrow> cycs w a; free_search cdata (cy_next n) (Some a) w })"

definition freeCycdata :: "ptr \<Rightarrow> world \<Rightarrow> (int \<times> world) option" where
  "freeCycdata cdata w =
     (case cdata of
        None \<Rightarrow> Some (- 1, w)
      | Some a \<Rightarrow> free_search a (cychead w) None w)"

section \<open>The invariant of the list\<close>

text \<open>
  \<open>tasks w as\<close>: the nodes linked from \<open>cychead\<close> are those at the addresses \<open>as\<close>; each carries a
  terminated library name of at most 32 bytes and uses no log or the main log; the library
  handles of the nodes are among those the process holds, each as often as it is used.
\<close>

definition handle :: "cycdata heap \<Rightarrow> nat \<Rightarrow> nat list" where
  "handle h a = (case h a of
     None \<Rightarrow> []
   | Some c \<Rightarrow> (case lb_fdlib (cy_libdata c) of None \<Rightarrow> [] | Some l \<Rightarrow> [l]))"

definition handles :: "cycdata heap \<Rightarrow> nat list \<Rightarrow> nat list" where
  "handles h as = concat (map (handle h) as)"

definition node_ok :: "ptr \<Rightarrow> cycdata \<Rightarrow> bool" where
  "node_ok ml c \<longleftrightarrow> length (lb_name (cy_libdata c)) = 32 \<and> NUL \<in> set (lb_name (cy_libdata c)) \<and>
     (cy_ld c = None \<or> cy_ld c = ml)"

definition nodes_ok :: "world \<Rightarrow> nat list \<Rightarrow> bool" where
  "nodes_ok w as \<longleftrightarrow> (\<forall>a\<in>set as. \<exists>c. cycs w a = Some c \<and> node_ok (mainld w) c) \<and>
     mset (handles (cycs w) as) \<subseteq># mset (dls w)"

definition tasks :: "world \<Rightarrow> nat list \<Rightarrow> bool" where
  "tasks w as \<longleftrightarrow> lpath cy_next (cycs w) (cychead w) as None \<and>
     (\<forall>a\<in>set as. \<exists>c. cycs w a = Some c \<and> node_ok (mainld w) c) \<and>
     mset (handles (cycs w) as) \<subseteq># mset (dls w)"

text \<open>\<open>cycheadnext\<close> is the last node, which is what \<open>cycmake\<close> needs.\<close>

definition tail_ok :: "world \<Rightarrow> nat list \<Rightarrow> bool" where
  "tail_ok w as \<longleftrightarrow> (as \<noteq> [] \<longrightarrow> cycheadnext w = Some (last as))"

lemma tasksD:
  assumes "tasks w as"
  shows "lpath cy_next (cycs w) (cychead w) as None"
    and "a \<in> set as \<Longrightarrow> \<exists>c. cycs w a = Some c \<and> node_ok (mainld w) c"
    and "mset (handles (cycs w) as) \<subseteq># mset (dls w)"
    and "distinct as"
  using assms lpath_distinct by (auto simp: tasks_def)

lemma handles_simps [simp]:
  "handles h [] = []" "handles h (a # as) = handle h a @ handles h as"
  "handles h (as @ bs) = handles h as @ handles h bs"
  by (simp_all add: handles_def)

lemma handle_upd_same [simp]: "handle (h(a \<mapsto> c)) a = handle (\<lambda>_. Some c) a"
  by (simp add: handle_def)

lemma handles_upd_other [simp]: "a \<notin> set as \<Longrightarrow> handles (h(a := v)) as = handles h as"
  by (induction as) (auto simp: handle_def)

lemma handles_cong:
  "(\<And>a. a \<in> set as \<Longrightarrow> map_option cy_libdata (h' a) = map_option cy_libdata (h a)) \<Longrightarrow>
     handles h' as = handles h as"
proof (induction as)
  case (Cons a as)
  have "map_option cy_libdata (h' a) = map_option cy_libdata (h a)" by (rule Cons.prems) simp
  then have "handle h' a = handle h a" by (cases "h a"; cases "h' a") (auto simp: handle_def)
  then show ?case using Cons by simp
qed simp

lemma tasks_nodes: "tasks w as \<longleftrightarrow> lpath cy_next (cycs w) (cychead w) as None \<and> nodes_ok w as"
  by (auto simp: tasks_def nodes_ok_def)

lemma nodes_handle:
  assumes "nodes_ok w as" "a \<in> set as"
  shows "set (handle (cycs w) a) \<subseteq> set (dls w)"
proof -
  have "set (handle (cycs w) a) \<subseteq> set (handles (cycs w) as)" using assms(2) by (auto simp: handles_def)
  also have "\<dots> \<subseteq> set (dls w)" using assms(1) set_mset_mono by (fastforce simp: nodes_ok_def)
  finally show ?thesis .
qed

lemma tasks_kept: "kept w w' \<Longrightarrow> tasks w' as \<longleftrightarrow> tasks w as"
  by (simp add: tasks_def kept_def)

lemma tail_kept: "kept w w' \<Longrightarrow> tail_ok w' as \<longleftrightarrow> tail_ok w as"
  by (simp add: tail_ok_def kept_def)

section \<open>Appending a task\<close>

text \<open>A node but for its link.\<close>

definition contents :: "cycdata \<Rightarrow> cycdata" where
  "contents c = c\<lparr>cy_next := None\<rparr>"

lemma contents_upd [simp]: "contents (c\<lparr>cy_next := q\<rparr>) = contents c"
  by (simp add: contents_def)

lemma contents_eqD:
  assumes "contents c = contents d"
  shows "cy_tidata c = cy_tidata d" "cy_libdata c = cy_libdata d" "cy_ld c = cy_ld d"
    "cy_fdate c = cy_fdate d" "cy_init c = cy_init d" "cy_login c = cy_login d" "cy_seach c = cy_seach d"
    "cy_howdo c = cy_howdo d" "cy_send c = cy_send d" "cy_deldate c = cy_deldate d"
proof -
  have *: "f (contents c) = f (contents d)" for f :: "cycdata \<Rightarrow> 'a" using assms by simp
  note ** = *[unfolded contents_def]
  show "cy_tidata c = cy_tidata d" using **[of cy_tidata] by simp
  show "cy_libdata c = cy_libdata d" using **[of cy_libdata] by simp
  show "cy_ld c = cy_ld d" using **[of cy_ld] by simp
  show "cy_fdate c = cy_fdate d" using **[of cy_fdate] by simp
  show "cy_init c = cy_init d" using **[of cy_init] by simp
  show "cy_login c = cy_login d" using **[of cy_login] by simp
  show "cy_seach c = cy_seach d" using **[of cy_seach] by simp
  show "cy_howdo c = cy_howdo d" using **[of cy_howdo] by simp
  show "cy_send c = cy_send d" using **[of cy_send] by simp
  show "cy_deldate c = cy_deldate d" using **[of cy_deldate] by simp
qed

lemma node_ok_contents: "contents c = contents d \<Longrightarrow> node_ok ml c = node_ok ml d"
  using contents_eqD(2,3) [of c d] by (simp add: node_ok_def)


lemma node_ok_zero: "node_ok ml (zero_cycdata\<lparr>cy_fdate := d\<rparr>)"
  by (simp add: node_ok_def zero_cycdata_def)

lemma cycmake_ok:
  assumes t: "tasks w as" and tl: "tail_ok w as" and fr: "fresh w" and E: "calm E"
  obtains w' where "cycmake E dat w = Some (Some (brk w), w')" "tasks w' (as @ [brk w])"
    "tail_ok w' (as @ [brk w])" "fresh w'" "cycs w' (brk w) = Some (zero_cycdata\<lparr>cy_fdate := dat\<rparr>)"
    "\<And>a. a \<noteq> brk w \<Longrightarrow> map_option contents (cycs w' a) = map_option contents (cycs w a)"
    "dom (cycs w') = insert (brk w) (dom (cycs w))"
    "w' = w\<lparr>brk := Suc (brk w), cycs := cycs w', cychead := cychead w', cycheadnext := cycheadnext w'\<rparr>"
proof -
  let ?n = "brk w" and ?z = "zero_cycdata\<lparr>cy_fdate := dat\<rparr>"
  have d: "\<not> deny E ?n" using E by (simp add: calm_def)
  have nin: "?n \<notin> set as" using lpath_alloc [OF tasksD(1) [OF t], of ?n] fr by (auto simp: fresh_def)
  have z: "cy_next ?z = None" "handle (\<lambda>_. Some ?z) ?n = []"
    by (simp_all add: zero_cycdata_def handle_def)
  show thesis
  proof (cases as rule: rev_cases)
    case Nil
    let ?w = "w\<lparr>brk := Suc ?n, cycs := (cycs w)(?n \<mapsto> ?z), cychead := Some ?n, cycheadnext := Some ?n\<rparr>"
    have c: "cychead w = None" using tasksD(1) [OF t] Nil by simp
    have "tasks ?w [?n]" using z by (simp add: tasks_def node_ok_zero)
    moreover have "fresh ?w" using fr by (auto simp: fresh_def)
    ultimately show thesis
      using that [of ?w] Nil c d by (auto simp: cycmake_def malloc_def tail_ok_def)
  next
    case (snoc bs b)
    then obtain c where c: "cycs w b = Some c" "node_ok (mainld w) c"
      using tasksD(2) [OF t, of b] by auto
    have bn: "b \<noteq> ?n" using nin snoc by auto
    let ?w = "w\<lparr>brk := Suc ?n, cycs := (cycs w)(?n \<mapsto> ?z, b \<mapsto> c\<lparr>cy_next := Some ?n\<rparr>), cycheadnext := Some ?n\<rparr>"
    have ne: "cychead w \<noteq> None" "cycheadnext w = Some b"
      using tasksD(1) [OF t] tl snoc by (cases "cychead w"; auto simp: tail_ok_def)+
    have eq: "cycmake E dat w = Some (Some ?n, ?w)"
      using ne d c bn by (auto simp: cycmake_def malloc_def upd_cyc_def Let_def)
    have "lpath cy_next (cycs ?w) (cychead ?w) (as @ [?n]) None"
      using cyc_list.append_node [of "cycs w" "cychead w" bs b c ?n ?z] tasksD(1) [OF t] c nin snoc z bn
      by (simp add: fun_upd_twist)
    moreover have "handles (cycs ?w) (as @ [?n]) = handles (cycs w) as"
      using z nin snoc bn c tasksD(4) [OF t] by (simp add: fun_upd_twist handle_def)
    moreover have "\<forall>a\<in>set (as @ [?n]). \<exists>c. cycs ?w a = Some c \<and> node_ok (mainld ?w) c"
      using tasksD(2) [OF t] c bn by (auto simp: node_ok_zero node_ok_def zero_cycdata_def)
    ultimately have "tasks ?w (as @ [?n])" using tasksD(3) [OF t] by (simp add: tasks_def)
    moreover have "fresh ?w" using fr c by (auto simp: fresh_def)
    moreover have "map_option contents (cycs ?w a) = map_option contents (cycs w a)" if "a \<noteq> ?n" for a
      using that c by auto
    moreover have "dom (cycs ?w) = insert ?n (dom (cycs w))" using c by auto
    ultimately show thesis
      using that [of ?w] eq bn by (simp add: tail_ok_def)
  qed
qed

section \<open>Removing a task\<close>

lemma drop_ld_eq:
  assumes "cycs w a = Some c" "node_ok (mainld w) c"
  shows "drop_ld a w = Some (w\<lparr>cycs := (cycs w)(a \<mapsto> c\<lparr>cy_fdate := None, cy_ld := None\<rparr>)\<rparr>)"
  using assms by (auto simp: drop_ld_def upd_cyc_def node_ok_def)

definition close_lib :: "nat list \<Rightarrow> world \<Rightarrow> world" where
  "close_lib hs w = w\<lparr>dls := fold remove1 hs (dls w), tr := tr w @ map Dlclose hs\<rparr>"

lemma drop_lib_eq:
  assumes "cycs w a = Some c" "set (handle (cycs w) a) \<subseteq> set (dls w)"
  shows "drop_lib a w = Some (close_lib (handle (cycs w) a) (w\<lparr>cycs := (cycs w)(a \<mapsto>
     c\<lparr>cy_libdata := (cy_libdata c)\<lparr>lb_fdlib := None\<rparr>\<rparr>)\<rparr>))"
  using assms
  by (cases "lb_fdlib (cy_libdata c)")
    (auto simp: drop_lib_def handle_def dlclose_def upd_cyc_def close_lib_def fun_upd_idem)

text \<open>What removing the node \<open>a\<close> leaves: the node is gone, its library closed.\<close>

definition removed :: "nat \<Rightarrow> world \<Rightarrow> world \<Rightarrow> bool" where
  "removed a w w' \<longleftrightarrow> (\<exists>h cs. w' = (close_lib (handle (cycs w) a) w)\<lparr>cycs := cs, cychead := h\<rparr> \<and>
     cs a = None \<and> (\<forall>b. b \<noteq> a \<longrightarrow> map_option contents (cs b)
        = map_option contents (cycs w b)))"

lemma release_eq:
  assumes c: "cycs w a = Some c" "node_ok (mainld w) c" "set (handle (cycs w) a) \<subseteq> set (dls w)"
  shows "do {
      w \<leftarrow> drop_ld a w;
      w \<leftarrow> drop_lib a w;
      w \<leftarrow> upd_cyc a (\<lambda>c. c\<lparr>cy_next := None\<rparr>) w;
      w \<leftarrow> free_cyc a w;
      Some (0 :: int, w)
    } = Some (0, close_lib (handle (cycs w) a) (w\<lparr>cycs := (cycs w)(a := None)\<rparr>))"
proof -
  let ?w = "w\<lparr>cycs := (cycs w)(a \<mapsto> c\<lparr>cy_fdate := None, cy_ld := None\<rparr>)\<rparr>"
  have h: "handle (cycs ?w) a = handle (cycs w) a" using c(1) by (simp add: handle_def)
  have "drop_lib a ?w = Some (close_lib (handle (cycs w) a) (?w\<lparr>cycs := (cycs ?w)(a \<mapsto>
     c\<lparr>cy_fdate := None, cy_ld := None, cy_libdata := (cy_libdata c)\<lparr>lb_fdlib := None\<rparr>\<rparr>)\<rparr>))"
    using drop_lib_eq [of ?w a] c h by simp
  then show ?thesis
    using drop_ld_eq [OF c(1,2)] by (simp add: upd_cyc_def free_cyc_def close_lib_def)
qed

text \<open>The search walks to the node and hands over its predecessor.\<close>

lemma free_search_walk:
  "lpath cy_next (cycs w) p xs (Some a) \<Longrightarrow> a \<notin> set xs \<Longrightarrow>
     free_search a p BB w = free_search a (Some a) (if xs = [] then BB else Some (last xs)) w"
proof (induction xs arbitrary: p BB)
  case Nil
  then show ?case by simp
next
  case (Cons b xs)
  then obtain n where n: "cycs w b = Some n" "p = Some b" "lpath cy_next (cycs w) (cy_next n) xs (Some a)"
    by (auto split: option.splits)
  have "free_search a p BB w = free_search a (cy_next n) (Some b) w"
    using n Cons.prems(2) by (subst free_search.simps) simp
  also have "\<dots> = free_search a (Some a) (if xs = [] then Some b else Some (last xs)) w"
    using Cons.prems(2) n(3) by (intro Cons.IH) simp_all
  finally show ?case by (auto split: if_splits)
qed

lemma freeCycdata_miss:
  assumes "tasks w as" "a \<notin> set as"
  shows "freeCycdata (Some a) w = Some (- 2, w)"
proof -
  have "free_search a p BB w = Some (- 2, w)" if "lpath cy_next (cycs w) p xs None" "a \<notin> set xs" for p BB xs
    using that
  proof (induction xs arbitrary: p BB)
    case Nil
    then show ?case by (simp add: free_search.simps)
  next
    case (Cons b xs)
    then show ?case by (subst free_search.simps) (auto split: option.splits)
  qed
  then show ?thesis using assms tasksD(1) [OF assms(1)] by (auto simp: freeCycdata_def)
qed

lemma freeCycdata_eq:
  assumes t: "tasks w (xs @ a # ys)" and c: "cycs w a = Some c"
  shows "freeCycdata (Some a) w = Some (0, close_lib (handle (cycs w) a)
    (if xs = [] then w\<lparr>cychead := cy_next c, cycs := (cycs w)(a := None)\<rparr>
     else w\<lparr>cycs := (cycs w)(last xs \<mapsto> (the (cycs w (last xs)))\<lparr>cy_next := cy_next c\<rparr>, a := None)\<rparr>))"
proof -
  note d = tasksD(4) [OF t]
  have p: "lpath cy_next (cycs w) (cychead w) xs (Some a)"
    using lpath_split_at [OF tasksD(1) [OF t]] by simp
  have ok: "node_ok (mainld w) c" using tasksD(2) [OF t, of a] c by auto
  have h: "set (handle (cycs w) a) \<subseteq> set (dls w)"
    using t by (intro nodes_handle [of w "xs @ a # ys"]) (simp_all add: tasks_nodes)
  have fs: "freeCycdata (Some a) w = free_search a (Some a) (if xs = [] then None else Some (last xs)) w"
    using free_search_walk [OF p, of None] d by (simp add: freeCycdata_def)
  show ?thesis
  proof (cases "xs = []")
    case True
    let ?w = "w\<lparr>cychead := cy_next c\<rparr>"
    have "cyc_unlink None a w = Some ?w" using True p c by (simp add: cyc_unlink_def)
    then show ?thesis
      using release_eq [of ?w a c] c ok h True fs by (subst (asm) free_search.simps) simp
  next
    case False
    then have l: "last xs \<noteq> a" "last xs \<in> set xs" using d by auto
    then obtain b where b: "cycs w (last xs) = Some b" using lpath_alloc [OF p] by blast
    let ?w = "w\<lparr>cycs := (cycs w)(last xs \<mapsto> b\<lparr>cy_next := cy_next c\<rparr>)\<rparr>"
    have "cyc_unlink (Some (last xs)) a w = Some ?w"
      using b c by (simp add: cyc_unlink_def upd_cyc_def)
    moreover have "handle (cycs ?w) a = handle (cycs w) a" using l by (simp add: handle_def)
    ultimately show ?thesis
      using release_eq [of ?w a c] c ok h False fs l b by (subst (asm) free_search.simps) simp
  qed
qed

lemma mset_fold_remove1: "mset (fold remove1 hs l) = mset l - mset hs"
  by (induction hs arbitrary: l) (simp_all)

lemma freeCycdata_ok:
  assumes t: "tasks w (xs @ a # ys)"
  shows "\<exists>w'. freeCycdata (Some a) w = Some (0, w') \<and> tasks w' (xs @ ys) \<and> removed a w w'"
proof -
  obtain c where c: "cycs w a = Some c" using tasksD(2) [OF t, of a] by auto
  note d = tasksD(4) [OF t] and p = tasksD(1) [OF t]
  define cs where "cs = (if xs = [] then (cycs w)(a := None)
    else (cycs w)(last xs \<mapsto> (the (cycs w (last xs)))\<lparr>cy_next := cy_next c\<rparr>, a := None))"
  define h where "h = (if xs = [] then cy_next c else cychead w)"
  let ?w = "(close_lib (handle (cycs w) a) w)\<lparr>cycs := cs, cychead := h\<rparr>"
  have eq: "freeCycdata (Some a) w = Some (0, ?w)"
    using freeCycdata_eq [OF t c] by (simp add: cs_def h_def close_lib_def)
  have same: "map_option contents (cs b) = map_option contents (cycs w b)"
    if "b \<noteq> a" for b
    using that lpath_alloc [OF p, of "last xs"] by (auto simp: cs_def)
  have pth: "lpath cy_next cs h (xs @ ys) None"
  proof (cases xs rule: rev_cases)
    case Nil
    then show ?thesis using cyc_list.unlink_head [of "cycs w" "cychead w" a ys c] p c by (simp add: cs_def h_def)
  next
    case (snoc us u)
    then obtain n where "cycs w u = Some n" using lpath_alloc [OF p, of u] by auto
    then show ?thesis
      using cyc_list.unlink_node [of "cycs w" "cychead w" us u a ys n c] p c snoc by (simp add: cs_def h_def)
  qed
  have nd: "\<exists>c. cs b = Some c \<and> node_ok (mainld w) c" if "b \<in> set (xs @ ys)" for b
  proof -
    have "b \<noteq> a" using d that by auto
    moreover have "b \<in> set (xs @ a # ys)" using that by auto
    then obtain n where "cycs w b = Some n" "node_ok (mainld w) n" using tasksD(2) [OF t] by blast
    ultimately show ?thesis using same [of b] by (auto dest: node_ok_contents)
  qed
  have "map_option cy_libdata (cs b) = map_option cy_libdata (cycs w b)" if "b \<in> set (xs @ ys)" for b
  proof -
    have "b \<noteq> a" using d that by auto
    from same [OF this] show ?thesis by (cases "cs b"; cases "cycs w b") (auto dest: contents_eqD)
  qed
  then have "handles cs (xs @ ys) = handles (cycs w) (xs @ ys)" by (rule handles_cong)
  moreover have "mset (handle (cycs w) a) + mset (handles (cycs w) (xs @ ys)) \<subseteq># mset (dls w)"
    using tasksD(3) [OF t] by (simp add: ac_simps)
  ultimately have "mset (handles cs (xs @ ys)) \<subseteq># mset (dls w) - mset (handle (cycs w) a)"
    by (metis add_diff_cancel_left' mset_subset_eq_add_left subset_eq_diff_conv subset_mset.diff_add union_commute subset_mset.add_le_cancel_left subset_mset.order_trans)
  then have "tasks ?w (xs @ ys)"
    using pth nd by (simp add: tasks_def close_lib_def mset_fold_remove1)
  moreover have "removed a w ?w"
    unfolding removed_def using same by (intro exI [of _ h] exI [of _ cs]) (auto simp: cs_def)
  ultimately show ?thesis using eq by blast
qed

section \<open>A concrete list\<close>

text \<open>Two tasks \<open>a\<close> and \<open>b\<close>, each with \<open>tidata.key.len\<close> 2, with the library handles 100 and 101.\<close>

definition demo_node :: "nat \<Rightarrow> char \<Rightarrow> ptr \<Rightarrow> cycdata" where
  "demo_node h c nx = zero_cycdata\<lparr>cy_tidata := zero_onedate\<lparr>od_key := zero_mystring\<lparr>ms_len := 2\<rparr>\<rparr>,
     cy_libdata :=
     \<lparr>lb_fdlib = Some h, lb_name = c # replicate 31 NUL, lb_wherename = replicate 64 NUL\<rparr>,
     cy_seach := Some 40, cy_howdo := Some 41, cy_send := Some 42, cy_next := nx\<rparr>"

definition demo :: world where
  "demo = opened\<lparr>brk := 10, cycs := [7 \<mapsto> demo_node 100 (CHR ''a'') (Some 8), 8 \<mapsto> demo_node 101 (CHR ''b'') None],
     dls := [100, 101], cychead := Some 7, cycheadnext := Some 8\<rparr>"

lemma demo_ok [simp]: "tasks demo [7, 8]" "tail_ok demo [7, 8]" "fresh demo"
proof -
  have f: "\<forall>a\<ge>10. logs opened a = None \<and> bufs opened a = None \<and> strms opened a = None \<and> ino opened a = None \<and>
      files opened a = None \<and> ones opened a = None"
    by (simp add: opened_def boot_def)
  show "tasks demo [7, 8]"
    by (auto simp: tasks_def demo_def demo_node_def node_ok_def handle_def zero_cycdata_def)
  show "tail_ok demo [7, 8]" by (simp add: tail_ok_def demo_def)
  show "fresh demo" using f by (auto simp: fresh_def demo_def)
qed

lemma demo_simps [simp]: "tr demo = []" "handle (cycs demo) 7 = [100]" "handle (cycs demo) 8 = [101]" "mainld demo = Some 4"
  by (simp_all add: demo_def opened_def boot_def demo_node_def handle_def)

section \<open>Properties\<close>

text \<open>
  C20: \<open>cycmake\<close> appends one zeroed node with the given configuration to the list of tasks: the list
  invariant and the tail pointer are kept, the new node is the last, and what the other nodes
  hold, but for the link of the former last one, is unchanged.
\<close>

theorem cycmake_appends:
  assumes "tasks w as" "tail_ok w as" "fresh w" "calm E"
  shows "\<exists>w'. cycmake E dat w = Some (Some (brk w), w') \<and> tasks w' (as @ [brk w]) \<and>
    tail_ok w' (as @ [brk w]) \<and> cycs w' (brk w) = Some (zero_cycdata\<lparr>cy_fdate := dat\<rparr>) \<and>
    (\<forall>a. a \<noteq> brk w \<longrightarrow> map_option contents (cycs w' a) = map_option contents (cycs w a))"
  using cycmake_ok [OF assms] by metis

theorem cycmake_appends_witness:
  "\<exists>w'. cycmake still None demo = Some (Some (brk demo), w') \<and> tasks w' [7, 8, brk demo]"
  using cycmake_appends [OF demo_ok still_calm, of None] by auto

text \<open>
  C19: \<open>freeCycdata\<close> on a node of the list, wherever it stands, takes exactly this node out: the
  others keep their order and contents, the library handle of the node is closed once, the node
  is freed, and the result is 0.
\<close>

theorem freeCycdata_removes:
  assumes "tasks w (xs @ a # ys)"
  shows "\<exists>w'. freeCycdata (Some a) w = Some (0, w') \<and> tasks w' (xs @ ys) \<and> cycs w' a = None \<and>
    tr w' = tr w @ map Dlclose (handle (cycs w) a) \<and>
    (\<forall>b. b \<noteq> a \<longrightarrow> map_option contents (cycs w' b) = map_option contents (cycs w b))"
  using freeCycdata_ok [OF assms] by (fastforce simp: removed_def close_lib_def)

theorem freeCycdata_removes_witness:
  "\<exists>w'. freeCycdata (Some 7) demo = Some (0, w') \<and> tasks w' [8] \<and> tr w' = [Dlclose 100]"
  using freeCycdata_removes [of demo "[]" 7 "[8]"] by auto

text \<open>
  \<open>freeCycdata\<close> refuses what is not a node of the list: \<open>NULL\<close> gives \<open>- 1\<close>, any other address
  \<open>- 2\<close>, and nothing changes.
\<close>

lemma freeCycdata_refuses:
  assumes "tasks w as" "a \<notin> set as"
  shows "freeCycdata (Some a) w = Some (- 2, w) \<and> freeCycdata None w = Some (- 1, w)"
  using freeCycdata_miss [OF assms] by (simp add: freeCycdata_def)

lemma freeCycdata_refuses_witness: "freeCycdata (Some 9) demo = Some (- 2, demo)"
  using freeCycdata_refuses [of demo "[7, 8]" 9] by simp

text \<open>
  C21: \<open>freeCycdata\<close> does not move the tail pointer \<open>cycheadnext\<close>: after the last of several nodes is
  removed it points to freed memory, and the next \<open>cycmake\<close> writes there, which is undefined.
\<close>

theorem freeCycdata_dangling_tail:
  assumes "tasks w (xs @ [a])" "xs \<noteq> []" "tail_ok w (xs @ [a])" "fresh w" "calm E"
  shows "\<exists>w'. freeCycdata (Some a) w = Some (0, w') \<and> cycheadnext w' = Some a \<and> cycs w' a = None \<and>
    cycmake E dat w' = None"
proof -
  obtain c where c: "cycs w a = Some c" using tasksD(2) [OF assms(1), of a] by auto
  let ?w = "close_lib (handle (cycs w) a)
    (w\<lparr>cycs := (cycs w)(last xs \<mapsto> (the (cycs w (last xs)))\<lparr>cy_next := cy_next c\<rparr>, a := None)\<rparr>)"
  have w: "freeCycdata (Some a) w = Some (0, ?w)" using freeCycdata_eq [OF assms(1) c] assms(2) by simp
  have h: "cychead w \<noteq> None" using tasksD(1) [OF assms(1)] assms(2) by (cases xs) (auto split: option.splits)
  have "a \<noteq> brk w" using c assms(4) by (auto simp: fresh_def)
  then have "cycmake E dat ?w = None"
    using assms(3,5) h by (auto simp: cycmake_def malloc_def calm_def close_lib_def tail_ok_def upd_cyc_def)
  then show ?thesis using w assms(3) by (simp add: close_lib_def tail_ok_def)
qed

theorem freeCycdata_dangling_tail_witness:
  "\<exists>w'. freeCycdata (Some 8) demo = Some (0, w') \<and> cycmake still None w' = None"
  using freeCycdata_dangling_tail [of demo "[7]" 8 still None] by auto

end
