(* ===== verification/Scheduler.thy ===== *)
theory Scheduler
  imports CycList
begin

text \<open>
  Running the tasks: \<open>TimeDo\<close>, the SIGALRM handler \<open>cycleTimeMethod\<close> and \<open>TimeInit\<close> of
  \<^verbatim>\<open>src/main.c\<close>. A task is a pipeline of the methods its library exports; the handler counts the
  ticks of every task in \<open>tidata\<close> and runs the pipeline when the count passes \<open>tidata.key.len\<close>.

  The methods are parameters. What the theorems assume of them is the contract \<open>tame\<close>: a method
  returns, writes at most \<open>tidata\<close> and \<open>para\<close> of its own node, and leaves the log usable.
\<close>

section \<open>TimeDo, cycleTimeMethod and TimeInit\<close>

text \<open>
  One block \<open>if(cyctem->m != NULL) { ret = cyctem->m(cyctem); if(ret < 0) { log } }\<close> of \<open>TimeDo\<close> or
  \<open>TimeInit\<close>; the result is 0 when the function goes on to the next block.
\<close>

definition stage ::
  "env \<Rightarrow> (cycdata \<Rightarrow> ptr) \<Rightarrow> int \<Rightarrow> int \<Rightarrow> string \<Rightarrow> nat \<Rightarrow> world \<Rightarrow> (int \<times> world) option" where
  "stage E m line type what a w = do {
     c \<leftarrow> cycs w a;
     case m c of
       None \<Rightarrow> Some (0, w)
     | Some f \<Rightarrow> do {
         (ret, w) \<leftarrow> invoke E f a w;
         if ret < 0
         then do {
           c \<leftarrow> cycs w a;
           name \<leftarrow> str_of (lb_name (cy_libdata c));
           w \<leftarrow> logLog E line type (name @ what @ dec ret) w;
           Some (ret, w)
         }
         else Some (0, w)
       }
   }"

definition TimeDo :: "env \<Rightarrow> ptr \<Rightarrow> world \<Rightarrow> (int \<times> world) option" where
  "TimeDo E cyctem w =
     (case cyctem of
        None \<Rightarrow> Some (TCS_ARG_NULL, w)
      | Some a \<Rightarrow> do {
          (ret, w) \<leftarrow> stage E cy_seach 46 LOGWAR '' seach '' a w;
          if ret < 0 then Some (ret, w)
          else do {
            (ret, w) \<leftarrow> stage E cy_howdo 57 LOGWAR '' howdo '' a w;
            if ret < 0 then Some (ret, w)
            else do {
              (ret, w) \<leftarrow> stage E cy_send 68 LOGWAR '' send '' a w;
              if ret < 0 then Some (ret, w) else Some (0, w)
            }
          }
        })"

definition key_len :: "onedate \<Rightarrow> int" where
  "key_len t = ms_len (od_key t)"

definition value_len :: "onedate \<Rightarrow> int" where
  "value_len t = ms_len (od_value t)"

definition set_value_len :: "int \<Rightarrow> onedate \<Rightarrow> onedate" where
  "set_value_len n t = t\<lparr>od_value := (od_value t)\<lparr>ms_len := n\<rparr>\<rparr>"

definition tick_node :: "env \<Rightarrow> nat \<Rightarrow> world \<Rightarrow> world option" where
  "tick_node E a w = do {
     c \<leftarrow> cycs w a;
     if key_len (cy_tidata c) \<ge> 0
     then do {
       v \<leftarrow> cint (value_len (cy_tidata c) + 1);
       w \<leftarrow> upd_cyc a (\<lambda>c. c\<lparr>cy_tidata := set_value_len v (cy_tidata c)\<rparr>) w;
       if key_len (cy_tidata c) < v
       then do {
         w \<leftarrow> upd_cyc a (\<lambda>c. c\<lparr>cy_tidata := set_value_len 0 (cy_tidata c)\<rparr>) w;
         (_, w) \<leftarrow> TimeDo E (Some a) w;
         Some w
       }
       else Some w
     }
     else Some w
   }"

partial_function (option) cycle_loop :: "env \<Rightarrow> ptr \<Rightarrow> world \<Rightarrow> world option" where
  "cycle_loop E cyctem w =
     (case cyctem of
        None \<Rightarrow> Some w
      | Some a \<Rightarrow> do {
          w \<leftarrow> tick_node E a w;
          c \<leftarrow> cycs w a;
          cycle_loop E (cy_next c) w
        })"

definition cycleTimeMethod :: "env \<Rightarrow> int \<Rightarrow> world \<Rightarrow> world option" where
  "cycleTimeMethod E num w =
     (if cychead w = None then Some w else cycle_loop E (cychead w) w)"

definition TimeInit :: "env \<Rightarrow> ptr \<Rightarrow> world \<Rightarrow> (int \<times> world) option" where
  "TimeInit E cyctem w =
     (case cyctem of
        None \<Rightarrow> do {
          w \<leftarrow> logLog E 868 LOGERR ''TimeInit arc cyctem is NULL'' w;
          Some (- 1, w)
        }
      | Some a \<Rightarrow> do {
          (res, w) \<leftarrow> stage E cy_init 877 LOGERR '' sysinit err '' a w;
          if res < 0 then Some (TCS_OTHER_ERR, w)
          else do {
            (res, w) \<leftarrow> stage E cy_login 887 LOGERR '' syslogin err '' a w;
            if res < 0 then Some (TCS_OTHER_ERR - 1, w) else Some (0, w)
          }
        })"

section \<open>The contract of the task methods\<close>

text \<open>
  \<open>touched T a w w' es\<close>: between \<open>w\<close> and \<open>w'\<close> only \<open>tidata\<close> and \<open>para\<close> of the node \<open>a\<close> changed, the
  former as \<open>T\<close> allows, and log lines were written; the trace grew by \<open>es\<close>.
\<close>

definition touched ::
  "(onedate \<Rightarrow> onedate \<Rightarrow> bool) \<Rightarrow> nat \<Rightarrow> world \<Rightarrow> world \<Rightarrow> event list \<Rightarrow> bool" where
  "touched T a w w' es \<longleftrightarrow> (\<exists>c t p. cycs w a = Some c \<and> T (cy_tidata c) t \<and>
     cycs w' = (cycs w)(a \<mapsto> c\<lparr>cy_tidata := t, cy_para := p\<rparr>)) \<and>
     kept (w\<lparr>cycs := cycs w', tr := tr w @ es\<rparr>) w'"

definition tame :: "(onedate \<Rightarrow> onedate \<Rightarrow> bool) \<Rightarrow> env \<Rightarrow> bool" where
  "tame T E \<longleftrightarrow> reflp T \<and> transp T \<and>
     (\<forall>f a w. main_log_ok E w \<longrightarrow> cycs w a \<noteq> None \<longrightarrow>
       (\<exists>r w'. call E f a w = Some (r, w') \<and> INT_MIN \<le> r \<and> r \<le> INT_MAX \<and>
          main_log_ok E w' \<and> touched T a w w' []))"

lemma touched_refl: "reflp T \<Longrightarrow> cycs w a = Some c \<Longrightarrow> kept w w' \<Longrightarrow> touched T a w w' []"
  unfolding touched_def
  by (intro conjI exI [of _ c] exI [of _ "cy_tidata c"] exI [of _ "cy_para c"])
    (auto simp: kept_def reflpD)

lemma touched_trans:
  assumes "transp T" "touched T a u v es" "touched T a v w fs"
  shows "touched T a u w (es @ fs)"
proof -
  obtain c t p where c: "cycs u a = Some c" "T (cy_tidata c) t"
      "cycs v = (cycs u)(a \<mapsto> c\<lparr>cy_tidata := t, cy_para := p\<rparr>)"
    using assms(2) unfolding touched_def by blast
  obtain c' t' p' where c': "cycs v a = Some c'" "T (cy_tidata c') t'"
      "cycs w = (cycs v)(a \<mapsto> c'\<lparr>cy_tidata := t', cy_para := p'\<rparr>)"
    using assms(3) unfolding touched_def by blast
  have "T (cy_tidata c) t'" using c c' assms(1) by (auto elim: transpE)
  then show ?thesis
    using c c' assms(2,3) unfolding touched_def
    by (intro conjI exI [of _ c] exI [of _ t'] exI [of _ p']) (auto simp: kept_def)
qed

lemma touched_weaken: "touched T a w w' es \<Longrightarrow> (\<And>t t'. T t t' \<Longrightarrow> U t t') \<Longrightarrow> touched U a w w' es"
  unfolding touched_def by blast

lemma touched_tasks:
  assumes "touched T a w w' es"
  shows "tasks w' as \<longleftrightarrow> tasks w as"
proof -
  obtain c t p where c: "cycs w a = Some c" "cycs w' = (cycs w)(a \<mapsto> c\<lparr>cy_tidata := t, cy_para := p\<rparr>)"
    using assms unfolding touched_def by blast
  have "lpath cy_next (cycs w') q as None \<longleftrightarrow> lpath cy_next (cycs w) q as None" for q
    by (rule lpath_same_links) (use c in auto)
  moreover have "handles (cycs w') as = handles (cycs w) as"
    by (rule handles_cong) (use c in auto)
  moreover have "(\<exists>d. cycs w' b = Some d \<and> node_ok ml d) \<longleftrightarrow> (\<exists>d. cycs w b = Some d \<and> node_ok ml d)" for b ml
    using c by (auto simp: node_ok_def)
  ultimately show ?thesis using assms by (simp add: tasks_def touched_def kept_def)
qed

lemma main_log_ok_tr [simp]: "main_log_ok E (w\<lparr>tr := es\<rparr>) = main_log_ok E w"
  by (simp add: main_log_ok_def log_at_def fresh_def)

lemma invoke_ok:
  assumes "tame T E" "main_log_ok E w" "cycs w a = Some c"
  obtains r w' where "invoke E f a w = Some (r, w')" "INT_MIN \<le> r" "r \<le> INT_MAX" "main_log_ok E w'"
    "touched T a w w' [Call f a r]"
proof -
  obtain r w1 where w1: "call E f a w = Some (r, w1)" "INT_MIN \<le> r" "r \<le> INT_MAX" "main_log_ok E w1"
      "touched T a w w1 []"
    using assms unfolding tame_def by (metis option.distinct(1))
  let ?w = "w1\<lparr>tr := tr w1 @ [Call f a r]\<rparr>"
  have "touched T a w ?w [Call f a r]" using w1(5) by (simp add: touched_def kept_def)
  then show thesis using w1 by (intro that [of r ?w]) (simp_all add: invoke_def)
qed

section \<open>One stage, one run\<close>

lemma node_name:
  assumes "node_ok ml c"
  shows "\<exists>s. str_of (lb_name (cy_libdata c)) = Some s \<and> length s \<le> 32"
  using assms by (simp add: node_ok_def str_of_def cstr_def) (metis length_takeWhile_le)

lemma stage_ok:
  assumes T: "tame T E" and l: "main_log_ok E w" and t: "tasks w as" "a \<in> set as"
    and c: "cycs w a = Some c" and m: "length what \<le> 100" "0 \<le> line" "line \<le> INT_MAX"
  shows "\<exists>ret w' es. stage E m line type what a w = Some (ret, w') \<and> main_log_ok E w' \<and>
    touched T a w w' es \<and>
    (case m c of None \<Rightarrow> es = [] \<and> ret = 0 | Some f \<Rightarrow> \<exists>r. es = [Call f a r] \<and> ret = min r 0)"
proof (cases "m c")
  case None
  have "reflp T" using T by (simp add: tame_def)
  with None show ?thesis
    using c l touched_refl [of T w a c w] by (auto simp: stage_def)
next
  case (Some f)
  obtain r w1 where w1: "invoke E f a w = Some (r, w1)" "INT_MIN \<le> r" "r \<le> INT_MAX" "main_log_ok E w1"
      "touched T a w w1 [Call f a r]"
    using invoke_ok [OF T l c] by blast
  show ?thesis
  proof (cases "r < 0")
    case False
    then show ?thesis using Some w1 c by (auto simp: stage_def)
  next
    case True
    have "tasks w1 as" using t touched_tasks [OF w1(5)] by simp
    then obtain c1 where c1: "cycs w1 a = Some c1" "node_ok (mainld w1) c1" using tasksD(2) t(2) by blast
    then obtain s where s: "str_of (lb_name (cy_libdata c1)) = Some s" "length s \<le> 32"
      using node_name by blast
    have "msg_fits (line, type, s @ what @ dec r)"
      using s m dec_length [OF w1(2,3)] by (simp add: msg_fits_def INT_MIN_def)
    then obtain w2 where w2: "logLog E line type (s @ what @ dec r) w1 = Some w2" "main_log_ok E w2" "kept w1 w2"
      using logLog_ok [OF w1(4)] by blast
    have "touched T a w w2 [Call f a r]"
      using touched_trans [OF _ w1(5) touched_refl [OF _ c1(1) w2(3)]] T by (simp add: tame_def)
    then show ?thesis using True Some w1 c c1 s w2 by (auto simp: stage_def)
  qed
qed

text \<open>
  A run of a pipeline: the methods are called in order on the node, up to the end or up to the
  first negative result; every method comes with the value the function returns in that case.
\<close>

fun pipe_ok :: "(nat \<times> (int \<Rightarrow> int)) list \<Rightarrow> nat \<Rightarrow> event list \<Rightarrow> int \<Rightarrow> bool" where
  "pipe_ok [] a es r \<longleftrightarrow> es = [] \<and> r = 0"
| "pipe_ok ((f, k) # fs) a (Call g b x # es) r \<longleftrightarrow>
     g = f \<and> b = a \<and> (if x < 0 then es = [] \<and> r = k x else pipe_ok fs a es r)"
| "pipe_ok (f # fs) a es r \<longleftrightarrow> False"

definition link :: "(int \<Rightarrow> int) \<Rightarrow> ptr \<Rightarrow> (nat \<times> (int \<Rightarrow> int)) list" where
  "link k m = (case m of None \<Rightarrow> [] | Some f \<Rightarrow> [(f, k)])"

definition methods :: "cycdata \<Rightarrow> (nat \<times> (int \<Rightarrow> int)) list" where
  "methods c = link (\<lambda>r. r) (cy_seach c) @ link (\<lambda>r. r) (cy_howdo c) @ link (\<lambda>r. r) (cy_send c)"

definition init_methods :: "cycdata \<Rightarrow> (nat \<times> (int \<Rightarrow> int)) list" where
  "init_methods c = link (\<lambda>_. TCS_OTHER_ERR) (cy_init c) @ link (\<lambda>_. TCS_OTHER_ERR - 1) (cy_login c)"

text \<open>\<open>runs T E as a ms F\<close>: on the node \<open>a\<close> of the task list, \<open>F\<close> runs the pipeline \<open>ms\<close> of the node.\<close>

definition runs :: "(onedate \<Rightarrow> onedate \<Rightarrow> bool) \<Rightarrow> env \<Rightarrow> nat list \<Rightarrow> nat
    \<Rightarrow> (cycdata \<Rightarrow> (nat \<times> (int \<Rightarrow> int)) list) \<Rightarrow> (world \<Rightarrow> (int \<times> world) option) \<Rightarrow> bool" where
  "runs T E as a ms F \<longleftrightarrow> (\<forall>w c. main_log_ok E w \<longrightarrow> tasks w as \<longrightarrow> cycs w a = Some c \<longrightarrow>
     (\<exists>ret w' es. F w = Some (ret, w') \<and> main_log_ok E w' \<and> touched T a w w' es \<and>
        pipe_ok (ms c) a es ret))"

lemma runs_end: "reflp T \<Longrightarrow> runs T E as a (\<lambda>_. []) (\<lambda>w. Some (0, w))"
  unfolding runs_def using touched_refl by fastforce

lemma runs_stage:
  assumes T: "tame T E" and a: "a \<in> set as" and F: "runs T E as a ms F"
    and ms: "\<And>c t p. ms (c\<lparr>cy_tidata := t, cy_para := p\<rparr>) = ms c"
    and m: "length what \<le> 100" "0 \<le> line" "line \<le> INT_MAX"
  shows "runs T E as a (\<lambda>c. link k (m c) @ ms c)
    (\<lambda>w. do { (r, w) \<leftarrow> stage E m line type what a w; if r < 0 then Some (k r, w) else F w })"
  unfolding runs_def
proof (intro allI impI)
  fix w c
  assume l: "main_log_ok E w" and t: "tasks w as" and c: "cycs w a = Some c"
  obtain r w1 e1 where 1: "stage E m line type what a w = Some (r, w1)" "main_log_ok E w1"
      "touched T a w w1 e1"
      "case m c of None \<Rightarrow> e1 = [] \<and> r = 0 | Some f \<Rightarrow> \<exists>x. e1 = [Call f a x] \<and> r = min x 0"
    using stage_ok [OF T l t a c m, where m = m and type = type] by blast
  obtain c1 where c1: "cycs w1 a = Some c1" "ms c1 = ms c"
    using 1(3) c ms unfolding touched_def by fastforce
  have "tasks w1 as" using t touched_tasks [OF 1(3)] by simp
  then obtain ret w2 e2 where 2: "F w1 = Some (ret, w2)" "main_log_ok E w2" "touched T a w1 w2 e2"
      "pipe_ok (ms c) a e2 ret"
    using F 1(2) c1 unfolding runs_def by metis
  have t12: "touched T a w w2 (e1 @ e2)" using touched_trans [OF _ 1(3) 2(3)] T by (simp add: tame_def)
  have "r < 0 \<Longrightarrow> pipe_ok (link k (m c) @ ms c) a e1 (k r)"
    "\<not> r < 0 \<Longrightarrow> pipe_ok (link k (m c) @ ms c) a (e1 @ e2) ret"
    using 1(4) 2(4) by (auto simp: link_def min_def split: option.splits if_splits)
  then show "\<exists>ret w' es. do { (r, w) \<leftarrow> stage E m line type what a w; if r < 0 then Some (k r, w) else F w }
        = Some (ret, w') \<and> main_log_ok E w' \<and> touched T a w w' es \<and> pipe_ok (link k (m c) @ ms c) a es ret"
    using 1(1,2,3) 2(1,2) t12 by (cases "r < 0") auto
qed

lemma TimeDo_runs:
  assumes "tame T E" "a \<in> set as"
  shows "runs T E as a methods (TimeDo E (Some a))"
proof -
  have r: "reflp T" using assms(1) by (simp add: tame_def)
  note st = runs_stage [OF assms, where k = "\<lambda>r. r" and type = LOGWAR]
  have "runs T E as a (\<lambda>c. link (\<lambda>r. r) (cy_seach c) @ link (\<lambda>r. r) (cy_howdo c) @ link (\<lambda>r. r) (cy_send c) @ [])
      (TimeDo E (Some a))"
    unfolding TimeDo_def option.case
    by (intro st runs_end r) (simp_all add: INT_MAX_def)
  then show ?thesis by (simp add: methods_def [abs_def])
qed

lemma TimeInit_runs:
  assumes "tame T E" "a \<in> set as"
  shows "runs T E as a init_methods (TimeInit E (Some a))"
proof -
  have r: "reflp T" using assms(1) by (simp add: tame_def)
  note st = runs_stage [OF assms, where type = LOGERR]
  have "runs T E as a (\<lambda>c. link (\<lambda>_. TCS_OTHER_ERR) (cy_init c) @ link (\<lambda>_. TCS_OTHER_ERR - 1) (cy_login c) @ [])
      (TimeInit E (Some a))"
    unfolding TimeInit_def option.case
    by (intro st [where k = "\<lambda>_. TCS_OTHER_ERR"] st [where k = "\<lambda>_. TCS_OTHER_ERR - 1"] runs_end r)
      (simp_all add: INT_MAX_def)
  then show ?thesis by (simp add: init_methods_def [abs_def])
qed

section \<open>One tick of one task\<close>

definition due :: "onedate \<Rightarrow> bool" where
  "due t \<longleftrightarrow> 0 \<le> key_len t \<and> key_len t < value_len t + 1"

definition advance :: "onedate \<Rightarrow> onedate" where
  "advance t = (if key_len t < 0 then t
     else set_value_len (if key_len t < value_len t + 1 then 0 else value_len t + 1) t)"

text \<open>The counter can be advanced without overflow, now and after any number of ticks.\<close>

definition clock_ok :: "onedate \<Rightarrow> bool" where
  "clock_ok t \<longleftrightarrow> 0 \<le> key_len t \<longrightarrow>
     key_len t < INT_MAX \<and> INT_MIN \<le> value_len t \<and> value_len t < INT_MAX"

lemma clock_simps [simp]:
  "key_len (set_value_len n t) = key_len t" "value_len (set_value_len n t) = n"
  "set_value_len m (set_value_len n t) = set_value_len m t"
  by (simp_all add: key_len_def value_len_def set_value_len_def)

lemma clock_ok_advance: "clock_ok t \<Longrightarrow> clock_ok (advance t)"
  by (auto simp: clock_ok_def advance_def INT_MIN_def INT_MAX_def)

lemma tick_node_ok:
  assumes T: "tame T E" and l: "main_log_ok E w" and t: "tasks w as" "a \<in> set as"
    and c: "cycs w a = Some c" and ck: "clock_ok (cy_tidata c)"
  shows "\<exists>w' es. tick_node E a w = Some w' \<and> main_log_ok E w' \<and>
    touched (\<lambda>t t'. T (advance t) t') a w w' es \<and>
    (if due (cy_tidata c) then \<exists>r. pipe_ok (methods c) a es r else es = [])"
proof -
  let ?t = "cy_tidata c"
  let ?w = "w\<lparr>cycs := (cycs w)(a \<mapsto> c\<lparr>cy_tidata := advance ?t\<rparr>)\<rparr>"
  have r: "reflp T" using T by (simp add: tame_def)
  have adv: "touched (\<lambda>t t'. T (advance t) t') a w ?w []"
    using c r unfolding touched_def
    by (intro conjI exI [of _ c] exI [of _ "advance ?t"] exI [of _ "cy_para c"])
      (auto simp: kept_def reflpD)
  have lw: "main_log_ok E ?w" using l c by (auto simp: main_log_ok_def log_at_def fresh_def)
  show ?thesis
  proof (cases "due ?t")
    case False
    have "w\<lparr>cycs := (cycs w)(a \<mapsto> c)\<rparr> = w" using c by (simp add: map_upd_triv)
    then have "tick_node E a w = Some ?w"
      using c ck False by (auto simp: tick_node_def advance_def due_def clock_ok_def upd_cyc_def)
    then show ?thesis using adv lw False by (intro exI [of _ ?w] exI [of _ "[]"]) simp
  next
    case True
    have "tasks ?w as" using t touched_tasks [OF adv] by simp
    then obtain ret w' es where w': "TimeDo E (Some a) ?w = Some (ret, w')" "main_log_ok E w'"
        "touched T a ?w w' es" "pipe_ok (methods c) a es ret"
      using TimeDo_runs [OF T t(2)] lw unfolding runs_def by (fastforce simp: methods_def)
    have "tick_node E a w = Some w'"
      using c ck True w'(1)
      by (auto simp: tick_node_def advance_def due_def clock_ok_def upd_cyc_def)
    moreover have "touched (\<lambda>t t'. T (advance t) t') a w w' es"
      using w'(3) c unfolding touched_def by (auto simp: kept_def)
    ultimately show ?thesis using w' True by auto
  qed
qed

section \<open>Walking the task list\<close>

text \<open>
  A loop \<open>while(p != NULL) { body; p = p->next; }\<close> over the task list, where the body may leave the
  loop with a nonzero result. The body sees every node once, in order, as long as it keeps the
  links; \<open>P bs w\<close> is what holds when the nodes \<open>bs\<close> are still to come.
\<close>

locale cyc_walk =
  fixes body :: "nat \<Rightarrow> world \<Rightarrow> (int \<times> world) option"
    and loop :: "ptr \<Rightarrow> world \<Rightarrow> (int \<times> world) option"
  assumes loop_NULL: "loop None w = Some (0, w)"
    and loop_node: "loop (Some a) w = do {
        (r, w) \<leftarrow> body a w;
        if r \<noteq> 0 then Some (r, w) else do { c \<leftarrow> cycs w a; loop (cy_next c) w }
      }"
begin

lemma walk_all:
  assumes "lpath cy_next (cycs w) p as None" "P as w"
    and "\<And>a bs w. P (a # bs) w \<Longrightarrow> \<exists>r w'. body a w = Some (r, w') \<and>
      (if r = 0 then P bs w' \<and> (\<forall>b. map_option cy_next (cycs w' b) = map_option cy_next (cycs w b))
       else Q r w')"
  shows "\<exists>r w'. loop p w = Some (r, w') \<and> (if r = 0 then P [] w' else Q r w')"
  using assms(1,2)
proof (induction as arbitrary: p w)
  case Nil
  then show ?case by (simp add: loop_NULL)
next
  case (Cons a bs)
  obtain r w1 where w1: "body a w = Some (r, w1)"
      "if r = 0 then P bs w1 \<and> (\<forall>b. map_option cy_next (cycs w1 b) = map_option cy_next (cycs w b)) else Q r w1"
    using assms(3) [OF Cons.prems(2)] by blast
  obtain c where c: "p = Some a" "cycs w a = Some c" "lpath cy_next (cycs w) (cy_next c) bs None"
    using Cons.prems(1) by (auto split: option.splits)
  show ?case
  proof (cases "r = 0")
    case False
    then show ?thesis using w1 c by (simp add: loop_node)
  next
    case True
    then have links: "\<And>b. map_option cy_next (cycs w1 b) = map_option cy_next (cycs w b)" using w1 by simp
    then obtain c1 where c1: "cycs w1 a = Some c1" "cy_next c1 = cy_next c"
      using c(2) by (metis map_option_eq_Some)
    have "lpath cy_next (cycs w1) (cy_next c1) bs None"
      using c(3) c1 lpath_same_links [of bs cy_next "cycs w1" "cycs w"] links by simp
    then show ?thesis using Cons.IH [of w1 "cy_next c1"] w1 True c c1 by (simp add: loop_node)
  qed
qed

end

interpretation tick_walk: cyc_walk "\<lambda>a w. map_option (Pair 0) (tick_node E a w)"
    "\<lambda>p w. map_option (Pair 0) (cycle_loop E p w)" for E
proof unfold_locales
  show "map_option (Pair 0) (cycle_loop E None w) = Some (0, w)" for w
    by (simp add: cycle_loop.simps)
  show "map_option (Pair 0) (cycle_loop E (Some a) w) = do {
        (r, w) \<leftarrow> map_option (Pair 0) (tick_node E a w);
        if r \<noteq> (0 :: int) then Some (r, w)
        else do { c \<leftarrow> cycs w a; map_option (Pair 0) (cycle_loop E (cy_next c) w) }
      }" for a w
    by (subst cycle_loop.simps) (auto simp: map_option_bind split: bind_splits)
qed

lemma touched_links: "touched T a w w' es \<Longrightarrow> map_option cy_next (cycs w' b) = map_option cy_next (cycs w b)"
  unfolding touched_def by auto

section \<open>One tick of all tasks\<close>

text \<open>
  What one tick does to the node \<open>a\<close>: its counter advances, and if it was due its pipeline runs.
\<close>

definition ticked :: "(onedate \<Rightarrow> onedate \<Rightarrow> bool) \<Rightarrow> world \<Rightarrow> world \<Rightarrow> nat \<Rightarrow> event list \<Rightarrow> bool" where
  "ticked T w w' a es \<longleftrightarrow> (\<exists>c t p. cycs w a = Some c \<and>
     cycs w' a = Some (c\<lparr>cy_tidata := t, cy_para := p\<rparr>) \<and> T (advance (cy_tidata c)) t \<and>
     (if due (cy_tidata c) then \<exists>r. pipe_ok (methods c) a es r else es = []))"

definition clocks_ok :: "world \<Rightarrow> nat list \<Rightarrow> bool" where
  "clocks_ok w as \<longleftrightarrow> (\<forall>a\<in>set as. \<forall>c. cycs w a = Some c \<longrightarrow> clock_ok (cy_tidata c))"

text \<open>The state while the handler runs: the nodes \<open>as\<close> are done, the nodes \<open>bs\<close> are as they were.\<close>

definition ticking ::
  "(onedate \<Rightarrow> onedate \<Rightarrow> bool) \<Rightarrow> env \<Rightarrow> world \<Rightarrow> nat list \<Rightarrow> nat list \<Rightarrow> event list list \<Rightarrow> world \<Rightarrow> bool" where
  "ticking T E w as bs ess w' \<longleftrightarrow> main_log_ok E w' \<and> tasks w' (as @ bs) \<and>
     list_all2 (ticked T w w') as ess \<and> (\<forall>b. b \<notin> set as \<longrightarrow> cycs w' b = cycs w b) \<and>
     kept (w\<lparr>cycs := cycs w', tr := tr w @ concat ess\<rparr>) w'"

lemma ticking_step:
  assumes T: "tame T E" and k: "ticking T E w as (a # bs) ess w1" and ck: "clocks_ok w (a # bs)"
  shows "\<exists>w' es. tick_node E a w1 = Some w' \<and> ticking T E w (as @ [a]) bs (ess @ [es]) w' \<and>
    (\<forall>b. map_option cy_next (cycs w' b) = map_option cy_next (cycs w1 b))"
proof -
  have l: "main_log_ok E w1" and t: "tasks w1 (as @ a # bs)" and la: "list_all2 (ticked T w w1) as ess"
    and oth: "\<And>b. b \<notin> set as \<Longrightarrow> cycs w1 b = cycs w b"
    and kp: "kept (w\<lparr>cycs := cycs w1, tr := tr w @ concat ess\<rparr>) w1"
    using k by (auto simp: ticking_def)
  obtain c where c: "cycs w1 a = Some c" using tasksD(2) [OF t, of a] by auto
  have nin: "a \<notin> set as" using tasksD(4) [OF t] by simp
  have cw: "cycs w a = Some c" using oth [OF nin] c by simp
  then have "clock_ok (cy_tidata c)" using ck by (simp add: clocks_ok_def)
  then obtain w' es where w': "tick_node E a w1 = Some w'" "main_log_ok E w'"
      "touched (\<lambda>t t'. T (advance t) t') a w1 w' es"
      "if due (cy_tidata c) then \<exists>r. pipe_ok (methods c) a es r else es = []"
    using tick_node_ok [OF T l t _ c] by auto
  obtain t' p where cs: "cycs w' = (cycs w1)(a \<mapsto> c\<lparr>cy_tidata := t', cy_para := p\<rparr>)"
      "T (advance (cy_tidata c)) t'"
    using w'(3) c unfolding touched_def by auto
  have "list_all2 (ticked T w w') as ess"
    using la by (rule list.rel_mono_strong) (use cs nin in \<open>auto simp: ticked_def\<close>)
  moreover have "ticked T w w' a es"
    unfolding ticked_def using cw cs w'(4) by (intro exI [of _ c] exI [of _ t'] exI [of _ p]) simp
  ultimately have "list_all2 (ticked T w w') (as @ [a]) (ess @ [es])"
    by (simp add: list_all2_appendI)
  moreover have "tasks w' ((as @ [a]) @ bs)" using t touched_tasks [OF w'(3)] by simp
  moreover have "\<forall>b. b \<notin> set (as @ [a]) \<longrightarrow> cycs w' b = cycs w b" using cs oth by simp
  moreover have "kept (w\<lparr>cycs := cycs w', tr := tr w @ concat (ess @ [es])\<rparr>) w'"
    using kp w'(3) by (auto simp: kept_def touched_def)
  ultimately have "ticking T E w (as @ [a]) bs (ess @ [es]) w'"
    using w'(2) by (simp add: ticking_def)
  then show ?thesis using w'(1) touched_links [OF w'(3)] by blast
qed

lemma cycleTimeMethod_ok:
  assumes T: "tame T E" and l: "main_log_ok E w" and t: "tasks w as" and ck: "clocks_ok w as"
  shows "\<exists>w' ess. cycleTimeMethod E num w = Some w' \<and> ticking T E w as [] ess w'"
proof -
  let ?P = "\<lambda>bs w'. \<exists>ds ess. as = ds @ bs \<and> ticking T E w ds bs ess w'"
  have "ticking T E w [] as [] w" using l t by (simp add: ticking_def kept_def)
  then have 0: "?P as w" by (intro exI [of _ "[]"]) simp
  have "\<exists>r w'. map_option (Pair (0 :: int)) (cycle_loop E (cychead w) w) = Some (r, w') \<and>
      (if r = 0 then ?P [] w' else False)"
  proof (rule tick_walk.walk_all [where P = ?P and Q = "\<lambda>_ _. False", OF tasksD(1) [OF t] 0])
    fix a bs w1
    assume "?P (a # bs) w1"
    then obtain ds ess where d: "as = ds @ a # bs" "ticking T E w ds (a # bs) ess w1" by blast
    then have "clocks_ok w (a # bs)" using ck by (auto simp: clocks_ok_def)
    then obtain w2 es where "tick_node E a w1 = Some w2" "ticking T E w (ds @ [a]) bs (ess @ [es]) w2"
        "\<forall>b. map_option cy_next (cycs w2 b) = map_option cy_next (cycs w1 b)"
      using ticking_step [OF T d(2)] by blast
    then show "\<exists>r w'. map_option (Pair 0) (tick_node E a w1) = Some (r, w') \<and>
        (if r = 0 then ?P bs w' \<and> (\<forall>b. map_option cy_next (cycs w' b) = map_option cy_next (cycs w1 b)) else False)"
      using d(1) by (intro exI [of _ 0] exI [of _ w2]) auto
  qed
  then show ?thesis by (auto simp: cycleTimeMethod_def cycle_loop.simps split: if_splits)
qed

section \<open>Any number of ticks\<close>

text \<open>\<open>n\<close> alarms, one after the other; the signal number of SIGALRM is 14.\<close>

fun alarms :: "env \<Rightarrow> nat \<Rightarrow> world \<Rightarrow> world option" where
  "alarms E 0 w = Some w"
| "alarms E (Suc n) w = do { w \<leftarrow> alarms E n w; cycleTimeMethod E 14 w }"

text \<open>How often the method \<open>f\<close> was called on the node \<open>a\<close>.\<close>

definition calls :: "nat \<Rightarrow> nat \<Rightarrow> event list \<Rightarrow> nat" where
  "calls f a es = length (filter (\<lambda>e. case e of Call g b r \<Rightarrow> g = f \<and> b = a | Dlclose h \<Rightarrow> False) es)"

lemma calls_simps [simp]:
  "calls f a [] = 0" "calls f a (es @ fs) = calls f a es + calls f a fs"
  "calls f a (Call g b r # es) = (if g = f \<and> b = a then Suc (calls f a es) else calls f a es)"
  "calls f a (Dlclose h # es) = calls f a es"
  by (simp_all add: calls_def)

lemma pipe_other: "pipe_ok ms b es r \<Longrightarrow> b \<noteq> a \<or> f \<notin> fst ` set ms \<Longrightarrow> calls f a es = 0"
  by (induction ms b es r rule: pipe_ok.induct) (auto split: if_splits)

lemma pipe_first:
  assumes "pipe_ok (methods c) a es r" "cy_seach c = Some f" "cy_howdo c \<noteq> Some f" "cy_send c \<noteq> Some f"
  shows "calls f a es = 1"
proof -
  let ?ms = "link (\<lambda>r. r) (cy_howdo c) @ link (\<lambda>r. r) (cy_send c)"
  have m: "methods c = (f, \<lambda>r. r) # ?ms" using assms(2) by (simp add: methods_def link_def)
  have "f \<notin> fst ` set ?ms" using assms(3,4) by (auto simp: link_def split: option.splits)
  then show ?thesis
    using assms(1) pipe_other [of ?ms a _ r a f] unfolding m
    by (cases es; cases "hd es") (auto split: if_splits)
qed

lemma calls_concat:
  assumes "list_all2 R as ess" "distinct as" "a \<in> set as" "\<And>es. R a es \<Longrightarrow> calls f a es = k"
    and "\<And>b es. b \<noteq> a \<Longrightarrow> R b es \<Longrightarrow> calls f a es = 0"
  shows "calls f a (concat ess) = k"
proof -
  have 0: "calls f a (concat ess) = 0" if "list_all2 R bs ess" "a \<notin> set bs" for bs ess
    using that
  proof (induction rule: list_all2_induct)
    case (Cons x xs y ys)
    then show ?case using assms(5) [of x y] by auto
  qed simp
  show ?thesis
    using assms(1,2,3)
  proof (induction rule: list_all2_induct)
    case (Cons x xs y ys)
    then show ?case using assms(4) [of y] assms(5) [of x y] 0 [of xs ys] by (cases "x = a") auto
  qed simp
qed

text \<open>A node between two states: only \<open>tidata\<close> and \<open>para\<close> may differ.\<close>

definition same_task :: "cycdata \<Rightarrow> cycdata \<Rightarrow> bool" where
  "same_task c d \<longleftrightarrow> (\<exists>t p. d = c\<lparr>cy_tidata := t, cy_para := p\<rparr>)"

lemma same_taskI: "same_task c (c\<lparr>cy_tidata := t, cy_para := p\<rparr>)"
  unfolding same_task_def by blast

lemma same_task_trans:
  assumes "same_task c d" "same_task d e"
  shows "same_task c e"
proof -
  obtain t p t' p' where "d = c\<lparr>cy_tidata := t, cy_para := p\<rparr>" "e = d\<lparr>cy_tidata := t', cy_para := p'\<rparr>"
    using assms unfolding same_task_def by blast
  then have "e = c\<lparr>cy_tidata := t', cy_para := p'\<rparr>" by simp
  then show ?thesis unfolding same_task_def by blast
qed

lemma ticked_calls:
  assumes k: "ticking (=) E w as [] ess w'" and a: "a \<in> set as" "cycs w a = Some c"
    and f: "cy_seach c = Some f" "cy_howdo c \<noteq> Some f" "cy_send c \<noteq> Some f"
  shows "\<exists>c'. cycs w' a = Some c' \<and> same_task c c' \<and> cy_tidata c' = advance (cy_tidata c) \<and>
    calls f a (tr w') = calls f a (tr w) + (if due (cy_tidata c) then 1 else 0)"
proof -
  have la: "list_all2 (ticked (=) w w') as ess" and t: "tasks w' as"
    and trw: "tr w' = tr w @ concat ess"
    using k by (auto simp: ticking_def kept_def)
  have "calls f a (concat ess) = (if due (cy_tidata c) then 1 else 0)"
  proof (rule calls_concat [OF la tasksD(4) [OF t] a(1)])
    show "calls f a es = (if due (cy_tidata c) then 1 else 0)" if "ticked (=) w w' a es" for es
      using that a(2) f pipe_first by (auto simp: ticked_def split: if_splits)
    show "calls f a es = 0" if "b \<noteq> a" "ticked (=) w w' b es" for b es
      using that pipe_other [of _ b es _ a f] by (auto simp: ticked_def split: if_splits)
  qed
  moreover obtain es where "ticked (=) w w' a es" using la a(1) list_all2_in1 by metis
  ultimately show ?thesis using a(2) trw by (auto simp: ticked_def intro: same_taskI)
qed

lemma clocks_ticking:
  assumes "ticking (=) E w as [] ess w'" "clocks_ok w as"
  shows "clocks_ok w' as"
  unfolding clocks_ok_def
proof (intro ballI allI impI)
  fix a c'
  assume a: "a \<in> set as" "cycs w' a = Some c'"
  have "list_all2 (ticked (=) w w') as ess" using assms(1) by (simp add: ticking_def)
  then obtain es where "ticked (=) w w' a es" using a(1) list_all2_in1 by metis
  then show "clock_ok (cy_tidata c')"
    using assms(2) a clock_ok_advance by (auto simp: ticked_def clocks_ok_def)
qed

text \<open>
  The period of a task is \<open>key.len + 1\<close> ticks: from a counter \<open>v\<close> on, the task has run
  \<open>(v + n) div (key.len + 1)\<close> times after \<open>n\<close> ticks.
\<close>

lemma advance_mod:
  assumes "0 \<le> key_len t" "0 \<le> value_len t" "value_len t \<le> key_len t"
  shows "value_len (advance t) = (value_len t + 1) mod (key_len t + 1)" "key_len (advance t) = key_len t"
    "due t \<longleftrightarrow> value_len t + 1 = key_len t + 1"
  using assms by (auto simp: advance_def due_def)

lemma alarms_ok:
  assumes T: "tame (=) E" and l: "main_log_ok E w" and t: "tasks w as" and ck: "clocks_ok w as"
    and a: "a \<in> set as" "cycs w a = Some c"
    and f: "cy_seach c = Some f" "cy_howdo c \<noteq> Some f" "cy_send c \<noteq> Some f"
    and v: "0 \<le> value_len (cy_tidata c)" "value_len (cy_tidata c) \<le> key_len (cy_tidata c)"
  defines "p \<equiv> key_len (cy_tidata c) + 1" and "v \<equiv> value_len (cy_tidata c)"
  shows "\<exists>w' c'. alarms E n w = Some w' \<and> main_log_ok E w' \<and> tasks w' as \<and> clocks_ok w' as \<and>
    cycs w' a = Some c' \<and> same_task c c' \<and> key_len (cy_tidata c') = p - 1 \<and>
    value_len (cy_tidata c') = (v + int n) mod p \<and>
    int (calls f a (tr w')) = int (calls f a (tr w)) + (v + int n) div p"
proof (induction n)
  case 0
  have "same_task c c" unfolding same_task_def by (intro exI [of _ "cy_tidata c"] exI [of _ "cy_para c"]) simp
  then show ?case using l t ck a v by (auto simp: p_def v_def)
next
  case (Suc n)
  then obtain w1 c1 where 1: "alarms E n w = Some w1" "main_log_ok E w1" "tasks w1 as" "clocks_ok w1 as"
      "cycs w1 a = Some c1" "same_task c c1" "key_len (cy_tidata c1) = p - 1"
      "value_len (cy_tidata c1) = (v + int n) mod p"
      "int (calls f a (tr w1)) = int (calls f a (tr w)) + (v + int n) div p"
    by blast
  obtain w' ess where w': "cycleTimeMethod E 14 w1 = Some w'" "ticking (=) E w1 as [] ess w'"
    using cycleTimeMethod_ok [OF T 1(2,3,4)] by blast
  have f1: "cy_seach c1 = Some f" "cy_howdo c1 \<noteq> Some f" "cy_send c1 \<noteq> Some f"
    using f 1(6) by (auto simp: same_task_def)
  obtain c' where c': "cycs w' a = Some c'" "same_task c1 c'" "cy_tidata c' = advance (cy_tidata c1)"
      "calls f a (tr w') = calls f a (tr w1) + (if due (cy_tidata c1) then 1 else 0)"
    using ticked_calls [OF w'(2) a(1) 1(5) f1] by blast
  have p: "0 < p" using v by (simp add: p_def)
  let ?m = "(v + int n) mod p"
  have m: "0 \<le> ?m" "?m < p" using p by simp_all
  note am = advance_mod [of "cy_tidata c1", unfolded 1(7,8)]
  have "value_len (cy_tidata c') = (?m + 1) mod p" using am(1) m c'(3) by simp
  then have v': "value_len (cy_tidata c') = (v + int (Suc n)) mod p" 
    by (simp add: mod_add_right_eq ac_simps)
  have "(v + int (Suc n)) div p = (v + int n) div p + (if ?m + 1 = p then 1 else 0)"
    using div_succ [OF p, of "v + int n"] by (simp add: ac_simps)
  then have "int (calls f a (tr w')) = int (calls f a (tr w)) + (v + int (Suc n)) div p"
    using c'(4) 1(9) am(3) m by simp
  moreover have "same_task c c'" by (rule same_task_trans [OF 1(6) c'(2)])
  moreover have "key_len (cy_tidata c') = p - 1" using am(2) m c'(3) by simp
  ultimately show ?case
    using 1(1) w' c'(1) v' clocks_ticking [OF w'(2) 1(4)] by (auto simp: ticking_def)
qed

lemma alarms_keep:
  assumes T: "tame (=) E" and "main_log_ok E w" "tasks w as" "clocks_ok w as"
  shows "\<exists>w'. alarms E n w = Some w' \<and> main_log_ok E w' \<and> tasks w' as \<and> clocks_ok w' as"
proof (induction n)
  case 0
  then show ?case using assms by simp
next
  case (Suc n)
  then obtain w1 where 1: "alarms E n w = Some w1" "main_log_ok E w1" "tasks w1 as" "clocks_ok w1 as" by blast
  obtain w' ess where w': "cycleTimeMethod E 14 w1 = Some w'" "ticking (=) E w1 as [] ess w'"
    using cycleTimeMethod_ok [OF T 1(2,3,4)] by blast
  then show ?case using 1(1) clocks_ticking [OF w'(2) 1(4)] by (simp add: ticking_def)
qed

section \<open>The concrete list\<close>

lemma still_tame [simp]: "tame (=) still"
proof -
  have "\<exists>r w'. call still f a w = Some (r, w') \<and> INT_MIN \<le> r \<and> r \<le> INT_MAX \<and>
      main_log_ok still w' \<and> touched (=) a w w' []"
    if "main_log_ok still w" "cycs w a \<noteq> None" for f a w
    using that touched_refl [of "(=)" w a _ w]
    by (auto simp: still_def INT_MIN_def INT_MAX_def reflp_on_def)
  then show ?thesis unfolding tame_def by (auto simp: reflp_on_def transp_on_def)
qed

lemma demo_log [simp]: "main_log_ok still demo"
  unfolding main_log_ok_def
  by (auto simp: demo_def opened_def log_at_def boot_def fresh_def intro!: exI [of _ 2048] split: if_splits)

definition demo_a :: cycdata where
  "demo_a = demo_node 100 (CHR ''a'') (Some 8)"

lemma demo_a_simps [simp]:
  "cycs demo 7 = Some demo_a" "cy_seach demo_a = Some 40" "cy_howdo demo_a = Some 41" "cy_send demo_a = Some 42"
  "key_len (cy_tidata demo_a) = 2" "value_len (cy_tidata demo_a) = 0" "cy_init demo_a = None" "cy_login demo_a = None"
  by (simp_all add: demo_def demo_a_def demo_node_def key_len_def value_len_def zero_onedate_def zero_mystring_def
      zero_cycdata_def)

lemma demo_clocks [simp]: "clocks_ok demo [7, 8]"
  by (auto simp: clocks_ok_def clock_ok_def demo_def demo_node_def key_len_def value_len_def zero_onedate_def
      zero_mystring_def INT_MIN_def INT_MAX_def split: if_splits)

section \<open>Properties\<close>

text \<open>
  C5: A task runs with the period \<open>tidata.key.len + 1\<close>: whatever the number \<open>n\<close> of alarms, the handler
  returns from each, and from a counter \<open>v\<close> on the first method of the task has then been called
  exactly \<open>(v + n) div (key.len + 1)\<close> times.
\<close>

theorem task_period:
  assumes "tame (=) E" "main_log_ok E w" "tasks w as" "clocks_ok w as" "a \<in> set as" "cycs w a = Some c"
    and "cy_seach c = Some f" "cy_howdo c \<noteq> Some f" "cy_send c \<noteq> Some f"
    and "0 \<le> value_len (cy_tidata c)" "value_len (cy_tidata c) \<le> key_len (cy_tidata c)"
  shows "\<exists>w'. alarms E n w = Some w' \<and>
    int (calls f a (tr w')) = int (calls f a (tr w)) +
      (value_len (cy_tidata c) + int n) div (key_len (cy_tidata c) + 1)"
  using alarms_ok [OF assms, of n] by blast

theorem task_period_witness: "\<exists>w'. alarms still 100 demo = Some w' \<and> calls 40 7 (tr w') = 33"
  using task_period [OF still_tame demo_log demo_ok(1) demo_clocks, of 7 demo_a 40 100] by simp

text \<open>
  C13: The counters of the tasks never overflow, and the list and the log stay in order, over any
  number of alarms.
\<close>

theorem alarms_invariant:
  assumes "tame (=) E" "main_log_ok E w" "tasks w as" "clocks_ok w as"
  shows "\<exists>w'. alarms E n w = Some w' \<and> main_log_ok E w' \<and> tasks w' as \<and> clocks_ok w' as"
  using alarms_keep [OF assms] .

theorem alarms_invariant_witness: "\<exists>w'. alarms still 1000000 demo = Some w' \<and> tasks w' [7, 8] \<and> clocks_ok w' [7, 8]"
  using alarms_invariant [OF still_tame demo_log demo_ok(1) demo_clocks, of 1000000] by auto

text \<open>
  C11: One alarm: \<open>cycleTimeMethod\<close> visits every task once and in order. For each it advances the
  counter, and where the counter passes \<open>tidata.key.len\<close> it resets it and runs the pipeline of that task;
  no other node, no list and no configuration changes, and the trace grows by exactly these runs.
\<close>

theorem cycleTimeMethod_ticks:
  assumes "tame T E" "main_log_ok E w" "tasks w as" "clocks_ok w as"
  shows "\<exists>w' ess. cycleTimeMethod E num w = Some w' \<and> list_all2 (ticked T w w') as ess \<and>
    tr w' = tr w @ concat ess \<and> (\<forall>b. b \<notin> set as \<longrightarrow> cycs w' b = cycs w b) \<and>
    files w' = files w \<and> ones w' = ones w \<and> cychead w' = cychead w \<and> dls w' = dls w"
  using cycleTimeMethod_ok [OF assms] by (fastforce simp: ticking_def kept_def)

theorem cycleTimeMethod_ticks_witness:
  "\<exists>w' ess. cycleTimeMethod still 14 demo = Some w' \<and> list_all2 (ticked (=) demo w') [7, 8] ess \<and> tr w' = concat ess"
  using cycleTimeMethod_ticks [OF still_tame demo_log demo_ok(1) demo_clocks, of 14] by auto

text \<open>
  C22: \<open>TimeDo\<close> on a task calls the search, process and send methods its library has, in this order and
  on this node, and stops at the first negative result, which it returns; if there is none it
  returns 0. The trace grows by exactly these calls.
\<close>

theorem TimeDo_pipeline:
  assumes "tame T E" "a \<in> set as" "main_log_ok E w" "tasks w as" "cycs w a = Some c"
  shows "\<exists>ret w' es. TimeDo E (Some a) w = Some (ret, w') \<and> pipe_ok (methods c) a es ret \<and>
    tr w' = tr w @ es \<and> tasks w' as"
proof -
  obtain ret w' es where w': "TimeDo E (Some a) w = Some (ret, w')" "touched T a w w' es" "pipe_ok (methods c) a es ret"
    using TimeDo_runs [OF assms(1,2)] assms(3-5) unfolding runs_def by blast
  moreover have "tr w' = tr w @ es" using w'(2) by (simp add: touched_def kept_def)
  ultimately show ?thesis using assms(4) touched_tasks [OF w'(2)] by blast
qed

theorem TimeDo_pipeline_witness:
  "\<exists>w' ret es. TimeDo still (Some 7) demo = Some (ret, w') \<and>
     pipe_ok [(40, \<lambda>r. r), (41, \<lambda>r. r), (42, \<lambda>r. r)] 7 es ret \<and> tr w' = es"
  using TimeDo_pipeline [OF still_tame _ demo_log demo_ok(1) demo_a_simps(1)]
  by (auto simp: methods_def link_def)

text \<open>
  \<open>TimeInit\<close> on a task calls its init and login methods, stops at the first negative result, and
  returns \<open>- 10\<close> when init failed, \<open>- 11\<close> when login failed, 0 otherwise.
\<close>

lemma TimeInit_codes:
  assumes "tame T E" "a \<in> set as" "main_log_ok E w" "tasks w as" "cycs w a = Some c"
  shows "\<exists>ret w' es. TimeInit E (Some a) w = Some (ret, w') \<and> pipe_ok (init_methods c) a es ret \<and>
    tr w' = tr w @ es \<and> tasks w' as \<and> ret \<in> {0, - 10, - 11}"
proof -
  obtain ret w' es where w': "TimeInit E (Some a) w = Some (ret, w')" "touched T a w w' es"
      "pipe_ok (init_methods c) a es ret"
    using TimeInit_runs [OF assms(1,2)] assms(3-5) unfolding runs_def by blast
  have "pipe_ok ms a es r \<Longrightarrow> r = 0 \<or> (\<exists>m\<in>set ms. \<exists>x. r = snd m x)" for ms r
    by (induction ms a es r rule: pipe_ok.induct) (auto split: if_splits)
  then have "ret \<in> {0, - 10, - 11}"
    using w'(3) by (fastforce simp: init_methods_def link_def split: option.splits)
  moreover have "tr w' = tr w @ es" using w'(2) by (simp add: touched_def kept_def)
  ultimately show ?thesis using w' assms(4) touched_tasks [OF w'(2)] by blast
qed

lemma TimeInit_codes_witness: "\<exists>w'. TimeInit still (Some 7) demo = Some (0, w') \<and> tr w' = []"
  using TimeInit_codes [OF still_tame _ demo_log demo_ok(1) demo_a_simps(1)]
  by (auto simp: init_methods_def link_def)

end
