(* ===== verification/ConfLoad.thy ===== *)
theory ConfLoad
  imports World
begin

text \<open>
  Loading the configuration file, \<open>loadFile\<close> of \<^verbatim>\<open>src/main.c\<close>: the file is read line by line, each
  line is trimmed, comment lines are skipped, a blank line after other lines becomes a
  separator entry (one space), and the entries are copied, each with its NUL, into one block
  that grows by 1024 bytes when it runs short.

  The reference is a pure function on the file's text (\<open>conf_entries\<close>); the theorems show that
  the block holds exactly these entries and that no access leaves a buffer.
\<close>

section \<open>loadFile\<close>

text \<open>
  \<open>fgets(s, n + 1, fg)\<close> on the unread rest of a stream: the characters read, the new rest,
  and whether the end of the file was met.
\<close>

fun fgets :: "nat \<Rightarrow> string \<Rightarrow> string \<times> string \<times> bool" where
  "fgets 0 rest = ([], rest, False)"
| "fgets (Suc n) [] = ([], [], True)"
| "fgets (Suc n) (c # rest) =
     (if c = NL then ([c], rest, False)
      else case fgets n rest of (l, rest', eof) \<Rightarrow> (c # l, rest', eof))"

lemma fgets_shrinks: "fgets n rest = (l, rest', False) \<Longrightarrow> 0 < n \<Longrightarrow> length rest' < length rest"
proof (induction n rest arbitrary: l rule: fgets.induct)
  case (3 n c rest)
  then show ?case
    by (cases n) (auto split: if_splits prod.splits)
qed auto

text \<open>
  The lower half of the loop body: make room, copy the entry into the block. \<open>Inl\<close> is the
  return of \<open>NULL\<close> when the bigger block cannot be allocated.
\<close>

definition load_put ::
  "env \<Rightarrow> buf \<Rightarrow> nat \<Rightarrow> int \<Rightarrow> int \<Rightarrow> nat \<Rightarrow> world \<Rightarrow> (world + int \<times> int \<times> nat \<times> world) option" where
  "load_put E chartem temlen maxsize wherenow head w = do {
     g \<leftarrow> (if int temlen \<ge> maxsize - wherenow - 1
          then do {
            maxsize \<leftarrow> cint (maxsize + 1024);
            case malloc E w of
              (None, w) \<Rightarrow> do { w \<leftarrow> free_buf head w; Some (Inl w) }
            | (Some headTem, w) \<Rightarrow> do {
                old \<leftarrow> bufs w head;
                if nat wherenow \<le> length old
                then do {
                  new \<leftarrow> blit (replicate (nat maxsize) NUL) 0 (take (nat wherenow) old);
                  let w = w\<lparr>bufs := (bufs w)(headTem \<mapsto> new)\<rparr>;
                  w \<leftarrow> free_buf head w;
                  Some (Inr (maxsize, headTem, w))
                }
                else None
              }
          }
          else Some (Inr (maxsize, head, w)));
     case g of
       Inl w \<Rightarrow> Some (Inl w)
     | Inr (maxsize, head, w) \<Rightarrow> do {
         blk \<leftarrow> bufs w head;
         blk \<leftarrow> blit blk (nat wherenow) (take temlen chartem);
         wherenow \<leftarrow> cint (wherenow + int temlen + 1);
         Some (Inr (maxsize, wherenow, head, w\<lparr>bufs := (bufs w)(head \<mapsto> blk)\<rparr>))
       }
   }"

text \<open>The \<open>while(1)\<close> loop, with the stream given by its unread rest, and the end of the function.\<close>

function load_loop ::
  "env \<Rightarrow> string \<Rightarrow> bool \<Rightarrow> int \<Rightarrow> int \<Rightarrow> nat \<Rightarrow> world \<Rightarrow> (ptr \<times> world) option" where
  "load_loop E rest iswrite maxsize wherenow head w =
     (case fgets 1022 rest of
        (l, rest', eof) \<Rightarrow>
          if eof
          then if wherenow = 0 then do { w \<leftarrow> free_buf head w; Some (None, w) }
               else Some (Some head, w)
          else do {
            t \<leftarrow> trimspace (Some (l @ replicate (1024 - length l) NUL)) 1024;
            chartem \<leftarrow> t;
            c0 \<leftarrow> rd chartem 0;
            c1 \<leftarrow> rd chartem 1;
            if c0 = CHR ''/'' \<and> c1 = CHR ''/''
            then load_loop E rest' iswrite maxsize wherenow head w
            else do {
              temlen \<leftarrow> strlen chartem;
              if temlen = 0 \<and> \<not> iswrite
              then load_loop E rest' iswrite maxsize wherenow head w
              else do {
                chartem' \<leftarrow> (if temlen = 0 then wr chartem 0 SP else Some chartem);
                p \<leftarrow> load_put E chartem' (if temlen = 0 then 1 else temlen) maxsize wherenow head w;
                case p of
                  Inl w \<Rightarrow> Some (None, w)
                | Inr (maxsize, wherenow, head, w) \<Rightarrow>
                    load_loop E rest' (temlen \<noteq> 0) maxsize wherenow head w
              }
            }
          })"
  by pat_completeness auto
termination
  by (relation "measure (\<lambda>(E, rest, _). length rest)") (auto dest!: fgets_shrinks [OF sym])

declare load_loop.simps [simp del]

definition loadFile :: "env \<Rightarrow> string option \<Rightarrow> world \<Rightarrow> (ptr \<times> world) option" where
  "loadFile E path w =
     (case path of
        None \<Rightarrow> Some (None, w)
      | Some p \<Rightarrow>
          (case fopen_r E p w of
             (None, w) \<Rightarrow> Some (None, w)
           | (Some fg, w) \<Rightarrow>
               (case malloc E w of
                  (None, w) \<Rightarrow> Some (None, w)
                | (Some head, w) \<Rightarrow> do {
                    let w = w\<lparr>bufs := (bufs w)(head \<mapsto> replicate 1024 NUL)\<rparr>;
                    i \<leftarrow> strms w fg;
                    content \<leftarrow> ino w i;
                    load_loop E content False 1024 0 head w
                  })))"

section \<open>What loadFile computes\<close>

text \<open>
  The pieces the loop processes: lines with their newline, cut at 1022 characters. The piece
  that meets the end of the file is not processed.
\<close>

function pieces :: "string \<Rightarrow> string list" where
  "pieces rest = (case fgets 1022 rest of (l, rest', eof) \<Rightarrow> if eof then [] else l # pieces rest')"
  by pat_completeness auto
termination
  by (relation "measure length") (auto dest!: fgets_shrinks [OF sym])

declare pieces.simps [simp del]

definition entry :: "string \<Rightarrow> string" where
  "entry l = trimmed (cstr l)"

fun entries_from :: "bool \<Rightarrow> string list \<Rightarrow> string list" where
  "entries_from iswrite [] = []"
| "entries_from iswrite (l # ls) =
     (if take 2 (entry l) = ''//'' then entries_from iswrite ls
      else if entry l = [] then (if iswrite then [SP] # entries_from False ls else entries_from False ls)
      else entry l # entries_from True ls)"

definition conf_entries :: "string \<Rightarrow> string list" where
  "conf_entries content = entries_from False (pieces content)"

definition block :: "string list \<Rightarrow> buf" where
  "block es = concat (map (\<lambda>e. e @ [NUL]) es)"

lemma block_simps [simp]:
  "block [] = []" "block (e # es) = e @ NUL # block es" "block (es @ fs) = block es @ block fs"
  by (simp_all add: block_def)

text \<open>An entry that \<open>readFile\<close> can tell apart: a separator, or a text that does not start with a space.\<close>

definition good_entry :: "string \<Rightarrow> bool" where
  "good_entry e \<longleftrightarrow> e \<noteq> [] \<and> NUL \<notin> set e \<and> (e = [SP] \<or> hd e \<noteq> SP)"

lemma set_rtrim: "set (rtrim s) \<subseteq> set s"
  unfolding rtrim_def by (metis set_dropWhileD set_rev subsetI)

lemma set_trimmed: "set (trimmed s) \<subseteq> set s"
  using set_rtrim unfolding trimmed_def by (metis set_dropWhileD subset_iff)

lemma entry_no_NUL: "NUL \<notin> set (entry l)"
  using set_trimmed [of "cstr l"] cstr_no_NUL [of l] by (auto simp: entry_def)

lemma entry_hd: "entry l \<noteq> [] \<Longrightarrow> hd (entry l) \<noteq> SP"
  unfolding entry_def trimmed_def by (metis (mono_tags, lifting) hd_dropWhile)

lemma entry_length: "length (entry l) \<le> length l"
proof -
  have "length (trimmed (cstr l)) \<le> length (cstr l)"
    using trimmed_length rtrim_length le_trans by blast
  also have "\<dots> \<le> length l" by (simp add: cstr_def length_takeWhile_le)
  finally show ?thesis by (simp add: entry_def)
qed

lemma entries_from_good: "e \<in> set (entries_from iw ls) \<Longrightarrow> good_entry e"
  by (induction iw ls rule: entries_from.induct)
    (auto simp: good_entry_def entry_no_NUL entry_hd split: if_splits)

lemma fgets_length: "fgets n rest = (l, rest', eof) \<Longrightarrow> length l \<le> n \<and> length l + length rest' = length rest"
proof (induction n rest arbitrary: l rule: fgets.induct)
  case (3 n c rest)
  then show ?case by (auto split: if_splits prod.splits)
qed auto

text \<open>One line in \<open>chartem\<close> after \<open>trimspace\<close>: the entry, a NUL, and the rest of the array.\<close>

lemma chartem_trim:
  assumes "length l \<le> 1022"
  obtains mr where
    "trimspace (Some (l @ replicate (1024 - length l) NUL)) 1024 = Some (Some (entry l @ NUL # mr))"
    "length (entry l @ NUL # mr) = 1024"
proof -
  let ?b = "l @ replicate (1024 - length l) NUL" and ?s = "cstr l"
  define r where "r = drop (Suc (length ?s)) ?b"
  have sl: "length ?s \<le> length l" by (simp add: cstr_def length_takeWhile_le)
  have b: "?b = ?s @ NUL # r"
  proof (cases "NUL \<in> set l")
    case True
    then obtain x y where l: "l = x @ NUL # y" "NUL \<notin> set x"
      by (meson split_list_first)
    then have "?s = x" by (simp add: cstr_app)
    then show ?thesis using l by (simp add: r_def)
  next
    case False
    then have "?s = l" by (auto simp: cstr_def takeWhile_eq_all_conv)
    moreover have "1024 - length l = Suc (1023 - length l)" using assms by simp
    ultimately show ?thesis by (simp add: r_def)
  qed
  have lb: "length ?b = 1024" using assms by simp
  have "trimspace (Some ?b) 1024 = Some (Some (trimmed (take (nat 1024) ?s) @
      replicate (length (take (nat 1024) ?s) - length (trimmed (take (nat 1024) ?s))) NUL
      @ drop (length (take (nat 1024) ?s)) ?b))"
    using lb by (intro trimspace_eq [OF b]) (simp_all add: cstr_no_NUL)
  moreover have "take (nat 1024) ?s = ?s" using sl assms by simp
  moreover have "drop (length ?s) ?b = NUL # r" by (subst b) simp
  ultimately have t: "trimspace (Some ?b) 1024 =
      Some (Some (entry l @ replicate (length ?s - length (entry l)) NUL @ NUL # r))"
    by (simp add: entry_def)
  have el: "length (entry l) \<le> length ?s"
    using trimmed_length [of ?s] rtrim_length [of ?s] by (simp add: entry_def)
  have rl: "length ?s + Suc (length r) = 1024" using lb b by (metis length_Cons length_append)
  show thesis
  proof (rule that)
    show "trimspace (Some ?b) 1024 =
      Some (Some (entry l @ NUL # replicate (length ?s - length (entry l)) NUL @ r))"
      using t by (simp add: replicate_app_Cons_same)
    show "length (entry l @ NUL # replicate (length ?s - length (entry l)) NUL @ r) = 1024"
      using el rl by simp
  qed
qed

section \<open>The block\<close>

text \<open>What loading leaves alone: everything but the buffers.\<close>

definition bufs_only :: "world \<Rightarrow> world \<Rightarrow> bool" where
  "bufs_only w w' \<longleftrightarrow> (\<exists>b n. w' = w\<lparr>bufs := b, brk := n\<rparr> \<and> brk w \<le> n)"

lemma bufs_only_refl [simp]: "bufs_only w w"
  unfolding bufs_only_def by (rule exI [of _ "bufs w"], rule exI [of _ "brk w"]) simp

lemma bufs_only_trans: "bufs_only u v \<Longrightarrow> bufs_only v w \<Longrightarrow> bufs_only u w"
  unfolding bufs_only_def by force

text \<open>
  The invariant of the loop: \<open>head\<close> is a block of \<open>maxsize\<close> bytes that holds the entries
  written so far and is zero from \<open>wherenow\<close> on, with at least one such byte.
\<close>

definition block_at :: "world \<Rightarrow> nat \<Rightarrow> string list \<Rightarrow> int \<Rightarrow> int \<Rightarrow> bool" where
  "block_at w head es maxsize wherenow \<longleftrightarrow>
     wherenow = int (length (block es)) \<and> wherenow < maxsize \<and> maxsize \<le> wherenow + 1024 \<and>
     bufs w head = Some (block es @ replicate (nat (maxsize - wherenow)) NUL)"

lemma load_put_ok:
  assumes b: "block_at w head es maxsize wherenow" and e: "1 \<le> length e" "length e \<le> 1022"
    and ct: "take (length e) chartem = e" and E: "calm E" and fr: "fresh w"
    and mx: "wherenow + int (length e) + 2048 \<le> INT_MAX"
  shows "\<exists>w' m' h'. load_put E chartem (length e) maxsize wherenow head w
      = Some (Inr (m', wherenow + int (length e) + 1, h', w')) \<and>
    block_at w' h' (es @ [e]) m' (wherenow + int (length e) + 1) \<and> bufs_only w w' \<and> fresh w' \<and>
    (\<forall>a. a \<noteq> head \<longrightarrow> a < brk w \<longrightarrow> bufs w' a = bufs w a) \<and> (h' \<noteq> head \<longrightarrow> brk w \<le> h' \<and> bufs w' head = None)"
proof -
  let ?B = "block es" and ?k = "nat (maxsize - wherenow)" and ?wn = "wherenow + int (length e) + 1"
  have wn: "wherenow = int (length ?B)" "wherenow < maxsize" "maxsize \<le> wherenow + 1024"
    and bf: "bufs w head = Some (?B @ replicate ?k NUL)"
    using b by (auto simp: block_at_def)
  have ci: "cint ?wn = Some ?wn"
    using mx wn by (simp add: INT_MIN_def)
  have hb: "head < brk w" using fr bf by (metis fresh_def not_less option.distinct(1))
  have blit: "blit (?B @ replicate k NUL) (nat wherenow) e = Some (?B @ e @ replicate (k - length e) NUL)"
    if "length e \<le> k" for k
    using that wn by (subst blit_app) simp_all
  show ?thesis
  proof (cases "int (length e) \<ge> maxsize - wherenow - 1")
    case False
    let ?w = "w\<lparr>bufs := (bufs w)(head \<mapsto> ?B @ e @ replicate (?k - length e) NUL)\<rparr>"
    have k: "?k - length e = Suc (nat (maxsize - ?wn))" "length e \<le> ?k"
      using False wn by (simp_all add: nat_diff_distrib)
    have "load_put E chartem (length e) maxsize wherenow head w
        = Some (Inr (maxsize, ?wn, head, ?w))"
      using False bf blit [OF k(2)] ci ct by (simp add: load_put_def)
    moreover have "block_at ?w head (es @ [e]) maxsize ?wn"
      using wn False k by (simp add: block_at_def)
    moreover have "bufs_only w ?w"
      unfolding bufs_only_def by (intro exI [of _ "bufs ?w"] exI [of _ "brk w"]) simp
    moreover have "fresh ?w" using fr hb by (auto simp: fresh_def)
    ultimately show ?thesis by auto
  next
    case True
    let ?m = "maxsize + 1024" and ?h = "brk w"
    let ?k' = "nat (?m - wherenow)"
    have k: "?k' - length e = Suc (nat (?m - ?wn))" "length e \<le> ?k'"
      using True wn e by (simp_all add: nat_diff_distrib)
    have cm: "cint ?m = Some ?m" using mx wn True by (simp add: INT_MIN_def)
    have nm: "nat ?m = length ?B + ?k'" using wn by simp
    have new: "blit (replicate (nat ?m) NUL) 0 (take (nat wherenow) (?B @ replicate ?k NUL))
        = Some (?B @ replicate ?k' NUL)"
      using wn nm by (simp add: blit_def)
    let ?w1 = "w\<lparr>brk := Suc ?h, bufs := (bufs w)(?h \<mapsto> ?B @ replicate ?k' NUL, head := None)\<rparr>"
    let ?w = "?w1\<lparr>bufs := (bufs ?w1)(?h \<mapsto> ?B @ e @ replicate (?k' - length e) NUL)\<rparr>"
    have "load_put E chartem (length e) maxsize wherenow head w
        = Some (Inr (?m, ?wn, ?h, ?w))"
      using True bf blit [OF k(2)] ci cm ct new hb E wn
      by (simp add: load_put_def malloc_def calm_def free_buf_def)
    moreover have "block_at ?w ?h (es @ [e]) ?m ?wn"
      using wn True e k by (simp add: block_at_def)
    moreover have "bufs_only w ?w"
      unfolding bufs_only_def by (intro exI [of _ "bufs ?w"] exI [of _ "Suc (brk w)"]) simp
    moreover have "fresh ?w" using fr hb by (auto simp: fresh_def)
    moreover have "\<forall>a. a \<noteq> head \<longrightarrow> a < brk w \<longrightarrow> bufs ?w a = bufs w a" by simp
    moreover have "bufs ?w head = None" using hb by simp
    ultimately show ?thesis by blast
  qed
qed

text \<open>What the loop returns, from a state in which the block is at \<open>head\<close>.\<close>

definition load_result :: "world \<Rightarrow> nat \<Rightarrow> string list \<Rightarrow> (ptr \<times> world) option \<Rightarrow> bool" where
  "load_result w head fs r \<longleftrightarrow> (\<exists>p w'. r = Some (p, w') \<and> bufs_only w w' \<and> fresh w' \<and>
     (\<forall>a. a \<noteq> head \<longrightarrow> a < brk w \<longrightarrow> bufs w' a = bufs w a) \<and>
     (if fs = [] then p = None \<and> bufs w' head = None
      else \<exists>h k. p = Some h \<and> bufs w' h = Some (block fs @ replicate (Suc k) NUL) \<and> k < 1024 \<and>
             (h \<noteq> head \<longrightarrow> brk w \<le> h \<and> bufs w' head = None)))"

lemma load_result_step:
  assumes "load_result w1 h fs r" "fs \<noteq> []" "bufs_only w w1" "head < brk w"
    and "\<forall>a. a \<noteq> head \<longrightarrow> a < brk w \<longrightarrow> bufs w1 a = bufs w a"
    and "h \<noteq> head \<longrightarrow> brk w \<le> h \<and> bufs w1 head = None"
  shows "load_result w head fs r"
proof -
  have br: "brk w \<le> brk w1" using assms(3) by (auto simp: bufs_only_def)
  from assms(1,2) obtain h2 k w' where w': "r = Some (Some h2, w')" "bufs_only w1 w'" "fresh w'"
    "\<forall>a. a \<noteq> h \<longrightarrow> a < brk w1 \<longrightarrow> bufs w' a = bufs w1 a"
    "bufs w' h2 = Some (block fs @ replicate (Suc k) NUL)" "k < 1024"
    "h2 \<noteq> h \<longrightarrow> brk w1 \<le> h2 \<and> bufs w' h = None"
    by (auto simp: load_result_def)
  have "bufs_only w w'" using assms(3) w'(2) by (rule bufs_only_trans)
  moreover have "\<forall>a. a \<noteq> head \<longrightarrow> a < brk w \<longrightarrow> bufs w' a = bufs w a"
    using w'(4) assms(5,6) br by (metis less_le_trans not_less)
  moreover have "h2 \<noteq> head \<longrightarrow> brk w \<le> h2 \<and> bufs w' head = None"
    using w'(4,7) assms(4,6) br by (metis le_trans less_le_trans)
  ultimately show ?thesis
    using w' assms(2) by (simp add: load_result_def)
qed

lemma block_at_allocated: "block_at w head es mx wn \<Longrightarrow> fresh w \<Longrightarrow> head < brk w"
  by (metis block_at_def fresh_def not_less option.distinct(1))

lemma block_empty: "block es = [] \<longleftrightarrow> es = []"
  by (cases es) auto

text \<open>The two reads of the comment test, on a trimmed line.\<close>

lemma comment_test:
  "length (e @ NUL # mr) = 1024 \<Longrightarrow> NUL \<notin> set e \<Longrightarrow>
     ((e @ NUL # mr) ! 0 = CHR ''/'' \<and> (e @ NUL # mr) ! 1 = CHR ''/'') \<longleftrightarrow> take 2 e = ''//''"
  by (cases e; cases "tl e") auto

text \<open>One turn of the loop on a line: what is stored for it, and whether anything is.\<close>

definition stored :: "string \<Rightarrow> string" where
  "stored l = (if entry l = [] then [SP] else entry l)"

lemma load_loop_line:
  assumes fg: "fgets 1022 rest = (l, rest', False)"
  obtains ct where "take (length (stored l)) ct = stored l"
    "load_loop E rest iw mx wn head w =
       (if take 2 (entry l) = ''//'' then load_loop E rest' iw mx wn head w
        else if entry l = [] \<and> \<not> iw then load_loop E rest' iw mx wn head w
        else load_put E ct (length (stored l)) mx wn head w \<bind>
          (\<lambda>p. case p of Inl w \<Rightarrow> Some (None, w)
             | Inr (maxsize, wherenow, head, w) \<Rightarrow>
                 load_loop E rest' (entry l \<noteq> []) maxsize wherenow head w))"
proof -
  have ll: "length l \<le> 1022" using fgets_length [OF fg] by simp
  obtain mr where tr: "trimspace (Some (l @ replicate (1024 - length l) NUL)) 1024
      = Some (Some (entry l @ NUL # mr))" and lm: "length (entry l @ NUL # mr) = 1024"
    using ll by (auto elim: chartem_trim)
  have nn: "NUL \<notin> set (entry l)" by (rule entry_no_NUL)
  let ?ct = "entry l @ NUL # mr"
  let ?ct' = "if entry l = [] then ?ct[0 := SP] else ?ct"
  have sl: "strlen ?ct = Some (length (entry l))"
    using nn by (simp add: strlen_cstr cstr_app)
  have rd: "rd ?ct 0 = Some (?ct ! 0)" "rd ?ct 1 = Some (?ct ! 1)"
    using lm by (simp_all del: length_append list.size)
  have cm: "(?ct ! 0 = CHR ''/'' \<and> ?ct ! 1 = CHR ''/'') \<longleftrightarrow> take 2 (entry l) = ''//''"
    using comment_test [OF lm nn] .
  show thesis
  proof (rule that [of ?ct'])
    show "take (length (stored l)) ?ct' = stored l" by (simp add: stored_def)
    show "load_loop E rest iw mx wn head w =
       (if take 2 (entry l) = ''//'' then load_loop E rest' iw mx wn head w
        else if entry l = [] \<and> \<not> iw then load_loop E rest' iw mx wn head w
        else load_put E ?ct' (length (stored l)) mx wn head w \<bind>
          (\<lambda>p. case p of Inl w \<Rightarrow> Some (None, w)
             | Inr (maxsize, wherenow, head, w) \<Rightarrow>
                 load_loop E rest' (entry l \<noteq> []) maxsize wherenow head w))"
      using fg tr rd cm sl by (subst load_loop.simps) (auto simp: stored_def simp del: rd_lt)
  qed
qed

text \<open>Storing an entry and going on, given that the rest of the loop is right.\<close>

lemma load_put_rec:
  assumes b: "block_at w head es mx wn" and fr: "fresh w" and E: "calm E"
    and e: "1 \<le> length e" "length e \<le> 1022" "take (length e) ct = e"
    and mx: "wn + int (length e) + 2048 \<le> INT_MAX"
    and rec: "\<And>m h v. block_at v h (es @ [e]) m (wn + int (length e) + 1) \<Longrightarrow> fresh v \<Longrightarrow>
      load_result v h ((es @ [e]) @ fs) (k m (wn + int (length e) + 1) h v)"
  shows "load_result w head (es @ e # fs)
    (load_put E ct (length e) mx wn head w \<bind> (\<lambda>p. case p of Inl w \<Rightarrow> Some (None, w)
       | Inr (maxsize, wherenow, head, w) \<Rightarrow> k maxsize wherenow head w))"
proof -
  have hb: "head < brk w" using b fr by (rule block_at_allocated)
  obtain w' m' h' where w': "load_put E ct (length e) mx wn head w
      = Some (Inr (m', wn + int (length e) + 1, h', w'))"
    "block_at w' h' (es @ [e]) m' (wn + int (length e) + 1)" "bufs_only w w'" "fresh w'"
    "\<forall>a. a \<noteq> head \<longrightarrow> a < brk w \<longrightarrow> bufs w' a = bufs w a"
    "h' \<noteq> head \<longrightarrow> brk w \<le> h' \<and> bufs w' head = None"
    using load_put_ok [OF b e(1,2,3) E fr mx] by blast
  show ?thesis
    using load_result_step [OF rec [OF w'(2,4)] _ w'(3) hb w'(5,6)] w'(1) by simp
qed

lemma load_loop_eof:
  assumes "fgets 1022 rest = (l, rest', True)" "block_at w head es mx wn" "fresh w"
  shows "load_result w head es (load_loop E rest iw mx wn head w)"
proof (cases "es = []")
  case True
  let ?w = "w\<lparr>bufs := (bufs w)(head := None)\<rparr>"
  have "bufs_only w ?w"
    unfolding bufs_only_def by (intro exI [of _ "bufs ?w"] exI [of _ "brk w"]) simp
  moreover have "fresh ?w" using assms(3) by (auto simp: fresh_def)
  ultimately show ?thesis
    using True assms by (subst load_loop.simps) (simp add: load_result_def free_buf_def block_at_def)
next
  case False
  obtain k where "nat (mx - wn) = Suc k" "k < 1024"
    using assms(2) by (cases "nat (mx - wn)") (auto simp: block_at_def)
  then show ?thesis
    using False assms block_empty [of es]
    by (subst load_loop.simps) (auto simp: load_result_def block_at_def)
qed

lemma load_loop_ok:
  assumes E: "calm E"
  shows "block_at w head es mx wn \<Longrightarrow> fresh w \<Longrightarrow> wn + 2 * int (length rest) + 2048 \<le> INT_MAX \<Longrightarrow>
    load_result w head (es @ entries_from iw (pieces rest)) (load_loop E rest iw mx wn head w)"
proof (induction rest arbitrary: iw mx wn head w es rule: length_induct)
  case (1 rest)
  note IH = "1.IH" [rule_format] and b = "1.prems"(1) and fr = "1.prems"(2) and sz = "1.prems"(3)
  obtain l rest' eof where fg: "fgets 1022 rest = (l, rest', eof)" by (metis prod_cases3)
  have ll: "length l \<le> 1022" "length l + length rest' = length rest"
    using fgets_length [OF fg] by simp_all
  show ?case
  proof (cases eof)
    case True
    then have "pieces rest = []" using fg by (subst pieces.simps) simp
    then show ?thesis using load_loop_eof [of rest l rest', OF _ b fr] fg True by simp
  next
    case False
    then have sh: "length rest' < length rest" using fg fgets_shrinks [of 1022] by simp
    have p: "pieces rest = l # pieces rest'" using fg False by (subst pieces.simps) simp
    have sl: "1 \<le> length (stored l)" "length (stored l) \<le> length l"
      using entry_length [of l] sh ll by (auto simp: stored_def Suc_le_eq)
    have rec: "load_result w head (es @ entries_from iw' (pieces rest'))
        (load_loop E rest' iw' mx wn head w)" for iw'
      using sh b fr sz by (intro IH) simp_all
    have put: "load_result w head (es @ stored l # entries_from iw' (pieces rest'))
        (load_put E ct (length (stored l)) mx wn head w \<bind> (\<lambda>p. case p of Inl w \<Rightarrow> Some (None, w)
           | Inr (maxsize, wherenow, head, w) \<Rightarrow> load_loop E rest' iw' maxsize wherenow head w))"
      if "take (length (stored l)) ct = stored l" for ct iw'
      using sl ll sz sh that by (intro load_put_rec [OF b fr E] IH) simp_all
    obtain ct where ct: "take (length (stored l)) ct = stored l"
      and un: "load_loop E rest iw mx wn head w =
       (if take 2 (entry l) = ''//'' then load_loop E rest' iw mx wn head w
        else if entry l = [] \<and> \<not> iw then load_loop E rest' iw mx wn head w
        else load_put E ct (length (stored l)) mx wn head w \<bind>
          (\<lambda>p. case p of Inl w \<Rightarrow> Some (None, w)
             | Inr (maxsize, wherenow, head, w) \<Rightarrow>
                 load_loop E rest' (entry l \<noteq> []) maxsize wherenow head w))"
      using fg False by (auto elim: load_loop_line)
    show ?thesis
      using un rec [of iw] put [OF ct, of False] put [OF ct, of True] p by (auto simp: stored_def)
  qed
qed

lemma loadFile_ok:
  assumes E: "calm E" and fr: "fresh w" and ct: "file_text w p = Some content"
    and sz: "2 * int (length content) + 2048 \<le> INT_MAX"
  shows "\<exists>w1. load_result w1 (Suc (brk w)) (conf_entries content) (loadFile E (Some p) w) \<and>
    fresh w1 \<and> brk w1 = brk w + 2 \<and>
    (\<exists>i. dir w p = Some i \<and>
      w1 = w\<lparr>strms := (strms w)(brk w \<mapsto> i), brk := brk w + 2,
             bufs := (bufs w)(Suc (brk w) \<mapsto> replicate 1024 NUL)\<rparr>)"
proof -
  obtain i where i: "dir w p = Some i" "ino w i = Some content"
    using ct by (auto simp: file_text_def bind_eq_Some_conv)
  let ?w = "w\<lparr>strms := (strms w)(brk w \<mapsto> i), brk := brk w + 2,
             bufs := (bufs w)(Suc (brk w) \<mapsto> replicate 1024 NUL)\<rparr>"
  have fw: "fresh ?w" using fr by (auto simp: fresh_def)
  have "block_at ?w (Suc (brk w)) [] 1024 0" by (simp add: block_at_def)
  then have "load_result ?w (Suc (brk w)) ([] @ entries_from False (pieces content))
      (load_loop E content False 1024 0 (Suc (brk w)) ?w)"
    using sz by (intro load_loop_ok [OF E _ fw]) simp_all
  moreover have "loadFile E (Some p) w = load_loop E content False 1024 0 (Suc (brk w)) ?w"
    using i E by (simp add: loadFile_def fopen_r_def malloc_def calm_def Let_def)
  ultimately show ?thesis using i fw by (auto simp: conf_entries_def)
qed

text \<open>The block is at most twice as long as the file.\<close>

lemma block_length: "length (block (entries_from iw (pieces rest))) \<le> 2 * length rest"
proof (induction rest arbitrary: iw rule: length_induct)
  case (1 rest)
  obtain l rest' eof where fg: "fgets 1022 rest = (l, rest', eof)" by (metis prod_cases3)
  have ll: "length l + length rest' = length rest" using fgets_length [OF fg] by simp
  show ?case
  proof (cases eof)
    case True
    then have "pieces rest = []" using fg by (subst pieces.simps) simp
    then show ?thesis by simp
  next
    case False
    then have sh: "length rest' < length rest" using fg fgets_shrinks [of 1022] by simp
    have p: "pieces rest = l # pieces rest'" using fg False by (subst pieces.simps) simp
    have IH: "length (block (entries_from iw' (pieces rest'))) \<le> 2 * length rest'" for iw'
      using "1.IH" sh by blast
    show ?thesis
      using IH [of iw] IH [of True] IH [of False] entry_length [of l] ll sh by (auto simp: p)
  qed
qed

lemma loadFile_holds:
  assumes "calm E" "fresh w" "file_text w p = Some content" "2 * int (length content) + 2048 \<le> INT_MAX"
  shows "\<exists>r w'. loadFile E (Some p) w = Some (r, w') \<and> fresh w' \<and>
    (if conf_entries content = [] then r = None
     else \<exists>h k. r = Some h \<and> bufs w' h = Some (block (conf_entries content) @ replicate (Suc k) NUL) \<and> k < 1024)"
proof -
  obtain w1 where "load_result w1 (Suc (brk w)) (conf_entries content) (loadFile E (Some p) w)"
    using loadFile_ok [OF assms] by blast
  then show ?thesis unfolding load_result_def by metis
qed

section \<open>Lines\<close>

lemma fgets_line:
  "NL \<notin> set l \<Longrightarrow> length l < n \<Longrightarrow> fgets n (l @ NL # rest) = (l @ [NL], rest, False)"
proof (induction l arbitrary: n)
  case Nil
  then show ?case by (cases n) simp_all
next
  case (Cons c l)
  then show ?case by (cases n) auto
qed

lemma fgets_tail: "NL \<notin> set t \<Longrightarrow> length t < n \<Longrightarrow> fgets n t = (t, [], True)"
proof (induction t arbitrary: n)
  case Nil
  then show ?case by (cases n) simp_all
next
  case (Cons c l)
  then show ?case by (cases n) auto
qed

lemma pieces_line:
  "NL \<notin> set l \<Longrightarrow> length l < 1022 \<Longrightarrow> pieces (l @ NL # rest) = (l @ [NL]) # pieces rest"
  by (subst pieces.simps) (simp add: fgets_line)

lemma pieces_tail: "NL \<notin> set t \<Longrightarrow> length t < 1022 \<Longrightarrow> pieces t = []"
  by (subst pieces.simps) (simp add: fgets_tail)

text \<open>A text made of whole lines.\<close>

definition text_of :: "string list \<Rightarrow> string" where
  "text_of ls = concat (map (\<lambda>l. l @ [NL]) ls)"

lemma pieces_text:
  assumes "NL \<notin> set t" "length t < 1022"
  shows "\<forall>l\<in>set ls. NL \<notin> set l \<and> length l < 1022 \<Longrightarrow>
    pieces (text_of ls @ t) = map (\<lambda>l. l @ [NL]) ls"
proof (induction ls)
  case Nil
  then show ?case using pieces_tail [OF assms] by (simp add: text_of_def)
next
  case (Cons l ls)
  then show ?case using pieces_line [of l "text_of ls @ t"] by (simp add: text_of_def)
qed

section \<open>A concrete file\<close>

definition disk :: "string \<Rightarrow> world" where
  "disk content = boot\<lparr>brk := 1, dir := [''c'' \<mapsto> 0], ino := [0 \<mapsto> content]\<rparr>"

lemma disk_ok [simp]: "fresh (disk s)" "file_text (disk s) ''c'' = Some s"
  by (simp_all add: disk_def fresh_def boot_def file_text_def)

section \<open>Properties\<close>

text \<open>
  C17: \<open>loadFile\<close> on a readable file returns a block that holds exactly the entries of the file, each
  followed by a NUL, with a further NUL as the end mark, and NULL when there is no entry. It
  always returns, and no access leaves a buffer, however long the lines and the file are below the
  range of an int.
\<close>

theorem loadFile_correct:
  assumes "calm E" "fresh w" "file_text w p = Some content" "2 * int (length content) + 2048 \<le> INT_MAX"
  shows "\<exists>r w'. loadFile E (Some p) w = Some (r, w') \<and> fresh w' \<and>
    (if conf_entries content = [] then r = None
     else \<exists>h k. r = Some h \<and> bufs w' h = Some (block (conf_entries content) @ replicate (Suc k) NUL) \<and> k < 1024)"
  using loadFile_holds [OF assms] .

theorem loadFile_correct_witness:
  "\<exists>h k w'. loadFile still (Some ''c'') (disk (''// x'' @ [NL] @ ''  a'' @ [NL, NL, NL] @ ''k:1'' @ [NL])) = Some (Some h, w') \<and>
     bufs w' h = Some (''a'' @ [NUL, SP, NUL] @ ''k:1'' @ [NUL] @ replicate (Suc k) NUL)"
proof -
  have "conf_entries (''// x'' @ [NL] @ ''  a'' @ [NL, NL, NL] @ ''k:1'' @ [NL]) = [''a'', '' '', ''k:1'']"
    by code_simp
  then show ?thesis
    using loadFile_correct [OF still_calm disk_ok, of "''// x'' @ [NL] @ ''  a'' @ [NL, NL, NL] @ ''k:1'' @ [NL]"]
    by (auto simp: INT_MAX_def)
qed

text \<open>
  C18: The last line of a file is dropped when it does not end with a newline: \<open>fgets\<close> then meets the
  end of the file, and the loop is left before the line is looked at.
\<close>

theorem loadFile_drops_last_line:
  assumes "\<forall>l\<in>set ls. NL \<notin> set l \<and> length l < 1022" "NL \<notin> set t" "length t < 1022"
    and "calm E" "fresh w" "file_text w p = Some (text_of ls @ t)"
    and "2 * int (length (text_of ls @ t)) + 2048 \<le> INT_MAX"
  shows "\<exists>r w'. loadFile E (Some p) w = Some (r, w') \<and>
    (if conf_entries (text_of ls) = [] then r = None
     else \<exists>h k. r = Some h \<and> bufs w' h = Some (block (conf_entries (text_of ls)) @ replicate (Suc k) NUL))"
proof -
  have "conf_entries (text_of ls @ t) = conf_entries (text_of ls)"
    using pieces_text [OF assms(2,3,1)] pieces_text [of "[]", OF _ _ assms(1)] by (simp add: conf_entries_def)
  then show ?thesis using loadFile_holds [OF assms(4-7)] by metis
qed

theorem loadFile_drops_last_line_witness:
  "\<exists>h k w'. loadFile still (Some ''c'') (disk (''a'' @ [NL] @ ''k:1'')) = Some (Some h, w') \<and>
     bufs w' h = Some (''a'' @ NUL # replicate (Suc k) NUL)"
proof -
  have "conf_entries (text_of [''a'']) = [''a'']" by code_simp
  then show ?thesis
    using loadFile_drops_last_line [of "[''a'']" "''k:1''" still "disk (''a'' @ [NL] @ ''k:1'')" "''c''"]
    by (auto simp: INT_MAX_def text_of_def)
qed

end
