(* ===== verification/ConfRead.thy ===== *)
theory ConfRead
  imports ConfLoad
begin

text \<open>
  The parser of the configuration block, from \<^verbatim>\<open>src/main.c\<close>: \<open>readFile\<close> turns the block into a
  list of sections (\<open>filedate\<close>), each with a list of key/value pairs (\<open>onedate\<close>, built by
  \<open>fetchInf\<close>), and \<open>freeFiledate\<close> releases the list.

  The stack objects of \<open>readFile\<close> whose address is taken (\<open>filefirst\<close>, \<open>onehead\<close>) are objects of
  the heaps for the time of the call.
\<close>

section \<open>freeFiledate\<close>

partial_function (option) free_ones :: "ptr \<Rightarrow> world \<Rightarrow> world option" where
  "free_ones oneAA w =
     (case oneAA of
        None \<Rightarrow> Some w
      | Some a \<Rightarrow> do {
          o1 \<leftarrow> ones w a;
          w \<leftarrow> free_one a w;
          free_ones (od_next o1) w
        })"

partial_function (option) free_files :: "ptr \<Rightarrow> world \<Rightarrow> world option" where
  "free_files fileAA w =
     (case fileAA of
        None \<Rightarrow> Some w
      | Some a \<Rightarrow> do {
          f \<leftarrow> files w a;
          w \<leftarrow> (if fd_date f \<noteq> None then free_ones (fd_date f) w else Some w);
          f \<leftarrow> files w a;
          w \<leftarrow> free_file a w;
          free_files (fd_next f) w
        })"

definition freeFiledate :: "ptr \<Rightarrow> world \<Rightarrow> (int \<times> world) option" where
  "freeFiledate dat w =
     (if dat = None then Some (0, w) else do { w \<leftarrow> free_files dat w; Some (0, w) })"

section \<open>fetchInf\<close>

text \<open>The index at which the search loop is left: at a NUL by a return, at a colon by a break.\<close>

function colon_from :: "buf \<Rightarrow> nat \<Rightarrow> nat option" where
  "colon_from b i = do { c \<leftarrow> rd b i; if c = NUL \<or> c = CHR '':'' then Some i else colon_from b (Suc i) }"
  by pat_completeness auto
termination
  by (relation "measure (\<lambda>(b, i). length b - i)") (auto simp: rd_eq_Some)

declare colon_from.simps [simp del]

interpretation cl: scan_loop "\<lambda>c. c = NUL \<or> c = CHR '':''" colon_from
  by unfold_locales (rule colon_from.simps)

definition fetchInf :: "env \<Rightarrow> cptr \<Rightarrow> world \<Rightarrow> (ptr \<times> world) option" where
  "fetchInf E datep w =
     (case datep of
        None \<Rightarrow> Some (None, w)
      | Some (b, off) \<Rightarrow> do {
          blk \<leftarrow> bufs w b;
          let date = drop off blk;
          tt \<leftarrow> colon_from date 0;
          c \<leftarrow> rd date tt;
          if c = NUL then Some (None, w)
          else if tt = 0 then Some (None, w)
          else do {
            d \<leftarrow> rd date (tt + 1);
            if d = NUL then Some (None, w)
            else case malloc E w of
              (None, w) \<Rightarrow> None
            | (Some res, w) \<Rightarrow> do {
                vl \<leftarrow> strlen (drop (tt + 1) date);
                let o1 = zero_onedate
                      \<lparr>od_key := \<lparr>ms_date = Some (b, off), ms_len = to_cint tt\<rparr>,
                       od_value := \<lparr>ms_date = Some (b, off + tt + 1), ms_len = to_cint vl\<rparr>\<rparr>;
                Some (Some res, w\<lparr>ones := (ones w)(res \<mapsto> o1)\<rparr>)
              }
          }
        })"

section \<open>readFile\<close>

text \<open>\<open>strncpy(dst, src, n)\<close>.\<close>

definition strncpy :: "buf \<Rightarrow> buf \<Rightarrow> nat \<Rightarrow> buf option" where
  "strncpy dst src n =
     (if readable n src \<and> n \<le> length dst
      then Some (name_of n src @ replicate (n - length (name_of n src)) NUL @ drop n dst)
      else None)"

text \<open>
  The loop of \<open>readFile\<close>; \<open>blk\<close> is the block \<open>head\<close> points to, \<open>ff\<close> and \<open>oh\<close> the addresses of
  \<open>filefirst\<close> and \<open>onehead\<close>. The result is the return value with the pointer stored through
  \<open>res\<close>, if it is stored.
\<close>

function read_loop ::
  "env \<Rightarrow> buf \<Rightarrow> nat \<Rightarrow> nat \<Rightarrow> bool \<Rightarrow> nat \<Rightarrow> nat \<Rightarrow> nat \<Rightarrow> nat \<Rightarrow> world
     \<Rightarrow> (int \<times> ptr option \<times> world) option" where
  "read_loop E blk head wherenow isnest filetem onetem ff oh w = do {
     c \<leftarrow> rd blk wherenow;
     if c = NUL
     then do {
       onehead \<leftarrow> ones w oh;
       w \<leftarrow> upd_file filetem (\<lambda>f. f\<lparr>fd_date := od_next onehead\<rparr>) w;
       filefirst \<leftarrow> files w ff;
       Some (0, Some (fd_next filefirst), w)
     }
     else if c = SP
     then do {
       onehead \<leftarrow> ones w oh;
       w \<leftarrow> upd_file filetem (\<lambda>f. f\<lparr>fd_date := od_next onehead\<rparr>) w;
       read_loop E blk head (wherenow + 2) True filetem onetem ff oh w
     }
     else if isnest
     then case malloc E w of
         (None, w) \<Rightarrow> None
       | (Some a, w) \<Rightarrow> do {
           w \<leftarrow> upd_file filetem (\<lambda>f. f\<lparr>fd_next := Some a\<rparr>) w;
           nm \<leftarrow> strncpy (fd_name zero_filedate) (drop wherenow blk) 31;
           let w = w\<lparr>files := (files w)(a \<mapsto> zero_filedate\<lparr>fd_name := nm\<rparr>)\<rparr>;
           l \<leftarrow> strlen (drop wherenow blk);
           w \<leftarrow> upd_one oh (\<lambda>_. zero_onedate) w;
           read_loop E blk head (wherenow + l + 1) False a oh ff oh w
         }
     else do {
       (p, w) \<leftarrow> fetchInf E (Some (head, wherenow)) w;
       w \<leftarrow> upd_one onetem (\<lambda>o1. o1\<lparr>od_next := p\<rparr>) w;
       case p of
         None \<Rightarrow> do {
           filefirst \<leftarrow> files w ff;
           (_, w) \<leftarrow> freeFiledate (fd_next filefirst) w;
           Some (- 2, None, w)
         }
       | Some a \<Rightarrow> do {
           l \<leftarrow> strlen (drop wherenow blk);
           read_loop E blk head (wherenow + l + 1) False filetem a ff oh w
         }
     }
   }"
  by pat_completeness auto
termination
  by (relation "measure (\<lambda>(E, blk, head, wn, _). length blk - wn)") (auto simp: rd_eq_Some)

declare read_loop.simps [simp del]

definition readFile :: "env \<Rightarrow> ptr \<Rightarrow> bool \<Rightarrow> world \<Rightarrow> (int \<times> world) option" where
  "readFile E dat res w =
     (case dat of
        None \<Rightarrow> Some (- 1, w)
      | Some head \<Rightarrow>
          if \<not> res then Some (- 1, w)
          else do {
            let ff = brk w;
            let oh = Suc (brk w);
            let w = w\<lparr>brk := brk w + 2, files := (files w)(ff \<mapsto> zero_filedate),
                      ones := (ones w)(oh \<mapsto> zero_onedate)\<rparr>;
            blk \<leftarrow> bufs w head;
            (ret, out, w) \<leftarrow> read_loop E blk head 0 True ff oh ff oh w;
            let w = w\<lparr>files := (files w)(ff := None), ones := (ones w)(oh := None)\<rparr>;
            Some (ret, case out of None \<Rightarrow> w | Some p \<Rightarrow> w\<lparr>filehead := p\<rparr>)
          })"

section \<open>Freeing a list of sections\<close>

lemma free_ones_eq:
  "lpath od_next (ones w) p os None \<Longrightarrow>
     free_ones p w = Some (w\<lparr>ones := drop_addrs os (ones w)\<rparr>)"
proof (induction os arbitrary: p w)
  case Nil
  then show ?case by (simp add: free_ones.simps)
next
  case (Cons a os)
  then obtain n where n: "ones w a = Some n" "p = Some a" "lpath od_next (ones w) (od_next n) os None"
    by (auto split: option.splits)
  let ?w = "w\<lparr>ones := (ones w)(a := None)\<rparr>"
  have "lpath od_next (ones ?w) (od_next n) os None"
    using one_list.unlink_head [OF Cons.prems n(1)] by simp
  then have "free_ones (od_next n) ?w = Some (?w\<lparr>ones := drop_addrs os (ones ?w)\<rparr>)"
    by (rule Cons.IH)
  then show ?case
    using n by (simp add: free_ones.simps [of "Some a"] free_one_def drop_addrs_Cons)
qed

text \<open>A cell is a section node with the addresses of its pairs.\<close>

definition cell_ok :: "world \<Rightarrow> nat \<times> nat list \<Rightarrow> bool" where
  "cell_ok w c \<longleftrightarrow> (\<exists>f. files w (fst c) = Some f \<and> lpath od_next (ones w) (fd_date f) (snd c) None)"

lemma free_files_eq:
  "lpath fd_next (files w) p (map fst cells) None \<Longrightarrow> \<forall>c\<in>set cells. cell_ok w c \<Longrightarrow>
     distinct (concat (map snd cells)) \<Longrightarrow>
     free_files p w = Some (w\<lparr>files := drop_addrs (map fst cells) (files w),
                              ones := drop_addrs (concat (map snd cells)) (ones w)\<rparr>)"
proof (induction cells arbitrary: p w)
  case Nil
  then show ?case by (simp add: free_files.simps)
next
  case (Cons c cells)
  obtain a os where c: "c = (a, os)" by (cases c)
  obtain f where f: "files w a = Some f" "p = Some a"
      "lpath od_next (ones w) (fd_date f) os None"
    using Cons.prems c by (auto simp: cell_ok_def split: option.splits)
  let ?w1 = "w\<lparr>ones := drop_addrs os (ones w)\<rparr>"
  let ?w = "?w1\<lparr>files := (files w)(a := None)\<rparr>"
  have fo: "(if fd_date f \<noteq> None then free_ones (fd_date f) w else Some w) = Some ?w1"
    using f free_ones_eq [OF f(3)] by (cases "fd_date f") auto
  have ph: "lpath fd_next (files w) p (a # map fst cells) None" using Cons.prems(1) c by simp
  have "lpath fd_next (files ?w) (fd_next f) (map fst cells) None"
    using file_list.unlink_head [OF ph f(1)] by simp
  moreover have "\<forall>c\<in>set cells. cell_ok ?w c"
  proof
    fix d
    assume d: "d \<in> set cells"
    then have "fst d \<noteq> a" using lpath_head_notin_tail [OF ph] by auto
    moreover have "set (snd d) \<inter> set os = {}" using Cons.prems(3) d c by auto
    ultimately show "cell_ok ?w d"
      using Cons.prems(2) d by (auto simp: cell_ok_def lpath_drop_addrs)
  qed
  moreover have "distinct (concat (map snd cells))" using Cons.prems(3) by simp
  ultimately have "free_files (fd_next f) ?w =
      Some (?w\<lparr>files := drop_addrs (map fst cells) (files ?w),
               ones := drop_addrs (concat (map snd cells)) (ones ?w)\<rparr>)"
    by (rule Cons.IH)
  then show ?case
    using f c fo
    by (simp add: free_files.simps [of "Some a"] free_file_def drop_addrs_Cons drop_addrs_append)
qed

section \<open>One pair\<close>

definition split_kv :: "string \<Rightarrow> (string \<times> string) option" where
  "split_kv e =
     (let k = takeWhile (\<lambda>c. c \<noteq> CHR '':'') e; v = drop (Suc (length k)) e
      in if k = [] \<or> v = [] then None else Some (k, v))"

text \<open>The text a \<open>mystring\<close> denotes: \<open>len\<close> characters from \<open>date\<close> on.\<close>

definition ms_text :: "world \<Rightarrow> mystring \<Rightarrow> string option" where
  "ms_text w m =
     (case ms_date m of
        None \<Rightarrow> None
      | Some (b, off) \<Rightarrow> do {
          blk \<leftarrow> bufs w b;
          if off + nat (ms_len m) \<le> length blk then Some (take (nat (ms_len m)) (drop off blk)) else None
        })"

definition one_at :: "world \<Rightarrow> nat \<Rightarrow> string \<times> string \<Rightarrow> bool" where
  "one_at w a kv \<longleftrightarrow> (\<exists>n. ones w a = Some n \<and>
     ms_text w (od_key n) = Some (fst kv) \<and> ms_text w (od_value n) = Some (snd kv))"

lemma colon_split:
  assumes "NUL \<notin> set e"
  defines "k \<equiv> takeWhile (\<lambda>c. c \<noteq> CHR '':'') e"
  shows "colon_from (e @ NUL # post) 0 = Some (length k)"
    and "rd (e @ NUL # post) (length k) = Some (if CHR '':'' \<in> set e then CHR '':'' else NUL)"
proof -
  let ?stop = "\<lambda>c. \<not> (c = NUL \<or> c = CHR '':'')"
  have tw: "takeWhile ?stop e = k"
    unfolding k_def using assms(1) by (intro takeWhile_cong) auto
  have "takeWhile ?stop (e @ NUL # post) = k"
  proof (cases "CHR '':'' \<in> set e")
    case True
    then have "takeWhile ?stop (e @ NUL # post) = takeWhile ?stop e"
      by (metis (mono_tags, lifting) takeWhile_append1)
    then show ?thesis using tw by simp
  next
    case False
    then have "\<forall>c\<in>set e. ?stop c" using assms(1) by metis
    then have "takeWhile ?stop (e @ NUL # post) = e" by (intro takeWhile_replicate_app) auto
    moreover have "k = e" using False by (auto simp: k_def takeWhile_eq_all_conv)
    ultimately show ?thesis by simp
  qed
  then show "colon_from (e @ NUL # post) 0 = Some (length k)"
    using cl.scan_found [of 0 "e @ NUL # post"] by auto
  show "rd (e @ NUL # post) (length k) = Some (if CHR '':'' \<in> set e then CHR '':'' else NUL)"
  proof (cases "CHR '':'' \<in> set e")
    case True
    then have "length k < length e" "e ! length k = CHR '':''"
      using takeWhile_length_nth [of "CHR '':''" e "\<lambda>c. c \<noteq> CHR '':''"] unfolding k_def by auto
    then show ?thesis using True by (simp add: rd_def nth_append)
  next
    case False
    then have "k = e" by (auto simp: k_def takeWhile_eq_all_conv)
    then show ?thesis using False by (simp add: rd_def)
  qed
qed

definition mk_one :: "nat \<Rightarrow> nat \<Rightarrow> string \<Rightarrow> string \<Rightarrow> onedate" where
  "mk_one b off k v =
     \<lparr>od_key = \<lparr>ms_date = Some (b, off), ms_len = int (length k)\<rparr>,
      od_value = \<lparr>ms_date = Some (b, off + length k + 1), ms_len = int (length v)\<rparr>,
      od_next = None\<rparr>"

lemma split_kv_Some:
  assumes "split_kv e = Some (k, v)"
  shows "e = k @ CHR '':'' # v" "k \<noteq> []" "v \<noteq> []" "CHR '':'' \<notin> set k"
proof -
  let ?P = "\<lambda>c. c \<noteq> CHR '':''"
  have k: "k = takeWhile ?P e" "v = drop (Suc (length k)) e" "k \<noteq> []" "v \<noteq> []"
    using assms by (auto simp: split_kv_def Let_def split: if_splits)
  then have "length k < length e" by (metis Suc_lessD drop_all not_less)
  then have "\<not> ?P (e ! length k)" using k(1) nth_length_takeWhile by blast
  then have "drop (length k) e = CHR '':'' # v"
    using \<open>length k < length e\<close> k(2) by (simp add: Cons_nth_drop_Suc [symmetric])
  moreover have "take (length k) e = k" using k(1) by (simp add: takeWhile_eq_take [symmetric])
  ultimately show "e = k @ CHR '':'' # v" by (metis append_take_drop_id)
  show "CHR '':'' \<notin> set k" using k(1) by (auto dest: set_takeWhileD)
qed (use assms in \<open>auto simp: split_kv_def Let_def split: if_splits\<close>)

lemma fetchInf_eq:
  assumes b: "bufs w b = Some (pre @ e @ NUL # post)" and e: "NUL \<notin> set e" "length e < 2 ^ 31"
    and E: "calm E"
  shows "fetchInf E (Some (b, length pre)) w =
    (case split_kv e of
       None \<Rightarrow> Some (None, w)
     | Some (k, v) \<Rightarrow> Some (Some (brk w),
         w\<lparr>brk := Suc (brk w), ones := (ones w)(brk w \<mapsto> mk_one b (length pre) k v)\<rparr>))"
proof -
  let ?k = "takeWhile (\<lambda>c. c \<noteq> CHR '':'') e" and ?d = "e @ NUL # post"
  note cs = colon_split [OF e(1), of post]
  show ?thesis
  proof (cases "CHR '':'' \<in> set e")
    case False
    then have ke: "?k = e" by (auto simp: takeWhile_eq_all_conv)
    have "split_kv e = None" unfolding split_kv_def Let_def ke by simp
    then show ?thesis
      using b cs False by (simp add: fetchInf_def Let_def del: rd_lt)
  next
    case True
    have kl: "length ?k < length e" using takeWhile_length_nth [OF True, of "\<lambda>c. c \<noteq> CHR '':''"] by blast
    let ?v = "drop (Suc (length ?k)) e"
    have d: "drop (Suc (length ?k)) ?d = ?v @ NUL # post" using kl by simp
    have r1: "rd ?d (length ?k + 1) = Some (if ?v = [] then NUL else hd ?v)"
    proof -
      have "length ?k + 1 < length ?d" using kl by simp
      then have "drop (length ?k + 1) ?d = ?d ! (length ?k + 1) # drop (Suc (length ?k + 1)) ?d"
        by (simp only: Cons_nth_drop_Suc)
      then have "?d ! (length ?k + 1) = hd (?v @ NUL # post)" using d by (metis Suc_eq_plus1 list.sel(1))
      then show ?thesis using kl by (cases ?v) (simp_all add: rd_def)
    qed
    have hv: "?v \<noteq> [] \<Longrightarrow> hd ?v \<noteq> NUL" using e(1) by (metis in_set_dropD list.set_sel(1))
    have sv: "strlen (?v @ NUL # post) = Some (length ?v)"
    proof -
      have "NUL \<notin> set ?v" using e(1) by (meson in_set_dropD)
      then show ?thesis by (simp add: strlen_cstr cstr_app)
    qed
    have ln: "to_cint (length ?k) = int (length ?k)" "to_cint (length ?v) = int (length ?v)"
      using e(2) kl by (simp_all add: to_cint_small)
    show ?thesis
      using b cs True r1 hv sv d ln E
      by (auto simp: fetchInf_def split_kv_def Let_def malloc_def calm_def mk_one_def
          zero_onedate_def simp del: rd_lt)
  qed
qed

section \<open>The reference parser\<close>

type_synonym sect = "string \<times> (string \<times> string) list"

text \<open>
  The parser on the list of entries, with the state of the loop: whether the next entry
  names a section, the finished sections, and the section under construction. The list
  starts with a dummy section, \<open>filefirst\<close>.
\<close>

fun parse :: "bool \<Rightarrow> sect list \<Rightarrow> sect \<Rightarrow> string list \<Rightarrow> sect list option" where
  "parse isnest ss cur [] = Some (tl (ss @ [cur]))"
| "parse isnest ss (nm, kvs) (e # es) =
     (if e = [SP] then parse True ss (nm, kvs) es
      else if isnest then parse False (ss @ [(nm, kvs)]) (take 31 e, []) es
      else case split_kv e of
        None \<Rightarrow> None
      | Some kv \<Rightarrow> parse False ss (nm, kvs @ [kv]) es)"

section \<open>Sections on the heap\<close>

definition sect_at :: "world \<Rightarrow> nat \<times> nat list \<Rightarrow> sect \<Rightarrow> bool" where
  "sect_at w c s \<longleftrightarrow> (\<exists>f. files w (fst c) = Some f \<and> NUL \<in> set (fd_name f) \<and> cstr (fd_name f) = fst s \<and>
     lpath od_next (ones w) (fd_date f) (snd c) None \<and> list_all2 (one_at w) (snd c) (snd s))"

definition conf_at :: "world \<Rightarrow> ptr \<Rightarrow> (nat \<times> nat list) list \<Rightarrow> sect list \<Rightarrow> bool" where
  "conf_at w p cells secs \<longleftrightarrow>
     lpath fd_next (files w) p (map fst cells) None \<and> list_all2 (sect_at w) cells secs \<and>
     distinct (concat (map snd cells))"

lemma sect_at_cell_ok: "sect_at w c s \<Longrightarrow> cell_ok w c"
  by (auto simp: sect_at_def cell_ok_def)

lemma ms_text_cong: "bufs w' = bufs w \<Longrightarrow> ms_text w' = ms_text w"
  by (rule ext) (simp add: ms_text_def split: option.split)

lemma one_at_cong:
  "ones w' a = ones w a \<Longrightarrow> bufs w' = bufs w \<Longrightarrow> one_at w' a kv \<longleftrightarrow> one_at w a kv"
  by (simp add: one_at_def ms_text_cong [of w' w])

lemma one_at_link:
  "ones w a = Some n \<Longrightarrow> ones w' a = Some (n\<lparr>od_next := q\<rparr>) \<Longrightarrow> bufs w' = bufs w \<Longrightarrow>
     one_at w' a kv \<longleftrightarrow> one_at w a kv"
  by (simp add: one_at_def ms_text_cong [of w' w])

lemma ones_at_cong:
  assumes "\<forall>a\<in>set os. ones w' a = ones w a" "bufs w' = bufs w"
  shows "list_all2 (one_at w') os kvs \<longleftrightarrow> list_all2 (one_at w) os kvs"
  using assms one_at_cong [of w' _ w] by (intro list.rel_cong) auto

lemma ones_lpath_cong:
  "\<forall>a\<in>set os. ones w' a = ones w a \<Longrightarrow>
     lpath od_next (ones w') p os q \<longleftrightarrow> lpath od_next (ones w) p os q"
  by (rule lpath_same_links) auto

lemma sect_at_mono:
  assumes "sect_at w c s" "\<forall>a\<in>set (snd c). ones w' a = ones w a" "bufs w' = bufs w"
    and "files w' (fst c) = files w (fst c) \<or>
      (\<exists>f q. files w (fst c) = Some f \<and> files w' (fst c) = Some (f\<lparr>fd_next := q\<rparr>))"
  shows "sect_at w' c s"
  using assms(1,4) ones_at_cong [OF assms(2,3)] ones_lpath_cong [OF assms(2)]
  by (auto simp: sect_at_def)

lemma sects_at_mono:
  assumes "list_all2 (sect_at w) cs ss" "bufs w' = bufs w"
    and "\<forall>a\<in>set (concat (map snd cs)). ones w' a = ones w a"
    and "\<forall>a\<in>set (map fst cs). files w' a = files w a"
  shows "list_all2 (sect_at w') cs ss"
proof (rule list.rel_mono_strong [OF assms(1)])
  fix c s
  assume "c \<in> set cs" "sect_at w c s"
  moreover from this have "\<forall>a\<in>set (snd c). ones w' a = ones w a" "files w' (fst c) = files w (fst c)"
    using assms(3,4) by auto
  ultimately show "sect_at w' c s" using assms(2) sect_at_mono by blast
qed

section \<open>The invariant of the loop\<close>

text \<open>
  \<open>cs\<close> are the finished cells with the sections \<open>ss\<close>, starting with \<open>filefirst\<close>; \<open>c\<close> is the
  cell under construction with the section \<open>s\<close> read so far, its pairs hanging off \<open>onehead\<close>.
  All nodes lie at or above \<open>B\<close>, and there are no others.
\<close>

definition rinv :: "nat \<Rightarrow> world \<Rightarrow> nat \<Rightarrow> nat \<Rightarrow> bool \<Rightarrow> (nat \<times> nat list) list \<Rightarrow> sect list
    \<Rightarrow> nat \<times> nat list \<Rightarrow> sect \<Rightarrow> bool" where
  "rinv B w ff oh isnest cs ss c s \<longleftrightarrow>
     lpath fd_next (files w) (Some ff) (map fst cs @ [fst c]) None \<and>
     list_all2 (sect_at w) cs ss \<and>
     (\<exists>f oo. files w (fst c) = Some f \<and> ones w oh = Some oo \<and>
        NUL \<in> set (fd_name f) \<and> cstr (fd_name f) = fst s \<and>
        lpath od_next (ones w) (od_next oo) (snd c) None \<and> list_all2 (one_at w) (snd c) (snd s) \<and>
        fd_date f = (if isnest then od_next oo else None)) \<and>
     distinct (oh # concat (map snd cs) @ snd c) \<and> fresh w \<and>
     (\<forall>a. B \<le> a \<longrightarrow> files w a \<noteq> None \<longrightarrow> a \<in> set (map fst cs @ [fst c])) \<and>
     (\<forall>a. B \<le> a \<longrightarrow> ones w a \<noteq> None \<longrightarrow> a \<in> set (oh # concat (map snd cs) @ snd c)) \<and>
     (\<forall>a\<in>set (map fst cs @ [fst c]). B \<le> a) \<and>
     (\<forall>a\<in>set (oh # concat (map snd cs) @ snd c). B \<le> a) \<and> B \<le> brk w \<and>
     snd (hd (cs @ [c])) = []"

lemma rinvI:
  assumes "lpath fd_next (files w) (Some ff) (map fst cs @ [fst c]) None"
    and "list_all2 (sect_at w) cs ss"
    and "files w (fst c) = Some f" "ones w oh = Some oo" "NUL \<in> set (fd_name f)" "cstr (fd_name f) = fst s"
    and "lpath od_next (ones w) (od_next oo) (snd c) None" "list_all2 (one_at w) (snd c) (snd s)"
    and "fd_date f = (if isnest then od_next oo else None)"
    and "distinct (oh # concat (map snd cs) @ snd c)" "fresh w"
    and "\<And>a. B \<le> a \<Longrightarrow> files w a \<noteq> None \<Longrightarrow> a \<in> set (map fst cs @ [fst c])"
    and "\<And>a. B \<le> a \<Longrightarrow> ones w a \<noteq> None \<Longrightarrow> a \<in> set (oh # concat (map snd cs) @ snd c)"
    and "\<And>a. a \<in> set (map fst cs @ [fst c]) \<Longrightarrow> B \<le> a"
    and "\<And>a. a \<in> set (oh # concat (map snd cs) @ snd c) \<Longrightarrow> B \<le> a" "B \<le> brk w"
    and "snd (hd (cs @ [c])) = []"
  shows "rinv B w ff oh isnest cs ss c s"
proof -
  have "\<exists>f oo. files w (fst c) = Some f \<and> ones w oh = Some oo \<and>
        NUL \<in> set (fd_name f) \<and> cstr (fd_name f) = fst s \<and>
        lpath od_next (ones w) (od_next oo) (snd c) None \<and> list_all2 (one_at w) (snd c) (snd s) \<and>
        fd_date f = (if isnest then od_next oo else None)"
    using assms(3-9) by blast
  moreover have "\<forall>a. B \<le> a \<longrightarrow> files w a \<noteq> None \<longrightarrow> a \<in> set (map fst cs @ [fst c])"
    using assms(12) by blast
  moreover have "\<forall>a. B \<le> a \<longrightarrow> ones w a \<noteq> None \<longrightarrow> a \<in> set (oh # concat (map snd cs) @ snd c)"
    using assms(13) by blast
  moreover have "\<forall>a\<in>set (map fst cs @ [fst c]). B \<le> a" "\<forall>a\<in>set (oh # concat (map snd cs) @ snd c). B \<le> a"
    using assms(14,15) by blast+
  ultimately show ?thesis
    unfolding rinv_def using assms(1,2,10,11,16,17) by (intro conjI)
qed

lemma rinvD:
  assumes "rinv B w ff oh isnest cs ss c s"
  shows "lpath fd_next (files w) (Some ff) (map fst cs @ [fst c]) None"
    and "list_all2 (sect_at w) cs ss"
    and "\<exists>f oo. files w (fst c) = Some f \<and> ones w oh = Some oo \<and>
        NUL \<in> set (fd_name f) \<and> cstr (fd_name f) = fst s \<and>
        lpath od_next (ones w) (od_next oo) (snd c) None \<and> list_all2 (one_at w) (snd c) (snd s) \<and>
        fd_date f = (if isnest then od_next oo else None)"
    and "distinct (oh # concat (map snd cs) @ snd c)" "fresh w"
    and "\<And>a. B \<le> a \<Longrightarrow> files w a \<noteq> None \<Longrightarrow> a \<in> set (map fst cs @ [fst c])"
    and "\<And>a. B \<le> a \<Longrightarrow> ones w a \<noteq> None \<Longrightarrow> a \<in> set (oh # concat (map snd cs) @ snd c)"
    and "\<And>a. a \<in> set (map fst cs @ [fst c]) \<Longrightarrow> B \<le> a"
    and "\<And>a. a \<in> set (oh # concat (map snd cs) @ snd c) \<Longrightarrow> B \<le> a" "B \<le> brk w"
    and "snd (hd (cs @ [c])) = []"
  using assms unfolding rinv_def by blast+

definition conf_only :: "nat \<Rightarrow> world \<Rightarrow> world \<Rightarrow> bool" where
  "conf_only B w w' \<longleftrightarrow> (\<exists>f o1 n. w' = w\<lparr>brk := n, files := f, ones := o1\<rparr> \<and> brk w \<le> n \<and>
     (\<forall>a<B. f a = files w a \<and> o1 a = ones w a))"

lemma conf_only_trans: "conf_only B u v \<Longrightarrow> conf_only B v w \<Longrightarrow> conf_only B u w"
  unfolding conf_only_def by force

lemma conf_only_bufs: "conf_only B w w' \<Longrightarrow> bufs w' = bufs w"
  by (auto simp: conf_only_def)

lemma rinv_sep:
  assumes i: "rinv B w ff oh isnest cs ss c s" and oo: "ones w oh = Some oo"
    and w1: "upd_file (fst c) (\<lambda>f. f\<lparr>fd_date := od_next oo\<rparr>) w = Some w1"
  shows "rinv B w1 ff oh True cs ss c s" "conf_only B w w1"
proof -
  obtain f where f: "files w (fst c) = Some f"
    "w1 = w\<lparr>files := (files w)(fst c \<mapsto> f\<lparr>fd_date := od_next oo\<rparr>)\<rparr>"
    using w1 by (auto simp: upd_file_def bind_eq_Some_conv)
  have p: "lpath fd_next (files w) (Some ff) (map fst cs @ [fst c]) None"
    using i by (simp add: rinv_def)
  have "lpath fd_next (files w1) (Some ff) (map fst cs @ [fst c]) None"
    using p f by (subst lpath_same_links [where h = "files w"]) auto
  moreover have "list_all2 (sect_at w1) cs ss"
  proof (rule sects_at_mono [of w])
    show "list_all2 (sect_at w) cs ss" using i by (simp add: rinv_def)
    have "\<forall>a\<in>set (map fst cs). a \<noteq> fst c" using lpath_distinct [OF p] by (metis distinct_append
          disjoint_iff list.set_intros(1))
    then show "\<forall>a\<in>set (map fst cs). files w1 a = files w a" using f(2) by (simp del: set_map)
  qed (use f in simp_all)
  moreover have "list_all2 (one_at w1) (snd c) (snd s) = list_all2 (one_at w) (snd c) (snd s)"
    using f by (intro ones_at_cong) auto
  ultimately show "rinv B w1 ff oh True cs ss c s"
    using i f oo by (auto simp: rinv_def fresh_def)
  show "conf_only B w w1"
    unfolding conf_only_def
    using f i by (intro exI [of _ "files w1"] exI [of _ "ones w"] exI [of _ "brk w"]) (auto simp: rinv_def)
qed

lemma rinv_new:
  assumes i: "rinv B w ff oh True cs ss c s" and nm: "NUL \<in> set nm"
    and f: "files w (fst c) = Some f"
    and w1: "w1 = w\<lparr>brk := Suc (brk w),
        files := (files w)(fst c \<mapsto> f\<lparr>fd_next := Some (brk w)\<rparr>, brk w \<mapsto> zero_filedate\<lparr>fd_name := nm\<rparr>),
        ones := (ones w)(oh \<mapsto> zero_onedate)\<rparr>"
  shows "rinv B w1 ff oh False (cs @ [c]) (ss @ [s]) (brk w, []) (cstr nm, [])" "conf_only B w w1"
proof -
  let ?a = "brk w"
  have p: "lpath fd_next (files w) (Some ff) (map fst cs @ [fst c]) None" and fr: "fresh w"
    using i by (simp_all add: rinv_def)
  have al: "?a \<notin> set (map fst cs @ [fst c])"
    using lpath_dom [OF p] fr by (auto simp: fresh_def)
  obtain oo where oo: "ones w oh = Some oo" "lpath od_next (ones w) (fd_date f) (snd c) None"
      "NUL \<in> set (fd_name f)" "cstr (fd_name f) = fst s" "list_all2 (one_at w) (snd c) (snd s)"
    using i f by (auto simp: rinv_def)
  have oh: "oh \<notin> set (concat (map snd (cs @ [c])))" using i by (simp add: rinv_def)
  have p1: "lpath fd_next (files w1) (Some ff) (map fst cs @ [fst c, ?a]) None"
    using file_list.append_node [OF p f al, of "zero_filedate\<lparr>fd_name := nm\<rparr>"] w1
    by (simp add: zero_filedate_def)
  have s1: "list_all2 (sect_at w1) cs ss"
  proof (rule sects_at_mono [of w])
    show "list_all2 (sect_at w) cs ss" using i by (simp add: rinv_def)
    have "\<forall>a\<in>set (map fst cs). a \<noteq> fst c \<and> a \<noteq> ?a"
      using lpath_distinct [OF p] al by (metis distinct_append disjoint_iff list.set_intros(1) UnCI set_append)
    then show "\<forall>a\<in>set (map fst cs). files w1 a = files w a" using w1 by (simp del: set_map)
    show "\<forall>a\<in>set (concat (map snd cs)). ones w1 a = ones w a" using w1 oh by auto
  qed (use w1 in simp)
  have s2: "sect_at w1 c s"
  proof (rule sect_at_mono [of w])
    show "sect_at w c s" using oo f by (auto simp: sect_at_def)
    show "\<forall>a\<in>set (snd c). ones w1 a = ones w a" using w1 oh by auto
  qed (use f w1 al in auto)
  note d = rinvD [OF i]
  show "rinv B w1 ff oh False (cs @ [c]) (ss @ [s]) (?a, []) (cstr nm, [])"
  proof (rule rinvI [where f = "zero_filedate\<lparr>fd_name := nm\<rparr>" and oo = zero_onedate])
    show "list_all2 (sect_at w1) (cs @ [c]) (ss @ [s])" using s1 s2 by (simp add: list_all2_appendI)
    show "distinct (oh # concat (map snd (cs @ [c])) @ snd (?a, [] :: nat list))"
      using d(4) by simp
    show "fresh w1" using fr w1 oo(1) f by (auto simp: fresh_def)
    show "a \<in> set (map fst (cs @ [c]) @ [fst (?a, [] :: nat list)])" if "B \<le> a" "files w1 a \<noteq> None" for a
      using that d(6) [of a] w1 f by (auto split: if_splits)
    show "a \<in> set (oh # concat (map snd (cs @ [c])) @ snd (?a, [] :: nat list))"
      if "B \<le> a" "ones w1 a \<noteq> None" for a
      using that d(7) [of a] w1 by (auto split: if_splits)
    show "B \<le> a" if "a \<in> set (map fst (cs @ [c]) @ [fst (?a, [] :: nat list)])" for a
      using that d(8) [of a] d(10) by auto
    show "B \<le> a" if "a \<in> set (oh # concat (map snd (cs @ [c])) @ snd (?a, [] :: nat list))" for a
      using that d(9) [of a] by auto
    show "snd (hd ((cs @ [c]) @ [(?a, [])])) = []" using d(11) by (cases cs) simp_all
  qed (use p1 nm w1 d(10) in \<open>simp_all add: zero_filedate_def zero_onedate_def\<close>)
  show "conf_only B w w1"
    unfolding conf_only_def using w1 i
    by (intro exI [of _ "files w1"] exI [of _ "ones w1"] exI [of _ "Suc (brk w)"]) (auto simp: rinv_def)
qed

lemma rinv_fresh:
  assumes i: "rinv B w ff oh isnest cs ss c s"
  shows "brk w \<notin> set (oh # concat (map snd cs) @ snd c)"
proof -
  note d = rinvD [OF i]
  have "brk w \<notin> set (concat (map snd cs))"
  proof
    assume "brk w \<in> set (concat (map snd cs))"
    then obtain c where c: "c \<in> set cs" "brk w \<in> set (snd c)" by auto
    then obtain s where "sect_at w c s" using list_all2_in1 [OF d(2)] by blast
    then show False using c d(5) lpath_dom by (fastforce simp: sect_at_def fresh_def)
  qed
  moreover have "brk w \<notin> set (snd c)" "brk w \<noteq> oh"
    using d(3,5) lpath_dom by (fastforce simp: fresh_def)+
  ultimately show ?thesis by simp
qed

text \<open>Linking a pair behind the last one, where the list starts at the stack object \<open>oh\<close>.\<close>

lemma one_link_last:
  assumes "ones w oh = Some oo" "lpath od_next (ones w) (od_next oo) os None"
    and "ones w (last (oh # os)) = Some x" "a \<notin> set (oh # os)" "od_next n = None"
    and h: "h = (ones w)(last (oh # os) \<mapsto> x\<lparr>od_next := Some a\<rparr>, a \<mapsto> n)"
  shows "\<exists>oo'. h oh = Some oo' \<and> lpath od_next h (od_next oo') (os @ [a]) None"
proof -
  let ?l = "last (oh # os)"
  have p: "lpath od_next (ones w) (Some oh) (butlast (oh # os) @ [?l]) None"
    using assms(1,2) by (subst append_butlast_last_id) simp_all
  have "lpath od_next h (Some oh) (butlast (oh # os) @ [?l, a]) None"
    using one_list.append_node [OF p assms(3), of a n] assms(4,5) h
    by (subst (asm) append_butlast_last_id) simp_all
  moreover have "butlast (oh # os) @ [?l, a] = oh # os @ [a]"
    using append_butlast_last_id [of "oh # os"] by (metis append.assoc append_Cons list.distinct(1) append_Nil)
  ultimately have "lpath od_next h (Some oh) (oh # os @ [a]) None" by metis
  then show ?thesis by (auto split: option.splits)
qed

lemma rinv_pair:
  assumes i: "rinv B w ff oh False cs ss (ft, os) (nm, kvs)" "cs \<noteq> []"
    and n: "od_next n = None" "ms_text w (od_key n) = Some (fst kv)" "ms_text w (od_value n) = Some (snd kv)"
    and x: "ones w (last (oh # os)) = Some x"
    and w1: "w1 = w\<lparr>brk := Suc (brk w),
        ones := (ones w)(last (oh # os) \<mapsto> x\<lparr>od_next := Some (brk w)\<rparr>, brk w \<mapsto> n)\<rparr>"
  shows "rinv B w1 ff oh False cs ss (ft, os @ [brk w]) (nm, kvs @ [kv])" "conf_only B w w1"
proof -
  let ?a = "brk w" and ?l = "last (oh # os)"
  note d = rinvD [OF i(1)]
  obtain f oo where oo: "files w ft = Some f" "ones w oh = Some oo" "NUL \<in> set (fd_name f)"
      "cstr (fd_name f) = nm" "lpath od_next (ones w) (od_next oo) os None"
      "list_all2 (one_at w) os kvs" "fd_date f = None"
    using d(3) by auto
  have al: "?a \<notin> set (oh # os)" "?a \<notin> set (concat (map snd cs))" using rinv_fresh [OF i(1)] by auto
  have lm: "?l \<in> set (oh # os)" by (rule last_in_set) simp
  have lb: "\<forall>y\<in>set (concat (map snd cs)). y \<noteq> ?l \<and> y \<noteq> ?a"
    using d(4) lm al(2) by auto
  obtain oo' where oo': "ones w1 oh = Some oo'" "lpath od_next (ones w1) (od_next oo') (os @ [?a]) None"
    using one_link_last [OF oo(2,5) x al(1) n(1)] w1 by auto
  have mt: "ms_text w1 = ms_text w" by (rule ms_text_cong) (simp add: w1)
  have "list_all2 (one_at w1) os kvs"
  proof (rule list.rel_mono_strong [OF oo(6)])
    fix y kv assume y: "y \<in> set os" "one_at w y kv"
    then have "y \<noteq> ?a" using al by auto
    then show "one_at w1 y kv"
      using y x w1 mt by (cases "y = ?l") (auto simp: one_at_def)
  qed
  moreover have "one_at w1 ?a kv" using n mt w1 by (simp add: one_at_def)
  ultimately have oa: "list_all2 (one_at w1) (os @ [?a]) (kvs @ [kv])" by (simp add: list_all2_appendI)
  show "rinv B w1 ff oh False cs ss (ft, os @ [?a]) (nm, kvs @ [kv])"
  proof (rule rinvI [where f = f and oo = oo'])
    show "list_all2 (sect_at w1) cs ss"
      using d(2) w1 lb by (intro sects_at_mono [OF d(2)]) auto
    show "distinct (oh # concat (map snd cs) @ snd (ft, os @ [?a]))" using d(4) al lb by auto
    show "fresh w1" using d(5) w1 x by (auto simp: fresh_def)
    show "a \<in> set (oh # concat (map snd cs) @ snd (ft, os @ [?a]))" if "B \<le> a" "ones w1 a \<noteq> None" for a
      using that d(7) [of a] w1 x by (auto split: if_splits)
    show "B \<le> a" if "a \<in> set (oh # concat (map snd cs) @ snd (ft, os @ [?a]))" for a
      using that d(9) [of a] d(10) by auto
    show "snd (hd (cs @ [(ft, os @ [?a])])) = []" using d(11) i(2) by (cases cs) simp_all
  qed (use d(1,6,8,10) w1 oo oo' oa in simp_all)
  have "B \<le> ?l" using lm d(9) [of ?l] by auto
  then show "conf_only B w w1"
    unfolding conf_only_def using w1 d(10)
    by (intro exI [of _ "files w1"] exI [of _ "ones w1"] exI [of _ "Suc (brk w)"]) auto
qed

section \<open>The loop computes the reference\<close>

definition read_result :: "nat \<Rightarrow> world \<Rightarrow> nat \<Rightarrow> nat \<Rightarrow> (int \<times> ptr option \<times> world) option
    \<Rightarrow> sect list option \<Rightarrow> bool" where
  "read_result B w ff oh r p \<longleftrightarrow>
     (case p of
        Some secs \<Rightarrow> \<exists>w' cs ss c s f. r = Some (0, Some (fd_next f), w') \<and> conf_only B w w' \<and>
          rinv B w' ff oh True cs ss c s \<and> secs = tl (ss @ [s]) \<and> files w' ff = Some f
      | None \<Rightarrow> \<exists>w'. r = Some (- 2, None, w') \<and> conf_only B w w' \<and> fresh w' \<and>
          (\<forall>a. B \<le> a \<longrightarrow> files w' a \<noteq> None \<longrightarrow> a = ff))"

lemma read_result_step:
  "conf_only B w w1 \<Longrightarrow> read_result B w1 ff oh r p \<Longrightarrow> read_result B w ff oh r p"
  by (fastforce simp: read_result_def intro: conf_only_trans split: option.splits)

lemma rinv_head: "rinv B w ff oh isnest cs ss c s \<Longrightarrow> \<exists>f. files w ff = Some f"
  using rinvD(1) [of B w ff oh isnest cs ss c s] by (cases cs) (auto split: option.splits)

text \<open>
  A line that is no pair: the finished sections are freed; the pairs of the section under
  construction are not.
\<close>

lemma rinv_free:
  assumes i: "rinv B w ff oh False cs ss c s" and ne: "cs \<noteq> []" and f: "files w ff = Some f"
  shows "\<exists>w'. freeFiledate (fd_next f) w = Some (0, w') \<and> conf_only B w w' \<and> fresh w' \<and>
    (\<forall>a. B \<le> a \<longrightarrow> files w' a \<noteq> None \<longrightarrow> a = ff)"
proof -
  note d = rinvD [OF i]
  obtain c0 cs' where cs: "cs = c0 # cs'" using ne by (cases cs) auto
  have c0: "fst c0 = ff" and p: "lpath fd_next (files w) (fd_next f) (map fst cs' @ [fst c]) None"
    using d(1) f cs by (auto split: option.splits)
  let ?cells = "cs' @ [(fst c, [])]"
  let ?w = "w\<lparr>files := drop_addrs (map fst ?cells) (files w),
              ones := drop_addrs (concat (map snd ?cells)) (ones w)\<rparr>"
  have "\<forall>x\<in>set ?cells. cell_ok w x"
    using d(2,3) cs list_all2_in1 [OF d(2)] sect_at_cell_ok by (fastforce simp: cell_ok_def)
  moreover have "lpath fd_next (files w) (fd_next f) (map fst ?cells) None" using p by simp
  moreover have "distinct (concat (map snd ?cells))" using d(4) cs by simp
  ultimately have "free_files (fd_next f) w = Some ?w" by (intro free_files_eq)
  moreover have "fd_next f \<noteq> None" using p by (cases "fd_next f") auto
  ultimately have "freeFiledate (fd_next f) w = Some (0, ?w)" by (auto simp: freeFiledate_def)
  moreover have "conf_only B w ?w"
    unfolding conf_only_def using d(8,9) cs
    by (intro exI [of _ "files ?w"] exI [of _ "ones ?w"] exI [of _ "brk w"])
      (auto simp: drop_addrs_def dest: leD)
  moreover have "fresh ?w" using d(5) by (simp add: fresh_def drop_addrs_def)
  moreover have "\<forall>a. B \<le> a \<longrightarrow> files ?w a \<noteq> None \<longrightarrow> a = ff"
    using d(6) cs c0 by (auto simp: drop_addrs_def)
  ultimately show ?thesis by blast
qed

text \<open>One turn of the loop for each kind of entry.\<close>

lemma read_loop_end:
  assumes "blk = pre @ NUL # post" "rinv B w ff oh isnest cs ss c s"
  shows "read_result B w ff oh (read_loop E blk head (length pre) isnest (fst c) onetem ff oh w)
    (Some (tl (ss @ [s])))"
proof -
  note d = rinvD [OF assms(2)]
  obtain f oo where oo: "files w (fst c) = Some f" "ones w oh = Some oo" using d(3) by blast
  let ?w = "w\<lparr>files := (files w)(fst c \<mapsto> f\<lparr>fd_date := od_next oo\<rparr>)\<rparr>"
  have u: "upd_file (fst c) (\<lambda>f. f\<lparr>fd_date := od_next oo\<rparr>) w = Some ?w"
    using oo by (simp add: upd_file_def)
  note r = rinv_sep [OF assms(2) oo(2) u]
  obtain g where g: "files ?w ff = Some g" using rinv_head [OF r(1)] by blast
  have "read_loop E blk head (length pre) isnest (fst c) onetem ff oh w = Some (0, Some (fd_next g), ?w)"
    using assms(1) oo(2) u g by (subst read_loop.simps) simp
  then show ?thesis using r g unfolding read_result_def option.case by blast
qed

lemma read_loop_sep:
  assumes "blk = pre @ SP # NUL # post" "rinv B w ff oh isnest cs ss c s"
  shows "\<exists>w1. read_loop E blk head (length pre) isnest (fst c) onetem ff oh w =
      read_loop E blk head (length (pre @ [SP, NUL])) True (fst c) onetem ff oh w1 \<and>
    rinv B w1 ff oh True cs ss c s \<and> conf_only B w w1"
proof -
  note d = rinvD [OF assms(2)]
  obtain f oo where oo: "files w (fst c) = Some f" "ones w oh = Some oo" using d(3) by blast
  let ?w = "w\<lparr>files := (files w)(fst c \<mapsto> f\<lparr>fd_date := od_next oo\<rparr>)\<rparr>"
  have u: "upd_file (fst c) (\<lambda>f. f\<lparr>fd_date := od_next oo\<rparr>) w = Some ?w"
    using oo by (simp add: upd_file_def)
  have "read_loop E blk head (length pre) isnest (fst c) onetem ff oh w =
      read_loop E blk head (length (pre @ [SP, NUL])) True (fst c) onetem ff oh ?w"
    using assms(1) oo(2) u by (subst read_loop.simps) simp
  then show ?thesis using rinv_sep [OF assms(2) oo(2) u] by blast
qed

lemma read_loop_new:
  assumes b: "blk = pre @ e @ NUL # post" and e: "e \<noteq> []" "hd e \<noteq> SP" "NUL \<notin> set e"
    and E: "calm E" and i: "rinv B w ff oh True cs ss c s"
  shows "\<exists>w1 a. read_loop E blk head (length pre) True (fst c) onetem ff oh w =
      read_loop E blk head (length (pre @ e @ [NUL])) False a oh ff oh w1 \<and>
    rinv B w1 ff oh False (cs @ [c]) (ss @ [s]) (a, []) (take 31 e, []) \<and> conf_only B w w1"
proof -
  note d = rinvD [OF i]
  obtain f oo where oo: "files w (fst c) = Some f" "ones w oh = Some oo" using d(3) by blast
  let ?nm = "take 31 e @ replicate (32 - length (take 31 e)) NUL"
  let ?w = "w\<lparr>brk := Suc (brk w),
        files := (files w)(fst c \<mapsto> f\<lparr>fd_next := Some (brk w)\<rparr>, brk w \<mapsto> zero_filedate\<lparr>fd_name := ?nm\<rparr>),
        ones := (ones w)(oh \<mapsto> zero_onedate)\<rparr>"
  have src: "drop (length pre) blk = e @ NUL # post" using b by simp
  have "32 - length (take 31 e) = Suc (31 - length (take 31 e))" by simp
  then have sc: "strncpy (fd_name zero_filedate) (e @ NUL # post) 31 = Some ?nm"
    using e(3) by (simp add: strncpy_def readable_def name_of_def cstr_app zero_filedate_def
        replicate_append_same)
  have sl: "strlen (e @ NUL # post) = Some (length e)"
    using e(3) by (simp add: strlen_cstr cstr_app)
  have c0: "rd blk (length pre) = Some (hd e)" using b e(1) by (cases e) (simp_all add: rd_def)
  have hn: "hd e \<noteq> NUL" using e by (metis hd_in_set)
  have "read_loop E blk head (length pre) True (fst c) onetem ff oh w =
      read_loop E blk head (length (pre @ e @ [NUL])) False (brk w) oh ff oh ?w"
    using c0 hn e(2) E oo src sc sl
    by (subst read_loop.simps) (simp add: malloc_def calm_def upd_file_def upd_one_def Let_def)
  moreover have "NUL \<in> set ?nm" by simp
  moreover have "cstr ?nm = take 31 e"
  proof -
    have "32 - length (take 31 e) = Suc (31 - length (take 31 e))" by simp
    moreover have "NUL \<notin> set (take 31 e)" using e(3) by (meson in_set_takeD)
    ultimately show ?thesis by (simp add: cstr_app)
  qed
  ultimately show ?thesis using rinv_new [OF i _ oo(1) refl, of ?nm] by metis
qed

lemma mk_one_text:
  assumes "bufs w b = Some (pre @ e @ NUL # post)" "split_kv e = Some (k, v)"
  shows "ms_text w (od_key (mk_one b (length pre) k v)) = Some k"
    and "ms_text w (od_value (mk_one b (length pre) k v)) = Some v"
  using assms(1) split_kv_Some [OF assms(2)] by (simp_all add: ms_text_def mk_one_def)

lemma rinv_last: "rinv B w ff oh isnest cs ss c s \<Longrightarrow> \<exists>x. ones w (last (oh # snd c)) = Some x \<and> od_next x = None"
proof -
  assume "rinv B w ff oh isnest cs ss c s"
  then obtain oo where "ones w oh = Some oo" "lpath od_next (ones w) (od_next oo) (snd c) None"
    using rinvD(3) by blast
  then have "lpath od_next (ones w) (Some oh) (oh # snd c) None" by simp
  then show ?thesis by (rule lpath_last) simp
qed

lemma read_loop_pair:
  assumes b: "blk = pre @ e @ NUL # post" "bufs w head = Some blk"
    and e: "e \<noteq> []" "hd e \<noteq> SP" "NUL \<notin> set e" "length e < 2 ^ 31" "split_kv e = Some kv"
    and E: "calm E" and i: "rinv B w ff oh False cs ss (ft, os) (nm, kvs)" "cs \<noteq> []"
  shows "\<exists>w1 a. read_loop E blk head (length pre) False ft (last (oh # os)) ff oh w =
      read_loop E blk head (length (pre @ e @ [NUL])) False ft a ff oh w1 \<and>
    rinv B w1 ff oh False cs ss (ft, os @ [a]) (nm, kvs @ [kv]) \<and> conf_only B w w1"
proof -
  obtain k v where kv: "kv = (k, v)" by (cases kv)
  let ?a = "brk w" and ?l = "last (oh # os)" and ?n = "mk_one head (length pre) k v"
  obtain x where x: "ones w ?l = Some x" using rinv_last [OF i(1)] by auto
  have la: "?l \<noteq> ?a"
    using rinv_fresh [OF i(1)] last_in_set [of "oh # os"] by auto
  let ?w = "w\<lparr>brk := Suc ?a, ones := (ones w)(?l \<mapsto> x\<lparr>od_next := Some ?a\<rparr>, ?a \<mapsto> ?n)\<rparr>"
  have src: "drop (length pre) blk = e @ NUL # post" using b by simp
  have sl: "strlen (e @ NUL # post) = Some (length e)"
    using e(3) by (simp add: strlen_cstr cstr_app)
  have c0: "rd blk (length pre) = Some (hd e)" using b e(1) by (cases e) (simp_all add: rd_def)
  have hn: "hd e \<noteq> NUL" using e by (metis hd_in_set)
  have bh: "bufs w head = Some (pre @ e @ NUL # post)" using b by simp
  have "fetchInf E (Some (head, length pre)) w =
      Some (Some ?a, w\<lparr>brk := Suc ?a, ones := (ones w)(?a \<mapsto> ?n)\<rparr>)"
    using fetchInf_eq [OF bh e(3,4) E] e(5) kv by simp
  then have "read_loop E blk head (length pre) False ft ?l ff oh w =
      read_loop E blk head (length (pre @ e @ [NUL])) False ft ?a ff oh ?w"
    using c0 hn e(2) src sl x la
    by (subst read_loop.simps) (simp add: upd_one_def fun_upd_twist del: last.simps)
  moreover have "od_next ?n = None" by (simp add: mk_one_def)
  ultimately show ?thesis
    using rinv_pair [OF i _ _ _ x refl, of ?n kv] mk_one_text [OF bh, of k v] e(5) kv
    by (intro exI [of _ ?w] exI [of _ ?a]) simp
qed

lemma read_loop_bad:
  assumes b: "blk = pre @ e @ NUL # post" "bufs w head = Some blk"
    and e: "e \<noteq> []" "hd e \<noteq> SP" "NUL \<notin> set e" "length e < 2 ^ 31" "split_kv e = None"
    and E: "calm E" and i: "rinv B w ff oh False cs ss c s" "cs \<noteq> []"
  shows "read_result B w ff oh
    (read_loop E blk head (length pre) False (fst c) (last (oh # snd c)) ff oh w) None"
proof -
  let ?l = "last (oh # snd c)"
  obtain x where x: "ones w ?l = Some x" "od_next x = None" using rinv_last [OF i(1)] by auto
  have bh: "bufs w head = Some (pre @ e @ NUL # post)" using b by simp
  have c0: "rd blk (length pre) = Some (hd e)" using b e(1) by (cases e) (simp_all add: rd_def)
  have hn: "hd e \<noteq> NUL" using e by (metis hd_in_set)
  obtain f where f: "files w ff = Some f" using rinv_head [OF i(1)] by blast
  obtain w' where w': "freeFiledate (fd_next f) w = Some (0, w')" "conf_only B w w'" "fresh w'"
    "\<forall>a. B \<le> a \<longrightarrow> files w' a \<noteq> None \<longrightarrow> a = ff"
    using rinv_free [OF i f] by blast
  have "fetchInf E (Some (head, length pre)) w = Some (None, w)"
    using fetchInf_eq [OF bh e(3,4) E] e(5) by simp
  moreover have "upd_one ?l (\<lambda>o1. o1\<lparr>od_next := None\<rparr>) w = Some w"
  proof -
    have "x\<lparr>od_next := None\<rparr> = x" using x(2) by simp
    then show ?thesis using x by (simp add: upd_one_def fun_upd_idem del: last.simps)
  qed
  ultimately have "read_loop E blk head (length pre) False (fst c) ?l ff oh w = Some (- 2, None, w')"
    using c0 hn e(2) f w'(1) by (subst read_loop.simps) (simp del: last.simps)
  then show ?thesis using w'(2-4) unfolding read_result_def option.case by blast
qed

lemma read_loop_ok:
  assumes E: "calm E" and len: "length blk < 2 ^ 31"
  shows "blk = pre @ block es @ NUL # post \<Longrightarrow> bufs w head = Some blk \<Longrightarrow> \<forall>e\<in>set es. good_entry e \<Longrightarrow>
    rinv B w ff oh isnest cs ss c s \<Longrightarrow> \<not> isnest \<longrightarrow> cs \<noteq> [] \<Longrightarrow>
    read_result B w ff oh
      (read_loop E blk head (length pre) isnest (fst c) (last (oh # snd c)) ff oh w) (parse isnest ss s es)"
proof (induction es arbitrary: pre w isnest cs ss c s)
  case Nil
  then show ?case using read_loop_end by simp
next
  case (Cons e es)
  note bl = Cons.prems(1,2) and i = Cons.prems(4)
  have g: "good_entry e" "\<forall>e\<in>set es. good_entry e" using Cons.prems(3) by auto
  have le: "length e < 2 ^ 31" using len bl(1) by simp
  have nx: "blk = (pre @ e @ [NUL]) @ block es @ NUL # post" using bl(1) by simp
  obtain nm kvs where s: "s = (nm, kvs)" by (cases s)
  obtain ft os where c: "c = (ft, os)" by (cases c)
  have rec: "read_result B w ff oh (read_loop E blk head (length (pre @ e @ [NUL])) isn (fst c')
      (last (oh # snd c')) ff oh w1) (parse isn ss' s' es)"
    if "rinv B w1 ff oh isn cs' ss' c' s'" "\<not> isn \<longrightarrow> cs' \<noteq> []" "conf_only B w w1" for w1 isn cs' ss' c' s'
  proof -
    have "bufs w1 head = Some blk" using conf_only_bufs [OF that(3)] bl(2) by simp
    then show ?thesis using Cons.IH [OF nx _ g(2) that(1,2)] read_result_step [OF that(3)] by blast
  qed
  show ?case
  proof (cases "e = [SP]")
    case True
    then obtain w1 where w1: "read_loop E blk head (length pre) isnest (fst c) (last (oh # snd c)) ff oh w =
      read_loop E blk head (length (pre @ e @ [NUL])) True (fst c) (last (oh # snd c)) ff oh w1"
      "rinv B w1 ff oh True cs ss c s" "conf_only B w w1"
      using read_loop_sep [OF _ i, of blk pre "block es @ NUL # post" E head "last (oh # snd c)"] bl(1)
      by auto
    then show ?thesis using rec [OF w1(2) _ w1(3)] True s by simp
  next
    case False
    then have e: "e \<noteq> []" "hd e \<noteq> SP" "NUL \<notin> set e" using g(1) by (auto simp: good_entry_def)
    have b: "blk = pre @ e @ NUL # (block es @ NUL # post)" using bl(1) by simp
    show ?thesis
    proof (cases isnest)
      case True
      then have iT: "rinv B w ff oh True cs ss c s" using i by simp
      from True obtain w1 a where w1: "read_loop E blk head (length pre) isnest (fst c) (last (oh # snd c)) ff oh w =
          read_loop E blk head (length (pre @ e @ [NUL])) False a oh ff oh w1"
        "rinv B w1 ff oh False (cs @ [c]) (ss @ [s]) (a, []) (take 31 e, [])" "conf_only B w w1"
        using read_loop_new [OF b e E iT, of head "last (oh # snd c)"] by auto
      then show ?thesis using rec [OF w1(2) _ w1(3)] True False s by simp
    next
      case nf: False
      show ?thesis
      proof (cases "split_kv e")
        case None
        then show ?thesis
          using read_loop_bad [OF b bl(2) e le None E] i Cons.prems(5) nf False s by simp
      next
        case (Some kv)
        have "rinv B w ff oh False cs ss (ft, os) (nm, kvs)" using i nf c s by simp
        then obtain w1 a where w1: "read_loop E blk head (length pre) False ft (last (oh # os)) ff oh w =
            read_loop E blk head (length (pre @ e @ [NUL])) False ft a ff oh w1"
          "rinv B w1 ff oh False cs ss (ft, os @ [a]) (nm, kvs @ [kv])" "conf_only B w w1"
          using read_loop_pair [OF b bl(2) e le Some E] Cons.prems(5) nf by blast
        have "last (oh # snd (ft, os @ [a])) = a" by simp
        then show ?thesis
          using rec [OF w1(2) _ w1(3)] w1(1) Some nf Cons.prems(5) False s c by simp
      qed
    qed
  qed
qed

text \<open>The end of \<open>readFile\<close>: the stack objects go away, the list remains.\<close>

lemma rinv_final:
  assumes i: "rinv B w ff oh True cs ss c s" and f: "files w ff = Some f"
    and w': "w' = w\<lparr>files := (files w)(ff := None), ones := (ones w)(oh := None), filehead := q\<rparr>"
  shows "\<exists>cells. conf_at w' (fd_next f) cells (tl (ss @ [s])) \<and>
    (\<forall>a. B \<le> a \<longrightarrow> files w' a \<noteq> None \<longrightarrow> a \<in> set (map fst cells)) \<and>
    (\<forall>a. B \<le> a \<longrightarrow> ones w' a \<noteq> None \<longrightarrow> a \<in> set (concat (map snd cells)))"
proof -
  note d = rinvD [OF i]
  have "sect_at w c s" using d(3) by (auto simp: sect_at_def)
  then have la: "list_all2 (sect_at w) (cs @ [c]) (ss @ [s])" using d(2) by (simp add: list_all2_appendI)
  obtain c0 cells where cc: "cs @ [c] = c0 # cells" by (cases "cs @ [c]") auto
  obtain s0 secs where sc: "ss @ [s] = s0 # secs" by (cases "ss @ [s]") auto
  have mf: "map fst cs @ [fst c] = fst c0 # map fst cells"
    "concat (map snd cs) @ snd c = snd c0 @ concat (map snd cells)"
    using arg_cong [OF cc, of "map fst"] arg_cong [OF cc, of "\<lambda>x. concat (map snd x)"] by simp_all
  have p0: "lpath fd_next (files w) (Some ff) (fst c0 # map fst cells) None" using d(1) mf by simp
  then have c0: "fst c0 = ff" and p: "lpath fd_next (files w) (fd_next f) (map fst cells) None"
    using f by (auto split: option.splits)
  have nf: "ff \<notin> set (map fst cells)" using lpath_head_notin_tail [OF p0] c0 by simp
  have no: "oh \<notin> set (concat (map snd cells))" "distinct (concat (map snd cells))"
    using d(4) unfolding mf by auto
  have s0: "snd c0 = []" using d(11) cc by simp
  have "list_all2 (sect_at w) cells secs" using la cc sc by simp
  then have "list_all2 (sect_at w') cells secs"
  proof (rule sects_at_mono)
    have "\<forall>a\<in>set (map fst cells). a \<noteq> ff" using nf by metis
    then show "\<forall>a\<in>set (map fst cells). files w' a = files w a" using w' by (simp del: set_map)
    show "\<forall>a\<in>set (concat (map snd cells)). ones w' a = ones w a" using w' no(1) by auto
  qed (simp add: w')
  moreover have "lpath fd_next (files w') (fd_next f) (map fst cells) None"
    using p nf w' by (simp add: heap_simps)
  ultimately have "conf_at w' (fd_next f) cells (tl (ss @ [s]))"
    using no(2) sc by (simp add: conf_at_def)
  moreover have "\<forall>a. B \<le> a \<longrightarrow> files w' a \<noteq> None \<longrightarrow> a \<in> set (map fst cells)"
    using d(6) w' c0 unfolding mf by auto
  moreover have "\<forall>a. B \<le> a \<longrightarrow> ones w' a \<noteq> None \<longrightarrow> a \<in> set (concat (map snd cells))"
    using d(7) w' s0 unfolding mf by auto
  ultimately show ?thesis by blast
qed

lemma rinv_start:
  assumes fr: "fresh w" and w1: "w1 = w\<lparr>brk := brk w + 2, files := (files w)(brk w \<mapsto> zero_filedate),
                      ones := (ones w)(Suc (brk w) \<mapsto> zero_onedate)\<rparr>"
  shows "rinv (brk w) w1 (brk w) (Suc (brk w)) True [] [] (brk w, []) ([], [])"
proof (rule rinvI [where f = zero_filedate and oo = zero_onedate])
  show "cstr (fd_name zero_filedate) = fst ([], [] :: (string \<times> string) list)"
    by (simp add: zero_filedate_def cstr_def)
  show "fresh w1" using fr w1 by (auto simp: fresh_def)
  have *: "files w a = None" "ones w a = None" if "brk w \<le> a" for a
    using fr that by (auto simp: fresh_def)
  show "a \<in> set (map fst [] @ [fst (brk w, [] :: nat list)])" if "brk w \<le> a" "files w1 a \<noteq> None" for a
    using that *(1) [of a] w1 by (auto split: if_splits)
  show "a \<in> set (Suc (brk w) # concat (map snd []) @ snd (brk w, [] :: nat list))"
    if "brk w \<le> a" "ones w1 a \<noteq> None" for a
    using that *(2) [of a] w1 by (auto split: if_splits)
qed (use w1 in \<open>auto simp: zero_filedate_def zero_onedate_def\<close>)

text \<open>
  What \<open>readFile\<close> does on a block of entries: on success the sections hang off \<open>filehead\<close> and
  these are the only new nodes; on failure no section node is left.
\<close>

lemma readFile_ok:
  assumes E: "calm E" and fr: "fresh w" and b: "bufs w head = Some (block es @ NUL # post)"
    and len: "length (block es @ NUL # post) < 2 ^ 31" and g: "\<forall>e\<in>set es. good_entry e"
  shows "case parse True [] ([], []) es of
      Some secs \<Rightarrow> \<exists>w' cells. readFile E (Some head) True w = Some (0, w') \<and>
        conf_at w' (filehead w') cells secs \<and> fresh w' \<and>
        (\<exists>f o1 n q. w' = w\<lparr>brk := n, files := f, ones := o1, filehead := q\<rparr> \<and> brk w \<le> n) \<and>
        (\<forall>a<brk w. files w' a = files w a \<and> ones w' a = ones w a) \<and>
        (\<forall>a. brk w \<le> a \<longrightarrow> files w' a \<noteq> None \<longrightarrow> a \<in> set (map fst cells)) \<and>
        (\<forall>a. brk w \<le> a \<longrightarrow> ones w' a \<noteq> None \<longrightarrow> a \<in> set (concat (map snd cells)))
    | None \<Rightarrow> \<exists>w'. readFile E (Some head) True w = Some (- 2, w') \<and> fresh w' \<and> files w' = files w \<and>
        (\<exists>o1 n. w' = w\<lparr>brk := n, ones := o1\<rparr> \<and> brk w \<le> n)"
proof -
  let ?ff = "brk w" and ?oh = "Suc (brk w)"
  let ?w = "w\<lparr>brk := brk w + 2, files := (files w)(?ff \<mapsto> zero_filedate),
              ones := (ones w)(?oh \<mapsto> zero_onedate)\<rparr>"
  let ?blk = "block es @ NUL # post"
  let ?r = "read_loop E ?blk head 0 True ?ff ?oh ?ff ?oh ?w"
  have "read_result ?ff ?w ?ff ?oh (read_loop E ?blk head (length ([] :: buf)) True (fst (?ff, [] :: nat list))
      (last (?oh # snd (?ff, [] :: nat list))) ?ff ?oh ?w) (parse True [] ([], []) es)"
    using b by (intro read_loop_ok [OF E len _ _ g rinv_start [OF fr refl]]) simp_all
  then have r: "read_result ?ff ?w ?ff ?oh ?r (parse True [] ([], []) es)" by simp
  have rf: "readFile E (Some head) True w = ?r \<bind> (\<lambda>(ret, out, w).
      let w = w\<lparr>files := (files w)(?ff := None), ones := (ones w)(?oh := None)\<rparr>
      in Some (ret, case out of None \<Rightarrow> w | Some p \<Rightarrow> w\<lparr>filehead := p\<rparr>))"
    using b by (simp add: readFile_def Let_def)
  show ?thesis
  proof (cases "parse True [] ([], []) es")
    case None
    then obtain w1 where w1: "?r = Some (- 2, None, w1)" "conf_only ?ff ?w w1" "fresh w1"
        "\<forall>a. ?ff \<le> a \<longrightarrow> files w1 a \<noteq> None \<longrightarrow> a = ?ff"
      using r by (auto simp: read_result_def)
    let ?w' = "w1\<lparr>files := (files w1)(?ff := None), ones := (ones w1)(?oh := None)\<rparr>"
    have "files ?w' = files w"
    proof
      fix a
      have "a \<noteq> ?ff \<Longrightarrow> \<not> a < ?ff \<Longrightarrow> files w1 a = None" using w1(4) by (meson not_less)
      then show "files ?w' a = files w a"
        using w1(2) fr by (cases "a < ?ff") (auto simp: conf_only_def fresh_def)
    qed
    moreover have "fresh ?w'" using w1(3) by (auto simp: fresh_def)
    moreover from calculation(1) have "\<exists>o1 n. ?w' = w\<lparr>brk := n, ones := o1\<rparr> \<and> brk w \<le> n"
    proof -
      assume fe: "files ?w' = files w"
      obtain f o1 n where "w1 = ?w\<lparr>brk := n, files := f, ones := o1\<rparr>" "brk ?w \<le> n"
        using w1(2) unfolding conf_only_def by blast
      then show ?thesis
        using fe by (intro exI [of _ "ones ?w'"] exI [of _ n]) simp
    qed
    ultimately show ?thesis using None rf w1(1) by simp
  next
    case (Some secs)
    then obtain w1 cs ss c s f where w1: "?r = Some (0, Some (fd_next f), w1)" "conf_only ?ff ?w w1"
        "rinv ?ff w1 ?ff ?oh True cs ss c s" "secs = tl (ss @ [s])" "files w1 ?ff = Some f"
      using r unfolding read_result_def by auto
    let ?w' = "w1\<lparr>files := (files w1)(?ff := None), ones := (ones w1)(?oh := None), filehead := fd_next f\<rparr>"
    have "fresh ?w'" using rinvD(5) [OF w1(3)] by (auto simp: fresh_def)
    moreover have "\<exists>f o1 n q. ?w' = w\<lparr>brk := n, files := f, ones := o1, filehead := q\<rparr> \<and> brk w \<le> n"
    proof -
      obtain f' o1 n where "w1 = ?w\<lparr>brk := n, files := f', ones := o1\<rparr>" "brk ?w \<le> n"
        using w1(2) unfolding conf_only_def by blast
      then show ?thesis
        by (intro exI [of _ "files ?w'"] exI [of _ "ones ?w'"] exI [of _ n] exI [of _ "fd_next f"]) simp
    qed
    moreover have "\<forall>a<brk w. files ?w' a = files w a \<and> ones ?w' a = ones w a"
      using w1(2) unfolding conf_only_def by auto
    moreover have "readFile E (Some head) True w = Some (0, ?w')" using rf w1(1) by simp
    ultimately show ?thesis
      using rinv_final [OF w1(3,5) refl, of "fd_next f"] w1(4) Some by auto
  qed
qed

section \<open>The sections, by groups of entries\<close>

text \<open>
  A second, independent reading of the entries: split them at the separators; every group
  that is not empty is a section, its first entry the name (cut at 31 characters), the others
  its pairs.
\<close>

fun groups :: "string list \<Rightarrow> string list list" where
  "groups [] = [[]]"
| "groups (e # es) = (if e = [SP] then [] # groups es else (e # hd (groups es)) # tl (groups es))"

definition sect_of :: "string list \<Rightarrow> sect option" where
  "sect_of g = map_option (Pair (take 31 (hd g))) (those (map split_kv (tl g)))"

definition conf_sections :: "string list \<Rightarrow> sect list option" where
  "conf_sections es = those (map sect_of (filter (\<lambda>g. g \<noteq> []) (groups es)))"

lemma groups_ne: "groups es \<noteq> []"
  by (cases es) auto

lemma parse_groups:
  "parse True ss cur es = map_option ((@) (tl (ss @ [cur]))) (conf_sections es)"
  "ss \<noteq> [] \<Longrightarrow> parse False ss (nm, kvs) es =
     (case those (map split_kv (hd (groups es))) of
        None \<Rightarrow> None
      | Some kvs' \<Rightarrow> map_option ((@) (tl ss @ [(nm, kvs @ kvs')]))
          (those (map sect_of (filter (\<lambda>g. g \<noteq> []) (tl (groups es))))))"
proof (induction es arbitrary: ss cur nm kvs)
  case Nil
  {
    case 1
    show ?case by (cases cur) (simp add: conf_sections_def)
  next
    case 2
    then show ?case by simp
  }
next
  case (Cons e es)
  {
    case 1
    obtain n k where cur: "cur = (n, k)" by (cases cur)
    have g: "groups es = hd (groups es) # tl (groups es)" using groups_ne [of es] by simp
    show ?case
    proof (cases "e = [SP]")
      case True
      then show ?thesis using Cons.IH(1) [of ss cur] cur by (simp add: conf_sections_def)
    next
      case False
      then show ?thesis
        using Cons.IH(2) [of "ss @ [cur]" "take 31 e" "[]"] cur
        by (cases "those (map sect_of (filter (\<lambda>g. g \<noteq> []) (tl (groups es))))")
          (auto simp: conf_sections_def sect_of_def split: option.splits)
    qed
  next
    case 2
    have g: "groups es = hd (groups es) # tl (groups es)" using groups_ne [of es] by simp
    show ?case
    proof (cases "e = [SP]")
      case True
      then show ?thesis using Cons.IH(1) [of ss "(nm, kvs)"] 2
        by (cases "those (map sect_of (filter (\<lambda>g. g \<noteq> []) (groups es)))") (simp_all add: conf_sections_def)
    next
      case False
      then show ?thesis
        using Cons.IH(2) [OF 2, of nm]
        by (cases "those (map sect_of (filter (\<lambda>g. g \<noteq> []) (tl (groups es))))")
          (auto split: option.splits)
    qed
  }
qed

lemma parse_conf_sections: "parse True [] ([], []) es = conf_sections es"
  by (cases "conf_sections es") (simp_all add: parse_groups(1))

text \<open>Section names have at most 31 characters.\<close>

lemma conf_sections_names:
  assumes "conf_sections es = Some secs" "s \<in> set secs"
  shows "length (fst s) \<le> 31"
proof -
  have "set secs \<subseteq> {s. \<exists>g. sect_of g = Some s}" if "those (map sect_of gs) = Some secs" for gs secs
    using that by (induction gs arbitrary: secs) (auto split: option.splits)
  then show ?thesis using assms unfolding conf_sections_def by (fastforce simp: sect_of_def)
qed

end
