(* ===== verification/Shutdown.thy ===== *)
theory Shutdown
  imports Scheduler ConfRead
begin

text \<open>
  Ending the program: \<open>TimeDel\<close> and the SIGUSR1 handler \<open>gameover\<close> of \<^verbatim>\<open>src/main.c\<close>. The handler
  runs every task's \<open>deldate\<close> method, closes its library, frees the task list, the configuration
  and the main log, and exits; with an empty task list it only logs a line and returns.
\<close>

section \<open>TimeDel and gameover\<close>

definition TimeDel :: "env \<Rightarrow> ptr \<Rightarrow> world \<Rightarrow> (int \<times> world) option" where
  "TimeDel E cyctem w =
     (case cyctem of
        None \<Rightarrow> Some (- 1, w)
      | Some a \<Rightarrow> do {
          c \<leftarrow> cycs w a;
          w \<leftarrow> (case cy_deldate c of
                 None \<Rightarrow> Some w
               | Some f \<Rightarrow> do { (_, w) \<leftarrow> invoke E f a w; Some w });
          Some (0, w)
        })"

partial_function (option) over_loop :: "env \<Rightarrow> ptr \<Rightarrow> world \<Rightarrow> world option" where
  "over_loop E cyctem w =
     (case cyctem of
        None \<Rightarrow> Some w
      | Some a \<Rightarrow> do {
          w \<leftarrow> drop_ld a w;
          (_, w) \<leftarrow> TimeDel E (Some a) w;
          w \<leftarrow> drop_lib a w;
          c \<leftarrow> cycs w a;
          w \<leftarrow> free_cyc a w;
          over_loop E (cy_next c) w
        })"

text \<open>One round of the loop: the node that comes next, and the state without this one.\<close>

definition over_round :: "env \<Rightarrow> nat \<Rightarrow> world \<Rightarrow> (ptr \<times> world) option" where
  "over_round E a w = do {
     w \<leftarrow> drop_ld a w;
     (_, w) \<leftarrow> TimeDel E (Some a) w;
     w \<leftarrow> drop_lib a w;
     c \<leftarrow> cycs w a;
     w \<leftarrow> free_cyc a w;
     Some (cy_next c, w)
   }"

lemma over_loop_round:
  "over_loop E (Some a) w = over_round E a w \<bind> (\<lambda>(q, w). over_loop E q w)"
  by (subst over_loop.simps) (auto simp: over_round_def split: Option.bind_splits)

text \<open>The handler comes back, or the process ends with an exit status.\<close>

datatype outcome = Returned | Exited int

definition over_rest :: "world \<Rightarrow> (outcome \<times> world) option" where
  "over_rest w = do {
     w \<leftarrow> (case shead w of
            None \<Rightarrow> Some w
          | Some b \<Rightarrow> do { w \<leftarrow> free_buf b w; Some (w\<lparr>shead := None\<rparr>) });
     w \<leftarrow> (case filehead w of
            None \<Rightarrow> Some w
          | Some f \<Rightarrow> do { (_, w) \<leftarrow> freeFiledate (Some f) w; Some (w\<lparr>filehead := None\<rparr>) });
     (_, w) \<leftarrow> logDel (mainld w) w;
     Some (Exited 0, w\<lparr>mainld := None\<rparr>)
   }"

definition gameover :: "env \<Rightarrow> int \<Rightarrow> world \<Rightarrow> (outcome \<times> world) option" where
  "gameover E num w = do {
     w \<leftarrow> logLog E 205 LOGWAR ''start go gameover'' w;
     if cychead w = None then Some (Returned, w)
     else do {
       w \<leftarrow> over_loop E (cychead w) w;
       over_rest (w\<lparr>cychead := None, cycheadnext := None\<rparr>)
     }
   }"

section \<open>The loop over the tasks\<close>

text \<open>The events of one task: its \<open>deldate\<close> method, if it has one, then the closing of its library.\<close>

definition bye :: "world \<Rightarrow> nat \<Rightarrow> event list \<Rightarrow> bool" where
  "bye w a es \<longleftrightarrow> (\<exists>c ds. cycs w a = Some c \<and> es = ds @ map Dlclose (handle (cycs w) a) \<and>
     (case cy_deldate c of None \<Rightarrow> ds = [] | Some f \<Rightarrow> \<exists>r. ds = [Call f a r]))"

text \<open>\<open>ended w as hs w' es\<close>: the nodes \<open>as\<close> are freed, the handles \<open>hs\<close> closed, nothing else changed.\<close>

definition ended :: "world \<Rightarrow> nat list \<Rightarrow> nat list \<Rightarrow> world \<Rightarrow> event list \<Rightarrow> bool" where
  "ended w as hs w' es \<longleftrightarrow>
     kept (w\<lparr>cycs := drop_addrs as (cycs w), dls := fold remove1 hs (dls w), tr := tr w @ es\<rparr>) w'"

lemma ended_trans:
  "ended u as hs v es \<Longrightarrow> ended v bs ks w fs \<Longrightarrow> ended u (as @ bs) (hs @ ks) w (es @ fs)"
  by (simp add: ended_def kept_def drop_addrs_append)

lemma bye_same: "cycs w' a = cycs w a \<Longrightarrow> bye w' a es = bye w a es"
  by (simp add: bye_def handle_def)

text \<open>One round of the loop.\<close>

lemma over_round_ok:
  assumes T: "tame T E" and l: "main_log_ok E w" and t: "nodes_ok w (a # as)" and c: "cycs w a = Some c"
  shows "\<exists>w' es. over_round E a w = Some (cy_next c, w') \<and> main_log_ok E w' \<and>
    ended w [a] (handle (cycs w) a) w' es \<and> bye w a es"
proof -
  let ?hs = "handle (cycs w) a"
  let ?w1 = "w\<lparr>cycs := (cycs w)(a \<mapsto> c\<lparr>cy_fdate := None, cy_ld := None\<rparr>)\<rparr>"
  have ok: "node_ok (mainld w) c" using t c by (simp add: nodes_ok_def)
  have h: "set ?hs \<subseteq> set (dls w)" using nodes_handle [OF t] by simp
  have l1: "main_log_ok E ?w1" using l c by (auto simp: main_log_ok_def log_at_def fresh_def)
  obtain w2 ds where w2: "TimeDel E (Some a) ?w1 = Some (0, w2)" "main_log_ok E w2"
      "touched T a ?w1 w2 ds" "case cy_deldate c of None \<Rightarrow> ds = [] | Some f \<Rightarrow> \<exists>r. ds = [Call f a r]"
  proof (cases "cy_deldate c")
    case None
    have "touched T a ?w1 ?w1 []" using T by (intro touched_refl) (simp_all add: tame_def)
    then show ?thesis using None l1 by (intro that [of ?w1 "[]"]) (simp_all add: TimeDel_def)
  next
    case (Some f)
    have ca: "cycs ?w1 a = Some (c\<lparr>cy_fdate := None, cy_ld := None\<rparr>)" by simp
    obtain r w2 where "invoke E f a ?w1 = Some (r, w2)" "main_log_ok E w2" "touched T a ?w1 w2 [Call f a r]"
      using invoke_ok [OF T l1 ca, of f] by blast
    then show ?thesis using Some by (intro that [of w2 "[Call f a r]"]) (simp_all add: TimeDel_def)
  qed
  obtain c2 where c2: "cycs w2 = (cycs w)(a \<mapsto> c2)" "cy_next c2 = cy_next c" "cy_libdata c2 = cy_libdata c"
    using w2(3) unfolding touched_def by fastforce
  have k2: "kept (?w1\<lparr>cycs := cycs w2, tr := tr w @ ds\<rparr>) w2" using w2(3) by (simp add: touched_def)
  have h2: "handle (cycs w2) a = ?hs" using c2 c by (simp add: handle_def)
  let ?w3 = "close_lib ?hs (w2\<lparr>cycs := (cycs w2)(a \<mapsto> c2\<lparr>cy_libdata := (cy_libdata c2)\<lparr>lb_fdlib := None\<rparr>\<rparr>)\<rparr>)"
  have "dls w2 = dls w" using k2 by (simp add: kept_def)
  then have d3: "drop_lib a w2 = Some ?w3" using drop_lib_eq [of w2 a c2] c2 h h2 by simp
  let ?w4 = "?w3\<lparr>cycs := (cycs w)(a := None)\<rparr>"
  have "over_round E a w = Some (cy_next c, ?w4)"
    using drop_ld_eq [OF c ok] w2(1) d3 c2 by (simp add: over_round_def free_cyc_def close_lib_def)
  moreover have "main_log_ok E ?w4"
    using w2(2) l c2 by (auto simp: main_log_ok_def log_at_def fresh_def close_lib_def)
  moreover have "ended w [a] ?hs ?w4 (ds @ map Dlclose ?hs)"
    using k2 by (auto simp: ended_def kept_def close_lib_def drop_addrs_Cons)
  moreover have "bye w a (ds @ map Dlclose ?hs)" using c w2(4) by (auto simp: bye_def)
  ultimately show ?thesis by blast
qed

lemma over_step:
  assumes "tame T E" "main_log_ok E w" "nodes_ok w (a # as)" "cycs w a = Some c"
  shows "\<exists>w' es. over_loop E (Some a) w = over_loop E (cy_next c) w' \<and> main_log_ok E w' \<and>
    ended w [a] (handle (cycs w) a) w' es \<and> bye w a es"
  using over_round_ok [OF assms] by (auto simp: over_loop_round)

lemma ended_nodes:
  assumes "ended w [a] (handle (cycs w) a) w' es" "nodes_ok w (a # as)" "a \<notin> set as"
  shows "nodes_ok w' as"
proof -
  have e: "cycs w' = (cycs w)(a := None)" "dls w' = fold remove1 (handle (cycs w) a) (dls w)"
      "mainld w' = mainld w"
    using assms(1) by (simp_all add: ended_def kept_def drop_addrs_Cons)
  have "mset (handle (cycs w) a) + mset (handles (cycs w) as) \<subseteq># mset (dls w)"
    using assms(2) by (simp add: nodes_ok_def)
  then have "mset (handles (cycs w) as) \<subseteq># mset (dls w')"
    unfolding e mset_fold_remove1
    by (metis add_diff_cancel_left' subset_eq_diff_conv subset_mset.diff_add union_commute
        mset_subset_eq_add_left subset_mset.order_trans subset_mset.add_le_cancel_left)
  then show ?thesis using assms(2,3) e by (auto simp: nodes_ok_def)
qed

lemma over_loop_ok:
  assumes T: "tame T E"
  shows "main_log_ok E w \<Longrightarrow> lpath cy_next (cycs w) p as None \<Longrightarrow> nodes_ok w as \<Longrightarrow>
    \<exists>w' ess. over_loop E p w = Some w' \<and> main_log_ok E w' \<and>
      ended w as (handles (cycs w) as) w' (concat ess) \<and> list_all2 (bye w) as ess"
proof (induction as arbitrary: p w)
  case Nil
  then show ?case by (auto simp: over_loop.simps ended_def)
next
  case (Cons a as)
  then obtain c where c: "cycs w a = Some c" "p = Some a" "lpath cy_next (cycs w) (cy_next c) as None"
    by (auto split: option.splits)
  have nin: "a \<notin> set as" using lpath_head_notin_tail [OF Cons.prems(2)] .
  obtain w1 es where w1: "over_loop E p w = over_loop E (cy_next c) w1" "main_log_ok E w1"
      "ended w [a] (handle (cycs w) a) w1 es" "bye w a es"
    using over_step [OF T Cons.prems(1,3) c(1)] c(2) by blast
  have cs: "cycs w1 = (cycs w)(a := None)" using w1(3) by (simp add: ended_def kept_def drop_addrs_Cons)
  have "nodes_ok w1 as" by (rule ended_nodes [OF w1(3) Cons.prems(3) nin])
  moreover have "lpath cy_next (cycs w1) (cy_next c) as None"
    using c(3) nin cs by (simp add: heap_simps)
  ultimately obtain w' ess where w': "over_loop E (cy_next c) w1 = Some w'" "main_log_ok E w'"
      "ended w1 as (handles (cycs w1) as) w' (concat ess)" "list_all2 (bye w1) as ess"
    using Cons.IH [OF w1(2)] by blast
  have "ended w (a # as) (handles (cycs w) (a # as)) w' (concat (es # ess))"
    using ended_trans [OF w1(3) w'(3)] nin cs by simp
  moreover have "list_all2 (bye w) as ess"
    using w'(4)
  proof (rule list.rel_mono_strong)
    fix b es
    assume "b \<in> set as" "bye w1 b es"
    moreover from this have "cycs w1 b = cycs w b" using cs nin by auto
    ultimately show "bye w b es" using bye_same by blast
  qed
  ultimately show ?case using w1(1,4) w'(1,2) by (intro exI [of _ w'] exI [of _ "es # ess"]) simp
qed

section \<open>gameover\<close>

text \<open>The configuration in memory: the section nodes with the addresses of their pairs.\<close>

definition conf_cells :: "world \<Rightarrow> (nat \<times> nat list) list \<Rightarrow> bool" where
  "conf_cells w cells \<longleftrightarrow> lpath fd_next (files w) (filehead w) (map fst cells) None \<and>
     (\<forall>c\<in>set cells. cell_ok w c) \<and> distinct (concat (map snd cells))"

text \<open>The block of the configuration file is allocated and is not the name of the main log.\<close>

definition shead_ok :: "world \<Rightarrow> bool" where
  "shead_ok w \<longleftrightarrow> (\<forall>h. shead w = Some h \<longrightarrow> bufs w h \<noteq> None \<and>
     (\<forall>a. mainld w = Some a \<longrightarrow> map_option lg_filename (logs w a) \<noteq> Some (Some h)))"

lemma conf_cells_same:
  "files w' = files w \<Longrightarrow> ones w' = ones w \<Longrightarrow> filehead w' = filehead w \<Longrightarrow>
     conf_cells w' cells = conf_cells w cells"
  by (simp add: conf_cells_def cell_ok_def)

lemma shead_ok_same:
  "bufs w' = bufs w \<Longrightarrow> (\<And>a. map_option lg_filename (logs w' a) = map_option lg_filename (logs w a)) \<Longrightarrow>
     shead w' = shead w \<Longrightarrow> mainld w' = mainld w \<Longrightarrow> shead_ok w' = shead_ok w"
  by (simp add: shead_ok_def)

lemma logDel_ok:
  assumes "log_at w a fn mx" "map_option lg_filename (logs w a) = Some (Some b)"
  obtains fg where "logDel (Some a) w = Some (0, w\<lparr>strms := (strms w)(fg := None),
      bufs := (bufs w)(b := None), logs := (logs w)(a := None)\<rparr>)"
proof -
  obtain fg i where "logs w a = Some \<lparr>lg_fg = Some fg, lg_filename = Some b, lg_maxsize = mx\<rparr>"
      "bufs w b = Some (fn @ [NUL])" "strms w fg = Some i"
    using assms by (auto simp: log_at_def)
  then show thesis
    using that [of fg] by (simp add: logDel_def fclose_def free_buf_def free_log_def upd_log_def)
qed

text \<open>What is left of the heaps after \<open>gameover\<close>.\<close>

definition released ::
  "world \<Rightarrow> nat list \<Rightarrow> (nat \<times> nat list) list \<Rightarrow> nat \<Rightarrow> nat \<Rightarrow> world \<Rightarrow> bool" where
  "released w as cells m b w' \<longleftrightarrow>
     cycs w' = drop_addrs as (cycs w) \<and>
     files w' = drop_addrs (map fst cells) (files w) \<and>
     ones w' = drop_addrs (concat (map snd cells)) (ones w) \<and>
     bufs w' = drop_addrs (b # (case shead w of None \<Rightarrow> [] | Some h \<Rightarrow> [h])) (bufs w) \<and>
     dom (logs w') = dom (logs w) - {m} \<and>
     dls w' = fold remove1 (handles (cycs w) as) (dls w) \<and>
     cychead w' = None \<and> cycheadnext w' = None \<and> shead w' = None \<and> filehead w' = None \<and> mainld w' = None"

lemma dom_filename:
  "(\<And>a. map_option lg_filename (logs w' a) = map_option lg_filename (logs w a)) \<Longrightarrow>
     dom (logs w') = dom (logs w)"
  unfolding dom_def by (metis (no_types, opaque_lifting) option.map_disc_iff)

lemma log_at_upd [simp]:
  "log_at (w\<lparr>cychead := p\<rparr>) a fn mx = log_at w a fn mx"
  "log_at (w\<lparr>cycheadnext := p\<rparr>) a fn mx = log_at w a fn mx"
  "log_at (w\<lparr>shead := p\<rparr>) a fn mx = log_at w a fn mx"
  "log_at (w\<lparr>filehead := p\<rparr>) a fn mx = log_at w a fn mx"
  "log_at (w\<lparr>files := f\<rparr>) a fn mx = log_at w a fn mx"
  "log_at (w\<lparr>ones := o1\<rparr>) a fn mx = log_at w a fn mx"
  by (simp_all add: log_at_def)

text \<open>The second half of the handler, after the loop.\<close>

lemma release_rest:
  assumes l: "log_at w m fn mx" "mainld w = Some m" "map_option lg_filename (logs w m) = Some (Some b)"
    and sh: "shead_ok w" and cf: "conf_cells w cells"
  defines "hs \<equiv> (case shead w of None \<Rightarrow> [] | Some h \<Rightarrow> [h])"
  shows "\<exists>fg. over_rest w = Some (Exited 0, w\<lparr>files := drop_addrs (map fst cells) (files w),
      ones := drop_addrs (concat (map snd cells)) (ones w),
      logs := (logs w)(m := None), bufs := drop_addrs (b # hs) (bufs w),
      strms := (strms w)(fg := None), shead := None, mainld := None, filehead := None\<rparr>)"
proof -
  let ?w1 = "w\<lparr>bufs := drop_addrs hs (bufs w), shead := None\<rparr>"
  have 1: "(case shead w of None \<Rightarrow> Some w
      | Some b \<Rightarrow> do { w \<leftarrow> free_buf b w; Some (w\<lparr>shead := None\<rparr>) }) = Some ?w1"
    using sh by (cases "shead w") (auto simp: shead_ok_def free_buf_def hs_def drop_addrs_Cons)
  let ?w2 = "?w1\<lparr>files := drop_addrs (map fst cells) (files w),
      ones := drop_addrs (concat (map snd cells)) (ones w), filehead := None\<rparr>"
  have "conf_cells ?w1 cells" using cf conf_cells_same [of ?w1 w cells] by simp
  then have 2: "(case filehead ?w1 of None \<Rightarrow> Some ?w1
      | Some f \<Rightarrow> do { (_, w) \<leftarrow> freeFiledate (Some f) ?w1; Some (w\<lparr>filehead := None\<rparr>) }) = Some ?w2"
    using free_files_eq [of ?w1 "filehead w" cells]
    by (cases "filehead w") (simp_all add: conf_cells_def freeFiledate_def)
  have "b \<notin> set hs" using sh l by (cases "shead w") (auto simp: shead_ok_def hs_def)
  then have "log_at ?w1 m fn mx"
    using l(1,3) unfolding log_at_def by (fastforce simp: heap_simps)
  then have "log_at ?w2 m fn mx" by (simp add: log_at_def)
  then obtain fg where "logDel (Some m) ?w2 = Some (0, ?w2\<lparr>strms := (strms ?w2)(fg := None),
      bufs := (bufs ?w2)(b := None), logs := (logs ?w2)(m := None)\<rparr>)"
    using logDel_ok [of ?w2 m fn mx b] l(3) by auto
  moreover have "(drop_addrs hs (bufs w))(b := None) = drop_addrs (b # hs) (bufs w)"
    by (auto simp: fun_eq_iff drop_addrs_def)
  ultimately show ?thesis
    unfolding over_rest_def 1 bind.bind_lunit 2 using l(2) by (intro exI [of _ fg]) simp
qed

lemma gameover_ok:
  assumes T: "tame T E" and l: "main_log_ok E w" and t: "tasks w as" "as \<noteq> []"
    and sh: "shead_ok w" and cf: "conf_cells w cells"
  shows "\<exists>w' m b ess. gameover E num w = Some (Exited 0, w') \<and> mainld w = Some m \<and>
    map_option lg_filename (logs w m) = Some (Some b) \<and> released w as cells m b w' \<and>
    tr w' = tr w @ concat ess \<and> list_all2 (bye w) as ess"
proof -
  have "msg_fits (205, LOGWAR, ''start go gameover'')" by (simp add: msg_fits_def INT_MIN_def INT_MAX_def)
  then obtain w1 where w1: "logLog E 205 LOGWAR ''start go gameover'' w = Some w1" "main_log_ok E w1" "kept w w1"
    using logLog_ok [OF l] by blast
  have t1: "tasks w1 as" using t tasks_kept [OF w1(3)] by simp
  obtain w2 ess where w2: "over_loop E (cychead w1) w1 = Some w2" "main_log_ok E w2"
      "ended w1 as (handles (cycs w1) as) w2 (concat ess)" "list_all2 (bye w1) as ess"
    using over_loop_ok [OF T w1(2)] t1 [unfolded tasks_nodes] by blast
  obtain m fn mx where m: "mainld w2 = Some m" "log_at w2 m fn mx" using w2(2) by (auto simp: main_log_ok_def)
  then obtain b where b: "map_option lg_filename (logs w2 m) = Some (Some b)" by (auto simp: log_at_def)
  have k: "kept (w\<lparr>cycs := drop_addrs as (cycs w), dls := fold remove1 (handles (cycs w) as) (dls w),
      tr := tr w @ concat ess\<rparr>) w2"
    using w1(3) w2(3) by (auto simp: ended_def kept_def)
  let ?w3 = "w2\<lparr>cychead := None, cycheadnext := None\<rparr>"
  have "shead_ok ?w3" "conf_cells ?w3 cells"
    using sh cf k shead_ok_same [of ?w3 w] conf_cells_same [of ?w3 w cells]
    by (simp_all add: kept_def conf_cells_def cell_ok_def shead_ok_def)
  let ?w4 = "\<lambda>fg. ?w3\<lparr>files := drop_addrs (map fst cells) (files ?w3),
      ones := drop_addrs (concat (map snd cells)) (ones ?w3), logs := (logs ?w3)(m := None),
      bufs := drop_addrs (b # (case shead ?w3 of None \<Rightarrow> [] | Some h \<Rightarrow> [h])) (bufs ?w3),
      strms := (strms ?w3)(fg := None), shead := None, mainld := None, filehead := None\<rparr>"
  from \<open>shead_ok ?w3\<close> \<open>conf_cells ?w3 cells\<close> obtain fg where r: "over_rest ?w3 = Some (Exited 0, ?w4 fg)"
    using release_rest [of ?w3 m fn mx b cells] m b by auto
  have "cychead w1 \<noteq> None" using tasksD(1) [OF t1] t(2) by (cases "cychead w1") auto
  then have "gameover E num w = over_rest ?w3" using w1(1) w2(1) by (auto simp: gameover_def)
  note eq = this [unfolded r]
  have "dom (logs w2) = dom (logs w)" using k by (intro dom_filename) (simp add: kept_def)
  then have "released w as cells m b (?w4 fg)" using k by (simp add: released_def kept_def)
  moreover have "list_all2 (bye w) as ess"
  proof -
    have cs: "cycs w1 = cycs w" using w1(3) by (simp add: kept_def)
    have "bye w1 = bye w" by (intro ext) (simp add: bye_def cs)
    then show ?thesis using w2(4) by simp
  qed
  ultimately show ?thesis
    using eq k m b
    by (intro exI [of _ "?w4 fg"] exI [of _ m] exI [of _ b] exI [of _ ess]) (simp add: kept_def)
qed

text \<open>With no task loaded the handler only logs.\<close>

lemma gameover_empty:
  assumes "main_log_ok E w" "cychead w = None"
  shows "\<exists>w'. gameover E num w = Some (Returned, w') \<and> kept w w' \<and> main_log_ok E w'"
proof -
  have "msg_fits (205, LOGWAR, ''start go gameover'')" by (simp add: msg_fits_def INT_MIN_def INT_MAX_def)
  then obtain w1 where "logLog E 205 LOGWAR ''start go gameover'' w = Some w1" "main_log_ok E w1" "kept w w1"
    using logLog_ok [OF assms(1)] by blast
  then show ?thesis using assms(2) by (simp add: gameover_def kept_def)
qed

section \<open>Properties\<close>

text \<open>
  C7: On SIGUSR1 with tasks loaded, \<open>gameover\<close> runs every task's \<open>deldate\<close> method and then closes its
  library, in list order, frees every task, every node of the configuration, its text and the log
  with its name, each exactly once, clears all globals and exits with status 0.
\<close>

theorem gameover_releases:
  assumes "tame T E" "main_log_ok E w" "tasks w as" "as \<noteq> []" "shead_ok w" "conf_cells w cells"
  shows "\<exists>w' m b ess. gameover E num w = Some (Exited 0, w') \<and> mainld w = Some m \<and>
    map_option lg_filename (logs w m) = Some (Some b) \<and> released w as cells m b w' \<and>
    tr w' = tr w @ concat ess \<and> list_all2 (bye w) as ess"
  using gameover_ok [OF assms] .

theorem gameover_releases_witness:
  "\<exists>w'. gameover still 10 demo = Some (Exited 0, w') \<and> cycs w' = Map.empty \<and> tr w' = [Dlclose 100, Dlclose 101]"
proof -
  have sc: "shead_ok demo" "conf_cells demo []"
    by (simp_all add: shead_ok_def conf_cells_def demo_def opened_def boot_def)
  have cs: "cycs demo = [7 \<mapsto> demo_a, 8 \<mapsto> demo_node 101 (CHR ''b'') None]" by (simp add: demo_def demo_a_def)
  have d: "cy_deldate demo_a = None" "cy_deldate (demo_node 101 (CHR ''b'') None) = None"
    by (simp_all add: demo_a_def demo_node_def zero_cycdata_def)
  obtain w' ess where w': "gameover still 10 demo = Some (Exited 0, w')" "cycs w' = drop_addrs [7, 8] (cycs demo)"
      "tr w' = concat ess" "list_all2 (bye demo) [7, 8] ess"
    using gameover_releases [OF still_tame demo_log demo_ok(1) _ sc, of 10] by (auto simp: released_def)
  have "cycs w' = Map.empty" using w'(2) cs by (auto simp: drop_addrs_def fun_eq_iff)
  moreover have "concat ess = [Dlclose 100, Dlclose 101]"
  proof -
    obtain e1 e2 where e: "ess = [e1, e2]" "bye demo 7 e1" "bye demo 8 e2"
      using w'(4) by (auto simp: list_all2_Cons1)
    have "cycs demo 8 = Some (demo_node 101 (CHR ''b'') None)" by (simp add: cs)
    then have "e1 = [Dlclose 100]" "e2 = [Dlclose 101]" using e(2,3) d by (simp_all add: bye_def)
    then show ?thesis using e(1) by simp
  qed
  ultimately show ?thesis using w' by auto
qed

text \<open>
  With no task loaded, \<open>gameover\<close> returns instead of exiting: it logs a line and changes nothing, so
  that a SIGUSR1 before the libraries are loaded does not end the program.
\<close>

lemma gameover_returns_empty:
  assumes "main_log_ok E w" "cychead w = None"
  shows "\<exists>w'. gameover E num w = Some (Returned, w') \<and> kept w w'"
  using gameover_empty [OF assms] by blast

lemma gameover_returns_empty_witness: "\<exists>w'. gameover still 10 opened = Some (Returned, w') \<and> mainld w' = Some 4"
  using gameover_returns_empty [OF opened_main(1), of 10] by (auto simp: kept_def opened_def boot_def)

text \<open>
  C27: SIGALRM is not blocked while \<open>gameover\<close> runs, and its loop frees the nodes before it clears \<open>cychead\<close>: after
  the first round of the loop, from where \<open>gameover\<close> would go on, an alarm makes \<open>cycleTimeMethod\<close> read the freed
  node. So does a SIGUSR1 when \<open>gameover\<close> was called at the end of \<open>main\<close> and not as a handler: the second
  \<open>gameover\<close> takes the freed node for the first task.
\<close>

theorem alarm_in_gameover:
  assumes "tame T E" "main_log_ok E w" "tasks w (a # as)"
  shows "\<exists>w1 q w2. logLog E 205 LOGWAR ''start go gameover'' w = Some w1 \<and> over_round E a w1 = Some (q, w2) \<and>
    gameover E num w = over_loop E q w2 \<bind> (\<lambda>w. over_rest (w\<lparr>cychead := None, cycheadnext := None\<rparr>)) \<and>
    cycleTimeMethod E num' w2 = None \<and> gameover E num' w2 = None"
proof -
  obtain w1 where w1: "logLog E 205 LOGWAR ''start go gameover'' w = Some w1" "main_log_ok E w1" "kept w w1"
    using logLog_ok [OF assms(2), of 205 LOGWAR "''start go gameover''"] by (auto simp: msg_fits_def INT_MIN_def INT_MAX_def)
  have t: "tasks w1 (a # as)" using tasks_kept [OF w1(3)] assms(3) by simp
  then have h: "cychead w1 = Some a" using lpath_start [OF tasksD(1) [OF t]] by simp
  obtain c where c: "cycs w1 a = Some c" using t by (auto simp: tasks_def)
  obtain w2 es where w2: "over_round E a w1 = Some (cy_next c, w2)" "main_log_ok E w2" "ended w1 [a] (handle (cycs w1) a) w2 es"
    using over_round_ok [OF assms(1) w1(2) _ c] t [unfolded tasks_nodes] by blast
  then have f: "cychead w2 = Some a" "cycs w2 a = None" using h by (auto simp: ended_def kept_def drop_addrs_Cons)
  then have "cycleTimeMethod E num' w2 = None"
    by (simp add: cycleTimeMethod_def cycle_loop.simps tick_node_def)
  moreover obtain w3 where w3: "logLog E 205 LOGWAR ''start go gameover'' w2 = Some w3" "kept w2 w3"
    using logLog_ok [OF w2(2), of 205 LOGWAR "''start go gameover''"] by (auto simp: msg_fits_def INT_MIN_def INT_MAX_def)
  moreover have "cychead w3 = Some a" "over_round E a w3 = None"
    using w3(2) f by (simp_all add: kept_def over_round_def drop_ld_def upd_cyc_def)
  ultimately show ?thesis using w1(1) w2(1) h by (auto simp: gameover_def over_loop_round)
qed

theorem alarm_in_gameover_witness:
  "\<exists>w1 q w2. over_round still 7 w1 = Some (q, w2) \<and> cycleTimeMethod still 14 w2 = None"
  using alarm_in_gameover [OF still_tame demo_log demo_ok(1)] by blast

end
