(* ===== verification/Binder.thy ===== *)
theory Binder
  imports Shutdown
begin

text \<open>
  Binding the configuration to the loaded libraries, \<open>toSetCycdata\<close> of \<^verbatim>\<open>src/main.c\<close>: every section
  is given to the first task whose library has the section's name (letter case does not
  matter); a section without library and a library claimed twice are errors; the tasks that
  got no section are removed.

  The specification \<open>bind_spec\<close> works on names; \<open>toSetCycdata\<close> is shown to implement it on the
  heap.
\<close>

section \<open>toSetCycdata\<close>

text \<open>
  The inner loop, for the section node \<open>filetem\<close>: \<open>Inl\<close> is a return from inside, \<open>Inr\<close> the value of
  \<open>cyctem\<close> when the loop is left.
\<close>

partial_function (option) match_lib :: "env \<Rightarrow> nat \<Rightarrow> ptr \<Rightarrow> world \<Rightarrow> ((int + ptr) \<times> world) option" where
  "match_lib E filetem cyctem w =
     (case cyctem of
        None \<Rightarrow> Some (Inr None, w)
      | Some a \<Rightarrow> do {
          f \<leftarrow> files w filetem;
          c \<leftarrow> cycs w a;
          r \<leftarrow> strIsSame (Some (fd_name f)) (Some (lb_name (cy_libdata c))) 32 1;
          if r = 0
          then if cy_fdate c \<noteq> None
            then do {
              s \<leftarrow> str_of (fd_name f);
              w \<leftarrow> logLog E 668 LOGERR (''filedate has same name '' @ s) w;
              Some (Inl TCS_OTHER_ERR, w)
            }
            else do {
              w \<leftarrow> upd_cyc a (\<lambda>c. c\<lparr>cy_fdate := Some filetem, cy_ld := mainld w\<rparr>) w;
              Some (Inr (Some a), w)
            }
          else match_lib E filetem (cy_next c) w
        })"

text \<open>
  A round of the outer loop, for a section: \<open>Inl\<close> is a return from inside, \<open>Inr\<close> the next section. The loop
  ends with 0 when every section was bound.
\<close>

definition bind_round :: "env \<Rightarrow> nat \<Rightarrow> ptr \<Rightarrow> world \<Rightarrow> ((int + ptr) \<times> world) option" where
  "bind_round E ft chead w = do {
     (r, w) \<leftarrow> match_lib E ft chead w;
     case r of
       Inl e \<Rightarrow> Some (Inl e, w)
     | Inr cyctem \<Rightarrow>
         if cyctem = None
         then do {
           f \<leftarrow> files w ft;
           s \<leftarrow> str_of (fd_name f);
           w \<leftarrow> logLog E 679 LOGERR (s @ '' not have libso to fit'') w;
           Some (Inl (TCS_OTHER_ERR - 1), w)
         }
         else do { f \<leftarrow> files w ft; Some (Inr (fd_next f), w) }
   }"

partial_function (option) bind_loop :: "env \<Rightarrow> ptr \<Rightarrow> ptr \<Rightarrow> world \<Rightarrow> (int \<times> world) option" where
  "bind_loop E filetem chead w =
     (case filetem of
        None \<Rightarrow> Some (0, w)
      | Some ft \<Rightarrow> do {
          (r, w) \<leftarrow> bind_round E ft chead w;
          case r of
            Inl e \<Rightarrow> Some (e, w)
          | Inr filetem \<Rightarrow> bind_loop E filetem chead w
        })"

text \<open>A round of the last loop, which removes the tasks without section, and the loop.\<close>

definition sweep_round :: "env \<Rightarrow> nat \<Rightarrow> world \<Rightarrow> ((int + ptr) \<times> world) option" where
  "sweep_round E a w = do {
     c \<leftarrow> cycs w a;
     if cy_fdate c = None
     then do {
       s \<leftarrow> str_of (lb_name (cy_libdata c));
       w \<leftarrow> logLog E 692 LOGERR (s @ '' is not use'') w;
       c \<leftarrow> cycs w a;
       (res, w) \<leftarrow> freeCycdata (Some a) w;
       if res \<noteq> 0
       then do {
         w \<leftarrow> logLog E 698 LOGERR (''freeCycdata is err '' @ dec res) w;
         Some (Inl (TCS_OTHER_ERR - 2), w)
       }
       else Some (Inr (cy_next c), w)
     }
     else Some (Inr (cy_next c), w)
   }"

partial_function (option) sweep_loop :: "env \<Rightarrow> ptr \<Rightarrow> world \<Rightarrow> (int \<times> world) option" where
  "sweep_loop E cyctem w =
     (case cyctem of
        None \<Rightarrow> Some (0, w)
      | Some a \<Rightarrow> do {
          (r, w) \<leftarrow> sweep_round E a w;
          case r of
            Inl e \<Rightarrow> Some (e, w)
          | Inr cyctem \<Rightarrow> sweep_loop E cyctem w
        })"

definition toSetCycdata :: "env \<Rightarrow> ptr \<Rightarrow> ptr \<Rightarrow> world \<Rightarrow> (int \<times> world) option" where
  "toSetCycdata E fhead chead w =
     (if fhead = None \<or> chead = None
      then do {
        w \<leftarrow> logLog E 651 LOGERR ''toSetCycdata fhead or chead is NULL'' w;
        Some (- 1, w)
      }
      else do {
        (res, w) \<leftarrow> bind_loop E fhead chead w;
        if res \<noteq> 0 then Some (res, w) else sweep_loop E chead w
      })"

section \<open>The specification\<close>

text \<open>
  \<open>ss\<close> are the sections with their names, \<open>lib\<close> the name of the library of a task, \<open>as\<close> the tasks
  and \<open>m\<close> what is bound so far.
\<close>

fun bind_spec ::
  "(nat \<times> string) list \<Rightarrow> (nat \<Rightarrow> string) \<Rightarrow> nat list \<Rightarrow> (nat \<Rightarrow> nat option) \<Rightarrow> int \<times> (nat \<Rightarrow> nat option)" where
  "bind_spec [] lib as m = (0, m)"
| "bind_spec ((s, nm) # ss) lib as m =
     (case find (\<lambda>a. lib a = nm) as of
        None \<Rightarrow> (- 11, m)
      | Some a \<Rightarrow> if m a \<noteq> None then (- 10, m) else bind_spec ss lib as (m(a \<mapsto> s)))"

definition lname :: "cycdata heap \<Rightarrow> nat \<Rightarrow> string" where
  "lname h a = (case h a of None \<Rightarrow> [] | Some c \<Rightarrow> map tolower (cstr (lb_name (cy_libdata c))))"

definition fdates :: "cycdata heap \<Rightarrow> nat \<Rightarrow> nat option" where
  "fdates h a = (case h a of None \<Rightarrow> None | Some c \<Rightarrow> cy_fdate c)"

text \<open>The section node \<open>fst s\<close> carries a name of at most 31 characters, which folds to \<open>snd s\<close>.\<close>

definition named :: "filedate heap \<Rightarrow> nat \<times> string \<Rightarrow> bool" where
  "named h s \<longleftrightarrow> (\<exists>f. h (fst s) = Some f \<and> NUL \<in> set (fd_name f) \<and> length (cstr (fd_name f)) \<le> 31 \<and>
     map tolower (cstr (fd_name f)) = snd s)"

lemma same_name:
  assumes "NUL \<in> set A" "NUL \<in> set B" "length (cstr A) \<le> 31" "length (cstr B) \<le> 31"
  shows "\<exists>r. strIsSame (Some A) (Some B) 32 1 = Some r \<and>
    (r = 0 \<longleftrightarrow> map tolower (cstr A) = map tolower (cstr B))"
proof -
  have r: "readable (nat 32) A" "readable (nat 32) B" using assms by (simp_all add: readable_def)
  have n: "name_of (nat 32) A = cstr A" "name_of (nat 32) B = cstr B"
    using assms by (simp_all add: name_of_def)
  have "fold_char 1 = tolower" by (simp add: fold_char_def fun_eq_iff)
  then show ?thesis
    using strIsSame_zero [OF r, of 1] strIsSame_eq [OF r, of 1] n by auto
qed

lemma node_lname:
  assumes "node_ok ml c"
  shows "NUL \<in> set (lb_name (cy_libdata c))" "length (cstr (lb_name (cy_libdata c))) \<le> 31"
proof -
  show n: "NUL \<in> set (lb_name (cy_libdata c))" using assms by (simp add: node_ok_def)
  have "length (cstr (lb_name (cy_libdata c))) < length (lb_name (cy_libdata c))"
    using takeWhile_length_nth [OF n, of "\<lambda>c. c \<noteq> NUL"] by (simp add: cstr_def)
  then show "length (cstr (lb_name (cy_libdata c))) \<le> 31" using assms by (simp add: node_ok_def)
qed

section \<open>The inner loop\<close>

lemma match_lib_eq:
  assumes f: "named (files w) (ft, nm)"
  shows "lpath cy_next (cycs w) p as None \<Longrightarrow> \<forall>a\<in>set as. \<exists>c. cycs w a = Some c \<and> node_ok (mainld w) c \<Longrightarrow>
    match_lib E ft p w =
      (case find (\<lambda>a. lname (cycs w) a = nm) as of
         None \<Rightarrow> Some (Inr None, w)
       | Some a \<Rightarrow>
           (case fdates (cycs w) a of
              Some _ \<Rightarrow> do {
                f \<leftarrow> files w ft;
                s \<leftarrow> str_of (fd_name f);
                w \<leftarrow> logLog E 668 LOGERR (''filedate has same name '' @ s) w;
                Some (Inl (- 10), w)
              }
            | None \<Rightarrow> do {
                w \<leftarrow> upd_cyc a (\<lambda>c. c\<lparr>cy_fdate := Some ft, cy_ld := mainld w\<rparr>) w;
                Some (Inr (Some a), w)
              }))"
proof (induction as arbitrary: p)
  case Nil
  then show ?case by (simp add: match_lib.simps)
next
  case (Cons a as)
  obtain d where d: "files w ft = Some d" "NUL \<in> set (fd_name d)" "length (cstr (fd_name d)) \<le> 31"
      "map tolower (cstr (fd_name d)) = nm"
    using f by (auto simp: named_def)
  obtain c where c: "p = Some a" "cycs w a = Some c" "node_ok (mainld w) c" "lpath cy_next (cycs w) (cy_next c) as None"
    using Cons.prems by (auto split: option.splits)
  obtain r where r: "strIsSame (Some (fd_name d)) (Some (lb_name (cy_libdata c))) 32 1 = Some r"
      "r = 0 \<longleftrightarrow> nm = lname (cycs w) a"
    using same_name [OF d(2) node_lname(1) [OF c(3)] d(3) node_lname(2) [OF c(3)]] d(4) c(2)
    by (auto simp: lname_def)
  show ?case
  proof (cases "lname (cycs w) a = nm")
    case True
    then show ?thesis
      using c d r by (subst match_lib.simps) (auto simp: fdates_def split: option.splits)
  next
    case False
    then have "match_lib E ft p w = match_lib E ft (cy_next c) w"
      using c d r by (subst match_lib.simps) simp
    then show ?thesis using Cons.IH [OF c(4)] Cons.prems(2) False by simp
  qed
qed

section \<open>The outer loop\<close>

text \<open>
  \<open>rebound w w'\<close>: between the two states nodes were bound, and log lines written; a node
  that was bound uses the main log.
\<close>

definition unbound :: "cycdata \<Rightarrow> cycdata" where
  "unbound c = c\<lparr>cy_fdate := None, cy_ld := None\<rparr>"

definition rebound :: "world \<Rightarrow> world \<Rightarrow> bool" where
  "rebound w w' \<longleftrightarrow> kept (w\<lparr>cycs := cycs w'\<rparr>) w' \<and>
     (\<forall>a. map_option unbound (cycs w' a) = map_option unbound (cycs w a)) \<and>
     (\<forall>a c. cycs w' a = Some c \<longrightarrow> cy_ld c = mainld w \<or> map_option cy_ld (cycs w a) = Some (cy_ld c))"

lemma rebound_kept: "kept w w' \<Longrightarrow> rebound w w'"
  by (auto simp: rebound_def kept_def)

lemma rebound_trans:
  assumes "rebound u v" "rebound v w"
  shows "rebound u w"
proof -
  have k: "kept (u\<lparr>cycs := cycs v\<rparr>) v" "kept (v\<lparr>cycs := cycs w\<rparr>) w"
    using assms by (simp_all add: rebound_def)
  then have "kept (u\<lparr>cycs := cycs w\<rparr>) w" by (auto simp: kept_def)
  moreover have "mainld v = mainld u" using k(1) by (simp add: kept_def)
  moreover have "cy_ld c = mainld u \<or> map_option cy_ld (cycs u a) = Some (cy_ld c)" if "cycs w a = Some c" for a c
  proof -
    have "cy_ld c = mainld v \<or> map_option cy_ld (cycs v a) = Some (cy_ld c)"
      using assms(2) that by (simp add: rebound_def)
    then show ?thesis
    proof
      assume "map_option cy_ld (cycs v a) = Some (cy_ld c)"
      then obtain d where "cycs v a = Some d" "cy_ld d = cy_ld c" by auto
      then show ?thesis using assms(1) by (force simp: rebound_def)
    qed (use calculation(2) in simp)
  qed
  ultimately show ?thesis using assms unfolding rebound_def by simp
qed

lemma unbound_eqD:
  assumes "map_option unbound (h' a) = map_option unbound (h a)"
  shows "map_option cy_next (h' a) = map_option cy_next (h a)"
    "map_option cy_libdata (h' a) = map_option cy_libdata (h a)"
proof -
  have *: "map_option f (map_option unbound (h' a)) = map_option f (map_option unbound (h a))" for f :: "cycdata \<Rightarrow> 'x"
    using assms by simp
  show "map_option cy_next (h' a) = map_option cy_next (h a)"
    using *[of cy_next] by (simp add: option.map_comp comp_def unbound_def)
  show "map_option cy_libdata (h' a) = map_option cy_libdata (h a)"
    using *[of cy_libdata] by (simp add: option.map_comp comp_def unbound_def)
qed

lemma rebound_tasks:
  assumes r: "rebound w w'" and t: "tasks w as"
  shows "tasks w' as"
proof -
  have u: "map_option unbound (cycs w' a) = map_option unbound (cycs w a)" for a
    using r by (simp add: rebound_def)
  have k: "cychead w' = cychead w" "mainld w' = mainld w" "dls w' = dls w"
    using r by (auto simp: rebound_def kept_def)
  have "lpath cy_next (cycs w') q as None \<longleftrightarrow> lpath cy_next (cycs w) q as None" for q
    by (rule lpath_same_links) (rule unbound_eqD(1) [of "cycs w'", OF u])
  moreover have "handles (cycs w') as = handles (cycs w) as"
    by (rule handles_cong) (rule unbound_eqD(2) [of "cycs w'", OF u])
  moreover have "\<exists>d. cycs w' a = Some d \<and> node_ok (mainld w) d" if a: "a \<in> set as" for a
  proof -
    obtain c where c: "cycs w a = Some c" "node_ok (mainld w) c" using tasksD(2) [OF t a] by blast
    then obtain d where d: "cycs w' a = Some d" "cy_libdata d = cy_libdata c"
      using unbound_eqD(2) [of "cycs w'" a "cycs w", OF u] by auto
    then have "cy_ld d = mainld w \<or> cy_ld d = cy_ld c" using r c(1) by (fastforce simp: rebound_def)
    then show ?thesis using c d by (auto simp: node_ok_def)
  qed
  ultimately show ?thesis using t k by (simp add: tasks_def)
qed

lemma rebound_lname: "rebound w w' \<Longrightarrow> lname (cycs w') = lname (cycs w)"
proof
  fix a
  assume "rebound w w'"
  then have "map_option cy_libdata (cycs w' a) = map_option cy_libdata (cycs w a)"
    by (intro unbound_eqD(2)) (simp add: rebound_def)
  then show "lname (cycs w') a = lname (cycs w) a"
    by (cases "cycs w a"; cases "cycs w' a") (auto simp: lname_def)
qed

lemma named_msg:
  assumes "named (files w) s" "length m1 + length m2 \<le> 100" "0 \<le> line" "line \<le> INT_MAX" "main_log_ok E w"
  shows "\<exists>f nm w'. files w (fst s) = Some f \<and> str_of (fd_name f) = Some nm \<and>
    logLog E line type (m1 @ nm @ m2) w = Some w' \<and> main_log_ok E w' \<and> kept w w'"
proof -
  obtain f where f: "files w (fst s) = Some f" "NUL \<in> set (fd_name f)" "length (cstr (fd_name f)) \<le> 31"
    using assms(1) by (auto simp: named_def)
  then have "msg_fits (line, type, m1 @ cstr (fd_name f) @ m2)"
    using assms by (simp add: msg_fits_def INT_MIN_def)
  then show ?thesis using logLog_ok [OF assms(5)] f by (auto simp: str_of_def)
qed

lemma fdates_upd [simp]: "fdates (h(a \<mapsto> c)) = (fdates h)(a := cy_fdate c)"
  by (auto simp: fdates_def fun_eq_iff)

text \<open>A round, for the section \<open>ft\<close> with its name: what the specification says of this one section.\<close>

lemma bind_round_ok:
  assumes l: "main_log_ok E w" and t: "tasks w as" and s: "named (files w) (ft, nm)" "files w ft = Some f"
    and b: "bind_spec [(ft, nm)] (lname (cycs w)) as (fdates (cycs w)) = (res, m)"
  shows "\<exists>w'. bind_round E ft (cychead w) w = Some (if res = 0 then Inr (fd_next f) else Inl res, w') \<and>
    main_log_ok E w' \<and> rebound w w' \<and> fdates (cycs w') = m"
proof -
  have nodes: "\<forall>a\<in>set as. \<exists>c. cycs w a = Some c \<and> node_ok (mainld w) c" using tasksD(2) [OF t] by blast
  note ml = match_lib_eq [OF s(1) tasksD(1) [OF t], of E, OF nodes]
  show ?thesis
  proof (cases "find (\<lambda>a. lname (cycs w) a = nm) as")
    case None
    obtain g n w1 where "files w ft = Some g" "str_of (fd_name g) = Some n"
        "logLog E 679 LOGERR (n @ '' not have libso to fit'') w = Some w1" "main_log_ok E w1" "kept w w1"
      using named_msg [OF s(1), of "[]" "'' not have libso to fit''" 679 E LOGERR] l
      by (auto simp: INT_MAX_def)
    then show ?thesis
      using None b ml by (auto simp: bind_round_def kept_def intro: rebound_kept)
  next
    case a: (Some a)
    then have "a \<in> set as" by (auto simp: find_Some_iff)
    then obtain c where c: "cycs w a = Some c" using nodes by blast
    show ?thesis
    proof (cases "fdates (cycs w) a")
      case (Some x)
      obtain g n w1 where "files w ft = Some g" "str_of (fd_name g) = Some n"
          "logLog E 668 LOGERR (''filedate has same name '' @ n) w = Some w1" "main_log_ok E w1" "kept w w1"
        using named_msg [OF s(1), of "''filedate has same name ''" "[]" 668 E LOGERR] l
        by (auto simp: INT_MAX_def)
      then show ?thesis
        using Some a b ml by (auto simp: bind_round_def kept_def intro: rebound_kept)
    next
      case None
      let ?w = "w\<lparr>cycs := (cycs w)(a \<mapsto> c\<lparr>cy_fdate := Some ft, cy_ld := mainld w\<rparr>)\<rparr>"
      have "rebound w ?w" using c by (auto simp: rebound_def kept_def unbound_def)
      moreover have "main_log_ok E ?w" using l c by (auto simp: main_log_ok_def log_at_def fresh_def)
      ultimately show ?thesis
        using ml a None c s(2) b by (auto simp: bind_round_def upd_cyc_def)
    qed
  qed
qed

lemma bind_spec_Cons:
  "bind_spec (s # ss) lib as m =
     (case bind_spec [s] lib as m of (res, m') \<Rightarrow> if res = 0 then bind_spec ss lib as m' else (res, m'))"
  by (cases s) (simp split: option.split)

lemma bind_loop_ok:
  "main_log_ok E w \<Longrightarrow> tasks w as \<Longrightarrow> lpath fd_next (files w) p (map fst ss) None \<Longrightarrow>
     \<forall>s\<in>set ss. named (files w) s \<Longrightarrow>
     bind_spec ss (lname (cycs w)) as (fdates (cycs w)) = (res, m) \<Longrightarrow>
     \<exists>w'. bind_loop E p (cychead w) w = Some (res, w') \<and> main_log_ok E w' \<and> rebound w w' \<and>
       fdates (cycs w') = m"
proof (induction ss arbitrary: p w)
  case Nil
  then show ?case by (auto simp: bind_loop.simps intro: rebound_kept)
next
  case (Cons s ss)
  obtain ft nm where s: "s = (ft, nm)" by (cases s)
  then obtain f where f: "p = Some ft" "files w ft = Some f" "lpath fd_next (files w) (fd_next f) (map fst ss) None"
    using Cons.prems(3) by (auto split: option.splits)
  obtain r m1 where one: "bind_spec [(ft, nm)] (lname (cycs w)) as (fdates (cycs w)) = (r, m1)" by (metis surj_pair)
  have nmd: "named (files w) (ft, nm)" using Cons.prems(4) s by simp
  obtain w1 where w1: "bind_round E ft (cychead w) w = Some (if r = 0 then Inr (fd_next f) else Inl r, w1)"
      "main_log_ok E w1" "rebound w w1" "fdates (cycs w1) = m1"
    using bind_round_ok [OF Cons.prems(1,2) nmd f(2) one] by blast
  have b: "(if r = 0 then bind_spec ss (lname (cycs w)) as m1 else (r, m1)) = (res, m)"
    using Cons.prems(5) s one bind_spec_Cons [of s ss "lname (cycs w)" as "fdates (cycs w)"] by simp
  show ?case
  proof (cases "r = 0")
    case False
    then show ?thesis using w1 b f(1) by (subst bind_loop.simps) auto
  next
    case True
    have k: "files w1 = files w" "cychead w1 = cychead w" using w1(3) by (auto simp: rebound_def kept_def)
    obtain w' where "bind_loop E (fd_next f) (cychead w1) w1 = Some (res, w')" "main_log_ok E w'"
        "rebound w1 w'" "fdates (cycs w') = m"
      using Cons.IH [OF w1(2) rebound_tasks [OF w1(3) Cons.prems(2)], of "fd_next f"] f(3) Cons.prems(4) b True
      by (auto simp: k w1(4) rebound_lname [OF w1(3)])
    then show ?thesis
      using w1(1) True f(1) k rebound_trans [OF w1(3)] by (subst bind_loop.simps) auto
  qed
qed

section \<open>Removing the tasks without section\<close>

text \<open>\<open>swept w rs w'\<close>: the nodes \<open>rs\<close> are gone and their libraries closed, the others keep their contents.\<close>

definition swept :: "world \<Rightarrow> nat list \<Rightarrow> world \<Rightarrow> bool" where
  "swept w rs w' \<longleftrightarrow>
     kept ((close_lib (handles (cycs w) rs) w)\<lparr>cycs := cycs w', cychead := cychead w'\<rparr>) w' \<and>
     (\<forall>b. if b \<in> set rs then cycs w' b = None else map_option contents (cycs w' b) = map_option contents (cycs w b))"

lemma swept_kept: "kept w w' \<Longrightarrow> swept w [] w'"
  by (auto simp: swept_def kept_def close_lib_def)

lemma removed_swept:
  assumes "removed a w w'"
  shows "swept w [a] w'"
proof -
  obtain h cs where r: "w' = (close_lib (handle (cycs w) a) w)\<lparr>cycs := cs, cychead := h\<rparr>" "cs a = None"
      "\<forall>b. b \<noteq> a \<longrightarrow> map_option contents (cs b) = map_option contents (cycs w b)"
    using assms unfolding removed_def by blast
  then show ?thesis by (simp add: swept_def)
qed

lemma contents_libdata:
  "map_option contents (h' b) = map_option contents (h b) \<Longrightarrow>
     map_option cy_libdata (h' b) = map_option cy_libdata (h b) \<and>
     map_option cy_fdate (h' b) = map_option cy_fdate (h b)"
  by (cases "h b"; cases "h' b") (auto dest: contents_eqD)

lemma swept_trans:
  assumes "swept u rs v" "swept v qs w" "set rs \<inter> set qs = {}"
  shows "swept u (rs @ qs) w"
proof -
  have "handles (cycs v) qs = handles (cycs u) qs"
  proof (rule handles_cong)
    fix a
    assume "a \<in> set qs"
    then have "map_option contents (cycs v a) = map_option contents (cycs u a)"
      using assms(1,3) by (auto simp: swept_def split: if_splits)
    then show "map_option cy_libdata (cycs v a) = map_option cy_libdata (cycs u a)"
      using contents_libdata [of "cycs v" a "cycs u"] by blast
  qed
  moreover have "if b \<in> set (rs @ qs) then cycs w b = None
      else map_option contents (cycs w b) = map_option contents (cycs u b)" for b
    using assms(1,2) unfolding swept_def
    by (cases "b \<in> set rs"; cases "b \<in> set qs") (auto split: if_splits dest!: spec [of _ b])
  ultimately show ?thesis
    using assms(1,2) unfolding swept_def by (auto simp: kept_def close_lib_def)
qed

lemma removed_log:
  assumes "main_log_ok E w" "removed a w w'"
  shows "main_log_ok E w'"
proof -
  obtain h cs where r: "w' = (close_lib (handle (cycs w) a) w)\<lparr>cycs := cs, cychead := h\<rparr>" "cs a = None"
      "\<forall>b. b \<noteq> a \<longrightarrow> map_option contents (cs b) = map_option contents (cycs w b)"
    using assms unfolding removed_def by blast
  have "cs b = None" if "cycs w b = None" for b using r(2,3) that by (cases "b = a") auto
  then show ?thesis
    using assms(1) r(1) by (auto simp: main_log_ok_def log_at_def fresh_def close_lib_def)
qed

lemma swept_fdates: "swept w rs w' \<Longrightarrow> a \<notin> set rs \<Longrightarrow> fdates (cycs w') a = fdates (cycs w) a"
proof -
  assume "swept w rs w'" "a \<notin> set rs"
  then have "map_option contents (cycs w' a) = map_option contents (cycs w a)" by (simp add: swept_def)
  then have "map_option cy_fdate (cycs w' a) = map_option cy_fdate (cycs w a)"
    using contents_libdata [of "cycs w'" a "cycs w"] by blast
  then show ?thesis by (cases "cycs w a"; cases "cycs w' a") (auto simp: fdates_def)
qed

lemma sweep_round_ok:
  assumes l: "main_log_ok E w" and t: "tasks w (ds @ a # as)" and c: "cycs w a = Some c"
    and p: "lpath cy_next (cycs w) (cy_next c) as None"
  shows "\<exists>w'. sweep_round E a w = Some (Inr (cy_next c), w') \<and> main_log_ok E w' \<and>
    lpath cy_next (cycs w') (cy_next c) as None \<and>
    (if fdates (cycs w) a = None then tasks w' (ds @ as) \<and> swept w [a] w' else w' = w)"
proof (cases "cy_fdate c = None")
  case False
  then show ?thesis using l p c by (auto simp: sweep_round_def fdates_def)
next
  case True
  let ?nm = "cstr (lb_name (cy_libdata c))"
  have ok: "node_ok (mainld w) c" using tasksD(2) [OF t, of a] c by auto
  have nm: "str_of (lb_name (cy_libdata c)) = Some ?nm" using node_lname(1) [OF ok] by (simp add: str_of_def)
  have "msg_fits (692, LOGERR, ?nm @ '' is not use'')"
    using node_lname(2) [OF ok] by (simp add: msg_fits_def INT_MIN_def INT_MAX_def)
  then obtain w1 where w1: "logLog E 692 LOGERR (?nm @ '' is not use'') w = Some w1" "main_log_ok E w1" "kept w w1"
    using logLog_ok [OF l] by blast
  have c1: "cycs w1 = cycs w" using w1(3) by (simp add: kept_def)
  have "tasks w1 (ds @ a # as)" using t tasks_kept [OF w1(3)] by simp
  then obtain w2 where w2: "freeCycdata (Some a) w1 = Some (0, w2)" "tasks w2 (ds @ as)" "removed a w1 w2"
    using freeCycdata_ok by blast
  obtain q where q: "lpath cy_next (cycs w2) q as None"
    using tasksD(1) [OF w2(2)] by (auto simp: heap_simps)
  then have "q = cy_next c" using lpath_start [OF q] lpath_start [OF p] by simp
  moreover have "swept w [a] w2" using swept_trans [OF swept_kept [OF w1(3)] removed_swept [OF w2(3)]] by simp
  moreover have "fdates (cycs w) a = None" using c True by (simp add: fdates_def)
  ultimately show ?thesis
    using c True nm w1(1) c1 w2 q removed_log [OF w1(2) w2(3)] by (auto simp: sweep_round_def)
qed

lemma sweep_loop_ok:
  "main_log_ok E w \<Longrightarrow> tasks w (ds @ as) \<Longrightarrow> lpath cy_next (cycs w) p as None \<Longrightarrow>
     \<exists>w'. sweep_loop E p w = Some (0, w') \<and> main_log_ok E w' \<and>
       tasks w' (ds @ filter (\<lambda>a. fdates (cycs w) a \<noteq> None) as) \<and>
       swept w (filter (\<lambda>a. fdates (cycs w) a = None) as) w'"
proof (induction as arbitrary: p w ds)
  case Nil
  then show ?case by (auto simp: sweep_loop.simps intro: swept_kept)
next
  case (Cons a as)
  obtain c where c: "p = Some a" "cycs w a = Some c" "lpath cy_next (cycs w) (cy_next c) as None"
    using Cons.prems(3) by (auto split: option.splits)
  have dist: "a \<notin> set as" "a \<notin> set ds" using tasksD(4) [OF Cons.prems(2)] by auto
  obtain w1 where w1: "sweep_round E a w = Some (Inr (cy_next c), w1)" "main_log_ok E w1"
      "lpath cy_next (cycs w1) (cy_next c) as None"
      "if fdates (cycs w) a = None then tasks w1 (ds @ as) \<and> swept w [a] w1 else w1 = w"
    using sweep_round_ok [OF Cons.prems(1,2) c(2,3)] by blast
  have eq: "sweep_loop E p w = sweep_loop E (cy_next c) w1" using c(1) w1(1) by (subst sweep_loop.simps) simp
  show ?case
  proof (cases "fdates (cycs w) a = None")
    case False
    then show ?thesis
      using Cons.IH [of w "ds @ [a]" "cy_next c"] Cons.prems c w1(4) eq by auto
  next
    case True
    then have s2: "tasks w1 (ds @ as)" "swept w [a] w1" using w1(4) by simp_all
    obtain w' where w': "sweep_loop E (cy_next c) w1 = Some (0, w')" "main_log_ok E w'"
        "tasks w' (ds @ filter (\<lambda>a. fdates (cycs w1) a \<noteq> None) as)"
        "swept w1 (filter (\<lambda>a. fdates (cycs w1) a = None) as) w'"
      using Cons.IH [OF w1(2) s2(1) w1(3)] by blast
    have fd: "fdates (cycs w1) b = fdates (cycs w) b" if "b \<in> set as" for b
      using swept_fdates [OF s2(2), of b] that dist by auto
    have fl: "filter (\<lambda>a. fdates (cycs w1) a = None) as = filter (\<lambda>a. fdates (cycs w) a = None) as"
      "filter (\<lambda>a. fdates (cycs w1) a \<noteq> None) as = filter (\<lambda>a. fdates (cycs w) a \<noteq> None) as"
      by (rule filter_cong; simp add: fd)+
    have "swept w (a # filter (\<lambda>a. fdates (cycs w) a = None) as) w'"
      using swept_trans [OF s2(2) w'(4)] dist by (simp add: fl)
    moreover have "tasks w' (ds @ filter (\<lambda>a. fdates (cycs w) a \<noteq> None) as)" using w'(3) by (simp only: fl)
    ultimately show ?thesis using w'(1,2) True eq by simp
  qed
qed

section \<open>The whole function\<close>

lemma tail_sel: "swept w rs w' \<Longrightarrow> cycheadnext w' = cycheadnext w"
  by (simp add: swept_def kept_def close_lib_def)

lemma toSetCycdata_ok:
  assumes l: "main_log_ok E w" and t: "tasks w as" "as \<noteq> []"
    and s: "lpath fd_next (files w) fh (map fst ss) None" "ss \<noteq> []" "\<forall>s\<in>set ss. named (files w) s"
    and b: "bind_spec ss (lname (cycs w)) as (fdates (cycs w)) = (res, m)"
  shows "\<exists>w1 w'. toSetCycdata E fh (cychead w) w = Some (res, w') \<and> main_log_ok E w' \<and>
    rebound w w1 \<and> fdates (cycs w1) = m \<and>
    (if res = 0
     then tasks w' (filter (\<lambda>a. m a \<noteq> None) as) \<and> swept w1 (filter (\<lambda>a. m a = None) as) w'
     else w' = w1 \<and> tasks w' as)"
proof -
  have ne: "fh \<noteq> None" "cychead w \<noteq> None"
    using s(1,2) tasksD(1) [OF t(1)] t(2) by (cases fh; cases "cychead w"; auto)+
  obtain w1 where w1: "bind_loop E fh (cychead w) w = Some (res, w1)" "main_log_ok E w1" "rebound w w1"
      "fdates (cycs w1) = m"
    using bind_loop_ok [OF l t(1) s(1,3) b] by blast
  have t1: "tasks w1 as" by (rule rebound_tasks [OF w1(3) t(1)])
  have h: "cychead w1 = cychead w" using w1(3) by (auto simp: rebound_def kept_def)
  show ?thesis
  proof (cases "res = 0")
    case False
    then show ?thesis using ne w1 t1 by (auto simp: toSetCycdata_def)
  next
    case True
    obtain w' where "sweep_loop E (cychead w) w1 = Some (0, w')" "main_log_ok E w'"
        "tasks w' (filter (\<lambda>a. m a \<noteq> None) as)" "swept w1 (filter (\<lambda>a. m a = None) as) w'"
      using sweep_loop_ok [of E w1 "[]" as "cychead w"] w1(2,4) t1 tasksD(1) [OF t1] h by auto
    then show ?thesis using True ne w1 by (auto simp: toSetCycdata_def)
  qed
qed

text \<open>The specification, declaratively, when nothing is bound at the start.\<close>

lemma bind_spec_zero:
  "fst (bind_spec ss lib as m) = 0 \<longleftrightarrow>
     snd ` set ss \<subseteq> lib ` set as \<and> distinct (map snd ss) \<and>
     (\<forall>nm\<in>snd ` set ss. \<forall>a. find (\<lambda>a. lib a = nm) as = Some a \<longrightarrow> m a = None)"
proof (induction ss lib as m rule: bind_spec.induct)
  case (2 s nm ss lib as m)
  show ?case
  proof (cases "find (\<lambda>a. lib a = nm) as")
    case None
    then have "nm \<notin> lib ` set as" by (auto simp: find_None_iff)
    then show ?thesis using None by auto
  next
    case (Some a)
    then have la: "lib a = nm" "a \<in> set as" by (auto simp: find_Some_iff)
    have eq: "find (\<lambda>a. lib a = nm') as = Some a \<longleftrightarrow> nm' = nm" for nm'
      using Some la by (auto simp: find_Some_iff)
    have key: "(\<forall>n\<in>snd ` set ss. \<forall>b. find (\<lambda>a. lib a = n) as = Some b \<longrightarrow> (m(a \<mapsto> s)) b = None) \<longleftrightarrow>
      nm \<notin> snd ` set ss \<and> (\<forall>n\<in>snd ` set ss. \<forall>b. find (\<lambda>a. lib a = n) as = Some b \<longrightarrow> m b = None)"
      (is "?l \<longleftrightarrow> ?r")
    proof
      assume l: ?l
      then have "nm \<notin> snd ` set ss" using Some by force
      moreover have "m b = None" if "n \<in> snd ` set ss" "find (\<lambda>a. lib a = n) as = Some b" for n b
        using l that calculation eq [of n] by (cases "b = a") fastforce+
      ultimately show ?r by blast
    next
      assume ?r
      then show ?l using eq by auto
    qed
    have nm: "nm \<in> lib ` set as" using la by blast
    show ?thesis
    proof (cases "m a = None")
      case True
      then have "fst (bind_spec ss lib as (m(a \<mapsto> s))) = 0 \<longleftrightarrow> snd ` set ss \<subseteq> lib ` set as \<and>
        distinct (map snd ss) \<and> nm \<notin> snd ` set ss \<and>
        (\<forall>n\<in>snd ` set ss. \<forall>b. find (\<lambda>a. lib a = n) as = Some b \<longrightarrow> m b = None)"
        using "2.IH" [OF Some] unfolding key by blast
      then show ?thesis using True Some nm by (auto simp: image_iff)
    next
      case False
      then show ?thesis using Some by simp
    qed
  qed
qed auto

lemma bind_spec_map:
  "bind_spec ss lib as m = (0, m') \<Longrightarrow>
     m' a = (case find (\<lambda>s. find (\<lambda>b. lib b = snd s) as = Some a) ss of None \<Rightarrow> m a | Some s \<Rightarrow> Some (fst s))"
proof (induction ss lib as m arbitrary: m' rule: bind_spec.induct)
  case (2 s nm ss lib as m)
  then obtain b where b: "find (\<lambda>a. lib a = nm) as = Some b" "m b = None"
      "bind_spec ss lib as (m(b \<mapsto> s)) = (0, m')"
    by (auto split: option.splits if_splits)
  have "m' a = (case find (\<lambda>s. find (\<lambda>b. lib b = snd s) as = Some a) ss of
      None \<Rightarrow> (m(b \<mapsto> s)) a | Some s \<Rightarrow> Some (fst s))"
    using "2.IH" [OF b(1) _ b(3)] b(2) by simp
  moreover have "find (\<lambda>s. find (\<lambda>b. lib b = snd s) as = Some b) ss = None"
    using b bind_spec_zero [of ss lib as "m(b \<mapsto> s)"] by (auto simp: find_None_iff)
  ultimately show ?case
    using b(1) by (cases "b = a"; cases "find (\<lambda>s. find (\<lambda>b. lib b = snd s) as = Some a) ss") simp_all
qed auto

section \<open>A concrete configuration\<close>

text \<open>The two tasks \<open>a\<close> and \<open>b\<close> and one section \<open>A\<close>.\<close>

definition demo_conf :: world where
  "demo_conf = demo\<lparr>files := [9 \<mapsto> zero_filedate\<lparr>fd_name := CHR ''A'' # replicate 31 NUL\<rparr>], filehead := Some 9\<rparr>"

lemma cstr_pad [simp]: "c \<noteq> NUL \<Longrightarrow> cstr (c # replicate n NUL) = [c]"
  by (cases n) (simp_all add: cstr_def)

lemma demo_conf_ok [simp]: "main_log_ok still demo_conf" "tasks demo_conf [7, 8]"
    "lpath fd_next (files demo_conf) (filehead demo_conf) [9] None" "named (files demo_conf) (9, ''a'')"
proof -
  have "fresh demo_conf" using demo_ok(3) by (auto simp: fresh_def demo_conf_def demo_def)
  then show "main_log_ok still demo_conf"
    using demo_log by (auto simp: main_log_ok_def log_at_def demo_conf_def)
  show "tasks demo_conf [7, 8]" using demo_ok(1) by (simp add: tasks_def demo_conf_def)
  show "lpath fd_next (files demo_conf) (filehead demo_conf) [9] None"
    by (simp add: demo_conf_def zero_filedate_def)
  have "tolower (CHR ''A'') = CHR ''a''" by code_simp
  then show "named (files demo_conf) (9, ''a'')" by (simp add: named_def demo_conf_def)
qed

lemma demo_conf_names [simp]:
  "lname (cycs demo_conf) 7 = ''a''" "lname (cycs demo_conf) 8 = ''b''" "fdates (cycs demo_conf) = (\<lambda>_. None)"
proof -
  have "tolower (CHR ''a'') = CHR ''a''" "tolower (CHR ''b'') = CHR ''b''" by code_simp+
  then show "lname (cycs demo_conf) 7 = ''a''" "lname (cycs demo_conf) 8 = ''b''"
    by (simp_all add: lname_def demo_conf_def demo_def demo_node_def)
  show "fdates (cycs demo_conf) = (\<lambda>_. None)"
    by (auto simp: fun_eq_iff fdates_def demo_conf_def demo_def demo_node_def zero_cycdata_def opened_def boot_def)
qed

section \<open>Properties\<close>

text \<open>
  C6: \<open>toSetCycdata\<close> implements the binding of sections to libraries: its return code and the sections
  the tasks end up with are those of the specification, which gives each section to the first library
  of the same name up to case. On success exactly the tasks that got a section remain, in their
  order.
\<close>

theorem toSetCycdata_implements:
  assumes "main_log_ok E w" "tasks w as" "as \<noteq> []"
    and "lpath fd_next (files w) fh (map fst ss) None" "ss \<noteq> []" "\<forall>s\<in>set ss. named (files w) s"
    and "bind_spec ss (lname (cycs w)) as (fdates (cycs w)) = (res, m)"
  shows "\<exists>w'. toSetCycdata E fh (cychead w) w = Some (res, w') \<and> main_log_ok E w' \<and>
    (if res = 0
     then tasks w' (filter (\<lambda>a. m a \<noteq> None) as) \<and> (\<forall>a\<in>set as. fdates (cycs w') a = m a)
     else tasks w' as \<and> fdates (cycs w') = m)"
proof -
  obtain w1 w' where w': "toSetCycdata E fh (cychead w) w = Some (res, w')" "main_log_ok E w'" "fdates (cycs w1) = m"
    "if res = 0 then tasks w' (filter (\<lambda>a. m a \<noteq> None) as) \<and> swept w1 (filter (\<lambda>a. m a = None) as) w'
     else w' = w1 \<and> tasks w' as"
    using toSetCycdata_ok [OF assms] by blast
  have "fdates (cycs w') a = m a" if "res = 0" "a \<in> set as" for a
  proof (cases "m a")
    case None
    then have "cycs w' a = None" using w'(4) that by (auto simp: swept_def split: if_splits)
    then show ?thesis using None by (simp add: fdates_def)
  next
    case (Some s)
    then show ?thesis using swept_fdates [of w1 _ w' a] w'(3,4) that by auto
  qed
  then show ?thesis using w' by auto
qed

theorem toSetCycdata_implements_witness:
  "\<exists>w'. toSetCycdata still (Some 9) (cychead demo_conf) demo_conf = Some (0, w') \<and> tasks w' [7] \<and>
     fdates (cycs w') 7 = Some 9"
proof -
  have "filehead demo_conf = Some 9" by (simp add: demo_conf_def)
  then show ?thesis
    using toSetCycdata_implements [of still demo_conf "[7, 8]" "Some 9" "[(9, ''a'')]" 0 "[7 \<mapsto> 9]"] demo_conf_ok
    by auto
qed

text \<open>
  From tasks without sections, \<open>toSetCycdata\<close> succeeds exactly when every section has a library of
  its name and no two sections have the same name, up to case.
\<close>

lemma toSetCycdata_succeeds_iff:
  assumes "main_log_ok E w" "tasks w as" "as \<noteq> []"
    and "lpath fd_next (files w) fh (map fst ss) None" "ss \<noteq> []" "\<forall>s\<in>set ss. named (files w) s"
    and "fdates (cycs w) = (\<lambda>_. None)"
  shows "(\<exists>w'. toSetCycdata E fh (cychead w) w = Some (0, w')) \<longleftrightarrow>
    snd ` set ss \<subseteq> lname (cycs w) ` set as \<and> distinct (map snd ss)"
proof -
  obtain res m where b: "bind_spec ss (lname (cycs w)) as (fdates (cycs w)) = (res, m)" by fastforce
  then obtain w' where "toSetCycdata E fh (cychead w) w = Some (res, w')"
    using toSetCycdata_ok [OF assms(1-6)] by blast
  then show ?thesis
    using bind_spec_zero [of ss "lname (cycs w)" as "fdates (cycs w)"] b assms(7) by auto
qed

lemma toSetCycdata_succeeds_iff_witness:
  "\<exists>w'. toSetCycdata still (Some 9) (cychead demo_conf) demo_conf = Some (0, w')"
proof -
  have "filehead demo_conf = Some 9" by (simp add: demo_conf_def)
  then show ?thesis
    using toSetCycdata_succeeds_iff [of still demo_conf "[7, 8]" "Some 9" "[(9, ''a'')]"] demo_conf_ok
    by auto
qed

end
