(* ===== verification/Loader.thy ===== *)
theory Loader
  imports Binder
begin

text \<open>
  Loading the task libraries, \<open>loadLib\<close> of \<^verbatim>\<open>src/main.c\<close>: every entry of the library directory
  whose name has the form \<^verbatim>\<open>lib<name>.so\<close> with a name of 1 to 31 characters is opened, its six
  methods are looked up, and a task is appended for it.

  The directory listing and the dynamic linker are parameters. The theorems give the task list
  and the return code for every listing.
\<close>

section \<open>loadLib\<close>

definition opendir :: "env \<Rightarrow> string \<Rightarrow> world \<Rightarrow> string list option \<times> world" where
  "opendir E d w =
     (case entries E d of None \<Rightarrow> (None, w) | Some es \<Rightarrow> (Some es, w\<lparr>dirs := Suc (dirs w)\<rparr>))"

definition closedir :: "world \<Rightarrow> world" where
  "closedir w = w\<lparr>dirs := dirs w - 1\<rparr>"

definition dl_open :: "env \<Rightarrow> string \<Rightarrow> world \<Rightarrow> ptr \<times> world" where
  "dl_open E p w = (case dlopen E p of None \<Rightarrow> (None, w) | Some h \<Rightarrow> (Some h, w\<lparr>dls := h # dls w\<rparr>))"

text \<open>One look-up of a method; \<open>res\<close> counts the methods that are missing.\<close>

definition dl_get :: "env \<Rightarrow> nat \<Rightarrow> string \<Rightarrow> int \<Rightarrow> int \<Rightarrow> int \<Rightarrow> world \<Rightarrow> (ptr \<times> int \<times> world) option" where
  "dl_get E h name line type res w =
     (case dlsym E h name of
        None \<Rightarrow> do {
          w \<leftarrow> logLog E line type (''--dlsym '' @ name @ '' null'') w;
          Some (None, res + 1, w)
        }
      | Some f \<Rightarrow> Some (Some f, res, w))"

text \<open>The six local variables for the methods, and the six look-ups.\<close>

record sysmethods =
  m_init :: ptr
  m_login :: ptr
  m_seach :: ptr
  m_howdo :: ptr
  m_send :: ptr
  m_deldate :: ptr

definition dl_methods :: "env \<Rightarrow> nat \<Rightarrow> world \<Rightarrow> (sysmethods \<times> int \<times> world) option" where
  "dl_methods E h w = do {
     (inittem, res, w) \<leftarrow> dl_get E h ''sysinit'' 775 LOGWAR 0 w;
     (logintem, res, w) \<leftarrow> dl_get E h ''syslogin'' 783 LOGWAR res w;
     (seachtem, res, w) \<leftarrow> dl_get E h ''sysseach'' 791 LOGWAR res w;
     (howdotem, res, w) \<leftarrow> dl_get E h ''syshowdo'' 800 LOGWAR res w;
     (sendtem, res, w) \<leftarrow> dl_get E h ''syssend'' 809 LOGWAR res w;
     (deldatetem, res, w) \<leftarrow> dl_get E h ''sysdeldata'' 817 LOGERR res w;
     Some (\<lparr>m_init = inittem, m_login = logintem, m_seach = seachtem, m_howdo = howdotem,
            m_send = sendtem, m_deldate = deldatetem\<rparr>, res, w)
   }"

text \<open>The part of the loop body after \<open>dlopen\<close>.\<close>

definition load_found ::
  "env \<Rightarrow> (ptr \<Rightarrow> world \<Rightarrow> (ptr \<times> world) option) \<Rightarrow> buf \<Rightarrow> string \<Rightarrow> nat \<Rightarrow> int \<Rightarrow> world \<Rightarrow> ((int + int) \<times> world) option" where
  "load_found E cycmk chaa chbb dirhandletem libnumhas w = do {
     (ms, res, w) \<leftarrow> dl_methods E dirhandletem w;
     nm \<leftarrow> str_of chaa;
     w \<leftarrow> logLog E 824 LOGINF (''--lib name is '' @ nm) w;
     if res = 6
     then do {
       w \<leftarrow> logLog E 827 LOGERR (nm @ '' lib all method null'') w;
       w \<leftarrow> dlclose dirhandletem w;
       Some (Inl (TCS_OTHER_ERR - 2), w)
     }
     else do {
       (p, w) \<leftarrow> cycmk None w;
       case p of
         None \<Rightarrow> do {
           w \<leftarrow> logLog E 835 LOGERR ''--cycmk get null'' w;
           Some (Inl (TCS_OTHER_ERR - 3), w)
         }
       | Some cyctem \<Rightarrow> do {
           c \<leftarrow> cycs w cyctem;
           name \<leftarrow> strncpy (lb_name (cy_libdata c)) chaa (length nm);
           wherename \<leftarrow> strncpy (lb_wherename (cy_libdata c)) (chbb @ [NUL]) (length chbb);
           w \<leftarrow> upd_cyc cyctem (\<lambda>c. c\<lparr>
               cy_libdata := \<lparr>lb_fdlib = Some dirhandletem, lb_name = name, lb_wherename = wherename\<rparr>,
               cy_init := m_init ms, cy_login := m_login ms, cy_seach := m_seach ms,
               cy_howdo := m_howdo ms, cy_send := m_send ms, cy_deldate := m_deldate ms\<rparr>) w;
           n \<leftarrow> cint (libnumhas + 1);
           Some (Inr n, w)
         }
     }
   }"

text \<open>
  The body of the loop for one entry: \<open>Inl\<close> is a return from inside the loop, \<open>Inr\<close> the new value
  of \<open>libnumhas\<close>.
\<close>

definition load_entry ::
  "env \<Rightarrow> string \<Rightarrow> (ptr \<Rightarrow> world \<Rightarrow> (ptr \<times> world) option) \<Rightarrow> string \<Rightarrow> int \<Rightarrow> world \<Rightarrow> ((int + int) \<times> world) option" where
  "load_entry E dirch cycmk d_name libnumhas w =
     (let dirfilenum = int (length d_name)
      in if dirfilenum < 7 \<or> dirfilenum > 32 + 6 - 1
         then do {
           w \<leftarrow> logLog E 733 LOGWAR (''--libname is to less or big '' @ dec dirfilenum) w;
           Some (Inr libnumhas, w)
         }
         else if take 3 d_name \<noteq> ''lib'' \<or> take 3 (drop (length d_name - 3) d_name) \<noteq> ''.so''
         then do {
           w \<leftarrow> logLog E 738 LOGWAR (''--libname is not lib start or .so end '' @ d_name) w;
           Some (Inr libnumhas, w)
         }
         else do {
           let chnum = nat (dirfilenum - 6);
           chaa \<leftarrow> strncpy (replicate 32 NUL) (drop 3 (d_name @ [NUL])) chnum;
           chbb \<leftarrow> sprintf 64 (dirch @ ''/'' @ d_name);
           case dl_open E chbb w of
             (None, w) \<Rightarrow> do {
               w \<leftarrow> logLog E 762 LOGERR (''--dlopen get NULL '' @ dlerror E chbb) w;
               Some (Inl (TCS_OTHER_ERR - 1), w)
             }
           | (Some dirhandletem, w) \<Rightarrow> load_found E cycmk chaa chbb dirhandletem libnumhas w
         })"

fun lib_loop ::
  "env \<Rightarrow> string \<Rightarrow> (ptr \<Rightarrow> world \<Rightarrow> (ptr \<times> world) option) \<Rightarrow> string list \<Rightarrow> int \<Rightarrow> world \<Rightarrow> ((int + int) \<times> world) option" where
  "lib_loop E dirch cycmk [] libnumhas w = Some (Inr libnumhas, w)"
| "lib_loop E dirch cycmk (d # ds) libnumhas w = do {
     (r, w) \<leftarrow> load_entry E dirch cycmk d libnumhas w;
     case r of
       Inl e \<Rightarrow> Some (Inl e, w)
     | Inr n \<Rightarrow> lib_loop E dirch cycmk ds n w
   }"

text \<open>What follows the loop.\<close>

definition load_return :: "env \<Rightarrow> string \<Rightarrow> int \<Rightarrow> world \<Rightarrow> (int \<times> world) option" where
  "load_return E dirch libnumhas w =
     (if libnumhas = 0
      then do {
        w \<leftarrow> logLog E 855 LOGERR (dirch @ '' not has avail lib'') w;
        Some (TCS_OTHER_ERR - 4, closedir w)
      }
      else do {
        w \<leftarrow> logLog E 859 LOGINF (dirch @ '' has '' @ dec libnumhas @ '' avail lib'') w;
        Some (0, closedir w)
      })"

definition loadLib ::
  "env \<Rightarrow> string option \<Rightarrow> (ptr \<Rightarrow> world \<Rightarrow> (ptr \<times> world) option) \<Rightarrow> world \<Rightarrow> (int \<times> world) option" where
  "loadLib E dirchp cycmk w =
     (case dirchp of
        None \<Rightarrow> do { w \<leftarrow> logLog E 715 LOGERR ''loadLib--dirch is NULL'' w; Some (TCS_ARG_NULL, w) }
      | Some dirch \<Rightarrow>
          (case opendir E dirch w of
             (None, w) \<Rightarrow> do {
               w \<leftarrow> logLog E 721 LOGERR ''loadLib--opendir get NULL'' w;
               Some (TCS_OTHER_ERR, w)
             }
           | (Some ds, w) \<Rightarrow> do {
               (r, w) \<leftarrow> lib_loop E dirch cycmk ds 0 w;
               case r of
                 Inl e \<Rightarrow> Some (e, w)
               | Inr libnumhas \<Rightarrow> load_return E dirch libnumhas w
             }))"

section \<open>The specification\<close>

definition eligible :: "string \<Rightarrow> bool" where
  "eligible d \<longleftrightarrow> 7 \<le> length d \<and> length d \<le> 37 \<and> take 3 d = ''lib'' \<and> drop (length d - 3) d = ''.so''"

definition lib_stem :: "string \<Rightarrow> string" where
  "lib_stem d = take (length d - 6) (drop 3 d)"

definition lib_path :: "string \<Rightarrow> string \<Rightarrow> string" where
  "lib_path dirch d = dirch @ ''/'' @ d"

definition sym_names :: "string list" where
  "sym_names = [''sysinit'', ''syslogin'', ''sysseach'', ''syshowdo'', ''syssend'', ''sysdeldata'']"

text \<open>The library can be opened and has at least one of the six methods.\<close>

definition good_lib :: "env \<Rightarrow> string \<Rightarrow> string \<Rightarrow> bool" where
  "good_lib E dirch d \<longleftrightarrow>
     (case dlopen E (lib_path dirch d) of
        None \<Rightarrow> False
      | Some h \<Rightarrow> list_ex (\<lambda>s. dlsym E h s \<noteq> None) sym_names)"

text \<open>The contents of the task made for an entry.\<close>

definition pad :: "nat \<Rightarrow> string \<Rightarrow> buf" where
  "pad n s = s @ replicate (n - length s) NUL"

definition lib_node :: "env \<Rightarrow> string \<Rightarrow> string \<Rightarrow> cycdata" where
  "lib_node E dirch d =
     (let h = the (dlopen E (lib_path dirch d))
      in zero_cycdata\<lparr>
           cy_libdata := \<lparr>lb_fdlib = Some h, lb_name = pad 32 (lib_stem d),
                         lb_wherename = pad 64 (lib_path dirch d)\<rparr>,
           cy_init := dlsym E h ''sysinit'', cy_login := dlsym E h ''syslogin'',
           cy_seach := dlsym E h ''sysseach'', cy_howdo := dlsym E h ''syshowdo'',
           cy_send := dlsym E h ''syssend'', cy_deldate := dlsym E h ''sysdeldata''\<rparr>)"

text \<open>The return code, from the entries of the right form.\<close>

fun load_code :: "env \<Rightarrow> string \<Rightarrow> bool \<Rightarrow> string list \<Rightarrow> int" where
  "load_code E dirch some [] = (if some then 0 else - 14)"
| "load_code E dirch some (d # ds) =
     (if good_lib E dirch d then load_code E dirch True ds
      else if dlopen E (lib_path dirch d) = None then - 11
      else - 12)"

text \<open>What the directory and the linker give: names as a file system has them, short messages.\<close>

definition dir_ok :: "env \<Rightarrow> string \<Rightarrow> bool" where
  "dir_ok E dirch \<longleftrightarrow> length dirch \<le> 25 \<and> (\<forall>p. length (dlerror E p) \<le> 800) \<and>
     (\<forall>ds. entries E dirch = Some ds \<longrightarrow> int (length ds) < INT_MAX \<and>
        (\<forall>d\<in>set ds. NUL \<notin> set d \<and> length d \<le> 255))"

section \<open>The look-ups\<close>

lemma dl_get_ok:
  assumes "main_log_ok E w" "length name \<le> 20" "0 \<le> line" "line \<le> INT_MAX"
  shows "\<exists>w'. dl_get E h name line type res w =
      Some (dlsym E h name, res + (if dlsym E h name = None then 1 else 0), w') \<and> main_log_ok E w' \<and> kept w w'"
proof -
  have "msg_fits (line, type, ''--dlsym '' @ name @ '' null'')"
    using assms by (simp add: msg_fits_def INT_MIN_def)
  then obtain w1 where "logLog E line type (''--dlsym '' @ name @ '' null'') w = Some w1" "main_log_ok E w1" "kept w w1"
    using logLog_ok [OF assms(1)] by blast
  then show ?thesis using assms(1) by (cases "dlsym E h name") (auto simp: dl_get_def)
qed

definition missing :: "env \<Rightarrow> nat \<Rightarrow> string \<Rightarrow> int" where
  "missing E h s = (if dlsym E h s = None then 1 else 0)"

lemma dl_methods_ok:
  assumes l: "main_log_ok E w"
  shows "\<exists>w'. dl_methods E h w = Some
      (\<lparr>m_init = dlsym E h ''sysinit'', m_login = dlsym E h ''syslogin'', m_seach = dlsym E h ''sysseach'',
        m_howdo = dlsym E h ''syshowdo'', m_send = dlsym E h ''syssend'', m_deldate = dlsym E h ''sysdeldata''\<rparr>,
       sum_list (map (missing E h) sym_names), w') \<and> main_log_ok E w' \<and> kept w w'"
proof -
  note dl = dl_get_ok [where E = E and h = h, folded missing_def]
  obtain w1 where 1: "dl_get E h ''sysinit'' 775 LOGWAR 0 w = Some (dlsym E h ''sysinit'', 0 + missing E h ''sysinit'', w1)"
      "main_log_ok E w1" "kept w w1"
    using dl [OF l, of "''sysinit''" 775 LOGWAR 0] by (auto simp: INT_MAX_def)
  define r1 where "r1 = 0 + missing E h ''sysinit''"
  obtain w2 where 2: "dl_get E h ''syslogin'' 783 LOGWAR r1 w1 = Some (dlsym E h ''syslogin'', r1 + missing E h ''syslogin'', w2)"
      "main_log_ok E w2" "kept w1 w2"
    using dl [OF 1(2), of "''syslogin''" 783 LOGWAR r1] by (auto simp: INT_MAX_def)
  define r2 where "r2 = r1 + missing E h ''syslogin''"
  obtain w3 where 3: "dl_get E h ''sysseach'' 791 LOGWAR r2 w2 = Some (dlsym E h ''sysseach'', r2 + missing E h ''sysseach'', w3)"
      "main_log_ok E w3" "kept w2 w3"
    using dl [OF 2(2), of "''sysseach''" 791 LOGWAR r2] by (auto simp: INT_MAX_def)
  define r3 where "r3 = r2 + missing E h ''sysseach''"
  obtain w4 where 4: "dl_get E h ''syshowdo'' 800 LOGWAR r3 w3 = Some (dlsym E h ''syshowdo'', r3 + missing E h ''syshowdo'', w4)"
      "main_log_ok E w4" "kept w3 w4"
    using dl [OF 3(2), of "''syshowdo''" 800 LOGWAR r3] by (auto simp: INT_MAX_def)
  define r4 where "r4 = r3 + missing E h ''syshowdo''"
  obtain w5 where 5: "dl_get E h ''syssend'' 809 LOGWAR r4 w4 = Some (dlsym E h ''syssend'', r4 + missing E h ''syssend'', w5)"
      "main_log_ok E w5" "kept w4 w5"
    using dl [OF 4(2), of "''syssend''" 809 LOGWAR r4] by (auto simp: INT_MAX_def)
  define r5 where "r5 = r4 + missing E h ''syssend''"
  obtain w6 where 6: "dl_get E h ''sysdeldata'' 817 LOGERR r5 w5 = Some (dlsym E h ''sysdeldata'', r5 + missing E h ''sysdeldata'', w6)"
      "main_log_ok E w6" "kept w5 w6"
    using dl [OF 5(2), of "''sysdeldata''" 817 LOGERR r5] by (auto simp: INT_MAX_def)
  have "kept w w6" using 1(3) 2(3) 3(3) 4(3) 5(3) 6(3) by (blast intro: kept_trans)
  moreover have "r5 + missing E h ''sysdeldata'' = sum_list (map (missing E h) sym_names)"
    by (simp add: r1_def r2_def r3_def r4_def r5_def sym_names_def)
  ultimately show ?thesis
    using 1(1) 2(1) 3(1) 4(1) 5(1) 6(1,2)
    unfolding dl_methods_def r1_def [symmetric] r2_def [symmetric] r3_def [symmetric] r4_def [symmetric] r5_def [symmetric]
    by simp
qed

lemma missing_all: "sum_list (map (missing E h) sym_names) = 6 \<longleftrightarrow> \<not> list_ex (\<lambda>s. dlsym E h s \<noteq> None) sym_names"
  by (simp add: sym_names_def missing_def)

section \<open>The copied names\<close>

lemma strncpy_pad:
  assumes "NUL \<notin> set s" "length s \<le> n"
  shows "strncpy (replicate n NUL) (s @ r) (length s) = Some (pad n s)"
proof -
  have "name_of (length s) (s @ r) = s"
    using assms(1) by (simp add: name_of_def cstr_def takeWhile_append)
  then show ?thesis using assms by (simp add: strncpy_def readable_def pad_def)
qed

lemma eligible_split:
  assumes "eligible d"
  shows "d = ''lib'' @ lib_stem d @ ''.so''" "length (lib_stem d) = length d - 6"
    "1 \<le> length (lib_stem d)" "length (lib_stem d) \<le> 31"
proof -
  have e: "7 \<le> length d" "length d \<le> 37" "take 3 d = ''lib''" "drop (length d - 3) d = ''.so''"
    using assms by (auto simp: eligible_def)
  have "drop 3 d = take (length d - 6) (drop 3 d) @ drop (length d - 6) (drop 3 d)"
    by (rule append_take_drop_id [symmetric])
  also have "drop (length d - 6) (drop 3 d) = ''.so''" using e by simp
  finally show "d = ''lib'' @ lib_stem d @ ''.so''"
    using e(3) by (metis append_take_drop_id lib_stem_def)
  show "length (lib_stem d) = length d - 6" "1 \<le> length (lib_stem d)" "length (lib_stem d) \<le> 31"
    using e by (simp_all add: lib_stem_def)
qed

lemma chaa_eq:
  assumes "eligible d" "NUL \<notin> set d"
  shows "strncpy (replicate 32 NUL) (drop 3 (d @ [NUL])) (nat (int (length d) - 6)) = Some (pad 32 (lib_stem d))"
    "str_of (pad 32 (lib_stem d)) = Some (lib_stem d)"
proof -
  note e = eligible_split [OF assms(1)]
  have s: "NUL \<notin> set (lib_stem d)" using assms(2) by (auto simp: lib_stem_def dest: in_set_takeD in_set_dropD)
  have n: "nat (int (length d) - 6) = length (lib_stem d)" using e(2,3) by simp
  have "drop 3 (d @ [NUL]) = lib_stem d @ ''.so'' @ [NUL]" by (subst e(1)) simp
  then show "strncpy (replicate 32 NUL) (drop 3 (d @ [NUL])) (nat (int (length d) - 6)) = Some (pad 32 (lib_stem d))"
    unfolding n using strncpy_pad [OF s, of 32] e(4) by simp
  have "32 - length (lib_stem d) = Suc (31 - length (lib_stem d))" using e(4) by simp
  then show "str_of (pad 32 (lib_stem d)) = Some (lib_stem d)"
    using s by (simp add: pad_def str_of_app)
qed

section \<open>One entry\<close>

lemma take3_drop: "length d \<ge> 3 \<Longrightarrow> take 3 (drop (length d - 3) d) = drop (length d - 3) d"
  by simp

lemma load_entry_skip:
  assumes l: "main_log_ok E w" and d: "\<not> eligible d" "length d \<le> 255"
  shows "\<exists>w'. load_entry E dirch cycmk d n w = Some (Inr n, w') \<and> main_log_ok E w' \<and> kept w w'"
proof -
  have "length (dec (int (length d))) \<le> 11" using d(2) by (intro dec_length) (simp_all add: INT_MIN_def INT_MAX_def)
  then have m: "msg_fits (733, LOGWAR, ''--libname is to less or big '' @ dec (int (length d)))"
    "msg_fits (738, LOGWAR, ''--libname is not lib start or .so end '' @ d)"
    using d(2) by (simp_all add: msg_fits_def INT_MIN_def INT_MAX_def)
  obtain w1 where w1: "logLog E 733 LOGWAR (''--libname is to less or big '' @ dec (int (length d))) w = Some w1"
      "main_log_ok E w1" "kept w w1"
    using logLog_ok [OF l m(1)] by blast
  obtain w2 where w2: "logLog E 738 LOGWAR (''--libname is not lib start or .so end '' @ d) w = Some w2"
      "main_log_ok E w2" "kept w w2"
    using logLog_ok [OF l m(2)] by blast
  consider "int (length d) < 7 \<or> int (length d) > 37"
    | "\<not> (int (length d) < 7 \<or> int (length d) > 37)" "take 3 d \<noteq> ''lib'' \<or> take 3 (drop (length d - 3) d) \<noteq> ''.so''"
    using d(1) by (auto simp: eligible_def)
  then show ?thesis
    by cases (use w1 w2 in \<open>simp_all add: load_entry_def Let_def\<close>)
qed

text \<open>An entry of the right form: the tests pass and the local arrays hold its name and its path.\<close>

lemma load_entry_eligible:
  assumes e: "eligible d" "NUL \<notin> set d" and p: "length (lib_path dirch d) < 64"
  shows "load_entry E dirch cycmk d n w =
    (case dlopen E (lib_path dirch d) of
       None \<Rightarrow> do {
         w \<leftarrow> logLog E 762 LOGERR (''--dlopen get NULL '' @ dlerror E (lib_path dirch d)) w;
         Some (Inl (- 11), w)
       }
     | Some h \<Rightarrow> load_found E cycmk (pad 32 (lib_stem d)) (lib_path dirch d) h n (w\<lparr>dls := h # dls w\<rparr>))"
proof -
  have t: "\<not> (int (length d) < 7 \<or> int (length d) > 32 + 6 - 1)"
    "\<not> (take 3 d \<noteq> ''lib'' \<or> take 3 (drop (length d - 3) d) \<noteq> ''.so'')"
    using e(1) by (auto simp: eligible_def)
  have sp: "sprintf 64 (dirch @ ''/'' @ d) = Some (lib_path dirch d)"
    using p by (simp add: sprintf_def lib_path_def)
  note c = chaa_eq [OF e]
  show ?thesis
    unfolding load_entry_def Let_def if_not_P [OF t(1)] if_not_P [OF t(2)] c(1) sp bind.bind_lunit
    by (cases "dlopen E (lib_path dirch d)")
      (simp_all add: dl_open_def del: append.simps)
qed

lemma load_entry_overflow:
  assumes e: "eligible d" "NUL \<notin> set d" and p: "64 \<le> length (lib_path dirch d)"
  shows "load_entry E dirch cycmk d n w = None"
proof -
  have t: "\<not> (int (length d) < 7 \<or> int (length d) > 32 + 6 - 1)"
    "\<not> (take 3 d \<noteq> ''lib'' \<or> take 3 (drop (length d - 3) d) \<noteq> ''.so'')"
    using e(1) by (auto simp: eligible_def)
  have "sprintf 64 (dirch @ ''/'' @ d) = None" using p by (simp add: sprintf_def lib_path_def)
  then show ?thesis
    unfolding load_entry_def Let_def if_not_P [OF t(1)] if_not_P [OF t(2)] by (simp del: append.simps)
qed

text \<open>
  \<open>grown E dirch w bs ds w'\<close>: from \<open>w\<close> to \<open>w'\<close> the task nodes \<open>bs\<close> were added, for the entries \<open>ds\<close>,
  and their libraries opened; every other node keeps its contents.
\<close>

definition grown :: "env \<Rightarrow> string \<Rightarrow> world \<Rightarrow> nat list \<Rightarrow> string list \<Rightarrow> world \<Rightarrow> bool" where
  "grown E dirch w bs ds w' \<longleftrightarrow>
     list_all2 (\<lambda>b d. map_option contents (cycs w' b) = Some (lib_node E dirch d)) bs ds \<and>
     (\<forall>a. a \<notin> set bs \<longrightarrow> map_option contents (cycs w' a) = map_option contents (cycs w a)) \<and>
     set bs \<inter> dom (cycs w) = {} \<and>
     dls w' = rev (map (\<lambda>d. the (dlopen E (lib_path dirch d))) ds) @ dls w \<and>
     kept (w\<lparr>cycs := cycs w', dls := dls w', cychead := cychead w', cycheadnext := cycheadnext w'\<rparr>) w'"

lemma grown_kept: "kept w w' \<Longrightarrow> grown E dirch w [] [] w'"
  by (auto simp: grown_def kept_def)

lemma grown_trans:
  assumes "grown E dirch u bs ds v" "grown E dirch v bs' ds' w"
  shows "grown E dirch u (bs @ bs') (ds @ ds') w"
proof -
  let ?R = "\<lambda>w b d. map_option contents (cycs w b) = Some (lib_node E dirch d)"
  have 1: "list_all2 (?R v) bs ds" "list_all2 (?R w) bs' ds'" "set bs' \<inter> dom (cycs v) = {}"
    and c: "\<And>a. a \<notin> set bs' \<Longrightarrow> map_option contents (cycs w a) = map_option contents (cycs v a)"
      "\<And>a. a \<notin> set bs \<Longrightarrow> map_option contents (cycs v a) = map_option contents (cycs u a)"
    using assms by (simp_all add: grown_def)
  have "list_all2 (?R w) bs ds"
    using 1(1)
  proof (rule list.rel_mono_strong)
    fix b d
    assume "?R v b d"
    moreover from this have "b \<notin> set bs'" using 1(3) by auto
    ultimately show "?R w b d" using c(1) by simp
  qed
  then have "list_all2 (?R w) (bs @ bs') (ds @ ds')" using 1(2) by (simp add: list_all2_appendI)
  moreover have "b \<notin> set bs'" if "b \<in> dom (cycs u)" for b
  proof (cases "b \<in> set bs")
    case True
    then show ?thesis using that assms(1) by (auto simp: grown_def)
  next
    case False
    then have "b \<in> dom (cycs v)" using c(2) [OF False] that by auto
    then show ?thesis using 1(3) by auto
  qed
  ultimately show ?thesis
    using assms c unfolding grown_def by (auto simp: kept_def)
qed

lemma lib_node_fields:
  assumes "eligible d" "NUL \<notin> set d" "map_option contents (h b) = Some (lib_node E dirch d)"
  shows "\<exists>c. h b = Some c \<and> node_ok ml c" "handle h b = [the (dlopen E (lib_path dirch d))]"
proof -
  let ?n = "lib_node E dirch d"
  obtain c where c: "h b = Some c" "contents c = ?n" using assms(3) by auto
  moreover have "contents ?n = ?n" by (simp add: lib_node_def contents_def Let_def zero_cycdata_def)
  ultimately have e: "contents c = contents ?n" by simp
  have "length (lib_stem d) \<le> 31" using eligible_split [OF assms(1)] by simp
  then have "node_ok ml ?n" by (simp add: node_ok_def lib_node_def Let_def zero_cycdata_def pad_def)
  then show "\<exists>c. h b = Some c \<and> node_ok ml c" using c(1) node_ok_contents [OF e] by simp
  have "lb_fdlib (cy_libdata c) = Some (the (dlopen E (lib_path dirch d)))"
    using contents_eqD(2) [OF e] by (simp add: lib_node_def Let_def)
  then show "handle h b = [the (dlopen E (lib_path dirch d))]" using c(1) by (simp add: handle_def)
qed

lemma load_entry_bad:
  assumes l: "main_log_ok E w" and e: "eligible d" "NUL \<notin> set d" and p: "length (lib_path dirch d) < 64"
    and er: "length (dlerror E (lib_path dirch d)) \<le> 800" and b: "\<not> good_lib E dirch d"
  shows "\<exists>w' es. load_entry E dirch cycmk d n w =
      Some (Inl (if dlopen E (lib_path dirch d) = None then - 11 else - 12), w') \<and>
    main_log_ok E w' \<and> kept (w\<lparr>tr := tr w @ es\<rparr>) w' \<and>
    es = (case dlopen E (lib_path dirch d) of None \<Rightarrow> [] | Some h \<Rightarrow> [Dlclose h])"
proof (cases "dlopen E (lib_path dirch d)")
  case None
  have "msg_fits (762, LOGERR, ''--dlopen get NULL '' @ dlerror E (lib_path dirch d))"
    using er by (simp add: msg_fits_def INT_MIN_def INT_MAX_def)
  then obtain w1 where "logLog E 762 LOGERR (''--dlopen get NULL '' @ dlerror E (lib_path dirch d)) w = Some w1"
      "main_log_ok E w1" "kept w w1"
    using logLog_ok [OF l] by blast
  then show ?thesis using None load_entry_eligible [OF e p] by simp
next
  case (Some h)
  let ?w = "w\<lparr>dls := h # dls w\<rparr>" and ?s = "lib_stem d"
  have "main_log_ok E ?w" using l by (simp add: main_log_ok_def log_at_def fresh_def)
  then obtain ms w1 where w1: "dl_methods E h ?w = Some (ms, 6, w1)" "main_log_ok E w1" "kept ?w w1"
    using dl_methods_ok [of E ?w h] b Some missing_all [of E h] by (auto simp: good_lib_def)
  have sl: "length ?s \<le> 31" using eligible_split [OF e(1)] by simp
  then have "msg_fits (824, LOGINF, ''--lib name is '' @ ?s)" "msg_fits (827, LOGERR, ?s @ '' lib all method null'')"
    by (simp_all add: msg_fits_def INT_MIN_def INT_MAX_def)
  then obtain w2 w3 where w2: "logLog E 824 LOGINF (''--lib name is '' @ ?s) w1 = Some w2" "kept w1 w2"
      and w3: "logLog E 827 LOGERR (?s @ '' lib all method null'') w2 = Some w3" "main_log_ok E w3" "kept w2 w3"
    using logLog_ok w1(2) by metis
  have k: "kept ?w w3" using w1(3) w2(2) w3(3) by (blast intro: kept_trans)
  let ?w' = "w3\<lparr>dls := dls w, tr := tr w @ [Dlclose h]\<rparr>"
  have "dlclose h w3 = Some ?w'" using k by (simp add: dlclose_def kept_def)
  then have "load_entry E dirch cycmk d n w = Some (Inl (- 12), ?w')"
    using load_entry_eligible [OF e p] Some w1(1) w2(1) w3(1) chaa_eq(2) [OF e] by (simp add: load_found_def)
  moreover have "main_log_ok E ?w'" using w3(2) by (simp add: main_log_ok_def log_at_def fresh_def)
  moreover have "kept (w\<lparr>tr := tr w @ [Dlclose h]\<rparr>) ?w'" using k by (simp add: kept_def)
  ultimately show ?thesis using Some by auto
qed

lemma log_dls [simp]: "main_log_ok E (w\<lparr>dls := l\<rparr>) = main_log_ok E w"
  by (simp add: main_log_ok_def log_at_def fresh_def)

text \<open>The contents of the new node are filled in; the list stays in order.\<close>

lemma tasks_fill:
  assumes t: "tasks w (as @ [b])" and z: "cycs w b = Some c" "handle (cycs w) b = []"
    and h: "mset (handles (cycs w) as) + {#h#} \<subseteq># mset (dls w)"
    and c': "cy_next c' = cy_next c" "node_ok (mainld w) c'" "lb_fdlib (cy_libdata c') = Some h"
  shows "tasks (w\<lparr>cycs := (cycs w)(b \<mapsto> c')\<rparr>) (as @ [b])"
proof -
  have nin: "b \<notin> set as" using tasksD(4) [OF t] by simp
  have "lpath cy_next ((cycs w)(b \<mapsto> c')) q (as @ [b]) None \<longleftrightarrow> lpath cy_next (cycs w) q (as @ [b]) None" for q
    by (rule lpath_same_links) (use z c' in auto)
  moreover have "handles ((cycs w)(b \<mapsto> c')) (as @ [b]) = handles (cycs w) as @ [h]"
    using nin c'(3) by (simp add: handle_def)
  ultimately show ?thesis using t h c'(2) by (auto simp: tasks_def)
qed

lemma make_node:
  assumes l: "main_log_ok E w" and t: "tasks w as" "tail_ok w as"
    and h: "mset (handles (cycs w) as) + {#h#} \<subseteq># mset (dls w)"
    and c': "cy_next c' = None" "node_ok (mainld w) c'" "lb_fdlib (cy_libdata c') = Some h"
  obtains w1 where "cycmake E None w = Some (Some (brk w), w1)" "cycs w1 (brk w) = Some zero_cycdata"
    "main_log_ok E (w1\<lparr>cycs := (cycs w1)(brk w \<mapsto> c')\<rparr>)"
    "tasks (w1\<lparr>cycs := (cycs w1)(brk w \<mapsto> c')\<rparr>) (as @ [brk w])" "tail_ok w1 (as @ [brk w])"
    "\<And>a. a \<noteq> brk w \<Longrightarrow> map_option contents (cycs w1 a) = map_option contents (cycs w a)"
    "kept (w\<lparr>cycs := cycs w1, cychead := cychead w1, cycheadnext := cycheadnext w1\<rparr>) w1"
proof -
  let ?b = "brk w"
  have fr: "fresh w" "calm E" using l by (simp_all add: main_log_ok_def)
  have z: "zero_cycdata\<lparr>cy_fdate := None\<rparr> = zero_cycdata" by (simp add: zero_cycdata_def)
  obtain w1 where w1: "cycmake E None w = Some (Some ?b, w1)" "tasks w1 (as @ [?b])" "tail_ok w1 (as @ [?b])" "fresh w1"
      "cycs w1 ?b = Some zero_cycdata"
      "\<And>a. a \<noteq> ?b \<Longrightarrow> map_option contents (cycs w1 a) = map_option contents (cycs w a)"
      "w1 = w\<lparr>brk := Suc ?b, cycs := cycs w1, cychead := cychead w1, cycheadnext := cycheadnext w1\<rparr>"
    using cycmake_ok [OF t fr, of None] z by metis
  obtain cs ch cn where e: "w1 = w\<lparr>brk := Suc ?b, cycs := cs, cychead := ch, cycheadnext := cn\<rparr>"
    using w1(7) by blast
  have "handles (cycs w1) as = handles (cycs w) as"
  proof (rule handles_cong)
    fix a
    assume "a \<in> set as"
    then have "a \<noteq> ?b" using tasksD(4) [OF w1(2)] by auto
    then show "map_option cy_libdata (cycs w1 a) = map_option cy_libdata (cycs w a)"
      using contents_libdata [of "cycs w1" a "cycs w"] w1(6) by blast
  qed
  then have "mset (handles (cycs w1) as) + {#h#} \<subseteq># mset (dls w1)" using h e by simp
  moreover have "handle (cycs w1) ?b = []" using w1(5) by (simp add: handle_def zero_cycdata_def)
  moreover have "cy_next c' = cy_next zero_cycdata" using c'(1) by (simp add: zero_cycdata_def)
  ultimately have "tasks (w1\<lparr>cycs := (cycs w1)(?b \<mapsto> c')\<rparr>) (as @ [?b])"
    using c'(2,3) e by (intro tasks_fill [OF w1(2,5), of h]) simp_all
  moreover have "main_log_ok E (w1\<lparr>cycs := (cycs w1)(?b \<mapsto> c')\<rparr>)"
    using l w1(4) e by (auto simp: main_log_ok_def log_at_def fresh_def)
  moreover have "kept (w\<lparr>cycs := cycs w1, cychead := cychead w1, cycheadnext := cycheadnext w1\<rparr>) w1"
    using e by (simp add: kept_def)
  ultimately show thesis using that w1 by blast
qed

lemma load_entry_good:
  assumes l: "main_log_ok E w" and t: "tasks w as" "tail_ok w as" and e: "eligible d" "NUL \<notin> set d"
    and p: "length (lib_path dirch d) < 64" "NUL \<notin> set dirch" and g: "good_lib E dirch d"
    and n: "0 \<le> n" "n < INT_MAX"
  shows "\<exists>w' b. load_entry E dirch (cycmake E) d n w = Some (Inr (n + 1), w') \<and> main_log_ok E w' \<and>
    tasks w' (as @ [b]) \<and> tail_ok w' (as @ [b]) \<and> grown E dirch w [b] [d] w'"
proof -
  obtain h where h: "dlopen E (lib_path dirch d) = Some h" "list_ex (\<lambda>s. dlsym E h s \<noteq> None) sym_names"
    using g by (auto simp: good_lib_def split: option.splits)
  let ?w = "w\<lparr>dls := h # dls w\<rparr>" and ?s = "lib_stem d" and ?p = "lib_path dirch d"
  let ?ms = "\<lparr>m_init = dlsym E h ''sysinit'', m_login = dlsym E h ''syslogin'', m_seach = dlsym E h ''sysseach'',
        m_howdo = dlsym E h ''syshowdo'', m_send = dlsym E h ''syssend'', m_deldate = dlsym E h ''sysdeldata''\<rparr>"
  obtain res w1 where w1: "dl_methods E h ?w = Some (?ms, res, w1)" "res \<noteq> 6" "main_log_ok E w1" "kept ?w w1"
    using dl_methods_ok [of E ?w h] l h(2) missing_all [of E h] by auto
  have sl: "length ?s \<le> 31" "NUL \<notin> set ?s"
    using eligible_split [OF e(1)] e(2) by (simp_all) (auto simp: lib_stem_def dest: in_set_takeD in_set_dropD)
  then have "msg_fits (824, LOGINF, ''--lib name is '' @ ?s)" by (simp add: msg_fits_def INT_MIN_def INT_MAX_def)
  then obtain w2 where w2: "logLog E 824 LOGINF (''--lib name is '' @ ?s) w1 = Some w2" "main_log_ok E w2" "kept w1 w2"
    using logLog_ok [OF w1(3)] by blast
  have k: "kept ?w w2" by (rule kept_trans [OF w1(4) w2(3)])
  have cw: "cycs w2 = cycs w" "dls w2 = h # dls w" "mainld w2 = mainld w" using k by (simp_all add: kept_def)
  have t2: "tasks w2 as" "tail_ok w2 as"
    using t k by (auto simp: tasks_def tail_ok_def kept_def subset_mset.order_trans)
  let ?b = "brk w2" and ?c = "lib_node E dirch d"
  have "cy_next ?c = None" "lb_fdlib (cy_libdata ?c) = Some h"
    using h(1) by (simp_all add: lib_node_def Let_def zero_cycdata_def)
  moreover have "node_ok (mainld w2) ?c"
    using sl(1) by (simp add: node_ok_def lib_node_def Let_def zero_cycdata_def pad_def)
  moreover have "mset (handles (cycs w2) as) + {#h#} \<subseteq># mset (dls w2)" using tasksD(3) [OF t(1)] cw by simp
  ultimately obtain w3 where w3: "cycmake E None w2 = Some (Some ?b, w3)" "cycs w3 ?b = Some zero_cycdata"
      "main_log_ok E (w3\<lparr>cycs := (cycs w3)(?b \<mapsto> ?c)\<rparr>)" "tasks (w3\<lparr>cycs := (cycs w3)(?b \<mapsto> ?c)\<rparr>) (as @ [?b])"
      "tail_ok w3 (as @ [?b])" "\<And>a. a \<noteq> ?b \<Longrightarrow> map_option contents (cycs w3 a) = map_option contents (cycs w2 a)"
      "kept (w2\<lparr>cycs := cycs w3, cychead := cychead w3, cycheadnext := cycheadnext w3\<rparr>) w3"
    using make_node [OF w2(2) t2] by blast
  have nm: "strncpy (lb_name (cy_libdata zero_cycdata)) (pad 32 ?s) (length ?s) = Some (pad 32 ?s)"
    "strncpy (lb_wherename (cy_libdata zero_cycdata)) (?p @ [NUL]) (length ?p) = Some (pad 64 ?p)"
    using strncpy_pad [OF sl(2), of 32 "replicate (32 - length ?s) NUL"] sl(1)
      strncpy_pad [of ?p 64 "[NUL]"] p e(2)
    by (simp_all add: zero_cycdata_def pad_def) (simp add: lib_path_def)
  let ?w' = "w3\<lparr>cycs := (cycs w3)(?b \<mapsto> ?c)\<rparr>"
  have c: "zero_cycdata\<lparr>
               cy_libdata := \<lparr>lb_fdlib = Some h, lb_name = pad 32 ?s, lb_wherename = pad 64 ?p\<rparr>,
               cy_init := m_init ?ms, cy_login := m_login ?ms, cy_seach := m_seach ?ms,
               cy_howdo := m_howdo ?ms, cy_send := m_send ?ms, cy_deldate := m_deldate ?ms\<rparr> = ?c"
    using h(1) by (simp add: lib_node_def Let_def)
  have ci: "cint (n + 1) = Some (n + 1)" using n by (simp add: INT_MIN_def)
  have eq: "load_entry E dirch (cycmake E) d n w = Some (Inr (n + 1), ?w')"
    unfolding load_entry_eligible [OF e p(1)] h(1) option.case load_found_def
    using w1(1,2) w2(1) w3(1,2) nm c ci chaa_eq(2) [OF e] by (simp add: upd_cyc_def del: append.simps)
  have cc: "contents ?c = ?c" by (simp add: lib_node_def contents_def Let_def zero_cycdata_def)
  have "cycs w ?b = None" using w2(2) cw(1) by (simp add: main_log_ok_def fresh_def)
  then have "grown E dirch w [?b] [d] ?w'"
    using w3(6,7) cc h(1) cw k unfolding grown_def by (auto simp: kept_def)
  then show ?thesis using eq w3(3,4,5) by (auto simp: tail_ok_def)
qed

section \<open>The loop and the function\<close>

text \<open>The entries that are loaded: those of the right form, up to the first that cannot be loaded.\<close>

definition taken :: "env \<Rightarrow> string \<Rightarrow> string list \<Rightarrow> string list" where
  "taken E dirch ds = takeWhile (good_lib E dirch) (filter eligible ds)"

text \<open>
  How the loop ends, from the return code of the specification; the trace has
  the closing of a library without methods.
\<close>

fun load_end :: "env \<Rightarrow> string \<Rightarrow> int \<Rightarrow> string list \<Rightarrow> (int + int) \<times> event list" where
  "load_end E dirch n [] = (Inr n, [])"
| "load_end E dirch n (d # ds) =
     (if good_lib E dirch d then load_end E dirch (n + 1) ds
      else case dlopen E (lib_path dirch d) of
        None \<Rightarrow> (Inl (- 11), [])
      | Some h \<Rightarrow> (Inl (- 12), [Dlclose h]))"

lemma grown_tr: "grown E dirch w bs ds v \<Longrightarrow> kept (v\<lparr>tr := tr v @ es\<rparr>) w' \<Longrightarrow>
    grown E dirch (w\<lparr>tr := tr w @ es\<rparr>) bs ds w'"
  by (auto simp: grown_def kept_def)

lemma tasks_tr [simp]:
  "tasks (w\<lparr>tr := es\<rparr>) as = tasks w as" "tail_ok (w\<lparr>tr := es\<rparr>) as = tail_ok w as"
  "tasks (w\<lparr>dirs := n\<rparr>) as = tasks w as" "tail_ok (w\<lparr>dirs := n\<rparr>) as = tail_ok w as"
  by (simp_all add: tasks_def tail_ok_def)

lemma lib_loop_ok:
  assumes p: "length dirch \<le> 25" "NUL \<notin> set dirch" "\<forall>p. length (dlerror E p) \<le> 800"
  shows "main_log_ok E w \<Longrightarrow> tasks w as \<Longrightarrow> tail_ok w as \<Longrightarrow>
    \<forall>d\<in>set ds. NUL \<notin> set d \<and> length d \<le> 255 \<Longrightarrow> 0 \<le> n \<Longrightarrow> n + int (length ds) < INT_MAX \<Longrightarrow>
    load_end E dirch n (filter eligible ds) = (r, es) \<Longrightarrow>
    \<exists>w' bs. lib_loop E dirch (cycmake E) ds n w = Some (r, w') \<and> main_log_ok E w' \<and>
      tasks w' (as @ bs) \<and> tail_ok w' (as @ bs) \<and> grown E dirch (w\<lparr>tr := tr w @ es\<rparr>) bs (taken E dirch ds) w'"
proof (induction ds arbitrary: n w as)
  case Nil
  then show ?case by (auto simp: taken_def intro!: exI [of _ "[]"] grown_kept)
next
  case (Cons d ds)
  have d: "NUL \<notin> set d" "length d \<le> 255" using Cons.prems(4) by simp_all
  show ?case
  proof (cases "eligible d")
    case False
    then obtain w1 where w1: "load_entry E dirch (cycmake E) d n w = Some (Inr n, w1)" "main_log_ok E w1" "kept w w1"
      using load_entry_skip [OF Cons.prems(1) False d(2)] by blast
    have t1: "tasks w1 as" "tail_ok w1 as" using Cons.prems(2,3) tasks_kept [OF w1(3)] tail_kept [OF w1(3)] by simp_all
    obtain w' bs where w': "lib_loop E dirch (cycmake E) ds n w1 = Some (r, w')" "main_log_ok E w'"
        "tasks w' (as @ bs)" "tail_ok w' (as @ bs)" "grown E dirch (w1\<lparr>tr := tr w1 @ es\<rparr>) bs (taken E dirch ds) w'"
      using Cons.IH [OF w1(2) t1, of n] Cons.prems(4-7) False by auto
    have "kept (w\<lparr>tr := tr w @ es\<rparr>) (w1\<lparr>tr := tr w1 @ es\<rparr>)" using w1(3) by (simp add: kept_def)
    then have "grown E dirch (w\<lparr>tr := tr w @ es\<rparr>) bs (taken E dirch ds) w'"
      using grown_trans [OF grown_kept w'(5)] by fastforce
    then show ?thesis using w' w1(1) False by (auto simp: taken_def)
  next
    case True
    have pl: "length (lib_path dirch d) < 64" using True p(1) by (simp add: eligible_def lib_path_def)
    show ?thesis
    proof (cases "good_lib E dirch d")
      case False
      then obtain w' where w': "load_entry E dirch (cycmake E) d n w = Some (r, w')" "main_log_ok E w'"
          "kept (w\<lparr>tr := tr w @ es\<rparr>) w'"
        using load_entry_bad [OF Cons.prems(1) True d(1) pl _ False, of "cycmake E" n] p(3) Cons.prems(7) True
        by (auto split: option.splits)
      moreover have "tasks w' as" "tail_ok w' as"
        using Cons.prems(2,3) tasks_kept [OF w'(3)] tail_kept [OF w'(3)] by simp_all
      moreover obtain e where "r = Inl e" using Cons.prems(7) True False by (auto split: option.splits)
      ultimately show ?thesis
        using True False by (auto simp: taken_def intro!: exI [of _ "[]"] grown_kept)
    next
      case good: True
      obtain w1 b where w1: "load_entry E dirch (cycmake E) d n w = Some (Inr (n + 1), w1)" "main_log_ok E w1"
          "tasks w1 (as @ [b])" "tail_ok w1 (as @ [b])" "grown E dirch w [b] [d] w1"
        using load_entry_good [OF Cons.prems(1-3) True d(1) pl p(2) good Cons.prems(5)] Cons.prems(6) by auto
      obtain w' bs where w': "lib_loop E dirch (cycmake E) ds (n + 1) w1 = Some (r, w')" "main_log_ok E w'"
          "tasks w' ((as @ [b]) @ bs)" "tail_ok w' ((as @ [b]) @ bs)"
          "grown E dirch (w1\<lparr>tr := tr w1 @ es\<rparr>) bs (taken E dirch ds) w'"
        using Cons.IH [OF w1(2,3,4), of "n + 1"] Cons.prems(4-7) True good by auto
      have "grown E dirch (w\<lparr>tr := tr w @ es\<rparr>) [b] [d] (w1\<lparr>tr := tr w1 @ es\<rparr>)"
        by (rule grown_tr [OF w1(5) kept_refl])
      from grown_trans [OF this w'(5)]
      have "grown E dirch (w\<lparr>tr := tr w @ es\<rparr>) (b # bs) (d # taken E dirch ds) w'" by simp
      then show ?thesis
        using w' w1(1) True good by (intro exI [of _ w'] exI [of _ "b # bs"]) (simp add: taken_def)
    qed
  qed
qed

lemma load_end_code:
  "0 \<le> n \<Longrightarrow> (case fst (load_end E dirch n ds) of
      Inl e \<Rightarrow> load_code E dirch (0 < n) ds = e \<and> e < 0
    | Inr k \<Rightarrow> load_code E dirch (0 < n) ds = (if k = 0 then - 14 else 0) \<and> n \<le> k \<and> k \<le> n + int (length ds))"
proof (induction ds arbitrary: n)
  case (Cons d ds)
  show ?case
  proof (cases "good_lib E dirch d")
    case True
    then show ?thesis using Cons.IH [of "n + 1"] Cons.prems by (simp split: sum.splits)
  next
    case False
    then show ?thesis by (cases "dlopen E (lib_path dirch d)") simp_all
  qed
qed simp

lemma load_return_ok:
  assumes l: "main_log_ok E w" and d: "length dirch \<le> 25" and k: "0 \<le> k" "k < INT_MAX"
  shows "\<exists>w'. load_return E dirch k w = Some (if k = 0 then - 14 else 0, closedir w') \<and> main_log_ok E w' \<and> kept w w'"
proof -
  have "length (dec k) \<le> 11" using k by (intro dec_length) (simp_all add: INT_MIN_def)
  then have m: "msg_fits (855, LOGERR, dirch @ '' not has avail lib'')"
    "msg_fits (859, LOGINF, dirch @ '' has '' @ dec k @ '' avail lib'')"
    using d by (simp_all add: msg_fits_def INT_MIN_def INT_MAX_def)
  show ?thesis
    using logLog_ok [OF l m(1)] logLog_ok [OF l m(2)] by (cases "k = 0") (auto simp: load_return_def)
qed

text \<open>
  The task list and the return code of \<open>loadLib\<close> for a directory that can be listed. The
  directory stream is closed exactly when the loop ran to its end.
\<close>

lemma loadLib_ok:
  assumes d: "dir_ok E dirch" "NUL \<notin> set dirch" "entries E dirch = Some ds"
    and l: "main_log_ok E w" and t: "tasks w as" "tail_ok w as"
    and le: "load_end E dirch 0 (filter eligible ds) = (r, es)"
  shows "\<exists>w' bs. loadLib E (Some dirch) (cycmake E) w = Some (load_code E dirch False (filter eligible ds), w') \<and>
    main_log_ok E w' \<and> tasks w' (as @ bs) \<and> tail_ok w' (as @ bs) \<and>
    grown E dirch (w\<lparr>dirs := dirs w + (if isl r then 1 else 0), tr := tr w @ es\<rparr>) bs (taken E dirch ds) w'"
proof -
  let ?w = "w\<lparr>dirs := Suc (dirs w)\<rparr>"
  have dd: "length dirch \<le> 25" "\<forall>p. length (dlerror E p) \<le> 800" "\<forall>d\<in>set ds. NUL \<notin> set d \<and> length d \<le> 255"
      "int (length ds) < INT_MAX"
    using d by (auto simp: dir_ok_def)
  have l1: "main_log_ok E ?w" using l by (simp add: main_log_ok_def log_at_def fresh_def)
  have t1: "tasks ?w as" "tail_ok ?w as" using t by (simp_all add: tasks_def tail_ok_def)
  obtain w1 bs where w1: "lib_loop E dirch (cycmake E) ds 0 ?w = Some (r, w1)" "main_log_ok E w1"
      "tasks w1 (as @ bs)" "tail_ok w1 (as @ bs)" "grown E dirch (?w\<lparr>tr := tr ?w @ es\<rparr>) bs (taken E dirch ds) w1"
    using lib_loop_ok [OF dd(1) d(2) dd(2) l1 t1 dd(3) _ _ le] dd(4) by auto
  note lc = load_end_code [of 0 E dirch "filter eligible ds", unfolded le fst_conv]
  show ?thesis
  proof (cases r)
    case (Inl e)
    then show ?thesis using lc w1 d(3) by (auto simp: loadLib_def opendir_def)
  next
    case (Inr k)
    have fl: "int (length (filter eligible ds)) \<le> int (length ds)" by simp
    have "0 \<le> k \<and> k \<le> int (length (filter eligible ds))" using lc Inr by auto
    then have k: "0 \<le> k" "k < INT_MAX" using fl dd(4) by linarith+
    obtain w2 where w2: "load_return E dirch k w1 = Some (if k = 0 then - 14 else 0, closedir w2)" "main_log_ok E w2" "kept w1 w2"
      using load_return_ok [OF w1(2) dd(1) k] by blast
    have "loadLib E (Some dirch) (cycmake E) w = Some (load_code E dirch False (filter eligible ds), closedir w2)"
      using Inr lc w1(1) w2(1) d(3) by (auto simp: loadLib_def opendir_def)
    moreover have "main_log_ok E (closedir w2)" using w2(2) by (simp add: closedir_def main_log_ok_def log_at_def fresh_def)
    moreover have "tasks (closedir w2) (as @ bs)" "tail_ok (closedir w2) (as @ bs)"
      using w1(3,4) tasks_kept [OF w2(3)] tail_kept [OF w2(3)] by (simp_all add: closedir_def)
    moreover have "grown E dirch (w\<lparr>dirs := dirs w + (if isl r then 1 else 0), tr := tr w @ es\<rparr>) bs (taken E dirch ds) (closedir w2)"
      using w1(5) w2(3) Inr by (simp add: grown_def kept_def closedir_def)
    ultimately show ?thesis by blast
  qed
qed

section \<open>A concrete library directory\<close>

definition linked_env :: env where
  "linked_env = still\<lparr>entries := (\<lambda>_. Some [''liba.so'', ''x'']), dlopen := (\<lambda>_. Some 100), dlsym := (\<lambda>_ _. Some 40)\<rparr>"

lemma linked_env_ok [simp]: "dir_ok linked_env ''../libdir''" "main_log_ok linked_env opened"
proof -
  show "dir_ok linked_env ''../libdir''" by (simp add: dir_ok_def linked_env_def still_def INT_MAX_def)
  have "asc_ok linked_env" "calm linked_env" by (simp_all add: linked_env_def still_def asc_ok_def calm_def)
  then show "main_log_ok linked_env opened" using opened_main(1) by (auto simp: main_log_ok_def)
qed

lemma opened_tasks [simp]: "tasks opened []" "tail_ok opened []"
  by (simp_all add: tasks_def tail_ok_def opened_def boot_def)

section \<open>Properties\<close>

text \<open>
  C10: \<open>loadLib\<close> loads a library directory: one task is appended, in the order of the listing, for every
  entry of the form \<^verbatim>\<open>lib<name>.so\<close> up to the first that cannot be opened or has none of the six
  methods; each carries the name, the path, the handle and the methods of its library. The return
  code is 0 when all of them load and there is at least one, \<open>- 14\<close> when there is none, \<open>- 11\<close> or \<open>- 12\<close>
  for the first failure.
\<close>

theorem loadLib_loads:
  assumes "dir_ok E dirch" "NUL \<notin> set dirch" "entries E dirch = Some ds"
    and "main_log_ok E w" "tasks w as" "tail_ok w as"
  shows "\<exists>w' bs. loadLib E (Some dirch) (cycmake E) w = Some (load_code E dirch False (filter eligible ds), w') \<and>
    tasks w' (as @ bs) \<and> tail_ok w' (as @ bs) \<and>
    list_all2 (\<lambda>b d. map_option contents (cycs w' b) = Some (lib_node E dirch d)) bs
      (takeWhile (good_lib E dirch) (filter eligible ds))"
proof -
  obtain r es where "load_end E dirch 0 (filter eligible ds) = (r, es)" by fastforce
  then show ?thesis using loadLib_ok [OF assms] by (fastforce simp: grown_def taken_def)
qed

theorem loadLib_loads_witness:
  "\<exists>w' b. loadLib linked_env (Some ''../libdir'') (cycmake linked_env) opened = Some (0, w') \<and> tasks w' [b]"
proof -
  have f: "filter eligible [''liba.so'', ''x''] = [''liba.so'']" by (simp add: eligible_def)
  have g: "good_lib linked_env ''../libdir'' ''liba.so''"
    by (simp add: good_lib_def linked_env_def sym_names_def)
  have "entries linked_env ''../libdir'' = Some [''liba.so'', ''x'']" by (simp add: linked_env_def)
  then show ?thesis
    using loadLib_loads [OF linked_env_ok(1) _ _ linked_env_ok(2) opened_tasks] f g
    by (auto simp: list_all2_Cons2)
qed

text \<open>
  The path of a library is assembled in an array of 64 bytes without a check: an entry of the right
  form in a directory whose path is long enough overruns it.
\<close>

lemma loadLib_path_overflow:
  assumes "entries E dirch = Some (d # ds)" "eligible d" "NUL \<notin> set d" "64 \<le> length (dirch @ ''/'' @ d)"
  shows "loadLib E (Some dirch) cycmk w = None"
  using assms load_entry_overflow [OF assms(2,3)] by (simp add: loadLib_def opendir_def lib_path_def)

lemma loadLib_path_overflow_witness:
  "loadLib linked_env (Some (replicate 60 (CHR ''d''))) (cycmake linked_env) opened = None"
  by (rule loadLib_path_overflow [where d = "''liba.so''" and ds = "[''x'']"])
    (simp_all add: linked_env_def eligible_def)

end
