(* ===== verification/Daemon.thy ===== *)
theory Daemon
  imports Loader
begin

text \<open>
  The program: \<open>main\<close> of \<^verbatim>\<open>src/main.c\<close>. The process opens its log and forks; the child loads the
  configuration, loads the libraries, binds the sections to the tasks, initialises the tasks
  and waits; from then on everything happens in the signal handlers.

  \<open>main\<close> is the program without signals. The relation \<open>step\<close> adds them: in every state between two
  phases of the child a SIGALRM or a SIGUSR1 may be handled. The invariant \<open>inv\<close> holds in all
  reachable states, and in them neither the program nor a handler does anything undefined.
\<close>

section \<open>The command line\<close>

text \<open>
  The loop over \<open>argv[1..]\<close>; an option without value takes \<open>argv[argc]\<close>, which is NULL.
\<close>

fun arg_loop :: "string list \<Rightarrow> string option \<Rightarrow> string option \<Rightarrow> (string option \<times> string option) option" where
  "arg_loop [] confwhere libwhere = Some (confwhere, libwhere)"
| "arg_loop [a] confwhere libwhere =
     (if take 2 a = ''-c'' then Some (None, libwhere)
      else if take 2 a = ''-l'' then Some (confwhere, None)
      else None)"
| "arg_loop (a # v # as) confwhere libwhere =
     (if take 2 a = ''-c'' then arg_loop as (Some v) libwhere
      else if take 2 a = ''-l'' then arg_loop as confwhere (Some v)
      else None)"

definition parse_args :: "string list \<Rightarrow> (string option \<times> string option) option" where
  "parse_args argv = (if length argv > 2 then arg_loop (tl argv) None None else Some (None, None))"

section \<open>The phases of the child\<close>

text \<open>Each phase tells whether the child goes on (\<open>True\<close>) or jumps to \<open>END\<close>.\<close>

definition conf_phase :: "env \<Rightarrow> string option \<Rightarrow> world \<Rightarrow> (bool \<times> world) option" where
  "conf_phase E confwhere w = do {
     (p, w) \<leftarrow> (case confwhere of
          Some c \<Rightarrow> do {
            w \<leftarrow> logLog E 993 LOGINF (''conf file is '' @ c) w;
            loadFile E (Some c) w
          }
        | None \<Rightarrow> loadFile E (Some ''../conf/xxh.conf'') w);
     let w = w\<lparr>shead := p\<rparr>;
     if p = None
     then do { w \<leftarrow> logLog E 1004 LOGERR ''loadFile is err'' w; Some (False, w) }
     else Some (True, w)
   }"

definition read_phase :: "env \<Rightarrow> world \<Rightarrow> (bool \<times> world) option" where
  "read_phase E w = do {
     let w = w\<lparr>filehead := None\<rparr>;
     (res, w) \<leftarrow> readFile E (shead w) True w;
     if res \<noteq> 0
     then do { w \<leftarrow> logLog E 1015 LOGERR ''readFile is err'' w; Some (False, w) }
     else do { w \<leftarrow> logLog E 1018 LOGINF ''readFile is ok'' w; Some (True, w) }
   }"

definition lib_phase :: "env \<Rightarrow> string option \<Rightarrow> world \<Rightarrow> (bool \<times> world) option" where
  "lib_phase E libwhere w = do {
     (res, w) \<leftarrow> (case libwhere of
          Some l \<Rightarrow> do {
            w \<leftarrow> logLog E 1023 LOGINF (''libdir  is '' @ l) w;
            loadLib E (Some l) (cycmake E) w
          }
        | None \<Rightarrow> loadLib E (Some ''../libdir'') (cycmake E) w);
     if res < 0
     then do { w \<leftarrow> logLog E 1035 LOGERR (''loadLib is err '' @ dec res) w; Some (False, w) }
     else do { w \<leftarrow> logLog E 1038 LOGINF ''loadLib is ok'' w; Some (True, w) }
   }"

definition bind_phase :: "env \<Rightarrow> world \<Rightarrow> (bool \<times> world) option" where
  "bind_phase E w = do {
     (res, w) \<leftarrow> toSetCycdata E (filehead w) (cychead w) w;
     if res < 0
     then do { w \<leftarrow> logLog E 1045 LOGERR (''toSetCycdata is err '' @ dec res) w; Some (False, w) }
     else do { w \<leftarrow> logLog E 1048 LOGINF ''toSetCycdata is ok'' w; Some (True, w) }
   }"

text \<open>The body of the loop that initialises the tasks, and the loop.\<close>

definition init_one :: "env \<Rightarrow> nat \<Rightarrow> world \<Rightarrow> (int \<times> world) option" where
  "init_one E a w = do {
     (res, w) \<leftarrow> TimeInit E (Some a) w;
     if res \<noteq> 0
     then do { w \<leftarrow> logLog E 1059 LOGERR (''TimeInit is err '' @ dec res) w; Some (res, w) }
     else Some (0, w)
   }"

partial_function (option) init_loop :: "env \<Rightarrow> ptr \<Rightarrow> world \<Rightarrow> (int \<times> world) option" where
  "init_loop E cyctem w =
     (case cyctem of
        None \<Rightarrow> Some (0, w)
      | Some a \<Rightarrow> do {
          (res, w) \<leftarrow> init_one E a w;
          if res \<noteq> 0 then Some (res, w)
          else do { c \<leftarrow> cycs w a; init_loop E (cy_next c) w }
        })"

definition init_phase :: "env \<Rightarrow> world \<Rightarrow> (bool \<times> world) option" where
  "init_phase E w = do {
     let cyctem = cychead w;
     w \<leftarrow> logLog E 1051 LOGINF ''--start TimeInit'' w;
     (res, w) \<leftarrow> init_loop E cyctem w;
     if res \<noteq> 0 then Some (False, w)
     else do { w \<leftarrow> logLog E 1065 LOGINF ''TimeInit is ok'' w; Some (True, w) }
   }"

section \<open>main\<close>

text \<open>How the program ends: with a status, or waiting for signals in the \<open>pause\<close> loop.\<close>

datatype ending = Exit int | Waiting

definition finish :: "env \<Rightarrow> world \<Rightarrow> (ending \<times> world) option" where
  "finish E w = do {
     (out, w) \<leftarrow> gameover E 0 w;
     Some (case out of Exited s \<Rightarrow> Exit s | Returned \<Rightarrow> Exit 0, w)
   }"

definition child :: "env \<Rightarrow> string option \<Rightarrow> string option \<Rightarrow> world \<Rightarrow> (ending \<times> world) option" where
  "child E confwhere libwhere w = do {
     (go, w) \<leftarrow> conf_phase E confwhere w;
     if \<not> go then finish E w else do {
     (go, w) \<leftarrow> read_phase E w;
     if \<not> go then finish E w else do {
     (go, w) \<leftarrow> lib_phase E libwhere w;
     if \<not> go then finish E w else do {
     (go, w) \<leftarrow> bind_phase E w;
     if \<not> go then finish E w else do {
     (go, w) \<leftarrow> init_phase E w;
     if \<not> go then finish E w else Some (Waiting, w)
     }}}}
   }"

text \<open>The child from \<open>fork\<close> to the start of the timer.\<close>

definition daemonize :: "env \<Rightarrow> world \<Rightarrow> (bool \<times> world) option" where
  "daemonize E w =
     (if setsid_ret E = - 1
      then do { w \<leftarrow> logLog E 959 LOGERR ''setsid is err'' w; Some (False, w) }
      else if null_fd E < 3
      then do { w \<leftarrow> logLog E 965 LOGERR (''main open() err '' @ dec (null_fd E)) w; Some (True, w) }
      else Some (True, w))"

definition main :: "env \<Rightarrow> string list \<Rightarrow> world \<Rightarrow> (ending \<times> world) option" where
  "main E argv w =
     (case parse_args argv of
        None \<Rightarrow> Some (Exit (- 1), w)
      | Some (confwhere, libwhere) \<Rightarrow> do {
          let w = w\<lparr>cychead := None, cycheadnext := None, mainld := None, filehead := None\<rparr>;
          let w = snd (opendir E ''./logs'' w);
          (ld, w) \<leftarrow> logInit E (Some ''./logs/main.log'') 100 w;
          let w = w\<lparr>mainld := ld\<rparr>;
          if ld = None then Some (Exit 0, w)
          else if fork_ret E \<noteq> 0 then Some (Exit 0, w)
          else do {
            (go, w) \<leftarrow> daemonize E w;
            if \<not> go then Some (Exit (- 1), w) else child E confwhere libwhere w
          }
        })"

section \<open>The program with its signals\<close>

text \<open>Where the child is: before a phase, in the initialisation before a node, waiting, or gone.\<close>

datatype phase = Conf | Read | Lib | Bind | InitStart | Init ptr | Ready | Done int

definition go_on :: "env \<Rightarrow> phase \<Rightarrow> bool \<times> world \<Rightarrow> (phase \<times> world) option" where
  "go_on E ph r = (case r of (go, w) \<Rightarrow>
     if go then Some (ph, w)
     else do {
       (e, w) \<leftarrow> finish E w;
       Some (case e of Exit s \<Rightarrow> Done s | Waiting \<Rightarrow> Ready, w)
     })"

text \<open>The next piece of the child's own code.\<close>

definition advance_main ::
  "env \<Rightarrow> string option \<Rightarrow> string option \<Rightarrow> phase \<Rightarrow> world \<Rightarrow> (phase \<times> world) option" where
  "advance_main E confwhere libwhere ph w =
     (case ph of
        Conf \<Rightarrow> conf_phase E confwhere w \<bind> go_on E Read
      | Read \<Rightarrow> read_phase E w \<bind> go_on E Lib
      | Lib \<Rightarrow> lib_phase E libwhere w \<bind> go_on E Bind
      | Bind \<Rightarrow> bind_phase E w \<bind> go_on E InitStart
      | InitStart \<Rightarrow> do {
          w' \<leftarrow> logLog E 1051 LOGINF ''--start TimeInit'' w;
          Some (Init (cychead w), w')
        }
      | Init None \<Rightarrow> do { w \<leftarrow> logLog E 1065 LOGINF ''TimeInit is ok'' w; Some (Ready, w) }
      | Init (Some a) \<Rightarrow> do {
          (res, w) \<leftarrow> init_one E a w;
          if res \<noteq> 0 then go_on E Ready (False, w)
          else do { c \<leftarrow> cycs w a; Some (Init (cy_next c), w) }
        }
      | Ready \<Rightarrow> Some (Ready, w)
      | Done s \<Rightarrow> Some (Done s, w))"

inductive step :: "env \<Rightarrow> string option \<Rightarrow> string option \<Rightarrow> phase \<times> world \<Rightarrow> phase \<times> world \<Rightarrow> bool"
  for E confwhere libwhere where
  run: "advance_main E confwhere libwhere ph w = Some (ph', w') \<Longrightarrow>
     step E confwhere libwhere (ph, w) (ph', w')"
| alarm: "\<forall>s. ph \<noteq> Done s \<Longrightarrow> cycleTimeMethod E 14 w = Some w' \<Longrightarrow> step E confwhere libwhere (ph, w) (ph, w')"
| usr1: "\<forall>s. ph \<noteq> Done s \<Longrightarrow> gameover E 10 w = Some (out, w') \<Longrightarrow>
     step E confwhere libwhere (ph, w) (case out of Exited s \<Rightarrow> Done s | Returned \<Rightarrow> ph, w')"

inductive_cases stepE: "step E c l s s'"

section \<open>The options\<close>

text \<open>
  The words after the name of the program, as the loop pairs them: a word in the place of an option with the word
  behind it, if there is one.
\<close>

fun arg_pairs :: "string list \<Rightarrow> (string \<times> string option) list" where
  "arg_pairs [] = []"
| "arg_pairs [x] = [(x, None)]"
| "arg_pairs (x # v # as) = (x, Some v) # arg_pairs as"

definition known_option :: "string \<Rightarrow> bool" where
  "known_option x \<longleftrightarrow> take 2 x = ''-c'' \<or> take 2 x = ''-l''"

text \<open>The value of the last option whose name starts with \<open>k\<close>; the value \<open>d\<close> without one.\<close>

definition option_value :: "string \<Rightarrow> (string \<times> string option) list \<Rightarrow> string option \<Rightarrow> string option" where
  "option_value k ps d = last (d # map snd (filter (\<lambda>p. take 2 (fst p) = k) ps))"

lemma option_value_Cons [simp]:
  "option_value k [] d = d"
  "option_value k (p # ps) d = option_value k ps (if take 2 (fst p) = k then snd p else d)"
  by (simp_all add: option_value_def)

lemma arg_loop_pairs:
  "arg_loop as c l =
    (if \<forall>p\<in>set (arg_pairs as). known_option (fst p)
     then Some (option_value ''-c'' (arg_pairs as) c, option_value ''-l'' (arg_pairs as) l) else None)"
  by (induction as c l rule: arg_loop.induct) (auto simp: known_option_def)

section \<open>Properties\<close>

text \<open>
  C25: The command line. With at most one word behind the name of the program nothing is looked at, whatever it is,
  and both paths keep their defaults. With more, every second word is in the place of an option: if each starts with
  \<open>-c\<close> or \<open>-l\<close> the last option of each kind counts, in any order, and one without a value sets its path back to the
  default; if one, be it the first or the last, starts with anything else, the program ends with \<open>- 1\<close> before it
  does anything.
\<close>

theorem main_options:
  "parse_args argv =
    (if length argv \<le> 2 then Some (None, None)
     else if \<forall>p\<in>set (arg_pairs (tl argv)). known_option (fst p)
     then Some (option_value ''-c'' (arg_pairs (tl argv)) None, option_value ''-l'' (arg_pairs (tl argv)) None)
     else None) \<and>
   (2 < length argv \<and> (\<exists>p\<in>set (arg_pairs (tl argv)). \<not> known_option (fst p)) \<longrightarrow>
     main E argv w = Some (Exit (- 1), w))"
proof -
  have p: "parse_args argv =
    (if length argv \<le> 2 then Some (None, None)
     else if \<forall>p\<in>set (arg_pairs (tl argv)). known_option (fst p)
     then Some (option_value ''-c'' (arg_pairs (tl argv)) None, option_value ''-l'' (arg_pairs (tl argv)) None)
     else None)"
    by (simp add: parse_args_def arg_loop_pairs)
  then show ?thesis by (auto simp: main_def)
qed

theorem main_options_witness:
  "parse_args [''p'', ''-l'', ''libs'', ''-c'', ''x'', ''-c'', ''y''] = Some (Some ''y'', Some ''libs'') \<and>
   parse_args [''p'', ''-c'', ''x'', ''-l''] = Some (Some ''x'', None) \<and>
   parse_args [''p'', ''-x''] = Some (None, None) \<and>
   main still [''p'', ''-x'', ''y''] boot = Some (Exit (- 1), boot) \<and>
   main still [''p'', ''-c'', ''x'', ''-q''] boot = Some (Exit (- 1), boot)"
  using main_options [of "[''p'', ''-l'', ''libs'', ''-c'', ''x'', ''-c'', ''y'']" still boot]
    main_options [of "[''p'', ''-c'', ''x'', ''-l'']" still boot] main_options [of "[''p'', ''-x'']" still boot]
    main_options [of "[''p'', ''-x'', ''y'']" still boot] main_options [of "[''p'', ''-c'', ''x'', ''-q'']" still boot]
  by (simp add: known_option_def)

end
