(* ===== verification/Safety.thy ===== *)
theory Safety
  imports Daemon
begin

text \<open>
  The invariant of the program with its signals: in every state between two phases the log, the
  task list, the configuration and the counters are in order, so that the next phase and both
  signal handlers are defined. A generic locale of transition systems carries the induction.
\<close>

section \<open>Transition systems\<close>

locale transition_system =
  fixes next_state :: "'s \<Rightarrow> 's \<Rightarrow> bool"
    and good :: "'s \<Rightarrow> bool"
  assumes next_good: "good s \<Longrightarrow> next_state s s' \<Longrightarrow> good s'"
begin

lemma reach_good: "next_state\<^sup>*\<^sup>* s s' \<Longrightarrow> good s \<Longrightarrow> good s'"
  by (induction rule: rtranclp_induct) (auto intro: next_good)

lemma reach_safe: "next_state\<^sup>*\<^sup>* s s' \<Longrightarrow> good s \<Longrightarrow> (\<And>s. good s \<Longrightarrow> P s) \<Longrightarrow> P s'"
  using reach_good by blast

end

section \<open>The invariant\<close>

definition libdir :: "string option \<Rightarrow> string" where
  "libdir libwhere = (case libwhere of None \<Rightarrow> ''../libdir'' | Some l \<Rightarrow> l)"

text \<open>
  What the environment provides: methods that keep to their contract and set counters that do
  not overflow, a listing of the library directory as file systems give it, and a path of the
  configuration file short enough for a log line.
\<close>

definition env_ok :: "(onedate \<Rightarrow> onedate \<Rightarrow> bool) \<Rightarrow> env \<Rightarrow> string option \<Rightarrow> string option \<Rightarrow> bool" where
  "env_ok T E confwhere libwhere \<longleftrightarrow> tame T E \<and> (\<forall>t t'. T t t' \<longrightarrow> clock_ok t \<longrightarrow> clock_ok t') \<and>
     (\<forall>c. confwhere = Some c \<longrightarrow> length c \<le> 800) \<and> dir_ok E (libdir libwhere) \<and> NUL \<notin> set (libdir libwhere)"

definition base :: "env \<Rightarrow> world \<Rightarrow> nat list \<Rightarrow> (nat \<times> nat list) list \<Rightarrow> bool" where
  "base E w as cells \<longleftrightarrow> main_log_ok E w \<and> tasks w as \<and> clocks_ok w as \<and> shead_ok w \<and> conf_cells w cells"

definition fname :: "filedate heap \<Rightarrow> nat \<Rightarrow> string" where
  "fname h a = (case h a of None \<Rightarrow> [] | Some f \<Rightarrow> map tolower (cstr (fd_name f)))"

definition cells_named :: "world \<Rightarrow> (nat \<times> nat list) list \<Rightarrow> bool" where
  "cells_named w cells \<longleftrightarrow> (\<forall>c\<in>set cells. named (files w) (fst c, fname (files w) (fst c)))"

definition block_of :: "world \<Rightarrow> string list \<Rightarrow> bool" where
  "block_of w es \<longleftrightarrow> (\<exists>h post. shead w = Some h \<and> bufs w h = Some (block es @ NUL # post) \<and>
     length (block es @ NUL # post) < 2 ^ 31 \<and> (\<forall>e\<in>set es. good_entry e))"

definition block_ready :: "world \<Rightarrow> bool" where
  "block_ready w \<longleftrightarrow> (\<exists>es. block_of w es)"

definition phase_ok :: "phase \<Rightarrow> world \<Rightarrow> nat list \<Rightarrow> (nat \<times> nat list) list \<Rightarrow> bool" where
  "phase_ok ph w as cells \<longleftrightarrow>
     (case ph of
        Conf \<Rightarrow> as = [] \<and> files_small w
      | Read \<Rightarrow> as = [] \<and> block_ready w
      | Lib \<Rightarrow> as = [] \<and> cells_named w cells
      | Bind \<Rightarrow> cells_named w cells
      | Init p \<Rightarrow> (\<exists>xs ys. as = xs @ ys \<and> lpath cy_next (cycs w) p ys None)
      | _ \<Rightarrow> True)"

fun inv :: "(onedate \<Rightarrow> onedate \<Rightarrow> bool) \<Rightarrow> env \<Rightarrow> string option \<Rightarrow> string option \<Rightarrow> phase \<times> world \<Rightarrow> bool" where
  "inv T E confwhere libwhere (ph, w) \<longleftrightarrow> env_ok T E confwhere libwhere \<and>
     ((\<exists>s. ph = Done s) \<or> (\<exists>as cells. base E w as cells \<and> phase_ok ph w as cells))"

text \<open>A phase ended well: the state is in order, and if the child goes on it is ready for \<open>ph\<close>.\<close>

definition settled :: "env \<Rightarrow> phase \<Rightarrow> bool \<times> world \<Rightarrow> bool" where
  "settled E ph r \<longleftrightarrow> (\<exists>as cells. base E (snd r) as cells \<and> (fst r \<longrightarrow> phase_ok ph (snd r) as cells))"

lemma base_kept:
  assumes "base E w as cells" "kept w w'" "main_log_ok E w'"
  shows "base E w' as cells"
  using assms tasks_kept [OF assms(2)] shead_ok_same [of w' w] conf_cells_same [of w' w]
  by (simp add: base_def clocks_ok_def kept_def)

lemma base_log:
  assumes b: "base E w as cells" and m: "msg_fits (line, type, msg)"
  obtains w' where "logLog E line type msg w = Some w'" "base E w' as cells" "kept w w'" "main_log_ok E w'"
  using logLog_ok [OF _ m] b base_kept [OF b] unfolding base_def by blast

lemma phase_kept:
  assumes "kept w w'" "phase_ok ph w as cells" "ph \<noteq> Conf"
  shows "phase_ok ph w' as cells"
proof -
  have "cells_named w' cells = cells_named w cells" "block_ready w' = block_ready w" "cycs w' = cycs w"
    using assms(1) by (simp_all add: kept_def cells_named_def block_ready_def block_of_def)
  then show ?thesis using assms(2,3) by (simp add: phase_ok_def split: phase.splits)
qed

lemma settled_log:
  assumes b: "base E w as cells" "phase_ok ph w as cells" "ph \<noteq> Conf" and m: "msg_fits (line, type, msg)"
  shows "\<exists>w'. logLog E line type msg w = Some w' \<and> settled E ph (True, w')"
  using base_log [OF b(1) m] phase_kept [OF _ b(2,3)] unfolding settled_def by (metis fst_conv snd_conv)

lemma settled_stop:
  assumes b: "base E w as cells" and m: "msg_fits (line, type, msg)"
  shows "\<exists>w'. logLog E line type msg w = Some w' \<and> settled E ph (False, w')"
  using base_log [OF b m] unfolding settled_def by (metis fst_conv snd_conv)

lemma finish_ok:
  assumes e: "tame T E" and b: "base E w as cells"
  shows "\<exists>w'. finish E w = Some (Exit 0, w')"
proof (cases "as = []")
  case True
  then have "cychead w = None" using b by (simp add: base_def tasks_def)
  then show ?thesis using gameover_empty [of E w 0] b by (auto simp: finish_def base_def)
next
  case False
  then obtain w' where "gameover E 0 w = Some (Exited 0, w')"
    using gameover_ok [OF e, of w as cells 0] b unfolding base_def by blast
  then show ?thesis by (simp add: finish_def)
qed

lemma go_on_ok:
  assumes e: "env_ok T E c l" and s: "settled E ph r"
  shows "\<exists>s'. go_on E ph r = Some s' \<and> inv T E c l s'"
proof -
  obtain go w where r: "r = (go, w)" by (cases r)
  obtain as cells where b: "base E w as cells" "go \<longrightarrow> phase_ok ph w as cells"
    using s r by (auto simp: settled_def)
  obtain w' where "finish E w = Some (Exit 0, w')" 
    using finish_ok [of T E w as cells] e b(1) by (auto simp: env_ok_def)
  then show ?thesis using r b e by (auto simp: go_on_def)
qed

section \<open>The phases\<close>

lemma fits_short: "length msg \<le> 900 \<Longrightarrow> 0 \<le> line \<Longrightarrow> line \<le> 2000 \<Longrightarrow> msg_fits (line, type, msg)"
  by (simp add: msg_fits_def INT_MIN_def INT_MAX_def)

text \<open>Loading the file, whether it is there or not.\<close>

lemma load_ok:
  assumes b: "base E w [] cells" and f: "files_small w"
  shows "\<exists>p w'. loadFile E (Some q) w = Some (p, w') \<and> base E (w'\<lparr>shead := p\<rparr>) [] cells \<and>
    (if p = None then \<forall>content. file_text w q = Some content \<longrightarrow> conf_entries content = []
     else \<exists>content. file_text w q = Some content \<and> conf_entries content \<noteq> [] \<and>
       block_of (w'\<lparr>shead := p\<rparr>) (conf_entries content))"
proof -
  have E: "calm E" "fresh w" using b by (simp_all add: base_def main_log_ok_def)
  obtain a fn mx where lg: "mainld w = Some a" "length fn \<le> 900" "log_at w a fn mx" "asc_ok E"
    using b by (auto simp: base_def main_log_ok_def)
  obtain fg bf i s where lo: "logs w a = Some \<lparr>lg_fg = Some fg, lg_filename = Some bf, lg_maxsize = mx\<rparr>"
      "bufs w bf = Some (fn @ [NUL])" "NUL \<notin> set fn" "strms w fg = Some i" "dir w fn = Some i" "ino w i = Some s"
    using lg(3) by (auto simp: log_at_def)
  have lt: "bf < brk w" "fg < brk w" using E(2) lo(2,4) by (auto simp: fresh_def not_less [symmetric])
  have bs: "base E w'' [] cells"
    if "fresh w''" "logs w'' = logs w" "bufs w'' bf = bufs w bf" "strms w'' fg = strms w fg" "dir w'' = dir w"
      "ino w'' = ino w" "cycs w'' = cycs w" "files w'' = files w" "ones w'' = ones w" "dls w'' = dls w"
      "cychead w'' = cychead w" "mainld w'' = mainld w" "filehead w'' = filehead w" "shead_ok w''" for w''
  proof -
    have "log_at w'' a fn mx" using that lo by (auto simp: log_at_def)
    then show ?thesis
      using that b lg by (auto simp: base_def main_log_ok_def tasks_def clocks_ok_def conf_cells_def cell_ok_def)
  qed
  show ?thesis
  proof (cases "file_text w q")
    case None
    then have "dir w q = None"
      using f unfolding file_text_def files_small_def dir_total_def by (cases "dir w q") fastforce+
    then have "loadFile E (Some q) w = Some (None, w\<lparr>brk := Suc (brk w)\<rparr>)"
      using E by (simp add: loadFile_def fopen_r_def Let_def calm_def)
    moreover have "base E (w\<lparr>brk := Suc (brk w), shead := None\<rparr>) [] cells"
      using E(2) by (intro bs) (auto simp: fresh_def shead_ok_def)
    ultimately show ?thesis using None by simp
  next
    case (Some content)
    then have "length content \<le> 10 ^ 9" using f by (auto simp: file_text_def files_small_def bind_eq_Some_conv)
    then have sz: "2 * int (length content) + 2048 \<le> INT_MAX" by (simp add: INT_MAX_def)
    let ?es = "conf_entries content"
    obtain w1 i where w1: "load_result w1 (Suc (brk w)) ?es (loadFile E (Some q) w)"
        "w1 = w\<lparr>strms := (strms w)(brk w \<mapsto> i), brk := brk w + 2, bufs := (bufs w)(Suc (brk w) \<mapsto> replicate 1024 NUL)\<rparr>"
      using loadFile_ok [OF E Some sz] by blast
    then obtain p w' where w': "loadFile E (Some q) w = Some (p, w')" "bufs_only w1 w'" "fresh w'"
        "\<forall>a. a \<noteq> Suc (brk w) \<longrightarrow> a < brk w1 \<longrightarrow> bufs w' a = bufs w1 a"
        "if ?es = [] then p = None \<and> bufs w' (Suc (brk w)) = None
         else \<exists>h k. p = Some h \<and> bufs w' h = Some (block ?es @ replicate (Suc k) NUL) \<and> k < 1024 \<and>
             (h \<noteq> Suc (brk w) \<longrightarrow> brk w1 \<le> h \<and> bufs w' (Suc (brk w)) = None)"
      unfolding load_result_def by blast
    obtain bu n where bu: "w' = w1\<lparr>bufs := bu, brk := n\<rparr>" using w'(2) by (auto simp: bufs_only_def)
    have bf: "bufs w' bf = bufs w bf" using w'(4) lt w1(2) by simp
    have "shead_ok (w'\<lparr>shead := p\<rparr>)"
      using w'(5) lo(1) lt w1(2) lg(1) by (auto simp: shead_ok_def bu split: if_splits)
    then have "base E (w'\<lparr>shead := p\<rparr>) [] cells"
      using w'(3) bf lt w1(2) by (intro bs) (auto simp: bu fresh_def)
    moreover have "block_of (w'\<lparr>shead := p\<rparr>) ?es" if "p \<noteq> None"
    proof -
      obtain h k where h: "p = Some h" "bufs w' h = Some (block ?es @ replicate (Suc k) NUL)" "k < 1024"
        using w'(5) \<open>p \<noteq> None\<close> by (auto split: if_splits)
      have "length (block ?es) \<le> 2 * length content" using block_length by (simp add: conf_entries_def)
      then have "length (block ?es @ NUL # replicate k NUL) < 2 ^ 31"
        using \<open>length content \<le> 10 ^ 9\<close> h(3) by simp
      moreover have "\<forall>e\<in>set ?es. good_entry e" using entries_from_good by (auto simp: conf_entries_def)
      ultimately show ?thesis
        using h unfolding block_of_def
        by (intro exI [of _ h] exI [of _ "replicate k NUL"]) simp
    qed
    moreover have "p = None \<longleftrightarrow> ?es = []" using w'(5) by (auto split: if_splits)
    ultimately show ?thesis
      using w'(1) Some by (intro exI [of _ p] exI [of _ w']) (simp del: not_None_eq)
  qed
qed

text \<open>The first phase: it goes on with the entries of the file, as it is when it is read, if there are any.\<close>

definition conf_path :: "string option \<Rightarrow> string" where
  "conf_path confwhere = (case confwhere of None \<Rightarrow> ''../conf/xxh.conf'' | Some c \<Rightarrow> c)"

lemma conf_phase_text:
  assumes e: "env_ok T E c l" and b: "base E w [] cells" "files_small w"
  shows "\<exists>go v w'. conf_phase E c w = Some (go, w') \<and> base E w' [] cells \<and>
    (v = w \<or> c \<noteq> None \<and> logLog E 993 LOGINF (''conf file is '' @ conf_path c) w = Some v) \<and>
    (if go then \<exists>content. file_text v (conf_path c) = Some content \<and> conf_entries content \<noteq> [] \<and>
       block_of w' (conf_entries content)
     else \<forall>content. file_text v (conf_path c) = Some content \<longrightarrow> conf_entries content = [])"
proof -
  obtain v where v: "(case c of None \<Rightarrow> Some w | Some q \<Rightarrow> logLog E 993 LOGINF (''conf file is '' @ q) w) = Some v"
      "base E v [] cells" "files_small v"
  proof (cases c)
    case (Some q)
    then have "msg_fits (993, LOGINF, ''conf file is '' @ q)" using e by (intro fits_short) (simp_all add: env_ok_def)
    then obtain v where "logLog E 993 LOGINF (''conf file is '' @ q) w = Some v" "base E v [] cells" "files_small v"
      using base_log [OF b(1)] logLog_small b unfolding base_def by metis
    then show thesis using that Some by simp
  qed (use that b in simp)
  obtain p w1 where w1: "loadFile E (Some (conf_path c)) v = Some (p, w1)" "base E (w1\<lparr>shead := p\<rparr>) [] cells"
      "if p = None then \<forall>content. file_text v (conf_path c) = Some content \<longrightarrow> conf_entries content = []
       else \<exists>content. file_text v (conf_path c) = Some content \<and> conf_entries content \<noteq> [] \<and>
         block_of (w1\<lparr>shead := p\<rparr>) (conf_entries content)"
    using load_ok [OF v(2,3), of "conf_path c"] by blast
  obtain w2 where w2: "logLog E 1004 LOGERR ''loadFile is err'' (w1\<lparr>shead := p\<rparr>) = Some w2" "base E w2 [] cells"
    using base_log [OF w1(2), of 1004 LOGERR "''loadFile is err''"] by (auto simp: fits_short)
  have ph: "conf_phase E c w = Some (if p = None then (False, w2) else (True, w1\<lparr>shead := p\<rparr>))"
    using v(1) w1(1) w2(1) by (cases c; cases p) (auto simp: conf_phase_def conf_path_def Let_def)
  have "v = w \<or> c \<noteq> None \<and> logLog E 993 LOGINF (''conf file is '' @ conf_path c) w = Some v"
    using v(1) by (auto simp: conf_path_def split: option.splits)
  then show ?thesis using ph w1(2,3) w2(2) by (cases "p = None") auto
qed

lemma conf_phase_ok:
  assumes e: "env_ok T E c l" and b: "base E w as cells" "phase_ok Conf w as cells"
  shows "\<exists>r. conf_phase E c w = Some r \<and> settled E Read r"
proof -
  have a: "as = []" "files_small w" using b(2) by (simp_all add: phase_ok_def)
  obtain go v w' where w': "conf_phase E c w = Some (go, w')" "base E w' [] cells"
      "go \<longrightarrow> (\<exists>content. block_of w' (conf_entries content))"
    using conf_phase_text [OF e _ a(2)] b(1) a(1) by (metis (full_types))
  then have "settled E Read (go, w')"
    unfolding settled_def phase_ok_def by (intro exI [of _ "[]"] exI [of _ cells]) (auto simp: block_ready_def)
  then show ?thesis using w'(1) by blast
qed

lemma conf_at_cells:
  assumes "conf_at w (filehead w) cells secs" "\<forall>s\<in>set secs. length (fst s) \<le> 31"
  shows "conf_cells w cells" "cells_named w cells"
proof -
  have la: "list_all2 (sect_at w) cells secs" using assms(1) by (simp add: conf_at_def)
  have "cell_ok w c" "named (files w) (fst c, fname (files w) (fst c))" if c: "c \<in> set cells" for c
  proof -
    obtain s where s: "s \<in> set secs" "sect_at w c s" using list_all2_in1 [OF la c] by blast
    then show "cell_ok w c" by (simp add: sect_at_cell_ok)
    show "named (files w) (fst c, fname (files w) (fst c))"
      using s assms(2) by (auto simp: sect_at_def named_def fname_def)
  qed
  then show "conf_cells w cells" "cells_named w cells"
    using assms(1) by (auto simp: conf_cells_def cells_named_def conf_at_def)
qed

lemma base_conf:
  assumes b: "base E w [] cells0" and f: "fresh w'" "shead_ok w'" "conf_cells w' cells"
    and e: "w' = w\<lparr>filehead := q', brk := n, files := f, ones := ob, filehead := q\<rparr>"
  shows "base E w' [] cells"
  using b f e by (simp add: base_def main_log_ok_def log_at_def tasks_def clocks_ok_def)

lemma sect_at_same:
  assumes "files w' = files w" "ones w' = ones w" "bufs w' = bufs w"
  shows "sect_at w' = sect_at w"
  unfolding sect_at_def one_at_def by (intro ext) (simp add: assms ms_text_cong [of w' w])

lemma conf_at_same:
  assumes "files w' = files w" "ones w' = ones w" "bufs w' = bufs w"
  shows "conf_at w' p cells secs = conf_at w p cells secs"
  using sect_at_same [OF assms] by (simp add: conf_at_def assms)

text \<open>The second phase: it goes on with the sections of the entries, if they have the form of a configuration.\<close>

lemma read_phase_text:
  assumes b: "base E w [] cells" and bo: "block_of w es"
  shows "\<exists>go w' cs. read_phase E w = Some (go, w') \<and> base E w' [] cs \<and>
    (case conf_sections es of None \<Rightarrow> \<not> go | Some secs \<Rightarrow> go \<and> conf_at w' (filehead w') cs secs \<and> cells_named w' cs)"
proof -
  obtain h post where h: "shead w = Some h" "bufs w h = Some (block es @ NUL # post)"
      "length (block es @ NUL # post) < 2 ^ 31" "\<forall>e\<in>set es. good_entry e"
    using bo by (auto simp: block_of_def)
  let ?w = "w\<lparr>filehead := None\<rparr>"
  have E: "calm E" "fresh ?w" "shead_ok w" using b by (auto simp: base_def main_log_ok_def fresh_def)
  have bh: "bufs ?w h = Some (block es @ NUL # post)" using h(2) by simp
  note rf = readFile_ok [OF E(1,2) bh h(3,4), unfolded parse_conf_sections]
  show ?thesis
  proof (cases "conf_sections es")
    case None
    then obtain w' o1 n where w': "readFile E (Some h) True ?w = Some (- 2, w')" "fresh w'"
        "w' = ?w\<lparr>brk := n, ones := o1\<rparr>"
      using rf by auto
    have b': "base E w' [] []"
      using b w'(2,3) E(3)
      by (simp add: base_def main_log_ok_def log_at_def tasks_def clocks_ok_def conf_cells_def shead_ok_def)
    obtain w2 where "logLog E 1015 LOGERR ''readFile is err'' w' = Some w2" "base E w2 [] []"
      using base_log [OF b', of 1015 LOGERR "''readFile is err''"] by (auto simp: fits_short)
    then show ?thesis using w'(1) h(1) None by (auto simp: read_phase_def)
  next
    case (Some secs)
    then obtain w' cs f o1 n q where w': "readFile E (Some h) True ?w = Some (0, w')"
        "conf_at w' (filehead w') cs secs" "fresh w'" "w' = ?w\<lparr>brk := n, files := f, ones := o1, filehead := q\<rparr>"
      using rf by auto
    have cc: "conf_cells w' cs" "cells_named w' cs"
      using conf_at_cells [OF w'(2)] conf_sections_names [OF Some] by blast+
    have sh: "shead_ok w'" using E(3) w'(4) by (simp add: shead_ok_def)
    have b': "base E w' [] cs" using b base_conf [of E w cells w' cs] w'(3,4) sh cc by blast
    obtain w2 where w2: "logLog E 1018 LOGINF ''readFile is ok'' w' = Some w2" "base E w2 [] cs" "kept w' w2"
      using base_log [OF b', of 1018 LOGINF "''readFile is ok''"] by (auto simp: fits_short)
    have "conf_at w2 (filehead w2) cs secs" "cells_named w2 cs"
      using w'(2) w2(3) cc(2) conf_at_same [of w2 w'] by (simp_all add: kept_def cells_named_def)
    then show ?thesis using w'(1) h(1) w2(1,2) Some by (auto simp: read_phase_def)
  qed
qed

lemma read_phase_ok:
  assumes b: "base E w as cells" "phase_ok Read w as cells"
  shows "\<exists>r. read_phase E w = Some r \<and> settled E Lib r"
proof -
  obtain es where a: "as = []" "block_of w es" using b(2) by (auto simp: phase_ok_def block_ready_def)
  obtain go w' cs where w': "read_phase E w = Some (go, w')" "base E w' [] cs" "go \<longrightarrow> cells_named w' cs"
    using read_phase_text [OF _ a(2)] b(1) a(1) by (fastforce split: option.splits)
  then have "settled E Lib (go, w')"
    unfolding settled_def phase_ok_def by (intro exI [of _ "[]"] exI [of _ cs]) simp
  then show ?thesis using w'(1) by blast
qed

section \<open>Loading, binding, initialising\<close>

lemma base_tasks:
  assumes b: "base E w as cells" and l: "main_log_ok E w'" "tasks w' bs" "clocks_ok w' bs"
    and k: "files w' = files w" "ones w' = ones w" "filehead w' = filehead w" "bufs w' = bufs w"
      "shead w' = shead w" "mainld w' = mainld w"
      "\<And>a. map_option lg_filename (logs w' a) = map_option lg_filename (logs w a)"
  shows "base E w' bs cells"
  using b l shead_ok_same [OF k(4,7,5,6)] conf_cells_same [OF k(1-3)] by (simp add: base_def)

lemma clock_zero: "clock_ok (cy_tidata (lib_node E dirch d))"
  by (simp add: lib_node_def Let_def zero_cycdata_def zero_onedate_def zero_mystring_def clock_ok_def
      key_len_def value_len_def INT_MAX_def INT_MIN_def)

lemma contents_clock:
  assumes "map_option contents x' = map_option contents x" "x' = Some c'"
  shows "\<exists>c. x = Some c \<and> cy_tidata c' = cy_tidata c"
  using assms by (cases x) (auto dest: contents_eqD)

lemma grown_clocks:
  assumes "grown E dirch w bs ds w'" "clocks_ok w as" "set as \<inter> set bs = {}"
  shows "clocks_ok w' (as @ bs)"
  unfolding clocks_ok_def
proof (intro ballI allI impI)
  fix a c
  assume a: "a \<in> set (as @ bs)" "cycs w' a = Some c"
  show "clock_ok (cy_tidata c)"
  proof (cases "a \<in> set bs")
    case True
    have la: "list_all2 (\<lambda>b d. map_option contents (cycs w' b) = Some (lib_node E dirch d)) bs ds"
      using assms(1) by (simp add: grown_def)
    obtain d where "map_option contents (cycs w' a) = Some (lib_node E dirch d)"
      using list_all2_in1 [OF la True] by blast
    then have "contents c = lib_node E dirch d" using a(2) by simp
    moreover have "contents (lib_node E dirch d) = lib_node E dirch d"
      by (simp add: lib_node_def contents_def Let_def zero_cycdata_def)
    ultimately have "contents c = contents (lib_node E dirch d)" by simp
    from contents_eqD(1) [OF this] show ?thesis using clock_zero by simp
  next
    case False
    then have "map_option contents (cycs w' a) = map_option contents (cycs w a)" using assms(1) by (simp add: grown_def)
    then obtain c0 where "cycs w a = Some c0" "cy_tidata c = cy_tidata c0" using contents_clock a(2) by blast
    then show ?thesis using assms(2) a(1) False by (auto simp: clocks_ok_def)
  qed
qed

lemma load_code_range: "load_code E dirch b ds \<in> {0, - 11, - 12, - 14}"
  by (induction ds arbitrary: b) auto

lemma lib_ok:
  assumes d: "dir_ok E dirch" "NUL \<notin> set dirch" and b: "base E w [] cells" "cells_named w cells"
  shows "\<exists>res w' bs. loadLib E (Some dirch) (cycmake E) w = Some (res, w') \<and> base E w' bs cells \<and>
    cells_named w' cells \<and> - 20 \<le> res \<and> res \<le> 0"
proof (cases "entries E dirch")
  case None
  obtain w1 where w1: "logLog E 721 LOGERR ''loadLib--opendir get NULL'' w = Some w1" "base E w1 [] cells" "kept w w1"
    using base_log [OF b(1), of 721 LOGERR "''loadLib--opendir get NULL''"] by (auto simp: fits_short)
  then show ?thesis
    using None b(2) by (auto simp: loadLib_def opendir_def cells_named_def kept_def)
next
  case (Some ds)
  obtain r es where le: "load_end E dirch 0 (filter eligible ds) = (r, es)" by (metis surj_pair)
  have t: "tasks w []" "tail_ok w []" "main_log_ok E w" using b(1) by (simp_all add: base_def tail_ok_def)
  obtain w' bs where w': "loadLib E (Some dirch) (cycmake E) w = Some (load_code E dirch False (filter eligible ds), w')"
      "main_log_ok E w'" "tasks w' ([] @ bs)"
      "grown E dirch (w\<lparr>dirs := dirs w + (if isl r then 1 else 0), tr := tr w @ es\<rparr>) bs (taken E dirch ds) w'"
    using loadLib_ok [OF d Some t(3,1,2) le] by blast
  have "clocks_ok w' ([] @ bs)" by (rule grown_clocks [OF w'(4)]) (simp_all add: clocks_ok_def)
  moreover have k: "files w' = files w" "ones w' = ones w" "filehead w' = filehead w" "bufs w' = bufs w"
      "shead w' = shead w" "mainld w' = mainld w"
      "\<And>a. map_option lg_filename (logs w' a) = map_option lg_filename (logs w a)"
    using w'(4) by (auto simp: grown_def kept_def)
  ultimately have "base E w' bs cells" using base_tasks [OF b(1) w'(2), of bs] w'(3) by simp
  moreover have "cells_named w' cells" using b(2) k(1) by (simp add: cells_named_def)
  moreover have "- 20 \<le> load_code E dirch False (filter eligible ds) \<and> load_code E dirch False (filter eligible ds) \<le> 0"
    using load_code_range [of E dirch False "filter eligible ds"] by auto
  ultimately show ?thesis using w'(1) by blast
qed

lemma dec_small: "- 20 \<le> (r :: int) \<Longrightarrow> r \<le> 0 \<Longrightarrow> length (dec r) \<le> 11"
  by (intro dec_length) (simp_all add: INT_MIN_def INT_MAX_def)

lemma lib_phase_ok:
  assumes e: "env_ok T E c l" and b: "base E w as cells" "phase_ok Lib w as cells"
  shows "\<exists>r. lib_phase E l w = Some r \<and> settled E Bind r"
proof -
  have a: "as = []" "cells_named w cells" using b(2) by (simp_all add: phase_ok_def)
  have d: "dir_ok E (libdir l)" "NUL \<notin> set (libdir l)" using e by (simp_all add: env_ok_def)
  have fin: "\<exists>r. (if res < 0
       then do { w \<leftarrow> logLog E 1035 LOGERR (''loadLib is err '' @ dec res) w'; Some (False, w) }
       else do { w \<leftarrow> logLog E 1038 LOGINF ''loadLib is ok'' w'; Some (True, w) }) = Some r \<and> settled E Bind r"
    if "base E w' bs cells" "cells_named w' cells" "- 20 \<le> res" "res \<le> 0" for w' bs res
    using settled_stop [OF that(1), of 1035 LOGERR "''loadLib is err '' @ dec res" Bind] dec_small [OF that(3,4)]
      settled_log [OF that(1), of Bind 1038 LOGINF "''loadLib is ok''"] that(2)
    by (auto simp: fits_short phase_ok_def)
  show ?thesis
  proof (cases l)
    case None
    obtain res w' bs where r: "loadLib E (Some (libdir l)) (cycmake E) w = Some (res, w')" "base E w' bs cells"
        "cells_named w' cells" "- 20 \<le> res" "res \<le> 0"
      using lib_ok [OF d] b(1) a by blast
    then show ?thesis using None fin [OF r(2-5)] by (simp add: lib_phase_def libdir_def)
  next
    case (Some q)
    then have "msg_fits (1023, LOGINF, ''libdir  is '' @ q)" using d(1) by (intro fits_short) (simp_all add: dir_ok_def libdir_def)
    then obtain w1 where w1: "logLog E 1023 LOGINF (''libdir  is '' @ q) w = Some w1" "base E w1 [] cells" "kept w w1"
      using base_log [OF b(1)] a(1) by metis
    moreover have "cells_named w1 cells" using a(2) w1(3) by (simp add: cells_named_def kept_def)
    ultimately obtain res w' bs where r: "loadLib E (Some (libdir l)) (cycmake E) w1 = Some (res, w')"
        "base E w' bs cells" "cells_named w' cells" "- 20 \<le> res" "res \<le> 0"
      using lib_ok [OF d w1(2)] by blast
    then show ?thesis using Some w1(1) fin [OF r(2-5)] by (simp add: lib_phase_def libdir_def)
  qed
qed

lemma bind_spec_range: "bind_spec ss lib as m = (res, m') \<Longrightarrow> res \<in> {0, - 10, - 11}"
  by (induction ss lib as m rule: bind_spec.induct) (auto split: option.splits if_splits)

lemma unbound_clock:
  assumes "map_option unbound x' = map_option unbound x" "x' = Some c'"
  shows "\<exists>c. x = Some c \<and> cy_tidata c' = cy_tidata c"
proof -
  have "map_option cy_tidata (map_option unbound x') = map_option cy_tidata (map_option unbound x)"
    using assms(1) by simp
  then show ?thesis using assms(2) by (cases x) (simp_all add: unbound_def)
qed

lemma rebound_clocks: "rebound w w' \<Longrightarrow> clocks_ok w as \<Longrightarrow> clocks_ok w' as"
  unfolding clocks_ok_def rebound_def
proof (intro ballI allI impI)
  fix a c
  assume r: "kept (w\<lparr>cycs := cycs w'\<rparr>) w' \<and> (\<forall>a. map_option unbound (cycs w' a) = map_option unbound (cycs w a)) \<and>
      (\<forall>a c. cycs w' a = Some c \<longrightarrow> cy_ld c = mainld w \<or> map_option cy_ld (cycs w a) = Some (cy_ld c))"
    and ck: "\<forall>a\<in>set as. \<forall>c. cycs w a = Some c \<longrightarrow> clock_ok (cy_tidata c)" and a: "a \<in> set as" "cycs w' a = Some c"
  have "map_option unbound (cycs w' a) = map_option unbound (cycs w a)" using r by blast
  from unbound_clock [OF this a(2)] show "clock_ok (cy_tidata c)" using ck a(1) by auto
qed

lemma swept_clocks:
  assumes "swept w rs w'" "clocks_ok w as" "set bs \<subseteq> set as" "set bs \<inter> set rs = {}"
  shows "clocks_ok w' bs"
  unfolding clocks_ok_def
proof (intro ballI allI impI)
  fix a c
  assume a: "a \<in> set bs" "cycs w' a = Some c"
  then have "a \<notin> set rs" using assms(4) by auto
  then have "map_option contents (cycs w' a) = map_option contents (cycs w a)" using assms(1) by (simp add: swept_def)
  then obtain c0 where "cycs w a = Some c0" "cy_tidata c = cy_tidata c0" using contents_clock a(2) by blast
  then show "clock_ok (cy_tidata c)" using assms(2,3) a(1) by (auto simp: clocks_ok_def)
qed

lemma bind_ok:
  assumes b: "base E w as cells" "cells_named w cells"
  shows "\<exists>res w' bs. toSetCycdata E (filehead w) (cychead w) w = Some (res, w') \<and> base E w' bs cells \<and>
    - 20 \<le> res \<and> res \<le> 0"
proof (cases "filehead w = None \<or> cychead w = None")
  case True
  obtain w1 where "logLog E 651 LOGERR ''toSetCycdata fhead or chead is NULL'' w = Some w1" "base E w1 as cells"
    using base_log [OF b(1), of 651 LOGERR "''toSetCycdata fhead or chead is NULL''"] by (auto simp: fits_short)
  then have "toSetCycdata E (filehead w) (cychead w) w = Some (- 1, w1)" "base E w1 as cells"
    using True unfolding toSetCycdata_def by (simp_all only: if_P if_True bind.bind_lunit)
  then show ?thesis by (intro exI [of _ "- 1"] exI [of _ w1] exI [of _ as]) simp
next
  case False
  have t: "main_log_ok E w" "tasks w as" "clocks_ok w as" "conf_cells w cells" using b(1) by (simp_all add: base_def)
  let ?ss = "map (\<lambda>c. (fst c, fname (files w) (fst c))) cells"
  have ne: "as \<noteq> []" "?ss \<noteq> []" using False t(2,4) by (auto simp: tasks_def conf_cells_def)
  have ss: "lpath fd_next (files w) (filehead w) (map fst ?ss) None" "\<forall>s\<in>set ?ss. named (files w) s"
    using t(4) b(2) by (auto simp: conf_cells_def cells_named_def comp_def)
  obtain res m where bs: "bind_spec ?ss (lname (cycs w)) as (fdates (cycs w)) = (res, m)" by (metis surj_pair)
  obtain w1 w' where w': "toSetCycdata E (filehead w) (cychead w) w = Some (res, w')" "main_log_ok E w'"
      "rebound w w1" "if res = 0 then tasks w' (filter (\<lambda>a. m a \<noteq> None) as) \<and> swept w1 (filter (\<lambda>a. m a = None) as) w'
        else w' = w1 \<and> tasks w' as"
    using toSetCycdata_ok [OF t(1,2) ne(1) ss(1) ne(2) ss(2) bs] by blast
  have ck: "clocks_ok w1 as" by (rule rebound_clocks [OF w'(3) t(3)])
  have k1: "kept (w\<lparr>cycs := cycs w1\<rparr>) w1" using w'(3) by (simp add: rebound_def)
  have "\<exists>bs. base E w' bs cells"
  proof (cases "res = 0")
    case True
    then have sw: "tasks w' (filter (\<lambda>a. m a \<noteq> None) as)" "swept w1 (filter (\<lambda>a. m a = None) as) w'"
      using w'(4) by simp_all
    have "clocks_ok w' (filter (\<lambda>a. m a \<noteq> None) as)" by (rule swept_clocks [OF sw(2) ck]) auto
    then have "base E w' (filter (\<lambda>a. m a \<noteq> None) as) cells"
      using sw k1 by (intro base_tasks [OF b(1) w'(2)]) (auto simp: swept_def kept_def close_lib_def)
    then show ?thesis ..
  next
    case False
    then have "base E w' as cells"
      using w'(4) k1 ck by (intro base_tasks [OF b(1) w'(2)]) (auto simp: kept_def)
    then show ?thesis ..
  qed
  then show ?thesis using w'(1) bind_spec_range [OF bs] by fastforce
qed

lemma bind_phase_ok:
  assumes b: "base E w as cells" "phase_ok Bind w as cells"
  shows "\<exists>r. bind_phase E w = Some r \<and> settled E InitStart r"
proof -
  obtain res w' bs where r: "toSetCycdata E (filehead w) (cychead w) w = Some (res, w')" "base E w' bs cells"
      "- 20 \<le> res" "res \<le> 0"
    using bind_ok [OF b(1)] b(2) by (auto simp: phase_ok_def)
  then show ?thesis
    using settled_stop [OF r(2), of 1045 LOGERR "''toSetCycdata is err '' @ dec res" InitStart] dec_small [OF r(3,4)]
      settled_log [OF r(2), of InitStart 1048 LOGINF "''toSetCycdata is ok''"]
    by (auto simp: bind_phase_def fits_short phase_ok_def)
qed

lemma touched_base:
  assumes b: "base E w as cells" and t: "touched T a w w' es" "a \<in> set as" and l: "main_log_ok E w'"
    and T: "\<forall>t t'. T t t' \<longrightarrow> clock_ok t \<longrightarrow> clock_ok t'"
  shows "base E w' as cells"
proof -
  obtain c t' p where c: "cycs w a = Some c" "T (cy_tidata c) t'"
      "cycs w' = (cycs w)(a \<mapsto> c\<lparr>cy_tidata := t', cy_para := p\<rparr>)"
    using t(1) unfolding touched_def by blast
  have "clocks_ok w' as" using b c T t(2) by (auto simp: base_def clocks_ok_def)
  moreover have "kept (w\<lparr>cycs := cycs w', tr := tr w @ es\<rparr>) w'" using t(1) by (simp add: touched_def)
  ultimately show ?thesis
    using touched_tasks [OF t(1), of as] b l by (intro base_tasks [OF b l]) (auto simp: base_def kept_def)
qed

lemma init_methods_range: "pipe_ok (init_methods c) a es r \<Longrightarrow> r \<in> {0, - 10, - 11}"
  by (cases "(init_methods c, a, es, r)" rule: pipe_ok.cases; cases "cy_init c"; cases "cy_login c")
    (auto simp: init_methods_def link_def split: if_splits elim: pipe_ok.elims)

lemma init_one_ok:
  assumes e: "env_ok T E c l" and b: "base E w as cells" and a: "a \<in> set as"
  shows "\<exists>res w'. init_one E a w = Some (res, w') \<and> base E w' as cells \<and>
    (\<forall>b. map_option cy_next (cycs w' b) = map_option cy_next (cycs w b))"
proof -
  have T: "tame T E" "\<forall>t t'. T t t' \<longrightarrow> clock_ok t \<longrightarrow> clock_ok t'" using e by (simp_all add: env_ok_def)
  have "tasks w as" using b by (simp add: base_def)
  then obtain n where n: "cycs w a = Some n" using tasksD(2) a by blast
  obtain res w1 es where w1: "TimeInit E (Some a) w = Some (res, w1)" "main_log_ok E w1" "touched T a w w1 es"
      "pipe_ok (init_methods n) a es res"
    using TimeInit_runs [OF T(1) a] b n unfolding runs_def base_def by blast
  have b1: "base E w1 as cells" by (rule touched_base [OF b w1(3) a w1(2) T(2)])
  have "- 20 \<le> res" "res \<le> 0" using init_methods_range [OF w1(4)] by auto
  then have "msg_fits (1059, LOGERR, ''TimeInit is err '' @ dec res)"
    using dec_small [of res] by (intro fits_short) simp_all
  then obtain w2 where w2: "logLog E 1059 LOGERR (''TimeInit is err '' @ dec res) w1 = Some w2" "base E w2 as cells" "kept w1 w2"
    using base_log [OF b1] by metis
  show ?thesis
    using w1(1) b1 w2 touched_links [OF w1(3)] by (cases "res = 0") (auto simp: init_one_def kept_def)
qed

section \<open>The steps keep the invariant\<close>

lemma init_links:
  assumes "\<forall>b. map_option cy_next (cycs w' b) = map_option cy_next (cycs w b)" "lpath cy_next (cycs w) p ys None"
  shows "lpath cy_next (cycs w') p ys None"
  using assms lpath_same_links [of ys cy_next "cycs w'" "cycs w"] by simp

lemma advance_main_ok:
  assumes e: "env_ok T E c l" and b: "base E w as cells" "phase_ok ph w as cells" and nd: "\<forall>s. ph \<noteq> Done s"
  shows "\<exists>s'. advance_main E c l ph w = Some s' \<and> inv T E c l s'"
proof (cases ph)
  case Conf
  then show ?thesis
    using conf_phase_ok [OF e b(1)] b(2) go_on_ok [OF e] by (fastforce simp: advance_main_def)
next
  case Read
  then show ?thesis
    using read_phase_ok [OF b(1)] b(2) go_on_ok [OF e] by (fastforce simp: advance_main_def)
next
  case Lib
  then show ?thesis
    using lib_phase_ok [OF e b(1)] b(2) go_on_ok [OF e] by (fastforce simp: advance_main_def)
next
  case Bind
  then show ?thesis
    using bind_phase_ok [OF b(1)] b(2) go_on_ok [OF e] by (fastforce simp: advance_main_def)
next
  case InitStart
  obtain w1 where w1: "logLog E 1051 LOGINF ''--start TimeInit'' w = Some w1" "base E w1 as cells" "kept w w1"
    using base_log [OF b(1), of 1051 LOGINF "''--start TimeInit''"] by (auto simp: fits_short)
  have "lpath cy_next (cycs w1) (cychead w) as None"
    using w1(2,3) by (simp add: base_def tasks_def kept_def)
  then have "phase_ok (Init (cychead w)) w1 as cells"
    unfolding phase_ok_def by (simp) (metis append_Nil)
  then show ?thesis using InitStart w1 e by (auto simp: advance_main_def)
next
  case (Init p)
  show ?thesis
  proof (cases p)
    case None
    obtain w1 where "logLog E 1065 LOGINF ''TimeInit is ok'' w = Some w1" "base E w1 as cells"
      using base_log [OF b(1), of 1065 LOGINF "''TimeInit is ok''"] by (auto simp: fits_short)
    then show ?thesis using None Init e by (auto simp: advance_main_def phase_ok_def)
  next
    case (Some a)
    obtain xs ys where xy: "as = xs @ ys" "lpath cy_next (cycs w) (Some a) ys None"
      using b(2) Init Some by (auto simp: phase_ok_def)
    then obtain zs where zs: "ys = a # zs" by (cases ys) auto
    then obtain res w1 where w1: "init_one E a w = Some (res, w1)" "base E w1 as cells"
        "\<forall>b. map_option cy_next (cycs w1 b) = map_option cy_next (cycs w b)"
      using init_one_ok [OF e b(1), of a] xy(1) by auto
    have lp: "lpath cy_next (cycs w1) (Some a) (a # zs) None" using init_links [OF w1(3) xy(2)] zs by simp
    then obtain n where n: "cycs w1 a = Some n" "lpath cy_next (cycs w1) (cy_next n) zs None"
      by (auto split: option.splits)
    have "as = (xs @ [a]) @ zs" using xy(1) zs by simp
    then have "phase_ok (Init (cy_next n)) w1 as cells" using n(2) unfolding phase_ok_def phase.case by blast
    moreover have "settled E Ready (False, w1)" using w1(2) by (auto simp: settled_def)
    ultimately show ?thesis
      using w1 n(1) Some Init e go_on_ok [OF e, of Ready "(False, w1)"]
      by (cases "res = 0") (auto simp: advance_main_def)
  qed
next
  case Ready
  then show ?thesis using b e by (auto simp: advance_main_def)
next
  case (Done s)
  then show ?thesis using nd by blast
qed

text \<open>
  An alarm leaves alone what the child's own loops rest on: the links of both lists, the tail pointer and the
  sections. What a method did to the data of its task is inside \<open>base\<close>.
\<close>

definition method_pointers :: "cycdata \<Rightarrow> nat option list" where
  "method_pointers c = [cy_init c, cy_login c, cy_seach c, cy_howdo c, cy_send c, cy_deldate c]"

definition undisturbed :: "world \<Rightarrow> world \<Rightarrow> bool" where
  "undisturbed w w' \<longleftrightarrow> files w' = files w \<and> ones w' = ones w \<and> bufs w' = bufs w \<and> shead w' = shead w \<and> filehead w' = filehead w \<and>
     cychead w' = cychead w \<and> cycheadnext w' = cycheadnext w \<and>
     (\<forall>a. map_option cy_next (cycs w' a) = map_option cy_next (cycs w a)) \<and>
     (\<forall>a. map_option cy_libdata (cycs w' a) = map_option cy_libdata (cycs w a)) \<and>
     (\<forall>a. map_option method_pointers (cycs w' a) = map_option method_pointers (cycs w a)) \<and>
     (\<forall>a. map_option cy_fdate (cycs w' a) = map_option cy_fdate (cycs w a))"

lemma alarm_base:
  assumes e: "env_ok T E c l" and b: "base E w as cells"
  shows "\<exists>w'. cycleTimeMethod E n w = Some w' \<and> base E w' as cells \<and> undisturbed w w' \<and> (as = [] \<longrightarrow> w' = w)"
proof (cases "as = []")
  case True
  then have "cychead w = None" using b by (simp add: base_def tasks_def)
  then show ?thesis using b by (simp add: cycleTimeMethod_def undisturbed_def)
next
  case False
  have T: "tame T E" "\<forall>t t'. T t t' \<longrightarrow> clock_ok t \<longrightarrow> clock_ok t'" using e by (simp_all add: env_ok_def)
  obtain w' ess where w': "cycleTimeMethod E n w = Some w'" "ticking T E w as [] ess w'"
    using cycleTimeMethod_ok [OF T(1)] b unfolding base_def by metis
  have tk: "main_log_ok E w'" "tasks w' as" "list_all2 (ticked T w w') as ess"
    "\<forall>b. b \<notin> set as \<longrightarrow> cycs w' b = cycs w b" "kept (w\<lparr>cycs := cycs w', tr := tr w @ concat ess\<rparr>) w'"
    using w'(2) by (simp_all add: ticking_def)
  have one: "\<exists>d t p. cycs w a = Some d \<and> cycs w' a = Some (d\<lparr>cy_tidata := t, cy_para := p\<rparr>) \<and> T (advance (cy_tidata d)) t"
    if "a \<in> set as" for a
    using list_all2_in1 [OF tk(3) that] unfolding ticked_def by blast
  have "clocks_ok w' as"
    unfolding clocks_ok_def
  proof (intro ballI allI impI)
    fix a d'
    assume a: "a \<in> set as" "cycs w' a = Some d'"
    obtain d t p where d: "cycs w a = Some d" "d' = d\<lparr>cy_tidata := t, cy_para := p\<rparr>" "T (advance (cy_tidata d)) t"
      using one [OF a(1)] a(2) by auto
    have "clock_ok (cy_tidata d)" using b a(1) d(1) by (auto simp: base_def clocks_ok_def)
    then show "clock_ok (cy_tidata d')" using d(2,3) T(2) clock_ok_advance by auto
  qed
  then have "base E w' as cells" using tk by (intro base_tasks [OF b tk(1)]) (auto simp: kept_def)
  moreover have "map_option cy_next (cycs w' a) = map_option cy_next (cycs w a) \<and>
      map_option cy_libdata (cycs w' a) = map_option cy_libdata (cycs w a) \<and>
      map_option method_pointers (cycs w' a) = map_option method_pointers (cycs w a) \<and>
      map_option cy_fdate (cycs w' a) = map_option cy_fdate (cycs w a)" for a
    using one [of a] tk(4) by (cases "a \<in> set as") (auto simp: method_pointers_def)
  ultimately show ?thesis
    using w'(1) tk(5) False by (auto simp: undisturbed_def kept_def)
qed

lemma alarm_ok:
  assumes e: "env_ok T E c l" and b: "base E w as cells" "phase_ok ph w as cells"
  shows "\<exists>w'. cycleTimeMethod E n w = Some w' \<and> base E w' as cells \<and> phase_ok ph w' as cells"
proof -
  obtain w' where w': "cycleTimeMethod E n w = Some w'" "base E w' as cells" "undisturbed w w'" "as = [] \<longrightarrow> w' = w"
    using alarm_base [OF e b(1)] by blast
  have "phase_ok ph w' as cells"
  proof (cases "as = []")
    case False
    then show ?thesis
      using b(2) w'(3) init_links [of w' w]
      by (fastforce simp: phase_ok_def undisturbed_def cells_named_def split: phase.splits)
  qed (use b(2) w'(4) in simp)
  then show ?thesis using w'(1,2) by blast
qed

lemma usr1_ok:
  assumes e: "env_ok T E c l" and b: "base E w as cells" "phase_ok ph w as cells" and nd: "\<forall>s. ph \<noteq> Done s"
  shows "\<exists>out w'. gameover E n w = Some (out, w') \<and>
    inv T E c l (case out of Exited s \<Rightarrow> Done s | Returned \<Rightarrow> ph, w')"
proof (cases "as = []")
  case True
  have m: "msg_fits (205, LOGWAR, ''start go gameover'')" by (simp add: fits_short)
  obtain w1 where w1: "logLog E 205 LOGWAR ''start go gameover'' w = Some w1" "base E w1 as cells" "kept w w1"
    using base_log [OF b(1) m] by blast
  have "cychead w1 = None" using w1(2) True by (simp add: base_def tasks_def)
  then have g: "gameover E n w = Some (Returned, w1)" using w1(1) by (simp add: gameover_def)
  have "phase_ok ph w1 as cells"
  proof (cases "ph = Conf")
    case c: True
    then have "files_small w1" using logLog_small [OF _ m _ w1(1)] b by (auto simp: base_def phase_ok_def)
    then show ?thesis using c True by (simp add: phase_ok_def)
  next
    case False
    then show ?thesis using phase_kept [OF w1(3) b(2)] by blast
  qed
  then show ?thesis using g w1(2) e by auto
next
  case False
  have "tame T E" using e by (simp add: env_ok_def)
  then obtain w' where "gameover E n w = Some (Exited 0, w')"
    using gameover_ok [of T E w as cells n] b(1) False unfolding base_def by blast
  then show ?thesis using e by auto
qed

lemma step_inv:
  assumes "inv T E c l s" "step E c l s s'"
  shows "inv T E c l s'"
  using assms(2)
proof cases
  case (run ph w ph' w')
  show ?thesis
  proof (cases "\<exists>x. ph = Done x")
    case True
    then show ?thesis using run assms(1) by (auto simp: advance_main_def)
  next
    case False
    then obtain as cells where "env_ok T E c l" "base E w as cells" "phase_ok ph w as cells"
      using assms(1) run by auto
    then show ?thesis using advance_main_ok [of T E c l w as cells ph] False run by auto
  qed
next
  case (alarm ph w w')
  then obtain as cells where "env_ok T E c l" "base E w as cells" "phase_ok ph w as cells"
    using assms(1) by auto
  then show ?thesis using alarm_ok [of T E c l w as cells ph 14] alarm by auto
next
  case (usr1 ph w out w')
  then obtain as cells where "env_ok T E c l" "base E w as cells" "phase_ok ph w as cells"
    using assms(1) by auto
  then show ?thesis using usr1_ok [of T E c l w as cells ph 10] usr1 by auto
qed

interpretation daemon: transition_system "step E c l" "inv T E c l" for T E c l
  by unfold_locales (rule step_inv)

text \<open>In a state that satisfies the invariant nothing is undefined.\<close>

definition responsive :: "env \<Rightarrow> string option \<Rightarrow> string option \<Rightarrow> phase \<times> world \<Rightarrow> bool" where
  "responsive E c l s \<longleftrightarrow> (case s of (ph, w) \<Rightarrow>
     advance_main E c l ph w \<noteq> None \<and>
     ((\<forall>x. ph \<noteq> Done x) \<longrightarrow> cycleTimeMethod E 14 w \<noteq> None \<and> gameover E 10 w \<noteq> None))"

lemma inv_responsive:
  assumes "inv T E c l s"
  shows "responsive E c l s"
proof -
  obtain ph w where s: "s = (ph, w)" by (cases s)
  show ?thesis
  proof (cases "\<exists>x. ph = Done x")
    case True
    then show ?thesis using s by (auto simp: responsive_def advance_main_def)
  next
    case False
    then obtain as cells where i: "env_ok T E c l" "base E w as cells" "phase_ok ph w as cells"
      using assms s by auto
    have "advance_main E c l ph w \<noteq> None" using advance_main_ok [OF i] False by auto
    moreover have "cycleTimeMethod E 14 w \<noteq> None" using alarm_ok [OF i, of 14] by auto
    moreover have "gameover E 10 w \<noteq> None" using usr1_ok [OF i, of 10] False by auto
    ultimately show ?thesis using s by (simp add: responsive_def)
  qed
qed

section \<open>The program without signals\<close>

text \<open>A run of \<open>child\<close> is a run of the transition system in which no signal arrives.\<close>

interpretation init_walk: cyc_walk "init_one E" "init_loop E" for E
proof unfold_locales
  show "init_loop E None w = Some (0, w)" for w by (simp add: init_loop.simps)
  show "init_loop E (Some a) w = do {
        (r, w) \<leftarrow> init_one E a w;
        if r \<noteq> 0 then Some (r, w) else do { c \<leftarrow> cycs w a; init_loop E (cy_next c) w }
      }" for a w
    by (subst init_loop.simps) simp
qed

lemma init_loop_ok:
  assumes e: "env_ok T E c l" and b: "base E w as cells"
  shows "\<exists>r w'. init_loop E (cychead w) w = Some (r, w') \<and> base E w' as cells"
proof -
  have p: "lpath cy_next (cycs w) (cychead w) as None" using b by (simp add: base_def tasks_def)
  let ?P = "\<lambda>bs w. set bs \<subseteq> set as \<and> base E w as cells"
  have "\<exists>r w'. init_loop E (cychead w) w = Some (r, w') \<and> (if r = 0 then ?P [] w' else base E w' as cells)"
  proof (rule init_walk.walk_all [where P = ?P and Q = "\<lambda>_ w'. base E w' as cells", OF p])
    show "?P as w" using b by simp
    fix a bs w1
    assume "?P (a # bs) w1"
    then have "a \<in> set as" "set bs \<subseteq> set as" "base E w1 as cells" by auto
    then show "\<exists>r w'. init_one E a w1 = Some (r, w') \<and>
        (if r = 0 then ?P bs w' \<and> (\<forall>b. map_option cy_next (cycs w' b) = map_option cy_next (cycs w1 b))
         else base E w' as cells)"
      using init_one_ok [OF e, of w1 as cells a] by fastforce
  qed
  then show ?thesis by (auto split: if_splits)
qed

lemma init_loop_steps:
  assumes "init_loop E p w = Some (r, w')"
  shows "(step E c l)\<^sup>*\<^sup>* (Init p, w) (Init None, w') \<and> r = 0 \<or>
    r \<noteq> 0 \<and> (\<exists>a w1. (step E c l)\<^sup>*\<^sup>* (Init p, w) (Init (Some a), w1) \<and> init_one E a w1 = Some (r, w'))"
  using assms
proof (induction E p w "(r, w')" rule: init_loop.raw_induct)
  case (1 rec E p w)
  show ?case
  proof (cases p)
    case None
    then show ?thesis using 1(2) by simp
  next
    case (Some a)
    then obtain res w1 where w1: "init_one E a w = Some (res, w1)"
        "(if res \<noteq> 0 then Some (res, w1) else do { c \<leftarrow> cycs w1 a; rec E (cy_next c) w1 }) = Some (r, w')"
      using 1(2) by (auto simp: bind_eq_Some_conv)
    show ?thesis
    proof (cases "res = 0")
      case False
      then show ?thesis using w1 Some by auto
    next
      case True
      then obtain n where n: "cycs w1 a = Some n" "rec E (cy_next n) w1 = Some (r, w')"
        using w1(2) by (auto simp: bind_eq_Some_conv)
      have "step E c l (Init p, w) (Init (cy_next n), w1)"
        using Some True w1(1) n(1) by (intro step.run) (simp add: advance_main_def)
      then have pre: "(step E c l)\<^sup>*\<^sup>* (Init p, w) s" if "(step E c l)\<^sup>*\<^sup>* (Init (cy_next n), w1) s" for s
        using that by (rule converse_rtranclp_into_rtranclp)
      have "init_loop E (cy_next n) w1 = Some (r, w')"
        using 1(3) Some True w1(1) n(1) by (simp add: init_walk.loop_node)
      from 1(1) [OF n(2) this] show ?thesis
      proof (elim disjE conjE exE)
        fix b v
        assume "r \<noteq> 0" "(step E c l)\<^sup>*\<^sup>* (Init (cy_next n), w1) (Init (Some b), v)" "init_one E b v = Some (r, w')"
        then show ?thesis by (intro disjI2 conjI exI [of _ b] exI [of _ v] pre) simp_all
      qed (intro disjI1 conjI pre, simp_all)
    qed
  qed
qed (rule assms)

definition at_end :: "ending \<Rightarrow> phase" where
  "at_end e = (case e of Exit s \<Rightarrow> Done s | Waiting \<Rightarrow> Ready)"

lemma step_phase:
  assumes "advance_main E c l ph w = F \<bind> go_on E ph'" "F = Some (go, w1)"
  shows "go \<Longrightarrow> step E c l (ph, w) (ph', w1)"
    and "\<not> go \<Longrightarrow> finish E w1 = Some (e, w') \<Longrightarrow> step E c l (ph, w) (at_end e, w')"
  using assms by (auto intro!: step.run simp: go_on_def at_end_def)

lemma init_phase_steps:
  assumes "init_phase E w = Some (go, w1)"
  shows "go \<Longrightarrow> (step E c l)\<^sup>*\<^sup>* (InitStart, w) (Ready, w1)"
    and "\<not> go \<Longrightarrow> finish E w1 = Some (e, w') \<Longrightarrow> (step E c l)\<^sup>*\<^sup>* (InitStart, w) (at_end e, w')"
proof -
  obtain w2 r w3 where w2: "logLog E 1051 LOGINF ''--start TimeInit'' w = Some w2"
      "init_loop E (cychead w) w2 = Some (r, w3)"
      "(if r \<noteq> 0 then Some (False, w3)
        else do { w \<leftarrow> logLog E 1065 LOGINF ''TimeInit is ok'' w3; Some (True, w) }) = Some (go, w1)"
    using assms by (auto simp: init_phase_def Let_def bind_eq_Some_conv)
  have s0: "step E c l (InitStart, w) (Init (cychead w), w2)"
    using w2(1) by (intro step.run) (simp add: advance_main_def)
  note st = init_loop_steps [OF w2(2), of c l]
  {
    assume go
    then have r: "r = 0" "logLog E 1065 LOGINF ''TimeInit is ok'' w3 = Some w1"
      using w2(3) by (auto simp: bind_eq_Some_conv split: if_splits)
    then have "step E c l (Init None, w3) (Ready, w1)" by (intro step.run) (simp add: advance_main_def)
    then show "(step E c l)\<^sup>*\<^sup>* (InitStart, w) (Ready, w1)"
      using st r(1) s0 by (meson converse_rtranclp_into_rtranclp rtranclp.rtrancl_into_rtrancl)
  next
    assume g: "\<not> go" "finish E w1 = Some (e, w')"
    then have r: "r \<noteq> 0" "w3 = w1" using w2(3) by (auto simp: bind_eq_Some_conv split: if_splits)
    then obtain a v where a: "(step E c l)\<^sup>*\<^sup>* (Init (cychead w), w2) (Init (Some a), v)" "init_one E a v = Some (r, w1)"
      using st by blast
    then have "step E c l (Init (Some a), v) (at_end e, w')"
      using r(1) g(2) by (intro step.run) (simp add: advance_main_def go_on_def at_end_def)
    then show "(step E c l)\<^sup>*\<^sup>* (InitStart, w) (at_end e, w')"
      using a(1) s0 by (meson converse_rtranclp_into_rtranclp rtranclp.rtrancl_into_rtrancl)
  }
qed

lemma child_steps:
  assumes "child E c l w = Some (e, w')"
  shows "(step E c l)\<^sup>*\<^sup>* (Conf, w) (at_end e, w')"
proof -
  let ?R = "(step E c l)\<^sup>*\<^sup>*"
  note sp = step_phase [of E c l]
  have fin: "?R (ph, v) (at_end e, w')"
    if "advance_main E c l ph v = F \<bind> go_on E ph'" "F = Some (go, v1)"
      "(if \<not> go then finish E v1 else X) = Some (e, w')" "go \<Longrightarrow> X = Some (e, w') \<Longrightarrow> ?R (ph', v1) (at_end e, w')"
    for ph v F ph' go v1 X
  proof (cases go)
    case True
    then show ?thesis using that sp(1) [OF that(1,2) True] by (auto intro: converse_rtranclp_into_rtranclp)
  next
    case False
    then show ?thesis using that(3) sp(2) [OF that(1,2) False] by auto
  qed
  have init: "?R (InitStart, v) (at_end e, w')"
    if "do { (go, w) \<leftarrow> init_phase E v; if \<not> go then finish E w else Some (Waiting, w) } = Some (e, w')" for v
  proof -
    note i = that
    obtain go v1 where v1: "init_phase E v = Some (go, v1)" using i by (cases "init_phase E v") auto
    then show ?thesis
      using that init_phase_steps(1) [OF v1, where c = c and l = l]
        init_phase_steps(2) [OF v1, where c = c and l = l and e = e and w' = w']
      by (cases go) (auto simp: at_end_def)
  qed
  have bind: "?R (Bind, v) (at_end e, w')"
    if b: "do { (go, w) \<leftarrow> bind_phase E v; if \<not> go then finish E w else
         do { (go, w) \<leftarrow> init_phase E w; if \<not> go then finish E w else Some (Waiting, w) } } = Some (e, w')" for v
  proof -
    obtain go v1 where "bind_phase E v = Some (go, v1)" using b by (cases "bind_phase E v") auto
    with b show ?thesis by (intro fin [of Bind v "bind_phase E v" InitStart go v1]) (auto simp: advance_main_def intro: init)
  qed
  have lib: "?R (Lib, v) (at_end e, w')"
    if b: "do { (go, w) \<leftarrow> lib_phase E l v; if \<not> go then finish E w else
         do { (go, w) \<leftarrow> bind_phase E w; if \<not> go then finish E w else
         do { (go, w) \<leftarrow> init_phase E w; if \<not> go then finish E w else Some (Waiting, w) } } } = Some (e, w')" for v
  proof -
    obtain go v1 where "lib_phase E l v = Some (go, v1)" using b by (cases "lib_phase E l v") auto
    with b show ?thesis by (intro fin [of Lib v "lib_phase E l v" Bind go v1]) (auto simp: advance_main_def intro: bind)
  qed
  have read: "?R (Read, v) (at_end e, w')"
    if b: "do { (go, w) \<leftarrow> read_phase E v; if \<not> go then finish E w else
         do { (go, w) \<leftarrow> lib_phase E l w; if \<not> go then finish E w else
         do { (go, w) \<leftarrow> bind_phase E w; if \<not> go then finish E w else
         do { (go, w) \<leftarrow> init_phase E w; if \<not> go then finish E w else Some (Waiting, w) } } } } = Some (e, w')" for v
  proof -
    obtain go v1 where "read_phase E v = Some (go, v1)" using b by (cases "read_phase E v") auto
    with b show ?thesis by (intro fin [of Read v "read_phase E v" Lib go v1]) (auto simp: advance_main_def intro: lib)
  qed
  obtain go v1 where "conf_phase E c w = Some (go, v1)" 
    using assms by (cases "conf_phase E c w") (auto simp: child_def)
  with assms show ?thesis
    unfolding child_def by (intro fin [of Conf w "conf_phase E c w" Read go v1]) (auto simp: advance_main_def intro: read)
qed

end
