(* ===== verification/ConfFile.thy ===== *)
theory ConfFile
  imports ConfRead
begin

text \<open>
  The configuration file as a whole: what loading and reading it together mean, printing a
  list of sections as a file, and the round trip between the two.
\<close>

section \<open>Printing\<close>

text \<open>A section as lines: its name, a line per pair, and a blank line.\<close>

fun kv_line :: "string \<times> string \<Rightarrow> string" where
  "kv_line (k, v) = k @ CHR '':'' # v"

fun sect_entries :: "sect \<Rightarrow> string list" where
  "sect_entries (n, kvs) = n # map kv_line kvs"

definition print_conf :: "sect list \<Rightarrow> string" where
  "print_conf secs = text_of (concat (map (\<lambda>s. sect_entries s @ [[]]) secs))"

text \<open>
  A line that survives the way through the file: no line feed or NUL, shorter than the piece
  \<open>fgets\<close> reads, not a comment, without blanks at its ends.
\<close>

definition clean_line :: "string \<Rightarrow> bool" where
  "clean_line l \<longleftrightarrow> l \<noteq> [] \<and> NL \<notin> set l \<and> NUL \<notin> set l \<and> length l < 1022 \<and> trimmed l = l \<and> take 2 l \<noteq> ''//''"

fun clean_sect :: "sect \<Rightarrow> bool" where
  "clean_sect (n, kvs) \<longleftrightarrow> clean_line n \<and> length n \<le> 31 \<and>
     (\<forall>(k, v) \<in> set kvs. clean_line (kv_line (k, v)) \<and> k \<noteq> [] \<and> v \<noteq> [] \<and> CHR '':'' \<notin> set k)"

lemma entry_clean: "clean_line l \<Longrightarrow> entry (l @ [NL]) = l"
proof -
  assume l: "clean_line l"
  then have "cstr (l @ [NL]) = l @ [NL]"
    by (auto simp: clean_line_def cstr_def takeWhile_eq_all_conv)
  moreover have "trimmed (l @ [NL]) = trimmed l" by (simp add: trimmed_def rtrim_snoc blank_def)
  ultimately show ?thesis using l by (simp add: entry_def clean_line_def)
qed

lemma entry_blank: "entry [NL] = []"
  by (simp add: entry_def trimmed_def rtrim_def cstr_def blank_def)

lemma clean_not_SP: "clean_line l \<Longrightarrow> l \<noteq> [SP]"
  by (auto simp: clean_line_def trimmed_def rtrim_def blank_def)

lemma sect_entries_clean: "clean_sect s \<Longrightarrow> \<forall>l\<in>set (sect_entries s). clean_line l"
  by (cases s) auto

lemma entries_from_lines:
  "\<forall>l\<in>set ls. clean_line l \<Longrightarrow>
     entries_from iw (map (\<lambda>l. l @ [NL]) ls @ rest) =
       ls @ entries_from (iw \<or> ls \<noteq> []) rest"
proof (induction ls arbitrary: iw)
  case Nil
  then show ?case by simp
next
  case (Cons l ls)
  then have "entry (l @ [NL]) = l" "take 2 l \<noteq> ''//''" "l \<noteq> []"
    by (simp_all add: entry_clean clean_line_def)
  then show ?case using Cons by simp
qed

lemma entries_sections:
  "\<forall>s\<in>set secs. clean_sect s \<Longrightarrow>
     entries_from False (map (\<lambda>l. l @ [NL]) (concat (map (\<lambda>s. sect_entries s @ [[]]) secs))) =
       concat (map (\<lambda>s. sect_entries s @ [[SP]]) secs)"
proof (induction secs)
  case Nil
  then show ?case by simp
next
  case (Cons s secs)
  then have c: "\<forall>l\<in>set (sect_entries s). clean_line l" by (intro sect_entries_clean) simp
  have "sect_entries s \<noteq> []" by (cases s) simp
  then show ?case
    using entries_from_lines [OF c, of False] Cons by (simp add: entry_blank)
qed

lemma print_conf_entries:
  assumes "\<forall>s\<in>set secs. clean_sect s"
  shows "conf_entries (print_conf secs) = concat (map (\<lambda>s. sect_entries s @ [[SP]]) secs)"
proof -
  let ?ls = "concat (map (\<lambda>s. sect_entries s @ [[]]) secs)"
  have "\<forall>l\<in>set ?ls. NL \<notin> set l \<and> length l < 1022"
  proof
    fix l
    assume "l \<in> set ?ls"
    then have "l = [] \<or> (\<exists>s\<in>set secs. l \<in> set (sect_entries s))"
      by (auto split: if_splits)
    then have "l = [] \<or> clean_line l" using assms sect_entries_clean by blast
    then show "NL \<notin> set l \<and> length l < 1022" by (auto simp: clean_line_def)
  qed
  then have "pieces (text_of ?ls @ []) = map (\<lambda>l. l @ [NL]) ?ls"
    by (intro pieces_text) simp_all
  then show ?thesis
    using entries_sections [OF assms] by (simp add: conf_entries_def print_conf_def)
qed

section \<open>Reading back\<close>

lemma groups_lines: "\<forall>l\<in>set ls. l \<noteq> [SP] \<Longrightarrow> groups (ls @ [SP] # es) = ls # groups es"
  by (induction ls) simp_all

lemma split_kv_line: "k \<noteq> [] \<Longrightarrow> v \<noteq> [] \<Longrightarrow> CHR '':'' \<notin> set k \<Longrightarrow> split_kv (kv_line (k, v)) = Some (k, v)"
proof -
  assume "k \<noteq> []" "v \<noteq> []" "CHR '':'' \<notin> set k"
  moreover from this have "takeWhile (\<lambda>c. c \<noteq> CHR '':'') (k @ CHR '':'' # v) = k"
    by (intro takeWhile_replicate_app) auto
  ultimately show ?thesis by (simp add: split_kv_def)
qed

lemma those_map_Some: "\<forall>x\<in>set xs. f x = Some (g x) \<Longrightarrow> those (map f xs) = Some (map g xs)"
  by (induction xs) simp_all

lemma sect_of_entries: "clean_sect s \<Longrightarrow> sect_of (sect_entries s) = Some s"
proof -
  assume c: "clean_sect s"
  obtain n kvs where s: "s = (n, kvs)" by (cases s)
  have "\<forall>x\<in>set kvs. (split_kv \<circ> kv_line) x = Some (id x)"
    using c s split_kv_line by fastforce
  then have "those (map (split_kv \<circ> kv_line) kvs) = Some (map id kvs)" by (rule those_map_Some)
  then show ?thesis using c s by (simp add: sect_of_def)
qed

lemma sections_printed:
  "\<forall>s\<in>set secs. clean_sect s \<Longrightarrow> conf_sections (concat (map (\<lambda>s. sect_entries s @ [[SP]]) secs)) = Some secs"
proof (induction secs)
  case Nil
  then show ?case by (simp add: conf_sections_def)
next
  case (Cons s secs)
  have ne: "sect_entries s \<noteq> []" by (cases s) simp
  have "\<forall>l\<in>set (sect_entries s). l \<noteq> [SP]"
    using Cons.prems sect_entries_clean clean_not_SP by fastforce
  then show ?case
    using Cons ne sect_of_entries [of s] by (simp add: conf_sections_def groups_lines)
qed

lemma conf_roundtrip: "\<forall>s\<in>set secs. clean_sect s \<Longrightarrow> conf_sections (conf_entries (print_conf secs)) = Some secs"
  by (simp add: print_conf_entries sections_printed)

section \<open>Loading and reading\<close>

text \<open>The two calls of \<open>main\<close>, one after the other.\<close>

definition load_and_read :: "env \<Rightarrow> string \<Rightarrow> world \<Rightarrow> (int \<times> world) option" where
  "load_and_read E p w = do { (r, w) \<leftarrow> loadFile E (Some p) w; readFile E r True w }"

lemma conf_entries_good: "\<forall>e\<in>set (conf_entries content). good_entry e"
  unfolding conf_entries_def using entries_from_good by blast

lemma load_and_read_ok:
  assumes E: "calm E" and w: "fresh w" "file_text w p = Some content" and sz: "length content \<le> 10 ^ 9"
    and ne: "conf_entries content \<noteq> []"
  shows "case conf_sections (conf_entries content) of
      Some secs \<Rightarrow> \<exists>w' cells. load_and_read E p w = Some (0, w') \<and> conf_at w' (filehead w') cells secs
    | None \<Rightarrow> \<exists>w'. load_and_read E p w = Some (- 2, w') \<and> files w' = files w"
proof -
  let ?es = "conf_entries content"
  have s2: "2 * int (length content) + 2048 \<le> INT_MAX" using sz by (simp add: INT_MAX_def)
  obtain w1 where l: "load_result w1 (Suc (brk w)) ?es (loadFile E (Some p) w)" and fw: "files w1 = files w"
    using loadFile_ok [OF E w s2] by auto
  then obtain h k w2 where w2: "loadFile E (Some p) w = Some (Some h, w2)" "bufs_only w1 w2" "fresh w2"
      "bufs w2 h = Some (block ?es @ NUL # replicate k NUL)" "k < 1024"
    using ne by (auto simp: load_result_def)
  have "length (block ?es) \<le> 2 * length content" unfolding conf_entries_def by (rule block_length)
  then have "length (block ?es @ NUL # replicate k NUL) < 2 ^ 31" using sz w2(5) by simp
  moreover have "files w2 = files w" using w2(2) fw by (auto simp: bufs_only_def)
  ultimately show ?thesis
    using readFile_ok [OF E w2(3,4) _ conf_entries_good] w2(1)
    by (auto simp: load_and_read_def parse_conf_sections split: option.splits)
qed

section \<open>palyFiledate\<close>

text \<open>
  The listing of the configuration on the standard output. The text printed so far is the state;
  \<open>show_ptr\<close> is the conversion \<open>%p\<close>, which the C standard leaves to the implementation.
\<close>

function put_chars :: "world \<Rightarrow> mystring \<Rightarrow> int \<Rightarrow> string \<Rightarrow> string option" where
  "put_chars w m i out =
     (if i < ms_len m
      then do {
        (b, off) \<leftarrow> ms_date m;
        blk \<leftarrow> bufs w b;
        c \<leftarrow> rd blk (off + nat i);
        put_chars w m (i + 1) (out @ [c])
      }
      else Some out)"
  by pat_completeness auto
termination
  by (relation "measure (\<lambda>(w, m, i, out). nat (ms_len m - i))") auto

declare put_chars.simps [simp del]

partial_function (option) paly_ones :: "world \<Rightarrow> ptr \<Rightarrow> string \<Rightarrow> string option" where
  "paly_ones w onetem out =
     (case onetem of
        None \<Rightarrow> Some out
      | Some a \<Rightarrow> do {
          o1 \<leftarrow> ones w a;
          out \<leftarrow> put_chars w (od_key o1) 0 (out @ ''  key:'');
          out \<leftarrow> put_chars w (od_value o1) 0 (out @ [NL] @ ''  value:'');
          paly_ones w (od_next o1) (out @ [NL])
        })"

partial_function (option) paly_files :: "world \<Rightarrow> (ptr \<Rightarrow> string) \<Rightarrow> ptr \<Rightarrow> string \<Rightarrow> string option" where
  "paly_files w show_ptr filetem out =
     (case filetem of
        None \<Rightarrow> Some out
      | Some a \<Rightarrow> do {
          f \<leftarrow> files w a;
          name \<leftarrow> str_of (fd_name f);
          out \<leftarrow> paly_ones w (fd_date f) (out @ name @ [NL] @ ''--play '' @ show_ptr (fd_date f) @ [NL]);
          paly_files w show_ptr (fd_next f) out
        })"

definition palyFiledate :: "world \<Rightarrow> (ptr \<Rightarrow> string) \<Rightarrow> ptr \<Rightarrow> string \<Rightarrow> (int \<times> string) option" where
  "palyFiledate w show_ptr dat out =
     (if dat = None then Some (- 1, out @ ''palyFiledate dat is NULL'' @ [NL])
      else do { out \<leftarrow> paly_files w show_ptr dat out; Some (0, out) })"

text \<open>The function \<open>filedatefind\<close> is a stub.\<close>

definition filedatefind :: int where
  "filedatefind = 0"

text \<open>The listing, from the sections and the addresses of their first pairs.\<close>

fun kv_listing :: "string \<times> string \<Rightarrow> string" where
  "kv_listing (k, v) = ''  key:'' @ k @ [NL] @ ''  value:'' @ v @ [NL]"

definition sect_listing :: "(ptr \<Rightarrow> string) \<Rightarrow> nat \<times> nat list \<Rightarrow> sect \<Rightarrow> string" where
  "sect_listing show_ptr c s = fst s @ [NL] @ ''--play '' @
     show_ptr (case snd c of [] \<Rightarrow> None | a # _ \<Rightarrow> Some a) @ [NL] @ concat (map kv_listing (snd s))"

lemma put_chars_eq:
  assumes m: "ms_text w m = Some t"
  shows "0 \<le> i \<Longrightarrow> put_chars w m i out = Some (out @ drop (nat i) t)"
proof (induction "nat (ms_len m - i)" arbitrary: i out)
  case 0
  have "length t = nat (ms_len m)" using m by (auto simp: ms_text_def split: option.splits if_splits bind_splits)
  then show ?case using 0 by (subst put_chars.simps) simp
next
  case (Suc k)
  obtain b off blk where b: "ms_date m = Some (b, off)" "bufs w b = Some blk" "off + nat (ms_len m) \<le> length blk"
      "t = take (nat (ms_len m)) (drop off blk)"
    using m by (auto simp: ms_text_def bind_eq_Some_conv split: option.splits if_splits prod.splits)
  have lt: "i < ms_len m" "nat i < nat (ms_len m)" using Suc.hyps(2) Suc.prems by auto
  then have "nat i < length t" "t ! nat i = blk ! (off + nat i)" using b(3,4) by auto
  then have d: "drop (nat i) t = blk ! (off + nat i) # drop (nat (i + 1)) t"
    using Suc.prems by (simp add: Cons_nth_drop_Suc [symmetric] nat_add_distrib)
  have "put_chars w m (i + 1) (out @ [blk ! (off + nat i)]) = Some ((out @ [blk ! (off + nat i)]) @ drop (nat (i + 1)) t)"
    using Suc.hyps(2) Suc.prems by (intro Suc.hyps(1)) auto
  then show ?case using lt b(1,2,3) d by (subst put_chars.simps) simp
qed

lemma paly_ones_eq:
  "lpath od_next (ones w) p os None \<Longrightarrow> list_all2 (one_at w) os kvs \<Longrightarrow>
     paly_ones w p out = Some (out @ concat (map kv_listing kvs))"
proof (induction os arbitrary: p kvs out)
  case Nil
  then show ?case by (simp add: paly_ones.simps)
next
  case (Cons a os)
  obtain k v kvs' where kv: "kvs = (k, v) # kvs'" "one_at w a (k, v)" "list_all2 (one_at w) os kvs'"
    using Cons.prems(2) by (auto simp: list_all2_Cons1)
  obtain n where n: "ones w a = Some n" "ms_text w (od_key n) = Some k" "ms_text w (od_value n) = Some v"
    using kv(2) by (auto simp: one_at_def)
  have "p = Some a" "lpath od_next (ones w) (od_next n) os None" using Cons.prems(1) n(1) by auto
  then show ?case
    using n kv(1) Cons.IH [OF _ kv(3)] put_chars_eq [OF n(2), of 0] put_chars_eq [OF n(3), of 0]
    by (simp add: paly_ones.simps [of w "Some a"])
qed

lemma paly_files_eq:
  "lpath fd_next (files w) p (map fst cells) None \<Longrightarrow> list_all2 (sect_at w) cells secs \<Longrightarrow>
     paly_files w sp p out = Some (out @ concat (map2 (sect_listing sp) cells secs))"
proof (induction cells arbitrary: p secs out)
  case Nil
  then show ?case by (simp add: paly_files.simps)
next
  case (Cons c cells)
  obtain s secs' where s: "secs = s # secs'" "sect_at w c s" "list_all2 (sect_at w) cells secs'"
    using Cons.prems(2) by (auto simp: list_all2_Cons1)
  obtain f where f: "files w (fst c) = Some f" "NUL \<in> set (fd_name f)" "cstr (fd_name f) = fst s"
      "lpath od_next (ones w) (fd_date f) (snd c) None" "list_all2 (one_at w) (snd c) (snd s)"
    using s(2) by (auto simp: sect_at_def)
  have "fd_date f = (case snd c of [] \<Rightarrow> None | a # _ \<Rightarrow> Some a)" using f(4) by (cases "snd c") auto
  moreover have "p = Some (fst c)" "lpath fd_next (files w) (fd_next f) (map fst cells) None"
    using Cons.prems(1) f(1) by auto
  ultimately show ?case
    using f s(1) Cons.IH [OF _ s(3)] paly_ones_eq [OF f(4,5)]
    by (simp add: paly_files.simps [of w sp "Some (fst c)"] str_of_def sect_listing_def)
qed

section \<open>Properties\<close>

text \<open>
  C9: Loading and reading a configuration file gives the sections of the file, read by a grammar
  that does not mention the loops: the entries are split at the blank lines, each group is a name
  (cut at 31 characters) and its pairs, split at the first colon. If an entry has no key or no
  value the result is \<open>- 2\<close> and no section node is left.
\<close>

theorem readFile_sections:
  assumes "calm E" "fresh w" "file_text w p = Some content" "length content \<le> 10 ^ 9" "conf_entries content \<noteq> []"
  shows "case conf_sections (conf_entries content) of
      Some secs \<Rightarrow> \<exists>w' cells. load_and_read E p w = Some (0, w') \<and> conf_at w' (filehead w') cells secs
    | None \<Rightarrow> \<exists>w'. load_and_read E p w = Some (- 2, w') \<and> files w' = files w"
  using load_and_read_ok [OF assms] .

theorem readFile_sections_witness:
  "\<exists>w'. load_and_read still ''c'' (disk (''mail'' @ [NL] @ ''time'' @ [NL])) = Some (- 2, w') \<and> files w' = Map.empty"
proof -
  have "conf_sections (conf_entries (''mail'' @ [NL] @ ''time'' @ [NL])) = None"
    "conf_entries (''mail'' @ [NL] @ ''time'' @ [NL]) \<noteq> []" by code_simp+
  then show ?thesis
    using readFile_sections [OF still_calm disk_ok, of "''mail'' @ [NL] @ ''time'' @ [NL]"]
    by (simp add: disk_def boot_def)
qed

text \<open>
  C8: A list of sections written out as a configuration file and loaded and read again comes back
  unchanged, for sections whose lines survive the trimming of the loader.
\<close>

theorem conf_print_read:
  assumes "secs \<noteq> []" "\<forall>s\<in>set secs. clean_sect s"
    and "calm E" "fresh w" "file_text w p = Some (print_conf secs)" "length (print_conf secs) \<le> 10 ^ 9"
  shows "\<exists>w' cells. load_and_read E p w = Some (0, w') \<and> conf_at w' (filehead w') cells secs"
proof -
  have "conf_entries (print_conf secs) \<noteq> []"
    using assms(1,2) by (cases secs) (auto simp: print_conf_entries)
  then show ?thesis
    using load_and_read_ok [OF assms(3-6)] conf_roundtrip [OF assms(2)] by simp
qed

theorem conf_print_read_witness:
  "\<exists>w' cells. load_and_read still ''c'' (disk (print_conf [(''mail'', [(''time'', ''60''), (''to'', ''a:b'')])])) = Some (0, w') \<and>
     conf_at w' (filehead w') cells [(''mail'', [(''time'', ''60''), (''to'', ''a:b'')])]"
proof -
  have c: "clean_sect (''mail'', [(''time'', ''60''), (''to'', ''a:b'')])" by code_simp
  have l: "length (print_conf [(''mail'', [(''time'', ''60''), (''to'', ''a:b'')])]) \<le> 10 ^ 9"
    by (simp add: print_conf_def text_of_def)
  show ?thesis
    by (rule conf_print_read [OF _ _ still_calm disk_ok l]) (use c in simp_all)
qed

text \<open>
  \<open>fetchInf\<close> on an entry splits it at its first colon: with a key and a value it allocates one
  pair whose two strings are the slices of the block before and behind the colon; without a colon,
  a key or a value it returns NULL and changes nothing.
\<close>

lemma fetchInf_correct:
  assumes "bufs w b = Some (pre @ e @ NUL # post)" "NUL \<notin> set e" "length e < 2 ^ 31" "calm E"
  shows "case split_kv e of
      None \<Rightarrow> fetchInf E (Some (b, length pre)) w = Some (None, w)
    | Some (k, v) \<Rightarrow> \<exists>a w'. fetchInf E (Some (b, length pre)) w = Some (Some a, w') \<and> one_at w' a (k, v) \<and>
        e = k @ CHR '':'' # v \<and> CHR '':'' \<notin> set k \<and> k \<noteq> [] \<and> v \<noteq> [] \<and>
        w' = w\<lparr>brk := brk w + 1, ones := (ones w)(a := ones w' a)\<rparr>"
proof (cases "split_kv e")
  case None
  then show ?thesis using fetchInf_eq [OF assms] by simp
next
  case (Some kv)
  obtain k v where kv: "kv = (k, v)" by (cases kv)
  let ?w = "w\<lparr>brk := Suc (brk w), ones := (ones w)(brk w \<mapsto> mk_one b (length pre) k v)\<rparr>"
  have "bufs ?w b = Some (pre @ e @ NUL # post)" using assms(1) by simp
  then have "one_at ?w (brk w) (k, v)"
    using mk_one_text [of ?w] Some kv by (auto simp: one_at_def)
  then show ?thesis using fetchInf_eq [OF assms] Some kv split_kv_Some [of e k v] by auto
qed

lemma fetchInf_correct_witness:
  "\<exists>a w'. fetchInf still (Some (5, length (''x'' @ [NUL]))) (boot\<lparr>bufs := [5 \<mapsto> ''x'' @ [NUL] @ ''k:v:w'' @ [NUL, NUL]]\<rparr>) = Some (Some a, w') \<and>
     one_at w' a (''k'', ''v:w'')"
proof -
  have "split_kv ''k:v:w'' = Some (''k'', ''v:w'')" by code_simp
  then show ?thesis
    using fetchInf_correct [of "boot\<lparr>bufs := [5 \<mapsto> ''x'' @ [NUL] @ ''k:v:w'' @ [NUL, NUL]]\<rparr>" 5
        "''x'' @ [NUL]" "''k:v:w''" "[NUL]" still]
    by auto
qed

text \<open>
  \<open>freeFiledate\<close> on a list of sections returns 0 and frees every section node and every pair
  of it, each exactly once, and nothing else.
\<close>

lemma freeFiledate_correct:
  assumes "conf_at w p cells secs"
  shows "freeFiledate p w = Some (0, w\<lparr>files := drop_addrs (map fst cells) (files w),
    ones := drop_addrs (concat (map snd cells)) (ones w)\<rparr>)"
proof -
  have "\<forall>c\<in>set cells. cell_ok w c"
    using assms list_all2_in1 sect_at_cell_ok unfolding conf_at_def by metis
  then have "free_files p w = Some (w\<lparr>files := drop_addrs (map fst cells) (files w),
      ones := drop_addrs (concat (map snd cells)) (ones w)\<rparr>)"
    using assms by (intro free_files_eq) (simp_all add: conf_at_def)
  moreover have "p = None \<Longrightarrow> cells = []" using assms by (cases cells) (auto simp: conf_at_def)
  ultimately show ?thesis by (auto simp: freeFiledate_def drop_addrs_def)
qed

lemma freeFiledate_correct_witness:
  "\<exists>w' cells. load_and_read still ''c'' (disk (''a'' @ [NL] @ ''k:1'' @ [NL])) = Some (0, w') \<and>
     freeFiledate (filehead w') w' = Some (0, w'\<lparr>files := drop_addrs (map fst cells) (files w'),
       ones := drop_addrs (concat (map snd cells)) (ones w')\<rparr>)"
proof -
  let ?c = "''a'' @ [NL] @ ''k:1'' @ [NL]"
  have "conf_sections (conf_entries ?c) = Some [(''a'', [(''k'', ''1'')])]" "conf_entries ?c \<noteq> []" by code_simp+
  then obtain w' cells where "load_and_read still ''c'' (disk ?c) = Some (0, w')"
      "conf_at w' (filehead w') cells [(''a'', [(''k'', ''1'')])]"
    using load_and_read_ok [OF still_calm disk_ok, of ?c] by auto
  then show ?thesis using freeFiledate_correct by blast
qed

text \<open>
  \<open>palyFiledate\<close> on a list of sections returns 0 and prints each section with its name and, in order,
  the key and the value of each of its pairs, exactly as many characters as the lengths say.
\<close>

lemma palyFiledate_prints:
  assumes "conf_at w p cells secs" "p \<noteq> None"
  shows "palyFiledate w show_ptr p out = Some (0, out @ concat (map2 (sect_listing show_ptr) cells secs))"
  using assms paly_files_eq [of w p cells secs] by (simp add: palyFiledate_def conf_at_def)

lemma palyFiledate_prints_witness:
  "\<exists>w'. load_and_read still ''c'' (disk (''a'' @ [NL] @ ''k:1'' @ [NL])) = Some (0, w') \<and>
     palyFiledate w' (\<lambda>_. []) (filehead w') [] = Some (0, ''a'' @ [NL] @ ''--play '' @ [NL] @ ''  key:k'' @ [NL] @ ''  value:1'' @ [NL])"
proof -
  let ?c = "''a'' @ [NL] @ ''k:1'' @ [NL]"
  have "conf_sections (conf_entries ?c) = Some [(''a'', [(''k'', ''1'')])]" "conf_entries ?c \<noteq> []" by code_simp+
  then obtain w' cells where w': "load_and_read still ''c'' (disk ?c) = Some (0, w')"
      "conf_at w' (filehead w') cells [(''a'', [(''k'', ''1'')])]"
    using load_and_read_ok [OF still_calm disk_ok, of ?c] by auto
  then obtain x where x: "cells = [x]" by (auto simp: conf_at_def list_all2_Cons2)
  then have "filehead w' \<noteq> None" using w'(2) by (auto simp: conf_at_def)
  then show ?thesis
    using w'(1) x palyFiledate_prints [OF w'(2), of "\<lambda>_. []" "[]"] by (auto simp: sect_listing_def)
qed

end
