(* ===== verification/Startup.thy ===== *)
theory Startup
  imports Safety ConfFile
begin

text \<open>
  The program from its first line: the start of \<open>main\<close> establishes the invariant of the daemon, every
  run of \<open>main\<close> is defined, and the theorems about the whole program.
\<close>

section \<open>The start of the program\<close>

text \<open>
  The state in which the child enters its first phase: \<open>main\<close> up to the start of the timer. A
  process starts with small files and no configuration.
\<close>

definition globals_reset :: "world \<Rightarrow> world" where
  "globals_reset w = w\<lparr>cychead := None, cycheadnext := None, mainld := None, filehead := None\<rparr>"

definition started :: "env \<Rightarrow> world \<Rightarrow> world option" where
  "started E w = do {
     (ld, w) \<leftarrow> logInit E (Some ''./logs/main.log'') 100 (snd (opendir E ''./logs'' (globals_reset w)));
     (go, w) \<leftarrow> (if ld = None then None else daemonize E (w\<lparr>mainld := ld\<rparr>));
     if go then Some w else None
   }"

definition at_start :: "world \<Rightarrow> bool" where
  "at_start w \<longleftrightarrow> fresh w \<and> dir_total w \<and> shead w = None \<and> (\<forall>i s. ino w i = Some s \<longrightarrow> length s \<le> 10 ^ 9)"

definition host_ok :: "env \<Rightarrow> bool" where
  "host_ok E \<longleftrightarrow> calm E \<and> asc_ok E \<and> INT_MIN \<le> null_fd E \<and> null_fd E \<le> INT_MAX"

lemma main_log_opened:
  assumes h: "host_ok E" and w: "at_start w"
  obtains ld w1 where
    "logInit E (Some ''./logs/main.log'') 100 (snd (opendir E ''./logs'' (globals_reset w))) = Some (Some ld, w1)"
    "base E (w1\<lparr>mainld := Some ld\<rparr>) [] []" "files_small (w1\<lparr>mainld := Some ld\<rparr>)"
proof -
  let ?w = "snd (opendir E ''./logs'' (globals_reset w))" and ?p = "''./logs/main.log''"
  have E: "calm E" "asc_ok E" using h by (simp_all add: host_ok_def)
  have w0: "fresh ?w" "dir_total ?w" "cychead ?w = None" "filehead ?w = None" "shead ?w = None" "ino ?w = ino w"
    using w by (auto simp: at_start_def globals_reset_def opendir_def fresh_def dir_total_def split: option.splits)
  have pr: "NUL \<notin> set ?p" "- 2097152 \<le> (100 :: int)" by simp_all
  obtain ld w1 where l: "logInit E (Some ?p) 100 ?w = Some (Some ld, w1)"
      "log_at w1 ld ?p (1024 * min 100 1024)" "fresh w1" "dir_total w1"
    using logInit_ok [OF E(1) w0(1,2) pr] by metis
  let ?v = "w1\<lparr>mainld := Some ld\<rparr>"
  note fr = logInit_frame [OF l(1)]
  have la: "log_at ?v ld ?p 102400" using l(2) by (simp add: log_at_def)
  have "fresh ?v" using l(3) by (simp add: fresh_def)
  then have "main_log_ok E ?v" using E la by (auto simp: main_log_ok_def intro!: exI [of _ ?p] exI [of _ 102400])
  then have "base E ?v [] []"
    using fr(1-4) w0 by (simp add: base_def tasks_def clocks_ok_def shead_ok_def conf_cells_def)
  moreover have "length s \<le> 10 ^ 9" if "ino w1 i = Some s" for i s
    using fr(7) [OF that] w0(6) w by (auto simp: at_start_def)
  then have "files_small ?v"
    using l(4) la by (auto simp: files_small_def dir_total_def log_at_def)
  ultimately show thesis using that l(1) by blast
qed

lemma daemonize_ok:
  assumes h: "host_ok E" and b: "base E w [] cells" "files_small w"
  shows "\<exists>go w'. daemonize E w = Some (go, w') \<and> base E w' [] cells \<and> files_small w'"
proof -
  have m: "msg_fits (959, LOGERR, ''setsid is err'')" "msg_fits (965, LOGERR, ''main open() err '' @ dec (null_fd E))"
    using dec_length [of "null_fd E"] h by (simp_all add: host_ok_def fits_short)
  have lg: "\<exists>w'. logLog E line type msg w = Some w' \<and> base E w' [] cells \<and> files_small w'"
    if "msg_fits (line, type, msg)" for line type msg
    using base_log [OF b(1) that] logLog_small [OF _ that b(2)] b(1) unfolding base_def by metis
  show ?thesis
    using lg [OF m(1)] lg [OF m(2)] b by (auto simp: daemonize_def)
qed

lemma started_inv:
  assumes h: "host_ok E" and w: "at_start w" and e: "env_ok T E c l" and s: "started E w = Some w'"
  shows "inv T E c l (Conf, w')"
proof -
  obtain ld w1 where w1: "logInit E (Some ''./logs/main.log'') 100 (snd (opendir E ''./logs'' (globals_reset w))) = Some (Some ld, w1)"
      "base E (w1\<lparr>mainld := Some ld\<rparr>) [] []" "files_small (w1\<lparr>mainld := Some ld\<rparr>)"
    using main_log_opened [OF h w] by blast
  obtain go w2 where "daemonize E (w1\<lparr>mainld := Some ld\<rparr>) = Some (go, w2)" "base E w2 [] []" "files_small w2"
    using daemonize_ok [OF h w1(2,3)] by blast
  then have "base E w' [] []" "files_small w'" using s w1(1) by (auto simp: started_def split: if_splits)
  then show ?thesis using e by (auto simp: phase_ok_def)
qed

lemma init_phase_ok:
  assumes e: "env_ok T E c l" and b: "base E w as cells"
  shows "\<exists>go w'. init_phase E w = Some (go, w') \<and> base E w' as cells"
proof -
  have m: "msg_fits (1051, LOGINF, ''--start TimeInit'')" "msg_fits (1065, LOGINF, ''TimeInit is ok'')"
    by (simp_all add: fits_short)
  obtain w1 where w1: "logLog E 1051 LOGINF ''--start TimeInit'' w = Some w1" "base E w1 as cells" "kept w w1"
    using base_log [OF b m(1)] by blast
  obtain r w2 where w2: "init_loop E (cychead w) w1 = Some (r, w2)" "base E w2 as cells"
    using init_loop_ok [OF e w1(2)] w1(3) by (auto simp: kept_def)
  obtain w3 where "logLog E 1065 LOGINF ''TimeInit is ok'' w2 = Some w3" "base E w3 as cells"
    using base_log [OF w2(2) m(2)] by blast
  then show ?thesis using w1(1) w2 by (auto simp: init_phase_def Let_def)
qed

text \<open>A phase and what follows it, when both are defined.\<close>

lemma phase_then:
  assumes e: "env_ok T E c l" and F: "\<exists>r. F = Some r \<and> settled E ph r"
    and K: "\<And>w as cells. base E w as cells \<Longrightarrow> phase_ok ph w as cells \<Longrightarrow> \<exists>r. K w = Some r"
  shows "\<exists>r. (do { (go, w) \<leftarrow> F; if \<not> go then finish E w else K w }) = Some r"
proof -
  obtain go w as cells where w: "F = Some (go, w)" "base E w as cells" "go \<longrightarrow> phase_ok ph w as cells"
    using F by (auto simp: settled_def)
  obtain w' where "finish E w = Some (Exit 0, w')"
    using finish_ok [OF _ w(2)] e unfolding env_ok_def by blast
  then show ?thesis using w K [OF w(2)] by (cases go) auto
qed

lemma child_total:
  assumes "inv T E c l (Conf, w)"
  shows "\<exists>r. child E c l w = Some r"
proof -
  obtain as cells where e: "env_ok T E c l" and b: "base E w as cells" "phase_ok Conf w as cells"
    using assms by auto
  note pt = phase_then [OF e]
  have init: "\<exists>r. (do { (go, w) \<leftarrow> init_phase E w; if \<not> go then finish E w else Some (Waiting, w) }) = Some r"
    if "base E w as cells" for w as cells
    using init_phase_ok [OF e that] finish_ok e unfolding env_ok_def by fastforce
  show ?thesis
    unfolding child_def
    by (intro pt [OF conf_phase_ok [OF e b]] pt [OF read_phase_ok] pt [OF lib_phase_ok [OF e]] pt [OF bind_phase_ok] init)
qed

lemma main_child:
  assumes "parse_args argv = Some (c, l)" "fork_ret E = 0" "started E w = Some w'"
  shows "main E argv w = child E c l w'"
  using assms
  by (auto simp: main_def started_def globals_reset_def Let_def bind_eq_Some_conv split: if_splits)

lemma main_total:
  assumes h: "host_ok E" and w: "at_start w" and p: "parse_args argv = Some (c, l)" and e: "env_ok T E c l"
  shows "\<exists>r. main E argv w = Some r"
proof -
  obtain ld w1 where w1: "logInit E (Some ''./logs/main.log'') 100 (snd (opendir E ''./logs'' (globals_reset w))) = Some (Some ld, w1)"
      "base E (w1\<lparr>mainld := Some ld\<rparr>) [] []" "files_small (w1\<lparr>mainld := Some ld\<rparr>)"
    using main_log_opened [OF h w] by blast
  obtain go w2 where w2: "daemonize E (w1\<lparr>mainld := Some ld\<rparr>) = Some (go, w2)" "base E w2 [] []" "files_small w2"
    using daemonize_ok [OF h w1(2,3)] by blast
  have "inv T E c l (Conf, w2)" using w2 e by (auto simp: phase_ok_def)
  then obtain r where "child E c l w2 = Some r" using child_total by blast
  then show ?thesis using p w1(1) w2(1) by (simp add: main_def globals_reset_def Let_def)
qed

section \<open>A concrete start\<close>

lemma still_host [simp]: "host_ok still"
  by (simp add: host_ok_def) (simp add: still_def INT_MIN_def INT_MAX_def)

lemma boot_start [simp]: "at_start boot"
  by (simp add: at_start_def) (simp add: boot_def)

lemma still_env_ok [simp]: "env_ok (=) still None None"
proof -
  have "dir_ok still ''../libdir''" by (simp add: dir_ok_def still_def)
  then show ?thesis by (simp add: env_ok_def libdir_def)
qed

lemma still_started: "\<exists>w. started still boot = Some w"
proof -
  obtain ld w1 where "logInit still (Some ''./logs/main.log'') 100 (snd (opendir still ''./logs'' (globals_reset boot)))
      = Some (Some ld, w1)"
    using main_log_opened [OF still_host boot_start] by blast
  moreover have "setsid_ret still = 1" "null_fd still = 3" by (simp_all add: still_def)
  ultimately show ?thesis by (simp add: started_def daemonize_def)
qed

section \<open>Properties\<close>

text \<open>
  The daemon never does anything undefined: whatever phases the child has gone through and whatever
  alarms and SIGUSR1 signals were handled between them, the next phase is defined, and so is the handling of
  either signal. No freed or NULL pointer is followed, no buffer overrun, no counter overflows.
\<close>

lemma daemon_responsive:
  assumes "host_ok E" "at_start w" "env_ok T E c l" "started E w = Some w0" "(step E c l)\<^sup>*\<^sup>* (Conf, w0) s"
  shows "responsive E c l s"
  using daemon.reach_good [OF assms(5) started_inv [OF assms(1-4)]] by (rule inv_responsive)

lemma daemon_responsive_witness:
  "\<exists>w0 w1. started still boot = Some w0 \<and> step still None None (Conf, w0) (Conf, w1) \<and>
     responsive still None None (Conf, w1)"
proof -
  obtain w0 where w0: "started still boot = Some w0" using still_started by blast
  have "inv (=) still None None (Conf, w0)" by (rule started_inv [OF _ _ _ w0]) simp_all
  then obtain w1 where "cycleTimeMethod still 14 w0 = Some w1"
    using inv_responsive by (fastforce simp: responsive_def)
  then have "step still None None (Conf, w0) (Conf, w1)" by (intro step.alarm) simp_all
  then show ?thesis
    using daemon_responsive [OF still_host boot_start still_env_ok w0, of "(Conf, w1)"] w0 by blast
qed

text \<open>
  \<open>main\<close> refines the transition system with signals: a run of the forked child in which no signal
  arrives is a sequence of its steps, from the first phase to the way the run ends.
\<close>

lemma main_refines_steps:
  assumes "parse_args argv = Some (c, l)" "fork_ret E = 0" "started E w = Some w0" "main E argv w = Some (e, w')"
  shows "(step E c l)\<^sup>*\<^sup>* (Conf, w0) (at_end e, w')"
  using child_steps [of E c l w0 e w'] main_child [OF assms(1-3)] assms(4) by simp

lemma main_refines_steps_witness:
  "\<exists>w0 e w'. started still boot = Some w0 \<and> main still [''p''] boot = Some (e, w') \<and>
     (step still None None)\<^sup>*\<^sup>* (Conf, w0) (at_end e, w')"
proof -
  have p: "parse_args [''p''] = Some (None, None)" "fork_ret still = 0" by (simp_all add: parse_args_def still_def)
  obtain w0 where w0: "started still boot = Some w0" using still_started by blast
  obtain e w' where "main still [''p''] boot = Some (e, w')"
    using main_total [OF still_host boot_start p(1) still_env_ok] by auto
  then show ?thesis using main_refines_steps [OF p w0] w0 by blast
qed

text \<open>
  C12: Every run of \<open>main\<close> without signals comes to its end or to the waiting loop, whatever the
  configuration file and the library directory hold: each of its loops terminates and every
  access is defined.
\<close>

theorem main_terminates:
  assumes "host_ok E" "at_start w" "parse_args argv = Some (c, l)" "env_ok T E c l"
  shows "\<exists>e w'. main E argv w = Some (e, w')"
  using main_total [OF assms] by auto

theorem main_terminates_witness: "\<exists>e w'. main still [''p''] boot = Some (e, w')"
  using main_terminates [OF still_host boot_start _ still_env_ok, of "[''p'']"] by (simp add: parse_args_def)

end
