(* ===== verification/Interrupts.thy ===== *)
theory Interrupts
  imports Shutdown
begin

text \<open>
  A signal in the middle of a handler. The handlers of \<^verbatim>\<open>src/main.c\<close> are installed with an empty \<open>sa_mask\<close>: each
  blocks its own signal while it runs, and not the other. A handler is cut here between the rounds of its loop.
\<close>

section \<open>SIGUSR1 while the alarm is handled\<close>

text \<open>The loop of \<open>cycleTimeMethod\<close>, stopped before its round \<open>n\<close>: the node it has come to, and the state.\<close>

fun cycle_rounds :: "env \<Rightarrow> nat \<Rightarrow> ptr \<Rightarrow> world \<Rightarrow> (ptr \<times> world) option" where
  "cycle_rounds E 0 cyctem w = Some (cyctem, w)"
| "cycle_rounds E (Suc n) None w = Some (None, w)"
| "cycle_rounds E (Suc n) (Some a) w = do {
     w \<leftarrow> tick_node E a w;
     c \<leftarrow> cycs w a;
     cycle_rounds E n (cy_next c) w
   }"

lemma cycle_loop_rounds: "cycle_loop E p w = cycle_rounds E n p w \<bind> (\<lambda>(p, w). cycle_loop E p w)"
proof (induction E n p w rule: cycle_rounds.induct)
  case (3 E n a w)
  then show ?case by (subst cycle_loop.simps) (auto split: Option.bind_splits)
qed (simp_all add: cycle_loop.simps)

lemma cycle_rounds_ok:
  assumes T: "tame T E"
  shows "ticking T E w ds bs ess w1 \<Longrightarrow> clocks_ok w bs \<Longrightarrow> lpath cy_next (cycs w1) p bs None \<Longrightarrow>
    \<exists>q w2 ess'. cycle_rounds E n p w1 = Some (q, w2) \<and> ticking T E w (ds @ take n bs) (drop n bs) ess' w2"
proof (induction n arbitrary: ds bs ess w1 p)
  case 0
  then show ?case by auto
next
  case (Suc n)
  show ?case
  proof (cases bs)
    case Nil
    then show ?thesis using Suc.prems by auto
  next
    case bs: (Cons a bs')
    obtain w2 es where w2: "tick_node E a w1 = Some w2" "ticking T E w (ds @ [a]) bs' (ess @ [es]) w2"
        "\<forall>b. map_option cy_next (cycs w2 b) = map_option cy_next (cycs w1 b)"
      using ticking_step [OF T Suc.prems(1) [unfolded bs]] Suc.prems(2) bs by blast
    obtain c where c: "p = Some a" "cycs w1 a = Some c" "lpath cy_next (cycs w1) (cy_next c) bs' None"
      using Suc.prems(3) bs by (auto split: option.splits)
    then obtain c2 where c2: "cycs w2 a = Some c2" "cy_next c2 = cy_next c"
      using w2(3) by (metis map_option_eq_Some)
    have "lpath cy_next (cycs w2) (cy_next c2) bs' None"
      using c(3) c2(2) lpath_same_links [of bs' cy_next "cycs w2" "cycs w1"] w2(3) by simp
    moreover have "clocks_ok w bs'" using Suc.prems(2) bs by (simp add: clocks_ok_def)
    ultimately show ?thesis using Suc.IH [OF w2(2)] w2(1) c(1) c2(1) bs by fastforce
  qed
qed

lemma usr1_in_alarm:
  assumes "tame T E" "main_log_ok E w" "tasks w as" "as \<noteq> []" "clocks_ok w as" "shead_ok w" "conf_cells w cells"
  obtains p w1 w' m b where "cycle_rounds E n (cychead w) w = Some (p, w1)" "gameover E num w1 = Some (Exited 0, w')"
    "mainld w1 = Some m" "map_option lg_filename (logs w1 m) = Some (Some b)" "released w1 as cells m b w'"
proof -
  have "ticking T E w [] as [] w" using assms(2,3) by (simp add: ticking_def kept_def)
  then obtain p w1 ess where w1: "cycle_rounds E n (cychead w) w = Some (p, w1)"
      "ticking T E w (take n as) (drop n as) ess w1"
    using cycle_rounds_ok [OF assms(1) _ assms(5) tasksD(1) [OF assms(3)]] by fastforce
  have ok: "main_log_ok E w1" "tasks w1 as" and k: "kept (w\<lparr>cycs := cycs w1, tr := tr w @ concat ess\<rparr>) w1"
    using w1(2) by (simp_all add: ticking_def)
  have "shead_ok w1" "conf_cells w1 cells"
    using assms(6,7) k shead_ok_same [of w1 w] conf_cells_same [of w1 w cells] by (simp_all add: kept_def)
  then show thesis using that w1(1) gameover_ok [OF assms(1) ok assms(4), of cells num] by blast
qed

text \<open>
  C26: SIGUSR1 may arrive while an alarm is handled: after any number of rounds of \<open>cycleTimeMethod\<close>, whose loop
  would go on from there, \<open>gameover\<close> finds the task list, the configuration and the log intact, releases each
  exactly once and exits.
\<close>

theorem usr1_during_alarm:
  assumes "tame T E" "main_log_ok E w" "tasks w as" "as \<noteq> []" "clocks_ok w as" "shead_ok w" "conf_cells w cells"
  shows "\<exists>p w1 w' m b. cycle_rounds E n (cychead w) w = Some (p, w1) \<and>
    cycleTimeMethod E num w = cycle_loop E p w1 \<and>
    gameover E num' w1 = Some (Exited 0, w') \<and> mainld w1 = Some m \<and>
    map_option lg_filename (logs w1 m) = Some (Some b) \<and> released w1 as cells m b w'"
proof -
  obtain p w1 w' m b where w1: "cycle_rounds E n (cychead w) w = Some (p, w1)" "gameover E num' w1 = Some (Exited 0, w')"
      "mainld w1 = Some m" "map_option lg_filename (logs w1 m) = Some (Some b)" "released w1 as cells m b w'"
    using usr1_in_alarm [OF assms] by metis
  have "cycleTimeMethod E num w = cycle_loop E p w1"
    using cycle_loop_rounds [of E "cychead w" w n] w1(1) by (auto simp: cycleTimeMethod_def cycle_loop.simps)
  then show ?thesis using w1 by blast
qed

theorem usr1_during_alarm_witness:
  "\<exists>p w1 w'. cycle_rounds still 1 (cychead demo) demo = Some (p, w1) \<and> gameover still 10 w1 = Some (Exited 0, w')"
proof -
  have sc: "shead_ok demo" "conf_cells demo []"
    by (simp_all add: shead_ok_def conf_cells_def demo_def opened_def boot_def)
  show ?thesis
    using usr1_during_alarm [OF still_tame demo_log demo_ok(1) _ demo_clocks sc, of 1 14 10] by blast
qed

end
