(* ===== verification/Rounds.thy ===== *)
theory Rounds
  imports Startup Interrupts
begin

text \<open>
  The daemon with its signals, one level finer than \<open>step\<close>: a signal may also be handled between any two rounds
  of the loop of \<open>loadLib\<close> over the directory and of the two loops of \<open>toSetCycdata\<close>, where the task list is being
  built, bound and cut, and SIGUSR1 also between any two rounds of the alarm handler (without tasks the handler has
  none). Every step of \<open>step\<close> is a run of the finer relation, whose reachable states are as safe. The one case left
  out is a signal during \<open>gameover\<close> itself, which is not safe: \<open>alarm_in_gameover\<close> of \<open>Shutdown\<close>.
\<close>

section \<open>The points of the program\<close>

text \<open>
  Before a phase; in \<open>loadLib\<close> before an entry, with the entries left and \<open>libnumhas\<close>; in \<open>toSetCycdata\<close> before a
  round of the first loop, with \<open>filetem\<close> and \<open>chead\<close>, or of the second, with \<open>cyctem\<close>.
\<close>

datatype point = At phase | Loading "string list" int | Binding ptr ptr | Sweeping ptr

definition at_phase :: "(phase \<times> world) option \<Rightarrow> (point \<times> world) option" where
  "at_phase r = map_option (\<lambda>(ph, w). (At ph, w)) r"

text \<open>What \<open>main\<close> does with the result of \<open>loadLib\<close> and of \<open>toSetCycdata\<close>.\<close>

definition lib_report :: "env \<Rightarrow> int \<times> world \<Rightarrow> (bool \<times> world) option" where
  "lib_report E r = (case r of (res, w) \<Rightarrow>
     if res < 0
     then do { w \<leftarrow> logLog E 1035 LOGERR (''loadLib is err '' @ dec res) w; Some (False, w) }
     else do { w \<leftarrow> logLog E 1038 LOGINF ''loadLib is ok'' w; Some (True, w) })"

definition bind_report :: "env \<Rightarrow> int \<times> world \<Rightarrow> (bool \<times> world) option" where
  "bind_report E r = (case r of (res, w) \<Rightarrow>
     if res < 0
     then do { w \<leftarrow> logLog E 1045 LOGERR (''toSetCycdata is err '' @ dec res) w; Some (False, w) }
     else do { w \<leftarrow> logLog E 1048 LOGINF ''toSetCycdata is ok'' w; Some (True, w) })"

definition lib_exit :: "env \<Rightarrow> int \<times> world \<Rightarrow> (point \<times> world) option" where
  "lib_exit E r = at_phase (lib_report E r \<bind> go_on E Bind)"

definition bind_exit :: "env \<Rightarrow> int \<times> world \<Rightarrow> (point \<times> world) option" where
  "bind_exit E r = at_phase (bind_report E r \<bind> go_on E InitStart)"

text \<open>The two functions up to their loops.\<close>

definition lib_enter :: "env \<Rightarrow> string option \<Rightarrow> world \<Rightarrow> (point \<times> world) option" where
  "lib_enter E libwhere w = do {
     w \<leftarrow> (case libwhere of None \<Rightarrow> Some w | Some l \<Rightarrow> logLog E 1023 LOGINF (''libdir  is '' @ l) w);
     (case opendir E (libdir libwhere) w of
        (None, w) \<Rightarrow> do { w \<leftarrow> logLog E 721 LOGERR ''loadLib--opendir get NULL'' w; lib_exit E (TCS_OTHER_ERR, w) }
      | (Some ds, w) \<Rightarrow> Some (Loading ds 0, w))
   }"

definition bind_enter :: "env \<Rightarrow> world \<Rightarrow> (point \<times> world) option" where
  "bind_enter E w =
     (if filehead w = None \<or> cychead w = None
      then do { w \<leftarrow> logLog E 651 LOGERR ''toSetCycdata fhead or chead is NULL'' w; bind_exit E (- 1, w) }
      else Some (Binding (filehead w) (cychead w), w))"

text \<open>The next piece of the child's own code, at most one round of a loop.\<close>

definition advance_point ::
  "env \<Rightarrow> string option \<Rightarrow> string option \<Rightarrow> point \<Rightarrow> world \<Rightarrow> (point \<times> world) option" where
  "advance_point E confwhere libwhere pt w =
     (case pt of
        At ph \<Rightarrow>
          if ph = Lib then lib_enter E libwhere w
          else if ph = Bind then bind_enter E w
          else at_phase (advance_main E confwhere libwhere ph w)
      | Loading [] n \<Rightarrow> load_return E (libdir libwhere) n w \<bind> lib_exit E
      | Loading (d # ds) n \<Rightarrow> do {
          (r, w) \<leftarrow> load_entry E (libdir libwhere) (cycmake E) d n w;
          case r of Inl e \<Rightarrow> lib_exit E (e, w) | Inr n \<Rightarrow> Some (Loading ds n, w)
        }
      | Binding None chead \<Rightarrow> Some (Sweeping chead, w)
      | Binding (Some ft) chead \<Rightarrow> do {
          (r, w) \<leftarrow> bind_round E ft chead w;
          case r of Inl e \<Rightarrow> bind_exit E (e, w) | Inr p \<Rightarrow> Some (Binding p chead, w)
        }
      | Sweeping None \<Rightarrow> bind_exit E (0, w)
      | Sweeping (Some a) \<Rightarrow> do {
          (r, w) \<leftarrow> sweep_round E a w;
          case r of Inl e \<Rightarrow> bind_exit E (e, w) | Inr p \<Rightarrow> Some (Sweeping p, w)
        })"

inductive fine_step :: "env \<Rightarrow> string option \<Rightarrow> string option \<Rightarrow> point \<times> world \<Rightarrow> point \<times> world \<Rightarrow> bool"
  for E confwhere libwhere where
  run: "advance_point E confwhere libwhere pt w = Some (pt', w') \<Longrightarrow>
     fine_step E confwhere libwhere (pt, w) (pt', w')"
| alarm: "\<forall>s. pt \<noteq> At (Done s) \<Longrightarrow> cycleTimeMethod E 14 w = Some w' \<Longrightarrow>
     fine_step E confwhere libwhere (pt, w) (pt, w')"
| usr1: "\<forall>s. pt \<noteq> At (Done s) \<Longrightarrow> gameover E 10 w = Some (out, w') \<Longrightarrow>
     fine_step E confwhere libwhere (pt, w) (case out of Exited s \<Rightarrow> At (Done s) | Returned \<Rightarrow> pt, w')"
| nested: "\<forall>s. pt \<noteq> At (Done s) \<Longrightarrow> cycle_rounds E n (cychead w) w = Some (p, w1) \<Longrightarrow>
     gameover E 10 w1 = Some (Exited s, w') \<Longrightarrow> fine_step E confwhere libwhere (pt, w) (At (Done s), w')"

inductive_cases fine_stepE: "fine_step E c l s s'"

section \<open>The phases are made of the rounds\<close>

lemma lib_phase_eq:
  "lib_phase E l w = do {
     w \<leftarrow> (case l of None \<Rightarrow> Some w | Some l \<Rightarrow> logLog E 1023 LOGINF (''libdir  is '' @ l) w);
     r \<leftarrow> loadLib E (Some (libdir l)) (cycmake E) w;
     lib_report E r
   }"
  by (simp add: lib_phase_def lib_report_def libdir_def case_prod_unfold split: option.split)

lemma bind_phase_eq: "bind_phase E w = toSetCycdata E (filehead w) (cychead w) w \<bind> bind_report E"
  by (cases "toSetCycdata E (filehead w) (cychead w) w") (auto simp: bind_phase_def bind_report_def)

abbreviation fine_run :: "env \<Rightarrow> string option \<Rightarrow> string option \<Rightarrow> point \<times> world \<Rightarrow> point \<times> world \<Rightarrow> bool" where
  "fine_run E c l \<equiv> (fine_step E c l)\<^sup>*\<^sup>*"

lemma run_first:
  "advance_point E c l pt w = Some (pt1, w1) \<Longrightarrow> fine_run E c l (pt1, w1) s \<Longrightarrow> fine_run E c l (pt, w) s"
  using fine_step.run by (rule converse_rtranclp_into_rtranclp)

lemma run_last: "advance_point E c l pt w = Some s \<Longrightarrow> fine_run E c l (pt, w) s"
  by (cases s) (auto intro: fine_step.run)

lemma loading_run:
  "lib_loop E (libdir l) (cycmake E) ds n w = Some (r, w1) \<Longrightarrow>
     (case r of Inl e \<Rightarrow> Some (e, w1) | Inr n \<Rightarrow> load_return E (libdir l) n w1) = Some x \<Longrightarrow> lib_exit E x = Some s \<Longrightarrow>
     fine_run E c l (Loading ds n, w) s"
proof (induction ds arbitrary: n w)
  case Nil
  then have "r = Inr n" "w = w1" by simp_all
  then show ?case using Nil.prems(2,3) by (intro run_last) (simp add: advance_point_def)
next
  case (Cons d ds)
  obtain r1 w2 where le: "load_entry E (libdir l) (cycmake E) d n w = Some (r1, w2)"
    using Cons.prems(1) by (auto simp: bind_eq_Some_conv)
  show ?case
  proof (cases r1)
    case (Inl e)
    then have "r = Inl e" "w1 = w2" using le Cons.prems(1) by simp_all
    then show ?thesis using le Cons.prems(2,3) Inl by (intro run_last) (simp add: advance_point_def)
  next
    case (Inr k)
    then have "advance_point E c l (Loading (d # ds) n) w = Some (Loading ds k, w2)"
      using le by (simp add: advance_point_def)
    then show ?thesis using Cons.IH [of k w2] Cons.prems le Inr by (auto intro: run_first)
  qed
qed

lemma lib_steps:
  assumes "lib_phase E l w \<bind> go_on E Bind = Some (ph', w')"
  shows "fine_run E c l (At Lib, w) (At ph', w')"
proof -
  obtain w1 x where w1: "(case l of None \<Rightarrow> Some w | Some l \<Rightarrow> logLog E 1023 LOGINF (''libdir  is '' @ l) w) = Some w1"
      "loadLib E (Some (libdir l)) (cycmake E) w1 = Some x" "lib_exit E x = Some (At ph', w')"
    using assms unfolding lib_phase_eq by (auto simp: lib_exit_def at_phase_def bind_eq_Some_conv)
  show ?thesis
  proof (cases "opendir E (libdir l) w1")
    case (Pair ds w2)
    show ?thesis
    proof (cases ds)
      case None
      then have "advance_point E c l (At Lib) w = Some (At ph', w')"
        using w1 Pair by (auto simp: advance_point_def lib_enter_def loadLib_def bind_eq_Some_conv)
      then show ?thesis by (rule run_last)
    next
      case (Some es)
      then obtain r w3 where w3: "lib_loop E (libdir l) (cycmake E) es 0 w2 = Some (r, w3)"
          "(case r of Inl e \<Rightarrow> Some (e, w3) | Inr n \<Rightarrow> load_return E (libdir l) n w3) = Some x"
        using w1(2) Pair by (auto simp: loadLib_def bind_eq_Some_conv)
      have "advance_point E c l (At Lib) w = Some (Loading es 0, w2)"
        using w1(1) Pair Some by (simp add: advance_point_def lib_enter_def)
      then show ?thesis using loading_run [OF w3 w1(3)] by (rule run_first)
    qed
  qed
qed

lemma match_lib_nonzero:
  assumes "match_lib E ft p w = Some y"
  shows "fst y \<noteq> Inl 0"
proof (rule match_lib.raw_induct [OF _ assms, where P = "\<lambda>E ft p w y. fst y \<noteq> Inl 0"])
qed (fastforce simp: bind_eq_Some_conv split: option.splits if_splits)

lemma sweeping_run:
  assumes "sweep_loop E p w = Some x"
  shows "bind_exit E x = Some s \<longrightarrow> fine_run E c l (Sweeping p, w) s"
proof (rule sweep_loop.raw_induct [OF _ assms, where P = "\<lambda>E p w x. bind_exit E x = Some s \<longrightarrow> fine_run E c l (Sweeping p, w) s"],
    rule impI)
  fix rec E p w x
  assume IH: "\<And>E p w x. rec E p w = Some x \<Longrightarrow> bind_exit E x = Some s \<longrightarrow> fine_run E c l (Sweeping p, w) s"
    and body: "(case p of None \<Rightarrow> Some (0, w)
      | Some a \<Rightarrow> do {
          (r, w) \<leftarrow> sweep_round E a w;
          case r of Inl e \<Rightarrow> Some (e, w) | Inr cyctem \<Rightarrow> rec E cyctem w
        }) = Some x"
    and ex: "bind_exit E x = Some s"
  show "fine_run E c l (Sweeping p, w) s"
  proof (cases p)
    case None
    then show ?thesis using body ex by (intro run_last) (auto simp: advance_point_def)
  next
    case (Some a)
    then obtain r w1 where w1: "sweep_round E a w = Some (r, w1)"
        "(case r of Inl e \<Rightarrow> Some (e, w1) | Inr q \<Rightarrow> rec E q w1) = Some x"
      using body by (auto simp: bind_eq_Some_conv)
    show ?thesis
    proof (cases r)
      case (Inl e)
      then show ?thesis using w1 Some ex by (intro run_last) (simp add: advance_point_def)
    next
      case (Inr q)
      then have "advance_point E c l (Sweeping p) w = Some (Sweeping q, w1)"
        using w1(1) Some by (simp add: advance_point_def)
      then show ?thesis using IH [of E q w1 x] w1(2) Inr ex by (auto intro: run_first)
    qed
  qed
qed

lemma bind_nonzero:
  assumes "bind_round E ft ch w = Some (Inl e, w')"
  shows "e \<noteq> 0"
proof -
  obtain r w1 where m: "match_lib E ft ch w = Some (r, w1)" using assms by (auto simp: bind_round_def bind_eq_Some_conv)
  have "r \<noteq> Inl 0" using match_lib_nonzero [OF m] by simp
  then show ?thesis using assms m by (cases r) (auto simp: bind_round_def bind_eq_Some_conv split: if_splits)
qed

definition swept_after :: "env \<Rightarrow> ptr \<Rightarrow> int \<times> world \<Rightarrow> (int \<times> world) option" where
  "swept_after E ch r = (case r of (res, w) \<Rightarrow> if res \<noteq> 0 then Some (res, w) else sweep_loop E ch w)"

lemma binding_run:
  assumes "bind_loop E p ch w = Some r"
  shows "swept_after E ch r = Some x \<longrightarrow> bind_exit E x = Some s \<longrightarrow> fine_run E c l (Binding p ch, w) s"
proof (rule bind_loop.raw_induct [OF _ assms, where P = "\<lambda>E p ch w r. swept_after E ch r = Some x \<longrightarrow>
      bind_exit E x = Some s \<longrightarrow> fine_run E c l (Binding p ch, w) s"], intro impI)
  fix rec E p ch w r
  assume IH: "\<And>E p ch w r. rec E p ch w = Some r \<Longrightarrow> swept_after E ch r = Some x \<longrightarrow>
      bind_exit E x = Some s \<longrightarrow> fine_run E c l (Binding p ch, w) s"
    and body: "(case p of None \<Rightarrow> Some (0, w)
      | Some ft \<Rightarrow> do {
          (r, w) \<leftarrow> bind_round E ft ch w;
          case r of Inl e \<Rightarrow> Some (e, w) | Inr filetem \<Rightarrow> rec E filetem ch w
        }) = Some r"
    and sw: "swept_after E ch r = Some x" and ex: "bind_exit E x = Some s"
  show "fine_run E c l (Binding p ch, w) s"
  proof (cases p)
    case None
    then have "advance_point E c l (Binding p ch) w = Some (Sweeping ch, w)" "sweep_loop E ch w = Some x"
      using body sw by (auto simp: advance_point_def swept_after_def)
    then show ?thesis using sweeping_run [of E ch w x s] ex by (auto intro: run_first)
  next
    case (Some a)
    then obtain q w2 where w2: "bind_round E a ch w = Some (q, w2)"
        "(case q of Inl e \<Rightarrow> Some (e, w2) | Inr q \<Rightarrow> rec E q ch w2) = Some r"
      using body by (auto simp: bind_eq_Some_conv)
    show ?thesis
    proof (cases q)
      case (Inl e)
      then have "x = (e, w2)" using w2 sw bind_nonzero [of E a ch w e w2] by (auto simp: swept_after_def)
      then show ?thesis using w2(1) Inl Some ex by (intro run_last) (simp add: advance_point_def)
    next
      case (Inr k)
      then have "advance_point E c l (Binding p ch) w = Some (Binding k ch, w2)"
        using w2(1) Some by (simp add: advance_point_def)
      then show ?thesis using IH [of E k ch w2 r] w2(2) Inr sw ex by (auto intro: run_first)
    qed
  qed
qed

lemma bind_steps:
  assumes "bind_phase E w \<bind> go_on E InitStart = Some (ph', w')"
  shows "fine_run E c l (At Bind, w) (At ph', w')"
proof -
  obtain x where x: "toSetCycdata E (filehead w) (cychead w) w = Some x" "bind_exit E x = Some (At ph', w')"
    using assms unfolding bind_phase_eq by (auto simp: bind_exit_def at_phase_def bind_eq_Some_conv)
  show ?thesis
  proof (cases "filehead w = None \<or> cychead w = None")
    case True
    then have "advance_point E c l (At Bind) w = Some (At ph', w')"
      using x by (auto simp: advance_point_def bind_enter_def toSetCycdata_def bind_eq_Some_conv simp del: not_None_eq)
    then show ?thesis by (rule run_last)
  next
    case False
    then obtain r where r: "bind_loop E (filehead w) (cychead w) w = Some r" "swept_after E (cychead w) r = Some x"
      using x(1) by (auto simp: toSetCycdata_def swept_after_def bind_eq_Some_conv)
    have "advance_point E c l (At Bind) w = Some (Binding (filehead w) (cychead w), w)"
      using False by (simp add: advance_point_def bind_enter_def del: not_None_eq)
    then show ?thesis using binding_run [OF r(1)] r(2) x(2) by (blast intro: run_first)
  qed
qed

lemma step_fine:
  assumes "step E c l (ph, w) (ph', w')"
  shows "fine_run E c l (At ph, w) (At ph', w')"
  using assms
proof cases
  case run
  show ?thesis
  proof (cases "ph = Lib \<or> ph = Bind")
    case True
    then show ?thesis using run lib_steps bind_steps by (auto simp: advance_main_def)
  next
    case False
    then have "advance_point E c l (At ph) w = Some (At ph', w')"
      using run by (simp add: advance_point_def at_phase_def)
    then show ?thesis by (rule run_last)
  qed
next
  case alarm
  then show ?thesis by (auto intro: fine_step.alarm)
next
  case (usr1 out)
  then have "fine_step E c l (At ph, w) (case out of Exited s \<Rightarrow> At (Done s) | Returned \<Rightarrow> At ph, w')"
    by (auto intro: fine_step.usr1)
  then show ?thesis using usr1 by (cases out) auto
qed

section \<open>The invariant\<close>

definition entries_ok :: "string list \<Rightarrow> int \<Rightarrow> bool" where
  "entries_ok ds n \<longleftrightarrow> (\<forall>d\<in>set ds. NUL \<notin> set d \<and> length d \<le> 255) \<and> 0 \<le> n \<and> n + int (length ds) < INT_MAX"

definition point_ok :: "point \<Rightarrow> world \<Rightarrow> nat list \<Rightarrow> (nat \<times> nat list) list \<Rightarrow> bool" where
  "point_ok pt w as cells \<longleftrightarrow>
     (case pt of
        At ph \<Rightarrow> phase_ok ph w as cells
      | Loading ds n \<Rightarrow> cells_named w cells \<and> tail_ok w as \<and> entries_ok ds n
      | Binding p ch \<Rightarrow> cells_named w cells \<and> ch = cychead w \<and>
          (\<exists>xs ys. cells = xs @ ys \<and> lpath fd_next (files w) p (map fst ys) None)
      | Sweeping p \<Rightarrow> (\<exists>xs ys. as = xs @ ys \<and> lpath cy_next (cycs w) p ys None))"

fun finv :: "(onedate \<Rightarrow> onedate \<Rightarrow> bool) \<Rightarrow> env \<Rightarrow> string option \<Rightarrow> string option \<Rightarrow> point \<times> world \<Rightarrow> bool" where
  "finv T E confwhere libwhere (pt, w) \<longleftrightarrow> env_ok T E confwhere libwhere \<and>
     ((\<exists>s. pt = At (Done s)) \<or> (\<exists>as cells. base E w as cells \<and> point_ok pt w as cells))"

lemma finv_phase: "inv T E c l (ph, w) \<Longrightarrow> finv T E c l (At ph, w)"
  by (auto simp: point_ok_def)

lemma exit_ok:
  assumes e: "env_ok T E c l" and r: "\<exists>r. F = Some r \<and> settled E ph r"
  shows "\<exists>s. at_phase (F \<bind> go_on E ph) = Some s \<and> finv T E c l s"
proof -
  obtain ph' w' where "F \<bind> go_on E ph = Some (ph', w')" "inv T E c l (ph', w')"
    using r go_on_ok [OF e] by fastforce
  then show ?thesis using finv_phase [of T E c l ph' w'] by (simp add: at_phase_def)
qed

lemma lib_exit_ok:
  assumes e: "env_ok T E c l" and b: "base E w as cells" "cells_named w cells" and r: "- 20 \<le> res" "res \<le> 0"
  shows "\<exists>s. lib_exit E (res, w) = Some s \<and> finv T E c l s"
  unfolding lib_exit_def
proof (rule exit_ok [OF e])
  show "\<exists>r. lib_report E (res, w) = Some r \<and> settled E Bind r"
    using settled_stop [OF b(1), of 1035 LOGERR "''loadLib is err '' @ dec res" Bind] dec_small [OF r]
      settled_log [OF b(1), of Bind 1038 LOGINF "''loadLib is ok''"] b(2)
    by (auto simp: lib_report_def fits_short phase_ok_def)
qed

lemma bind_exit_ok:
  assumes e: "env_ok T E c l" and b: "base E w as cells" and r: "- 20 \<le> res" "res \<le> 0"
  shows "\<exists>s. bind_exit E (res, w) = Some s \<and> finv T E c l s"
  unfolding bind_exit_def
proof (rule exit_ok [OF e])
  show "\<exists>r. bind_report E (res, w) = Some r \<and> settled E InitStart r"
    using settled_stop [OF b, of 1045 LOGERR "''toSetCycdata is err '' @ dec res" InitStart] dec_small [OF r]
      settled_log [OF b, of InitStart 1048 LOGINF "''toSetCycdata is ok''"]
    by (auto simp: bind_report_def fits_short phase_ok_def)
qed

lemma base_dirs [simp]: "base E (w\<lparr>dirs := n\<rparr>) as cells = base E w as cells"
  by (simp add: base_def main_log_ok_def log_at_def fresh_def clocks_ok_def shead_ok_def conf_cells_def cell_ok_def)

lemma lib_enter_ok:
  assumes e: "env_ok T E c l" and b: "base E w as cells" "phase_ok Lib w as cells"
  shows "\<exists>s. lib_enter E l w = Some s \<and> finv T E c l s"
proof -
  have a: "as = []" "cells_named w cells" using b(2) by (simp_all add: phase_ok_def)
  have d: "dir_ok E (libdir l)" "length (libdir l) \<le> 25" using e by (simp_all add: env_ok_def dir_ok_def)
  obtain w1 where w1: "(case l of None \<Rightarrow> Some w | Some l \<Rightarrow> logLog E 1023 LOGINF (''libdir  is '' @ l) w) = Some w1"
      "base E w1 as cells" "cells_named w1 cells"
  proof (cases l)
    case None
    then show thesis using that b(1) a(2) by simp
  next
    case (Some q)
    then have "msg_fits (1023, LOGINF, ''libdir  is '' @ q)" using d(2) by (intro fits_short) (simp_all add: libdir_def)
    then obtain w1 where "logLog E 1023 LOGINF (''libdir  is '' @ q) w = Some w1" "base E w1 as cells" "kept w w1"
      using base_log [OF b(1)] by metis
    then show thesis using that Some a(2) by (simp add: cells_named_def kept_def)
  qed
  show ?thesis
  proof (cases "entries E (libdir l)")
    case None
    obtain w2 where w2: "logLog E 721 LOGERR ''loadLib--opendir get NULL'' w1 = Some w2" "base E w2 as cells" "kept w1 w2"
      using base_log [OF w1(2), of 721 LOGERR "''loadLib--opendir get NULL''"] by (auto simp: fits_short)
    then have "cells_named w2 cells" using w1(3) by (simp add: cells_named_def kept_def)
    then show ?thesis
      using None w1(1) w2(1) lib_exit_ok [OF e w2(2), of "- 10"] by (simp add: lib_enter_def opendir_def)
  next
    case (Some ds)
    let ?w = "w1\<lparr>dirs := Suc (dirs w1)\<rparr>"
    have "base E ?w as cells" using w1(2) by simp
    moreover have "point_ok (Loading ds 0) ?w as cells"
      using d(1) Some w1(3) a(1) by (auto simp: point_ok_def dir_ok_def entries_ok_def tail_ok_def cells_named_def)
    ultimately show ?thesis using Some w1(1) e by (auto simp: lib_enter_def opendir_def)
  qed
qed

lemma load_round_base:
  assumes e: "env_ok T E c l" and b: "base E w as cells" "cells_named w cells" "tail_ok w as" "entries_ok (d # ds) n"
    and le: "load_end E (libdir l) n (filter eligible [d]) = (r, es)"
  obtains w' bs where "load_entry E (libdir l) (cycmake E) d n w = Some (r, w')"
    "base E w' (as @ bs) cells" "cells_named w' cells" "tail_ok w' (as @ bs)"
    "grown E (libdir l) (w\<lparr>tr := tr w @ es\<rparr>) bs (taken E (libdir l) [d]) w'"
proof -
  have p: "length (libdir l) \<le> 25" "NUL \<notin> set (libdir l)" "\<forall>p. length (dlerror E p) \<le> 800"
    using e by (simp_all add: env_ok_def dir_ok_def)
  have w: "main_log_ok E w" "tasks w as" "clocks_ok w as" using b(1) by (simp_all add: base_def)
  obtain w' bs where w': "lib_loop E (libdir l) (cycmake E) [d] n w = Some (r, w')" "main_log_ok E w'"
      "tasks w' (as @ bs)" "tail_ok w' (as @ bs)" "grown E (libdir l) (w\<lparr>tr := tr w @ es\<rparr>) bs (taken E (libdir l) [d]) w'"
    using lib_loop_ok [OF p w(1,2) b(3) _ _ _ le] b(4) by (auto simp: entries_ok_def)
  have one: "load_entry E (libdir l) (cycmake E) d n w = Some (r, w')"
    using w'(1) by (cases "load_entry E (libdir l) (cycmake E) d n w") (auto split: sum.splits)
  have "set as \<inter> set bs = {}" using tasksD(4) [OF w'(3)] by simp
  moreover have "clocks_ok (w\<lparr>tr := tr w @ es\<rparr>) as" using w(3) by (simp add: clocks_ok_def)
  ultimately have ck: "clocks_ok w' (as @ bs)" using grown_clocks [OF w'(5)] by blast
  have k: "files w' = files w" "ones w' = ones w" "filehead w' = filehead w" "bufs w' = bufs w"
      "shead w' = shead w" "mainld w' = mainld w"
      "\<And>a. map_option lg_filename (logs w' a) = map_option lg_filename (logs w a)"
    using w'(5) by (auto simp: grown_def kept_def)
  have "base E w' (as @ bs) cells" "cells_named w' cells"
    using base_tasks [OF b(1) w'(2,3) ck] k b(2) by (simp_all add: cells_named_def)
  then show thesis using that one w'(4,5) by blast
qed

lemma load_point_ok:
  assumes e: "env_ok T E c l" and b: "base E w as cells" "point_ok (Loading (d # ds) n) w as cells"
  shows "\<exists>s. advance_point E c l (Loading (d # ds) n) w = Some s \<and> finv T E c l s"
proof -
  have po: "cells_named w cells" "tail_ok w as" "entries_ok (d # ds) n" using b(2) by (simp_all add: point_ok_def)
  obtain r es where le: "load_end E (libdir l) n (filter eligible [d]) = (r, es)" by (metis surj_pair)
  obtain w' bs where w': "load_entry E (libdir l) (cycmake E) d n w = Some (r, w')"
      "base E w' (as @ bs) cells" "cells_named w' cells" "tail_ok w' (as @ bs)"
    using load_round_base [OF e b(1) po le] by metis
  have r: "r = Inr n \<or> r = Inr (n + 1) \<or> r = Inl (- 11) \<or> r = Inl (- 12)"
    using le by (auto split: if_splits option.splits)
  show ?thesis
  proof (cases r)
    case (Inl x)
    then have "- 20 \<le> x" "x \<le> 0" using r by auto
    then show ?thesis using w'(1) Inl lib_exit_ok [OF e w'(2,3)] by (simp add: advance_point_def)
  next
    case (Inr m)
    then have "entries_ok ds m" using r po(3) by (auto simp: entries_ok_def)
    then have "point_ok (Loading ds m) w' (as @ bs) cells" using w'(3,4) by (simp add: point_ok_def)
    then show ?thesis using w'(1,2) Inr e by (auto simp: advance_point_def)
  qed
qed

lemma load_last_ok:
  assumes e: "env_ok T E c l" and b: "base E w as cells" "point_ok (Loading [] n) w as cells"
  shows "\<exists>s. advance_point E c l (Loading [] n) w = Some s \<and> finv T E c l s"
proof -
  have d: "length (libdir l) \<le> 25" using e by (simp add: env_ok_def dir_ok_def)
  have po: "cells_named w cells" "0 \<le> n" "n < INT_MAX" using b(2) by (simp_all add: point_ok_def entries_ok_def)
  obtain w1 where w1: "load_return E (libdir l) n w = Some (if n = 0 then - 14 else 0, closedir w1)"
      "main_log_ok E w1" "kept w w1"
    using load_return_ok [OF _ d po(2,3)] b(1) unfolding base_def by blast
  have b1: "base E w1 as cells" by (rule base_kept [OF b(1) w1(3,2)])
  have "base E (closedir w1) as cells" "cells_named (closedir w1) cells"
    using b1 w1(3) po(1) by (simp_all add: closedir_def cells_named_def kept_def)
  from lib_exit_ok [OF e this, of "if n = 0 then - 14 else 0"] show ?thesis
    using w1(1) by (simp add: advance_point_def)
qed

lemma bind_round_base:
  assumes b: "base E w as cells" "cells_named w cells" and ft: "ft \<in> fst ` set cells" "files w ft = Some f"
    and bs: "bind_spec [(ft, fname (files w) ft)] (lname (cycs w)) as (fdates (cycs w)) = (res, m)"
  obtains w' where "bind_round E ft (cychead w) w = Some (if res = 0 then Inr (fd_next f) else Inl res, w')"
    "base E w' as cells" "rebound w w'" "fdates (cycs w') = m" "files w' = files w" "cychead w' = cychead w"
proof -
  have w: "main_log_ok E w" "tasks w as" "clocks_ok w as" using b(1) by (simp_all add: base_def)
  have nm: "named (files w) (ft, fname (files w) ft)" using b(2) ft(1) by (auto simp: cells_named_def)
  obtain w' where w': "bind_round E ft (cychead w) w = Some (if res = 0 then Inr (fd_next f) else Inl res, w')"
      "main_log_ok E w'" "rebound w w'" "fdates (cycs w') = m"
    using bind_round_ok [OF w(1,2) nm ft(2) bs] by blast
  have k: "kept (w\<lparr>cycs := cycs w'\<rparr>) w'" using w'(3) by (simp add: rebound_def)
  have "base E w' as cells"
    using rebound_tasks [OF w'(3) w(2)] rebound_clocks [OF w'(3) w(3)] k
    by (intro base_tasks [OF b(1) w'(2)]) (auto simp: kept_def)
  moreover have "files w' = files w" "cychead w' = cychead w" using k by (simp_all add: kept_def)
  ultimately show thesis using that w' by blast
qed

lemma bind_point_ok:
  assumes e: "env_ok T E c l" and b: "base E w as cells" "point_ok (Binding (Some ft) ch) w as cells"
  shows "\<exists>s. advance_point E c l (Binding (Some ft) ch) w = Some s \<and> finv T E c l s"
proof -
  obtain xs ys where po: "cells_named w cells" "ch = cychead w" "cells = xs @ ys"
      "lpath fd_next (files w) (Some ft) (map fst ys) None"
    using b(2) by (auto simp: point_ok_def)
  obtain x ys' where y: "ys = x # ys'" "fst x = ft" using po(4) by (cases ys) auto
  then obtain f where f: "files w ft = Some f" "lpath fd_next (files w) (fd_next f) (map fst ys') None"
    using po(4) by (auto split: option.splits)
  have ft: "ft \<in> fst ` set cells" using po(3) y by auto
  obtain res m where bs: "bind_spec [(ft, fname (files w) ft)] (lname (cycs w)) as (fdates (cycs w)) = (res, m)"
    by (metis surj_pair)
  obtain w' where w': "bind_round E ft ch w = Some (if res = 0 then Inr (fd_next f) else Inl res, w')"
      "base E w' as cells" "files w' = files w" "cychead w' = cychead w"
    using bind_round_base [OF b(1) po(1) ft f(1) bs] po(2) by metis
  show ?thesis
  proof (cases "res = 0")
    case True
    have "cells = (xs @ [x]) @ ys'" using po(3) y(1) by simp
    moreover have "cells_named w' cells" using po(1) w'(3) by (simp add: cells_named_def)
    ultimately have "point_ok (Binding (fd_next f) ch) w' as cells"
      using po(2) f(2) w'(3,4) unfolding point_ok_def point.case by metis
    then show ?thesis using w'(1,2) True e by (auto simp: advance_point_def)
  next
    case False
    moreover have "- 20 \<le> res" "res \<le> 0" using bind_spec_range [OF bs] by auto
    ultimately show ?thesis using w'(1) bind_exit_ok [OF e w'(2)] by (simp add: advance_point_def)
  qed
qed

lemma sweep_round_base:
  assumes b: "base E w (xs @ a # zs) cells" and n: "cycs w a = Some n" "lpath cy_next (cycs w) (cy_next n) zs None"
  obtains w' where "sweep_round E a w = Some (Inr (cy_next n), w')" "lpath cy_next (cycs w') (cy_next n) zs None"
    "if fdates (cycs w) a = None then base E w' (xs @ zs) cells \<and> swept w [a] w' else w' = w"
proof -
  have w: "main_log_ok E w" "tasks w (xs @ a # zs)" "clocks_ok w (xs @ a # zs)" using b by (simp_all add: base_def)
  obtain w' where w': "sweep_round E a w = Some (Inr (cy_next n), w')" "main_log_ok E w'"
      "lpath cy_next (cycs w') (cy_next n) zs None"
      "if fdates (cycs w) a = None then tasks w' (xs @ zs) \<and> swept w [a] w' else w' = w"
    using sweep_round_ok [OF w(1,2) n] by auto
  have "base E w' (xs @ zs) cells" if "tasks w' (xs @ zs)" "swept w [a] w'"
  proof -
    have "clocks_ok w' (xs @ zs)" using tasksD(4) [OF w(2)] by (intro swept_clocks [OF that(2) w(3)]) auto
    then show ?thesis
      using that by (intro base_tasks [OF b w'(2)]) (auto simp: swept_def kept_def close_lib_def)
  qed
  then show thesis using that w' by auto
qed

lemma sweep_point_ok:
  assumes e: "env_ok T E c l" and b: "base E w as cells" "point_ok (Sweeping (Some a)) w as cells"
  shows "\<exists>s. advance_point E c l (Sweeping (Some a)) w = Some s \<and> finv T E c l s"
proof -
  obtain xs ys where po: "as = xs @ ys" "lpath cy_next (cycs w) (Some a) ys None"
    using b(2) by (auto simp: point_ok_def)
  obtain zs n where z: "ys = a # zs" "cycs w a = Some n" "lpath cy_next (cycs w) (cy_next n) zs None"
    using po(2) by (cases ys) (auto split: option.splits)
  obtain w' where w': "sweep_round E a w = Some (Inr (cy_next n), w')" "lpath cy_next (cycs w') (cy_next n) zs None"
      "if fdates (cycs w) a = None then base E w' (xs @ zs) cells \<and> swept w [a] w' else w' = w"
    using sweep_round_base [OF _ z(2,3), of E xs cells] b(1) po(1) z(1) by auto
  have "\<exists>us. base E w' (us @ zs) cells"
  proof (cases "fdates (cycs w) a = None")
    case False
    then have "base E w' ((xs @ [a]) @ zs) cells" using w'(3) b(1) po(1) z(1) by simp
    then show ?thesis by blast
  qed (use w'(3) in auto)
  then obtain us where "base E w' (us @ zs) cells" "point_ok (Sweeping (cy_next n)) w' (us @ zs) cells"
    using w'(2) by (auto simp: point_ok_def)
  then show ?thesis using w'(1) e by (auto simp: advance_point_def)
qed

lemma advance_point_ok:
  assumes e: "env_ok T E c l" and b: "base E w as cells" "point_ok pt w as cells" and nd: "\<forall>s. pt \<noteq> At (Done s)"
  shows "\<exists>s. advance_point E c l pt w = Some s \<and> finv T E c l s"
proof (cases pt)
  case (At ph)
  have ph: "phase_ok ph w as cells" "\<forall>s. ph \<noteq> Done s" using b(2) nd At by (simp_all add: point_ok_def)
  have bl: "finv T E c l (Binding (filehead w) (cychead w), w)" if "ph = Bind"
  proof -
    have "lpath fd_next (files w) (filehead w) (map fst cells) None"
      using b(1) by (simp add: base_def conf_cells_def)
    then have "point_ok (Binding (filehead w) (cychead w)) w as cells"
      using ph(1) that unfolding point_ok_def by (simp add: phase_ok_def) (metis append_Nil)
    then show ?thesis using e b(1) by auto
  qed
  show ?thesis
  proof (cases "ph = Lib \<or> ph = Bind")
    case True
    have "\<exists>s. bind_enter E w = Some s \<and> finv T E c l s" if ph: "ph = Bind"
    proof (cases "filehead w = None \<or> cychead w = None")
      case True
      obtain w1 where w1: "logLog E 651 LOGERR ''toSetCycdata fhead or chead is NULL'' w = Some w1" "base E w1 as cells"
        using base_log [OF b(1), of 651 LOGERR "''toSetCycdata fhead or chead is NULL''"] by (auto simp: fits_short)
      then show ?thesis
        using True bind_exit_ok [OF e w1(2), of "- 1"] unfolding bind_enter_def by (simp only: if_True) simp
    next
      case False
      then show ?thesis using bl [OF ph] unfolding bind_enter_def by (simp only: if_False) simp
    qed
    then show ?thesis using True At lib_enter_ok [OF e b(1)] ph(1) by (auto simp: advance_point_def)
  next
    case False
    obtain ph' w' where "advance_main E c l ph w = Some (ph', w')" "inv T E c l (ph', w')"
      using advance_main_ok [OF e b(1) ph] by fastforce
    then show ?thesis
      using False At finv_phase [of T E c l ph' w'] by (simp add: advance_point_def at_phase_def)
  qed
next
  case (Loading ds n)
  then show ?thesis using load_last_ok [OF e b(1)] load_point_ok [OF e b(1)] b(2) by (cases ds) auto
next
  case (Binding p ch)
  show ?thesis
  proof (cases p)
    case None
    have "lpath cy_next (cycs w) (cychead w) as None" using b(1) by (simp add: base_def tasks_def)
    moreover have "ch = cychead w" using b(2) Binding by (simp add: point_ok_def)
    ultimately have "point_ok (Sweeping ch) w as cells" unfolding point_ok_def by (simp) (metis append_Nil)
    then show ?thesis using Binding None e b(1) by (auto simp: advance_point_def)
  next
    case (Some ft)
    then show ?thesis using bind_point_ok [OF e b(1)] b(2) Binding by auto
  qed
next
  case (Sweeping p)
  then show ?thesis
    using sweep_point_ok [OF e b(1)] bind_exit_ok [OF e b(1), of 0] b(2)
    by (cases p) (auto simp: advance_point_def)
qed

section \<open>Signals between the rounds\<close>

lemma undisturbed_point:
  assumes u: "undisturbed w w'" and p: "point_ok pt w as cells" and n: "\<forall>ph. pt \<noteq> At ph"
  shows "point_ok pt w' as cells"
proof -
  have same: "files w' = files w" "cychead w' = cychead w" "cycheadnext w' = cycheadnext w"
    and "\<forall>a. map_option cy_next (cycs w' a) = map_option cy_next (cycs w a)"
    using u by (simp_all add: undisturbed_def)
  then have lp: "lpath cy_next (cycs w') q ys None = lpath cy_next (cycs w) q ys None" for q ys
    by (intro lpath_same_links) simp
  show ?thesis
  proof (cases pt)
    case (Loading ds m)
    then show ?thesis using p same by (simp add: point_ok_def cells_named_def tail_ok_def)
  next
    case (Binding q ch)
    then show ?thesis using p same by (simp add: point_ok_def cells_named_def)
  next
    case (Sweeping q)
    then show ?thesis using p lp by (simp add: point_ok_def)
  qed (use n in blast)
qed

lemma kept_undisturbed: "kept w w' \<Longrightarrow> undisturbed w w'"
  by (simp add: kept_def undisturbed_def)

lemma fine_alarm_ok:
  assumes e: "env_ok T E c l" and b: "base E w as cells" "point_ok pt w as cells"
  shows "\<exists>w'. cycleTimeMethod E n w = Some w' \<and> finv T E c l (pt, w')"
proof (cases "\<exists>ph. pt = At ph")
  case True
  then show ?thesis using alarm_ok [OF e b(1)] b(2) e by (fastforce simp: point_ok_def)
next
  case False
  then show ?thesis using alarm_base [OF e b(1)] undisturbed_point [OF _ b(2)] e by fastforce
qed

lemma fine_usr1_ok:
  assumes e: "env_ok T E c l" and b: "base E w as cells" "point_ok pt w as cells" and nd: "\<forall>s. pt \<noteq> At (Done s)"
  shows "\<exists>out w'. gameover E n w = Some (out, w') \<and>
    finv T E c l (case out of Exited s \<Rightarrow> At (Done s) | Returned \<Rightarrow> pt, w')"
proof (cases "\<exists>ph. pt = At ph")
  case True
  then obtain ph where ph: "pt = At ph" "phase_ok ph w as cells" "\<forall>s. ph \<noteq> Done s"
    using b(2) nd by (auto simp: point_ok_def)
  obtain out w' where g: "gameover E n w = Some (out, w')"
      "inv T E c l (case out of Exited s \<Rightarrow> Done s | Returned \<Rightarrow> ph, w')"
    using usr1_ok [OF e b(1) ph(2,3)] by blast
  then show ?thesis
    using ph(1) finv_phase [of T E c l ph w'] e by (cases out) auto
next
  case no: False
  show ?thesis
  proof (cases "as = []")
    case True
    have l: "main_log_ok E w" "cychead w = None" using b(1) True by (simp_all add: base_def tasks_def)
    obtain w' where w': "gameover E n w = Some (Returned, w')" "kept w w'" "main_log_ok E w'"
      using gameover_empty [OF l] by blast
    then have "base E w' as cells" "point_ok pt w' as cells"
      using base_kept [OF b(1)] undisturbed_point [OF kept_undisturbed b(2)] no by auto
    then show ?thesis using w'(1) e by auto
  next
    case False
    have "tame T E" using e by (simp add: env_ok_def)
    then obtain w' where "gameover E n w = Some (Exited 0, w')"
      using gameover_ok [of T E w as cells n] b(1) False unfolding base_def by blast
    then show ?thesis using e by auto
  qed
qed

lemma finv_cases:
  assumes "finv T E c l (pt, w)" "\<forall>s. pt \<noteq> At (Done s)"
  obtains as cells where "env_ok T E c l" "base E w as cells" "point_ok pt w as cells"
  using assms by auto

lemma fine_step_inv:
  assumes i: "finv T E c l s" and s: "fine_step E c l s s'"
  shows "finv T E c l s'"
  using s
proof cases
  case (run pt w pt' w')
  show ?thesis
  proof (cases "\<exists>x. pt = At (Done x)")
    case True
    then show ?thesis using run i by (auto simp: advance_point_def advance_main_def at_phase_def)
  next
    case False
    then show ?thesis using run i finv_cases [of T E c l pt w] advance_point_ok [of T E c l w _ _ pt] by (metis option.inject)
  qed
next
  case (alarm pt w w')
  then show ?thesis using i finv_cases [of T E c l pt w] fine_alarm_ok [of T E c l w _ _ pt 14] by (metis option.inject)
next
  case (usr1 pt w out w')
  obtain as cells where o: "env_ok T E c l" "base E w as cells" "point_ok pt w as cells"
    using i usr1(1,3) finv_cases [of T E c l pt w] by metis
  show ?thesis using fine_usr1_ok [OF o usr1(3), of 10] usr1 by auto
next
  case (nested pt w n p w1 x w')
  then show ?thesis using i by auto
qed

interpretation rounds: transition_system "fine_step E c l" "finv T E c l" for T E c l
  by unfold_locales (rule fine_step_inv)

lemma nested_ok:
  assumes e: "env_ok T E c l" and b: "base E w as cells"
  shows "\<exists>p w1. cycle_rounds E n (cychead w) w = Some (p, w1) \<and> gameover E 10 w1 \<noteq> None"
proof (cases "as = []")
  case True
  then have h: "cychead w = None" "main_log_ok E w" using b by (simp_all add: base_def tasks_def)
  have "cycle_rounds E n None w = Some (None, w)" by (cases n) simp_all
  then show ?thesis using h gameover_empty [OF h(2,1), of 10] by auto
next
  case False
  have a: "tame T E" "main_log_ok E w" "tasks w as" "clocks_ok w as" "shead_ok w" "conf_cells w cells"
    using e b by (simp_all add: env_ok_def base_def)
  show ?thesis by (rule usr1_in_alarm [OF a(1-3) False a(4-6), of n 10]) auto
qed

definition point_responsive :: "env \<Rightarrow> string option \<Rightarrow> string option \<Rightarrow> point \<times> world \<Rightarrow> bool" where
  "point_responsive E c l s \<longleftrightarrow> (case s of (pt, w) \<Rightarrow>
     advance_point E c l pt w \<noteq> None \<and>
     ((\<forall>x. pt \<noteq> At (Done x)) \<longrightarrow> cycleTimeMethod E 14 w \<noteq> None \<and> gameover E 10 w \<noteq> None \<and>
        (\<forall>n. \<exists>p w1. cycle_rounds E n (cychead w) w = Some (p, w1) \<and> gameover E 10 w1 \<noteq> None)))"

lemma finv_responsive:
  assumes i: "finv T E c l s"
  shows "point_responsive E c l s"
proof -
  obtain pt w where s: "s = (pt, w)" by (cases s)
  show ?thesis
  proof (cases "\<exists>x. pt = At (Done x)")
    case True
    then show ?thesis using s by (auto simp: point_responsive_def advance_point_def advance_main_def at_phase_def)
  next
    case False
    then obtain as cells where o: "env_ok T E c l" "base E w as cells" "point_ok pt w as cells"
      using i s finv_cases [of T E c l pt w] by metis
    have "advance_point E c l pt w \<noteq> None" using advance_point_ok [OF o] False by auto
    moreover have "cycleTimeMethod E 14 w \<noteq> None" using fine_alarm_ok [OF o, of 14] by auto
    moreover have "gameover E 10 w \<noteq> None" using fine_usr1_ok [OF o, of 10] False by auto
    moreover have "\<exists>p w1. cycle_rounds E n (cychead w) w = Some (p, w1) \<and> gameover E 10 w1 \<noteq> None" for n
      by (rule nested_ok [OF o(1,2)])
    ultimately show ?thesis using s by (simp add: point_responsive_def)
  qed
qed

section \<open>Properties\<close>

text \<open>
  C1: The daemon is safe to interrupt while it builds, binds and cuts its task list: whatever alarms and SIGUSR1
  signals were handled between the phases, between any two entries of the library directory and between any two
  rounds of the loops of \<open>toSetCycdata\<close>, the next round is defined, and so is the handling of either signal, and of a
  SIGUSR1 after any number of rounds of the alarm handler.
\<close>

theorem rounds_responsive:
  assumes "host_ok E" "at_start w" "env_ok T E c l" "started E w = Some w0" "fine_run E c l (At Conf, w0) s"
  shows "point_responsive E c l s"
  using rounds.reach_good [OF assms(5) finv_phase [OF started_inv [OF assms(1-4)]]] by (rule finv_responsive)

theorem rounds_responsive_witness:
  "\<exists>w0 w1. started still boot = Some w0 \<and> fine_step still None None (At Conf, w0) (At Conf, w1) \<and>
     point_responsive still None None (At Conf, w1)"
proof -
  obtain w0 where w0: "started still boot = Some w0" using still_started by blast
  have i: "finv (=) still None None (At Conf, w0)"
    by (rule finv_phase, rule started_inv [OF _ _ _ w0]) simp_all
  then obtain w1 where w1: "cycleTimeMethod still 14 w0 = Some w1"
    using finv_responsive [OF i] by (fastforce simp: point_responsive_def)
  then have "fine_step still None None (At Conf, w0) (At Conf, w1)" by (intro fine_step.alarm) simp_all
  then show ?thesis
    using rounds_responsive [OF still_host boot_start still_env_ok w0, of "(At Conf, w1)"] w0 by blast
qed

text \<open>
  Every step of the daemon whose phases are not interrupted is a run of the daemon whose rounds are: the
  reachable states of \<open>step\<close>, and with them those of \<open>main\<close> itself, are reachable between the rounds.
\<close>

lemma steps_refine_rounds:
  assumes "(step E c l)\<^sup>*\<^sup>* (ph, w) (ph', w')"
  shows "fine_run E c l (At ph, w) (At ph', w')"
  using assms
proof (induction rule: rtranclp_induct2)
  case (step ph1 w1 ph2 w2)
  from step_fine [OF step(2)] step(3) show ?case by (metis rtranclp_trans)
qed simp

text \<open>
  \<open>main\<close> refines the daemon with signals between its rounds: a run of the forked child in which no signal
  arrives is a run of it, from the first phase, round by round, to the way the run ends.
\<close>

lemma main_refines_rounds:
  assumes "parse_args argv = Some (c, l)" "fork_ret E = 0" "started E w = Some w0" "main E argv w = Some (e, w')"
  shows "fine_run E c l (At Conf, w0) (At (at_end e), w')"
  using child_steps [of E c l w0 e w'] main_child [OF assms(1-3)] assms(4) by (simp add: steps_refine_rounds)

end
