(* ===== verification/RoundResults.thy ===== *)
theory RoundResults
  imports Rounds
begin

text \<open>
  What the interrupted loops compute: the bindings and the task list \<open>toSetCycdata\<close> leaves do not depend on the
  alarms that are handled between its rounds. The specification \<open>bind_spec\<close> is carried through the rounds.
\<close>

section \<open>Names and bindings under an alarm\<close>

lemma undisturbed_names:
  assumes "undisturbed w w'"
  shows "lname (cycs w') = lname (cycs w)" "fdates (cycs w') = fdates (cycs w)" "fname (files w') = fname (files w)"
proof -
  have u: "map_option cy_libdata (cycs w' a) = map_option cy_libdata (cycs w a)"
    "map_option cy_fdate (cycs w' a) = map_option cy_fdate (cycs w a)" for a
    using assms by (simp_all add: undisturbed_def)
  show "lname (cycs w') = lname (cycs w)"
  proof
    fix a
    show "lname (cycs w') a = lname (cycs w) a"
      using u(1) [of a] by (cases "cycs w a"; cases "cycs w' a") (auto simp: lname_def)
  qed
  show "fdates (cycs w') = fdates (cycs w)"
  proof
    fix a
    show "fdates (cycs w') a = fdates (cycs w) a"
      using u(2) [of a] by (cases "cycs w a"; cases "cycs w' a") (auto simp: fdates_def)
  qed
  show "fname (files w') = fname (files w)" using assms by (simp add: undisturbed_def)
qed

lemma undisturbed_path:
  "undisturbed w w' \<Longrightarrow> lpath cy_next (cycs w') q ys None = lpath cy_next (cycs w) q ys None"
  by (intro lpath_same_links) (simp add: undisturbed_def)

section \<open>The invariant\<close>

text \<open>The sections from a node on, with their names.\<close>

definition named_secs :: "(nat \<Rightarrow> string) \<Rightarrow> (nat \<times> nat list) list \<Rightarrow> (nat \<times> string) list" where
  "named_secs nm cells = map (\<lambda>c. (fst c, nm (fst c))) cells"

definition bound_tasks :: "(nat \<Rightarrow> nat option) \<Rightarrow> nat list \<Rightarrow> nat list" where
  "bound_tasks m as = filter (\<lambda>a. m a \<noteq> None) as"

text \<open>
  For tasks \<open>as\<close> with names \<open>lib\<close>, sections \<open>cells\<close> with names \<open>nm\<close>, and the result \<open>(res, m)\<close> of the
  specification: where the child is on its way from the start of \<open>toSetCycdata\<close> to its end.
\<close>

definition on_way ::
  "env \<Rightarrow> nat list \<Rightarrow> (nat \<times> nat list) list \<Rightarrow> (nat \<Rightarrow> string) \<Rightarrow> (nat \<Rightarrow> string) \<Rightarrow> int \<Rightarrow> (nat \<Rightarrow> nat option) \<Rightarrow>
     point \<times> world \<Rightarrow> bool" where
  "on_way E as cells lib nm res m s \<longleftrightarrow> (case s of (pt, w) \<Rightarrow>
     (case pt of
        At ph \<Rightarrow>
          (case ph of
             Bind \<Rightarrow> base E w as cells \<and> cells_named w cells \<and> lname (cycs w) = lib \<and> fname (files w) = nm \<and>
               bind_spec (named_secs nm cells) lib as (fdates (cycs w)) = (res, m)
           | InitStart \<Rightarrow> res = 0 \<and> base E w (bound_tasks m as) cells \<and>
               (\<forall>a\<in>set (bound_tasks m as). fdates (cycs w) a = m a)
           | Init _ \<Rightarrow> True | Ready \<Rightarrow> True | Done _ \<Rightarrow> True | _ \<Rightarrow> False)
      | Loading _ _ \<Rightarrow> False
      | Binding p ch \<Rightarrow> base E w as cells \<and> cells_named w cells \<and> lname (cycs w) = lib \<and> fname (files w) = nm \<and>
          ch = cychead w \<and>
          (\<exists>xs ys. cells = xs @ ys \<and> lpath fd_next (files w) p (map fst ys) None \<and>
             bind_spec (named_secs nm ys) lib as (fdates (cycs w)) = (res, m))
      | Sweeping p \<Rightarrow> res = 0 \<and>
          (\<exists>xs ys. as = xs @ ys \<and> base E w (bound_tasks m xs @ ys) cells \<and> lpath cy_next (cycs w) p ys None \<and>
             (\<forall>a\<in>set (bound_tasks m xs @ ys). fdates (cycs w) a = m a))))"

text \<open>An alarm, and a SIGUSR1 that does not end the program, do not take the child off its way.\<close>

lemma on_way_undisturbed:
  assumes o: "on_way E as cells lib nm res m (pt, w)" and u: "undisturbed w w'"
    and b: "\<And>bs. base E w bs cells \<Longrightarrow> base E w' bs cells"
  shows "on_way E as cells lib nm res m (pt, w')"
proof -
  note n = undisturbed_names [OF u] undisturbed_path [OF u]
  have f: "files w' = files w" "cychead w' = cychead w" using u by (simp_all add: undisturbed_def)
  have c: "cells_named w' cells = cells_named w cells" by (simp add: cells_named_def f)
  show ?thesis
  proof (cases pt)
    case (At ph)
    then show ?thesis using o b n f c by (cases ph) (simp_all add: on_way_def)
  next
    case (Loading ds k)
    then show ?thesis using o by (simp add: on_way_def)
  next
    case (Binding p ch)
    then show ?thesis using o b n f c by (simp add: on_way_def)
  next
    case (Sweeping p)
    then show ?thesis using o b n unfolding on_way_def by (simp) metis
  qed
qed

lemma named_secs_simps [simp]: "named_secs nm [] = []" "named_secs nm (c # cs) = (fst c, nm (fst c)) # named_secs nm cs"
  by (simp_all add: named_secs_def)

text \<open>The end of \<open>toSetCycdata\<close>.\<close>

lemma finish_exit: "finish E w = Some (e, w') \<Longrightarrow> \<exists>s. e = Exit s"
  by (cases "gameover E 0 w") (auto simp: finish_def split: outcome.splits)

lemma go_on_forward: "go_on E Ready r = Some (ph, w') \<Longrightarrow> ph = Ready \<or> (\<exists>s. ph = Done s)"
  by (cases r) (auto simp: go_on_def bind_eq_Some_conv split: if_splits dest!: finish_exit)

lemma bind_exit_error:
  assumes "bind_exit E (r, w) = Some (pt, w')" "r < 0"
  shows "\<exists>s. pt = At (Done s)"
proof -
  have r: "bind_report E (r, w) = map_option (Pair False) (logLog E 1045 LOGERR (''toSetCycdata is err '' @ dec r) w)"
    using assms(2) by (cases "logLog E 1045 LOGERR (''toSetCycdata is err '' @ dec r) w") (simp_all add: bind_report_def)
  obtain w1 where w1: "at_phase (go_on E InitStart (False, w1)) = Some (pt, w')"
    using assms(1) unfolding bind_exit_def r by (auto simp: at_phase_def bind_eq_Some_conv simp del: append.simps)
  then obtain e v where e: "finish E w1 = Some (e, v)" by (auto simp: go_on_def at_phase_def bind_eq_Some_conv)
  obtain s where "e = Exit s" using finish_exit [OF e] by blast
  then show ?thesis using w1 e by (auto simp: go_on_def at_phase_def)
qed

lemma bind_exit_zero:
  assumes "bind_exit E (0, w) = Some (pt, w')" "base E w as cells"
  shows "pt = At InitStart" "base E w' as cells" "undisturbed w w'"
proof -
  obtain w1 where "logLog E 1048 LOGINF ''toSetCycdata is ok'' w = Some w1" "base E w1 as cells" "kept w w1"
    using base_log [OF assms(2), of 1048 LOGINF "''toSetCycdata is ok''"] by (auto simp: fits_short)
  then show "pt = At InitStart" "base E w' as cells" "undisturbed w w'"
    using assms(1) kept_undisturbed [of w w1]
    by (auto simp: bind_exit_def bind_report_def at_phase_def go_on_def)
qed

text \<open>The round of the first loop.\<close>

lemma on_way_bind:
  assumes o: "on_way E as cells lib nm res m (Binding (Some ft) ch, w)"
    and r: "bind_round E ft ch w = Some (q, w')"
  shows "case q of Inl e \<Rightarrow> e < 0 | Inr p \<Rightarrow> on_way E as cells lib nm res m (Binding p ch, w')"
proof -
  obtain xs ys where po: "base E w as cells" "cells_named w cells" "lname (cycs w) = lib" "fname (files w) = nm"
      "ch = cychead w" "cells = xs @ ys" "lpath fd_next (files w) (Some ft) (map fst ys) None"
      "bind_spec (named_secs nm ys) lib as (fdates (cycs w)) = (res, m)"
    using o by (auto simp: on_way_def)
  obtain x ys' where y: "ys = x # ys'" "fst x = ft" using po(7) by (cases ys) auto
  then obtain f where f: "files w ft = Some f" "lpath fd_next (files w) (fd_next f) (map fst ys') None"
    using po(7) by (auto split: option.splits)
  have ft: "ft \<in> fst ` set cells" using po(6) y by auto
  obtain r1 m1 where bs: "bind_spec [(ft, fname (files w) ft)] (lname (cycs w)) as (fdates (cycs w)) = (r1, m1)"
    by (metis surj_pair)
  obtain v where v: "bind_round E ft ch w = Some (if r1 = 0 then Inr (fd_next f) else Inl r1, v)"
      "base E v as cells" "rebound w v" "fdates (cycs v) = m1" "files v = files w" "cychead v = cychead w"
    using bind_round_base [OF po(1,2) ft f(1) bs] po(5) by metis
  show ?thesis
  proof (cases "r1 = 0")
    case True
    then have e: "q = Inr (fd_next f)" "w' = v" using v(1) r by auto
    have "bind_spec (named_secs nm ys') lib as m1 = (res, m)"
      using po(8) bs True y bind_spec_Cons [of "(ft, nm ft)" "named_secs nm ys'" lib as "fdates (cycs w)"] po(3,4) by simp
    moreover have "cells = (xs @ [x]) @ ys'" using po(6) y(1) by simp
    moreover have "cells_named v cells" using po(2) v(5) by (simp add: cells_named_def)
    moreover have "lname (cycs v) = lib" using rebound_lname [OF v(3)] po(3) by simp
    ultimately have "on_way E as cells lib nm res m (Binding (fd_next f) ch, v)"
      using v f(2) po(4,5) unfolding on_way_def prod.case point.case by metis
    then show ?thesis using e by simp
  next
    case False
    then show ?thesis using v(1) r bind_spec_range [OF bs] by auto
  qed
qed

text \<open>The round of the second loop.\<close>

lemma on_way_sweep:
  assumes o: "on_way E as cells lib nm res m (Sweeping (Some a), w)"
    and r: "sweep_round E a w = Some (q, w')"
  shows "\<exists>p. q = Inr p \<and> on_way E as cells lib nm res m (Sweeping p, w')"
proof -
  obtain xs ys where po: "res = 0" "as = xs @ ys" "base E w (bound_tasks m xs @ ys) cells"
      "lpath cy_next (cycs w) (Some a) ys None" "\<forall>a\<in>set (bound_tasks m xs @ ys). fdates (cycs w) a = m a"
    using o by (auto simp: on_way_def)
  obtain zs n where z: "ys = a # zs" "cycs w a = Some n" "lpath cy_next (cycs w) (cy_next n) zs None"
    using po(4) by (cases ys) (auto split: option.splits)
  have b: "base E w (bound_tasks m xs @ a # zs) cells" using po(3) z(1) by simp
  obtain v where v: "sweep_round E a w = Some (Inr (cy_next n), v)" "lpath cy_next (cycs v) (cy_next n) zs None"
      "if fdates (cycs w) a = None then base E v (bound_tasks m xs @ zs) cells \<and> swept w [a] v else v = w"
    using sweep_round_base [OF b z(2,3)] by metis
  have e: "q = Inr (cy_next n)" "w' = v" using v(1) r by simp_all
  have fa: "fdates (cycs w) a = m a" using po(5) z(1) by simp
  have d: "a \<notin> set (bound_tasks m xs @ zs)" using b tasksD(4) [of w "bound_tasks m xs @ a # zs"] by (simp add: base_def)
  have "base E v (bound_tasks m (xs @ [a]) @ zs) cells \<and>
      (\<forall>b\<in>set (bound_tasks m (xs @ [a]) @ zs). fdates (cycs v) b = m b)"
  proof (cases "m a = None")
    case True
    then have s: "base E v (bound_tasks m xs @ zs) cells" "swept w [a] v" using v(3) fa by simp_all
    have "fdates (cycs v) b = m b" if "b \<in> set (bound_tasks m xs @ zs)" for b
      using swept_fdates [OF s(2), of b] that d po(5) z(1) by (metis UnCI empty_set list.set_intros(2) list.simps(15) set_append singletonD Un_iff)
    then show ?thesis using s(1) True by (simp add: bound_tasks_def)
  next
    case False
    then show ?thesis using v(3) fa b po(5) z(1) by (simp add: bound_tasks_def)
  qed
  moreover have "as = (xs @ [a]) @ zs" using po(2) z(1) by simp
  ultimately show ?thesis
    using e v(2) po(1) unfolding on_way_def prod.case point.case by metis
qed

text \<open>The child's own code.\<close>

lemma on_way_run:
  assumes o: "on_way E as cells lib nm res m (pt, w)" and r: "advance_point E c l pt w = Some (pt', w')"
  shows "on_way E as cells lib nm res m (pt', w')"
proof -
  have gone: "on_way E as cells lib nm res m (At (Done s), v)" for s v by (simp add: on_way_def)
  show ?thesis
  proof (cases pt)
    case (At ph)
    consider "ph = Bind" | "ph = InitStart" | q where "ph = Init q" | "ph = Ready" | s where "ph = Done s"
      using o At by (cases ph) (auto simp: on_way_def)
    then show ?thesis
    proof cases
      case 1
      then have be: "bind_enter E w = Some (pt', w')" using r At by (simp add: advance_point_def)
      show ?thesis
      proof (cases "filehead w = None \<or> cychead w = None")
        case True
        then obtain w1 where "bind_exit E (- 1, w1) = Some (pt', w')"
          using be unfolding bind_enter_def by (auto simp only: if_True bind_eq_Some_conv)
        then show ?thesis using bind_exit_error gone by fastforce
      next
        case False
        then have e: "pt' = Binding (filehead w) (cychead w)" "w' = w"
          using be by (auto simp: bind_enter_def simp del: not_None_eq)
        have b: "base E w as cells" "cells_named w cells" "lname (cycs w) = lib" "fname (files w) = nm"
            "bind_spec (named_secs nm cells) lib as (fdates (cycs w)) = (res, m)"
          using o At 1 by (simp_all add: on_way_def)
        have "lpath fd_next (files w) (filehead w) (map fst cells) None"
          using b(1) by (simp add: base_def conf_cells_def)
        then show ?thesis
          using b unfolding e on_way_def prod.case point.case
          by (intro conjI exI [of _ "[]"] exI [of _ cells]) simp_all
      qed
    next
      case 2
      then show ?thesis using r At by (auto simp: advance_point_def advance_main_def at_phase_def on_way_def bind_eq_Some_conv)
    next
      case (3 q)
      have g: "\<exists>ph'. pt' = At ph' \<and> ((\<exists>p. ph' = Init p) \<or> ph' = Ready \<or> (\<exists>s. ph' = Done s))"
        using r At 3
        by (cases q) (auto simp: advance_point_def advance_main_def at_phase_def bind_eq_Some_conv
            split: if_splits dest: go_on_forward)
      then show ?thesis by (auto simp: on_way_def)
    next
      case 4
      then show ?thesis using r At by (auto simp: advance_point_def advance_main_def at_phase_def on_way_def)
    next
      case (5 s)
      then show ?thesis using r At by (auto simp: advance_point_def advance_main_def at_phase_def on_way_def)
    qed
  next
    case (Loading ds k)
    then show ?thesis using o by (simp add: on_way_def)
  next
    case (Binding p ch)
    show ?thesis
    proof (cases p)
      case None
      then have e: "pt' = Sweeping ch" "w' = w" using r Binding by (simp_all add: advance_point_def)
      have b: "base E w as cells" "ch = cychead w" "res = 0" "fdates (cycs w) = m"
        using o Binding None by (auto simp: on_way_def)
      have "lpath cy_next (cycs w) ch as None" using b(1,2) by (simp add: base_def tasks_def)
      then show ?thesis
        using b unfolding e on_way_def prod.case point.case
        by (intro conjI exI [of _ "[]"] exI [of _ as]) (simp_all add: bound_tasks_def)
    next
      case (Some ft)
      then obtain q v where q: "bind_round E ft ch w = Some (q, v)"
          "(case q of Inl e \<Rightarrow> bind_exit E (e, v) | Inr p \<Rightarrow> Some (Binding p ch, v)) = Some (pt', w')"
        using r Binding by (auto simp: advance_point_def bind_eq_Some_conv)
      then show ?thesis
        using on_way_bind [OF _ q(1)] o Binding Some bind_exit_error [of E _ v pt' w'] gone by (cases q) fastforce+
    qed
  next
    case (Sweeping p)
    show ?thesis
    proof (cases p)
      case None
      have ex: "bind_exit E (0, w) = Some (pt', w')" using r Sweeping None by (simp add: advance_point_def)
      have b: "res = 0" "base E w (bound_tasks m as) cells" "\<forall>a\<in>set (bound_tasks m as). fdates (cycs w) a = m a"
        using o Sweeping None by (auto simp: on_way_def)
      note x = bind_exit_zero [OF ex b(2)]
      show ?thesis using b x undisturbed_names(2) [OF x(3)] by (simp add: on_way_def)
    next
      case (Some a)
      then obtain q v where q: "sweep_round E a w = Some (q, v)"
          "(case q of Inl e \<Rightarrow> bind_exit E (e, v) | Inr p \<Rightarrow> Some (Sweeping p, v)) = Some (pt', w')"
        using r Sweeping by (auto simp: advance_point_def bind_eq_Some_conv)
      then show ?thesis using on_way_sweep [OF _ q(1)] o Sweeping Some by fastforce
    qed
  qed
qed

text \<open>The signals.\<close>

lemma usr1_returned:
  assumes e: "env_ok T E c l" and b: "base E w bs cells" and g: "gameover E n w = Some (Returned, w')"
  shows "kept w w' \<and> main_log_ok E w'"
proof (cases "bs = []")
  case True
  then have "main_log_ok E w" "cychead w = None" using b by (simp_all add: base_def tasks_def)
  then show ?thesis using gameover_empty [of E w n] g by auto
next
  case False
  have "tame T E" using e by (simp add: env_ok_def)
  then show ?thesis using gameover_ok [of T E w bs cells n] b False g unfolding base_def by fastforce
qed

lemma on_way_base:
  assumes "on_way E as cells lib nm res m (pt, w)"
  shows "(\<exists>bs. base E w bs cells) \<or> (\<forall>v. on_way E as cells lib nm res m (pt, v))"
  using assms by (cases pt) (auto simp: on_way_def split: phase.splits)

lemma on_way_step:
  assumes e: "env_ok T E c l" and o: "on_way E as cells lib nm res m s" and st: "fine_step E c l s s'"
  shows "on_way E as cells lib nm res m s'"
  using st
proof cases
  case (run pt w pt' w')
  then show ?thesis using on_way_run o by blast
next
  case (alarm pt w w')
  have "on_way E as cells lib nm res m (pt, w')"
  proof (cases "\<exists>bs. base E w bs cells")
    case True
    then have u: "undisturbed w w'" using alarm_base [OF e, of w _ cells 14] alarm(4) by fastforce
    have "base E w' bs cells" if "base E w bs cells" for bs
      using alarm_base [OF e that, of 14] alarm(4) by auto
    then show ?thesis using on_way_undisturbed [OF _ u] o alarm(1) by blast
  next
    case False
    then show ?thesis using on_way_base o alarm(1) by blast
  qed
  then show ?thesis using alarm(2) by simp
next
  case (usr1 pt w out w')
  show ?thesis
  proof (cases out)
    case (Exited x)
    then show ?thesis using usr1(2) by (simp add: on_way_def)
  next
    case Returned
    have "on_way E as cells lib nm res m (pt, w')"
    proof (cases "\<exists>bs. base E w bs cells")
      case True
      then have k: "kept w w' \<and> main_log_ok E w'" using usr1_returned [OF e, of w _ cells 10] usr1(4) Returned by blast
      then have "base E w' bs cells" if "base E w bs cells" for bs using base_kept [OF that] by blast
      then show ?thesis using on_way_undisturbed [OF _ kept_undisturbed] k o usr1(1) by blast
    next
      case False
      then show ?thesis using on_way_base o usr1(1) by blast
    qed
    then show ?thesis using usr1(2) Returned by simp
  qed
next
  case nested
  then show ?thesis by (simp add: on_way_def)
qed

interpretation way: transition_system "fine_step E c l" "\<lambda>s. env_ok T E c l \<and> on_way E as cells lib nm res m s"
  for T E c l as cells lib nm res m
  by unfold_locales (blast intro: on_way_step)

section \<open>Properties\<close>

text \<open>
  Alarms between its rounds do not change what \<open>toSetCycdata\<close> computes: if the child gets through it, however
  many alarms (and signals of any kind) were handled on the way, then the specification on names has the result 0,
  exactly the tasks it binds are left, in their order, and each has the section the specification gives it.
\<close>

lemma binding_despite_signals:
  assumes "env_ok T E c l" "base E w as cells" "cells_named w cells"
    and "bind_spec (named_secs (fname (files w)) cells) (lname (cycs w)) as (fdates (cycs w)) = (res, m)"
    and "fine_run E c l (At Bind, w) (At InitStart, w')"
  shows "res = 0 \<and> tasks w' (filter (\<lambda>a. m a \<noteq> None) as) \<and>
    (\<forall>a\<in>set as. m a \<noteq> None \<longrightarrow> fdates (cycs w') a = m a)"
proof -
  have "on_way E as cells (lname (cycs w)) (fname (files w)) res m (At Bind, w)"
    using assms(2-4) by (simp add: on_way_def)
  then have "on_way E as cells (lname (cycs w)) (fname (files w)) res m (At InitStart, w')"
    using way.reach_good [OF assms(5), of T] assms(1) by blast
  then show ?thesis by (auto simp: on_way_def base_def bound_tasks_def)
qed

lemma demo_conf_base: "base still demo_conf [7, 8] [(9, [])]" "cells_named demo_conf [(9, [])]"
  "fname (files demo_conf) = (\<lambda>a. if a = 9 then ''a'' else [])"
proof -
  have f: "files demo_conf = [9 \<mapsto> zero_filedate\<lparr>fd_name := CHR ''A'' # replicate 31 NUL\<rparr>]" "filehead demo_conf = Some 9"
    by (simp_all add: demo_conf_def)
  have "map tolower (cstr (CHR ''A'' # replicate 31 NUL)) = ''a''" using demo_conf_ok(4) by (simp add: named_def f)
  then show n: "fname (files demo_conf) = (\<lambda>a. if a = 9 then ''a'' else [])"
    by (auto simp: fun_eq_iff fname_def f)
  show "cells_named demo_conf [(9, [])]" using demo_conf_ok(4) by (simp add: cells_named_def n)
  have "clocks_ok demo_conf [7, 8]" using demo_clocks by (simp add: clocks_ok_def demo_conf_def)
  moreover have "shead_ok demo_conf" by (simp add: shead_ok_def demo_conf_def demo_def opened_def boot_def)
  moreover have "conf_cells demo_conf [(9, [])]"
    using demo_conf_ok(3) by (simp add: conf_cells_def cell_ok_def f zero_filedate_def)
  ultimately show "base still demo_conf [7, 8] [(9, [])]" using demo_conf_ok(1,2) by (simp add: base_def)
qed

lemma binding_despite_signals_witness:
  "\<exists>w'. fine_run still None None (At Bind, demo_conf) (At InitStart, w') \<and> tasks w' [7] \<and> fdates (cycs w') 7 = Some 9"
proof -
  note d = demo_conf_base
  have bs: "bind_spec [(9, ''a'')] (lname (cycs demo_conf)) [7, 8] (fdates (cycs demo_conf)) = (0, [7 \<mapsto> 9])" by simp
  obtain w1 where w1: "toSetCycdata still (Some 9) (cychead demo_conf) demo_conf = Some (0, w1)"
    using toSetCycdata_ok [OF demo_conf_ok(1,2) _ _ _ _ bs, of "Some 9"] demo_conf_ok(3,4) by (fastforce simp: demo_conf_def)
  have "\<exists>r. bind_phase still demo_conf = Some r \<and> settled still InitStart r"
    using bind_phase_ok [OF d(1)] d(2) by (simp add: phase_ok_def)
  moreover have "filehead demo_conf = Some 9" by (simp add: demo_conf_def)
  ultimately obtain w' where "bind_phase still demo_conf = Some (True, w')"
    using w1 by (auto simp: bind_phase_def bind_eq_Some_conv)
  then have r: "fine_run still None None (At Bind, demo_conf) (At InitStart, w')"
    by (intro bind_steps) (simp add: go_on_def)
  have "bind_spec (named_secs (fname (files demo_conf)) [(9, [])]) (lname (cycs demo_conf)) [7, 8] (fdates (cycs demo_conf)) =
      (0, [7 \<mapsto> 9])" by (simp add: d(3))
  from binding_despite_signals [OF still_env_ok d(1,2) this r] show ?thesis using r by auto
qed

end
