(* ===== verification/Settling.thy ===== *)
theory Settling
  imports RoundResults
begin

text \<open>
  The daemon comes to rest whatever signals it is sent on the way: a system whose own steps lower a rank that
  the other steps keep ends in every fair run, as a locale, and its instance for \<open>fine_step\<close>.
\<close>

section \<open>Systems that come to rest\<close>

text \<open>
  A transition system with steps of its own, which lower the rank of the state until it is over; any other step
  keeps the rank, or it is over.
\<close>

locale fair_system = transition_system next_state good
  for next_state :: "'s \<Rightarrow> 's \<Rightarrow> bool" and good :: "'s \<Rightarrow> bool" +
  fixes own :: "'s \<Rightarrow> 's \<Rightarrow> bool"
    and over :: "'s \<Rightarrow> bool"
    and rank :: "'s \<Rightarrow> nat \<times> nat \<Rightarrow> bool"
  assumes ranked: "good s \<Longrightarrow> \<exists>k. rank s k"
    and own_lower: "good s \<Longrightarrow> \<not> over s \<Longrightarrow> rank s k \<Longrightarrow> own s s' \<Longrightarrow>
      \<exists>k'. rank s' k' \<and> (k', k) \<in> less_than <*lex*> less_than"
    and rank_kept: "good s \<Longrightarrow> rank s k \<Longrightarrow> next_state s s' \<Longrightarrow> own s s' \<or> over s' \<or> rank s' k"
    and over_stays: "over s \<Longrightarrow> next_state s s' \<Longrightarrow> over s'"
begin

lemma over_for_ever:
  assumes "\<And>i. next_state (r i) (r (Suc i))" "over (r i)" "i \<le> j"
  shows "over (r j)"
  using assms(3,2) by (induction j rule: dec_induct) (use over_stays assms(1) in blast)+

lemma run_good: "(\<And>i. next_state (r i) (r (Suc i))) \<Longrightarrow> good (r 0) \<Longrightarrow> good (r i)"
  by (induction i) (auto intro: next_good)

text \<open>From a state of some rank on, the rank is kept until it is lowered or all is over.\<close>

lemma kept_or_lower:
  assumes st: "\<And>i. next_state (r i) (r (Suc i))" and g: "good (r 0)" and k: "rank (r i) k" and j: "i \<le> j"
  shows "rank (r j) k \<or> over (r j) \<or> (\<exists>m k'. rank (r m) k' \<and> (k', k) \<in> less_than <*lex*> less_than)"
  using j
proof (induction j rule: dec_induct)
  case base
  then show ?case using k by blast
next
  case (step n)
  have "good (r n)" by (rule run_good [of r, OF st g])
  then show ?case
    using step.IH own_lower [of "r n" k "r (Suc n)"] rank_kept [of "r n" k "r (Suc n)"] over_stays [OF _ st, of n] st
    by blast
qed

lemma comes_to_rest:
  assumes st: "\<And>i. next_state (r i) (r (Suc i))" and g: "good (r 0)"
    and fair: "\<And>i. \<exists>j\<ge>i. own (r j) (r (Suc j))"
  shows "\<exists>i. \<forall>j\<ge>i. over (r j)"
proof -
  have "rank (r i) k \<Longrightarrow> \<exists>j. over (r j)" for i k
  proof (induction k arbitrary: i rule: wf_induct_rule [OF wf_lex_prod [OF wf_less_than wf_less_than]])
    case (1 k)
    obtain j where j: "i \<le> j" "own (r j) (r (Suc j))" using fair by blast
    have "good (r j)" by (rule run_good [of r, OF st g])
    then show ?case
      using kept_or_lower [of r, OF st g 1(2) j(1)] own_lower [OF _ _ _ j(2)] 1(1) by blast
  qed
  moreover obtain k where "rank (r 0) k" using ranked [OF g] by blast
  ultimately obtain i where "over (r i)" by blast
  then show ?thesis using over_for_ever [of r, OF st] by blast
qed

end

section \<open>The rank of a point\<close>

text \<open>The phases and loops the child has before it, and the rounds left in the loop it is in.\<close>

fun phases_left :: "point \<Rightarrow> nat" where
  "phases_left (At Conf) = 9"
| "phases_left (At Read) = 8"
| "phases_left (At Lib) = 7"
| "phases_left (Loading _ _) = 6"
| "phases_left (At Bind) = 5"
| "phases_left (Binding _ _) = 4"
| "phases_left (Sweeping _) = 3"
| "phases_left (At InitStart) = 2"
| "phases_left (At (Init _)) = 1"
| "phases_left (At Ready) = 0"
| "phases_left (At (Done _)) = 0"

definition rounds_left :: "point \<Rightarrow> world \<Rightarrow> nat \<Rightarrow> bool" where
  "rounds_left pt w n \<longleftrightarrow>
     (case pt of
        Loading ds _ \<Rightarrow> n = length ds
      | Binding p _ \<Rightarrow> (\<exists>ys. lpath fd_next (files w) p ys None \<and> n = length ys)
      | Sweeping p \<Rightarrow> (\<exists>ys. lpath cy_next (cycs w) p ys None \<and> n = length ys)
      | At (Init p) \<Rightarrow> (\<exists>ys. lpath cy_next (cycs w) p ys None \<and> n = length ys)
      | At _ \<Rightarrow> n = 0)"

fun at_rest :: "point \<Rightarrow> bool" where
  "at_rest (At ph) = (case ph of Ready \<Rightarrow> True | Done _ \<Rightarrow> True | _ \<Rightarrow> False)"
| "at_rest _ = False"

lemma rounds_left_exist: "finv T E c l (pt, w) \<Longrightarrow> \<exists>n. rounds_left pt w n"
proof (cases pt)
  case (At ph)
  assume "finv T E c l (pt, w)"
  then show ?thesis using At by (cases ph) (auto simp: rounds_left_def point_ok_def phase_ok_def)
qed (auto simp: rounds_left_def point_ok_def)

lemma rounds_left_undisturbed: "undisturbed w w' \<Longrightarrow> rounds_left pt w n \<Longrightarrow> rounds_left pt w' n"
  using undisturbed_path [of w w']
  by (simp add: rounds_left_def undisturbed_def split: point.splits phase.splits)

lemma phase_end:
  assumes "at_phase (F \<bind> go_on E ph) = Some (pt, w)"
  shows "pt = At ph \<or> (\<exists>s. pt = At (Done s))"
proof -
  obtain go v ph' v' where v: "go_on E ph (go, v) = Some (ph', v')" "pt = At ph'"
    using assms by (auto simp: at_phase_def bind_eq_Some_conv)
  show ?thesis
  proof (cases go)
    case False
    then obtain e v1 where e: "finish E v = Some (e, v1)" using v(1) by (auto simp: go_on_def bind_eq_Some_conv)
    then show ?thesis using finish_exit [OF e] v False by (auto simp: go_on_def)
  qed (use v in \<open>simp add: go_on_def\<close>)
qed

lemma exits_end:
  "lib_exit E x = Some (pt, w) \<Longrightarrow> pt = At Bind \<or> (\<exists>s. pt = At (Done s))"
  "bind_exit E x = Some (pt, w) \<Longrightarrow> pt = At InitStart \<or> (\<exists>s. pt = At (Done s))"
  unfolding lib_exit_def bind_exit_def by (rule phase_end, assumption)+

section \<open>Every step of the child's own lowers the rank\<close>

definition lowered :: "point \<Rightarrow> nat \<Rightarrow> point \<times> world \<Rightarrow> bool" where
  "lowered pt n s' \<longleftrightarrow> (case s' of (pt', w') \<Rightarrow>
     phases_left pt' < phases_left pt \<or> phases_left pt' = phases_left pt \<and> (\<exists>m<n. rounds_left pt' w' m))"

lemma bind_lowers:
  assumes b: "base E w as cells" "point_ok (Binding (Some ft) ch) w as cells" and n: "rounds_left (Binding (Some ft) ch) w n"
    and r: "bind_round E ft ch w = Some (Inr q, w')"
  shows "\<exists>m<n. rounds_left (Binding q ch) w' m"
proof -
  obtain xs ys where po: "cells_named w cells" "ch = cychead w" "cells = xs @ ys"
      "lpath fd_next (files w) (Some ft) (map fst ys) None"
    using b(2) by (auto simp: point_ok_def)
  obtain y ys' where y: "ys = y # ys'" "fst y = ft" using po(4) by (cases ys) auto
  then obtain f where f: "files w ft = Some f" "lpath fd_next (files w) (fd_next f) (map fst ys') None"
    using po(4) by (auto split: option.splits)
  have ft: "ft \<in> fst ` set cells" using po(3) y by auto
  obtain res m where bs: "bind_spec [(ft, fname (files w) ft)] (lname (cycs w)) as (fdates (cycs w)) = (res, m)"
    by (metis surj_pair)
  obtain v where v: "bind_round E ft ch w = Some (if res = 0 then Inr (fd_next f) else Inl res, v)" "files v = files w"
    using bind_round_base [OF b(1) po(1) ft f(1) bs] po(2) by metis
  then have "q = fd_next f" "w' = v" using r by (auto split: if_splits)
  moreover have "n = length (map fst ys)" using n lpath_unique [OF po(4)] unfolding rounds_left_def point.case by metis
  ultimately show ?thesis using f(2) v(2) y(1) by (intro exI [of _ "length ys'"]) (auto simp: rounds_left_def)
qed

lemma sweep_lowers:
  assumes b: "base E w as cells" "point_ok (Sweeping (Some a)) w as cells" and n: "rounds_left (Sweeping (Some a)) w n"
    and r: "sweep_round E a w = Some (Inr q, w')"
  shows "\<exists>m<n. rounds_left (Sweeping q) w' m"
proof -
  obtain xs ys where po: "as = xs @ ys" "lpath cy_next (cycs w) (Some a) ys None"
    using b(2) by (auto simp: point_ok_def)
  obtain zs c where z: "ys = a # zs" "cycs w a = Some c" "lpath cy_next (cycs w) (cy_next c) zs None"
    using po(2) by (cases ys) (auto split: option.splits)
  have "base E w (xs @ a # zs) cells" using b(1) po(1) z(1) by simp
  then obtain v where v: "sweep_round E a w = Some (Inr (cy_next c), v)" "lpath cy_next (cycs v) (cy_next c) zs None"
    using sweep_round_base [OF _ z(2,3)] by metis
  have "n = length ys" using n lpath_unique [OF po(2)] by (auto simp: rounds_left_def)
  then show ?thesis using v r z(1) by (intro exI [of _ "length zs"]) (auto simp: rounds_left_def)
qed

lemma init_lowers:
  assumes e: "env_ok T E c l" and b: "base E w as cells" "phase_ok (Init (Some a)) w as cells"
    and n: "rounds_left (At (Init (Some a))) w n"
    and r: "init_one E a w = Some (0, w')" "cycs w' a = Some d"
  shows "\<exists>m<n. rounds_left (At (Init (cy_next d))) w' m"
proof -
  obtain xs ys where po: "as = xs @ ys" "lpath cy_next (cycs w) (Some a) ys None"
    using b(2) by (auto simp: phase_ok_def)
  then obtain zs where z: "ys = a # zs" by (cases ys) auto
  have links: "\<forall>b. map_option cy_next (cycs w' b) = map_option cy_next (cycs w b)"
    using init_one_ok [OF e b(1), of a] r(1) po(1) z by auto
  have "lpath cy_next (cycs w') (Some a) (a # zs) None" using init_links [OF links po(2)] z by simp
  then have "lpath cy_next (cycs w') (cy_next d) zs None" using r(2) by simp
  moreover have "n = length ys" using n lpath_unique [OF po(2)] by (auto simp: rounds_left_def)
  ultimately show ?thesis using z by (intro exI [of _ "length zs"]) (auto simp: rounds_left_def)
qed

lemma lib_enter_end:
  assumes "lib_enter E l w = Some (pt', w')"
  shows "(\<exists>ds. pt' = Loading ds 0) \<or> pt' = At Bind \<or> (\<exists>x. pt' = At (Done x))"
proof -
  obtain v where v: "(case opendir E (libdir l) v of
        (None, w) \<Rightarrow> do { w \<leftarrow> logLog E 721 LOGERR ''loadLib--opendir get NULL'' w; lib_exit E (TCS_OTHER_ERR, w) }
      | (Some ds, w) \<Rightarrow> Some (Loading ds 0, w)) = Some (pt', w')"
    using assms unfolding lib_enter_def bind_eq_Some_conv by blast
  obtain ds u where u: "opendir E (libdir l) v = (ds, u)" by (cases "opendir E (libdir l) v")
  show ?thesis
  proof (cases ds)
    case None
    then obtain u' where "lib_exit E (TCS_OTHER_ERR, u') = Some (pt', w')"
      using v u unfolding bind_eq_Some_conv by (auto simp only: prod.case option.case bind_eq_Some_conv)
    from exits_end(1) [OF this] show ?thesis by blast
  qed (use v u in auto)
qed

lemma phase_lowers:
  assumes e: "env_ok T E c l" and b: "base E w as cells" "phase_ok ph w as cells"
    and n: "rounds_left (At ph) w n" and r: "advance_point E c l (At ph) w = Some s'" and q: "\<not> at_rest (At ph)"
  shows "lowered (At ph) n s'"
proof -
  obtain pt' w' where s': "s' = (pt', w')" by (cases s')
  have done_low: "lowered (At ph) n (At (Done x), v)" if "phases_left (At ph) \<noteq> 0" for x v
    using that by (simp add: lowered_def)
  note r' = r [unfolded s' advance_point_def]
  show ?thesis
  proof (cases ph)
    case Conf
    then have "pt' = At Read \<or> (\<exists>x. pt' = At (Done x))" using r' by (auto simp: advance_main_def dest: phase_end)
    then show ?thesis using Conf s' by (auto simp: lowered_def)
  next
    case Read
    then have "pt' = At Lib \<or> (\<exists>x. pt' = At (Done x))" using r' by (auto simp: advance_main_def dest: phase_end)
    then show ?thesis using Read s' by (auto simp: lowered_def)
  next
    case Lib
    then have "lib_enter E l w = Some (pt', w')" using r' by simp
    from lib_enter_end [OF this] show ?thesis using Lib s' by (auto simp: lowered_def)
  next
    case Bind
    then have be: "bind_enter E w = Some (pt', w')" using r' by simp
    have "(\<exists>p ch. pt' = Binding p ch) \<or> pt' = At InitStart \<or> (\<exists>x. pt' = At (Done x))"
      using be exits_end(2) [of E _ pt' w']
      by (auto simp: bind_enter_def bind_eq_Some_conv simp del: not_None_eq split: if_splits)
    then show ?thesis using Bind s' by (auto simp: lowered_def)
  next
    case InitStart
    then show ?thesis using r' s' by (auto simp: advance_main_def at_phase_def bind_eq_Some_conv lowered_def)
  next
    case (Init p)
    show ?thesis
    proof (cases p)
      case None
      then show ?thesis using Init r' s' by (auto simp: advance_main_def at_phase_def bind_eq_Some_conv lowered_def)
    next
      case (Some a)
      obtain res v where v: "init_one E a w = Some (res, v)"
          "at_phase (if res \<noteq> 0 then go_on E Ready (False, v) else do { d \<leftarrow> cycs v a; Some (Init (cy_next d), v) }) =
             Some (pt', w')"
        using r' Init Some by (cases "init_one E a w") (auto simp: advance_main_def at_phase_def)
      show ?thesis
      proof (cases "res = 0")
        case True
        then obtain d where d: "cycs v a = Some d" "pt' = At (Init (cy_next d))" "w' = v"
          using v(2) by (auto simp: at_phase_def bind_eq_Some_conv)
        then show ?thesis using init_lowers [OF e b(1) _ _ _ d(1)] b(2) n v(1) True Init Some s' by (auto simp: lowered_def)
      next
        case False
        then have "at_phase (Some (False, v) \<bind> go_on E Ready) = Some (pt', w')" using v(2) by simp
        from phase_end [OF this] show ?thesis using Init s' by (auto simp: lowered_def)
      qed
    qed
  qed (use q in auto)
qed

lemma own_lowers:
  assumes i: "finv T E c l (pt, w)" and q: "\<not> at_rest pt" and n: "rounds_left pt w n"
    and r: "advance_point E c l pt w = Some s'"
  shows "lowered pt n s'"
proof -
  have nd: "\<forall>s. pt \<noteq> At (Done s)" using q by auto
  obtain as cells where o: "env_ok T E c l" "base E w as cells" "point_ok pt w as cells"
    using finv_cases [OF i nd] by blast
  obtain pt' w' where s': "s' = (pt', w')" by (cases s')
  note r' = r [unfolded s' advance_point_def]
  show ?thesis
  proof (cases pt)
    case (At ph)
    then show ?thesis using phase_lowers [OF o(1,2)] o(3) n r q by (simp add: point_ok_def)
  next
    case (Loading ds k)
    have "(\<exists>d ds' k'. ds = d # ds' \<and> pt' = Loading ds' k') \<or> (\<exists>x. lib_exit E x = Some (pt', w'))"
    proof (cases ds)
      case (Cons d ds')
      then obtain x v where "(case x of Inl e \<Rightarrow> lib_exit E (e, v) | Inr k \<Rightarrow> Some (Loading ds' k, v)) = Some (pt', w')"
        using r' Loading by (auto simp: bind_eq_Some_conv)
      then show ?thesis using Cons by (cases x) auto
    qed (use r' Loading in \<open>auto simp: bind_eq_Some_conv\<close>)
    then show ?thesis
    proof
      assume "\<exists>x. lib_exit E x = Some (pt', w')"
      then obtain x where "lib_exit E x = Some (pt', w')" ..
      from exits_end(1) [OF this] show ?thesis using Loading s' by (auto simp: lowered_def)
    qed (use Loading n s' in \<open>auto simp: lowered_def rounds_left_def\<close>)
  next
    case (Binding p ch)
    show ?thesis
    proof (cases p)
      case None
      then show ?thesis using Binding r' s' by (auto simp: lowered_def)
    next
      case (Some ft)
      obtain x v where v: "bind_round E ft ch w = Some (x, v)"
          "(case x of Inl e \<Rightarrow> bind_exit E (e, v) | Inr p \<Rightarrow> Some (Binding p ch, v)) = Some (pt', w')"
        using r' Binding Some by (auto simp: bind_eq_Some_conv)
      show ?thesis
      proof (cases x)
        case (Inl e)
        then show ?thesis using v(2) exits_end(2) [of E "(e, v)" pt' w'] Binding s' by (auto simp: lowered_def)
      next
        case (Inr p')
        then show ?thesis using v bind_lowers [OF o(2), of ft ch n p' v] o(3) n Binding Some s' by (auto simp: lowered_def)
      qed
    qed
  next
    case (Sweeping p)
    show ?thesis
    proof (cases p)
      case None
      then show ?thesis using Sweeping r' s' exits_end(2) [of E "(0, w)" pt' w'] by (auto simp: lowered_def)
    next
      case (Some a)
      obtain x v where v: "sweep_round E a w = Some (x, v)"
          "(case x of Inl e \<Rightarrow> bind_exit E (e, v) | Inr p \<Rightarrow> Some (Sweeping p, v)) = Some (pt', w')"
        using r' Sweeping Some by (auto simp: bind_eq_Some_conv)
      show ?thesis
      proof (cases x)
        case (Inl e)
        then show ?thesis using v(2) exits_end(2) [of E "(e, v)" pt' w'] Sweeping s' by (auto simp: lowered_def)
      next
        case (Inr p')
        then show ?thesis using v sweep_lowers [OF o(2), of a n p' v] o(3) n Sweeping Some s' by (auto simp: lowered_def)
      qed
    qed
  qed
qed

section \<open>No signal raises the rank\<close>

lemma signals_keep:
  assumes i: "finv T E c l (pt, w)" and n: "rounds_left pt w n" and st: "fine_step E c l (pt, w) (pt', w')"
  shows "advance_point E c l pt w = Some (pt', w') \<or> at_rest pt' \<or> pt' = pt \<and> rounds_left pt w' n"
  using st
proof cases
  case run
  then show ?thesis by simp
next
  case alarm
  then obtain as cells where "env_ok T E c l" "base E w as cells" using finv_cases [OF i] by metis
  then have "undisturbed w w'" using alarm_base [of T E c l w as cells 14] alarm by auto
  then show ?thesis using alarm rounds_left_undisturbed n by simp
next
  case (usr1 out)
  then obtain as cells where o: "env_ok T E c l" "base E w as cells" using finv_cases [OF i] by metis
  show ?thesis
  proof (cases out)
    case Returned
    then have "undisturbed w w'" using usr1_returned [OF o, of 10 w'] usr1 kept_undisturbed by auto
    then show ?thesis using usr1 Returned rounds_left_undisturbed n by simp
  qed (use usr1 in simp)
qed simp

lemma rest_stays: "at_rest pt \<Longrightarrow> fine_step E c l (pt, w) (pt', w') \<Longrightarrow> at_rest pt'"
proof (cases pt)
  case (At ph)
  assume "at_rest pt" "fine_step E c l (pt, w) (pt', w')"
  then show ?thesis
    using At
    by (cases ph) (auto elim!: fine_stepE simp: advance_point_def advance_main_def at_phase_def split: outcome.splits)
qed simp_all

definition own_step :: "env \<Rightarrow> string option \<Rightarrow> string option \<Rightarrow> point \<times> world \<Rightarrow> point \<times> world \<Rightarrow> bool" where
  "own_step E c l s s' \<longleftrightarrow> advance_point E c l (fst s) (snd s) = Some s'"

interpretation rest: fair_system "fine_step E c l" "finv T E c l" "own_step E c l" "\<lambda>s. at_rest (fst s)"
  "\<lambda>s k. phases_left (fst s) = fst k \<and> rounds_left (fst s) (snd s) (snd k)" for T E c l
proof unfold_locales
  show "\<exists>k. phases_left (fst s) = fst k \<and> rounds_left (fst s) (snd s) (snd k)" if "finv T E c l s" for s
    using rounds_left_exist [of T E c l "fst s" "snd s"] that by auto
next
  fix s k s'
  assume g: "finv T E c l s" "\<not> at_rest (fst s)" "phases_left (fst s) = fst k \<and> rounds_left (fst s) (snd s) (snd k)"
    and o: "own_step E c l s s'"
  have "lowered (fst s) (snd k) s'" using own_lowers [of T E c l "fst s" "snd s" "snd k" s'] g o by (simp add: own_step_def)
  moreover have "\<exists>n. rounds_left (fst s') (snd s') n"
    using fine_step_inv [OF g(1)] fine_step.run [of E c l "fst s" "snd s" "fst s'" "snd s'"] o
      rounds_left_exist [of T E c l "fst s'" "snd s'"]
    by (auto simp: own_step_def)
  ultimately show "\<exists>k'. (phases_left (fst s') = fst k' \<and> rounds_left (fst s') (snd s') (snd k')) \<and>
      (k', k) \<in> less_than <*lex*> less_than"
    using g(3) by (cases s'; cases k) (auto simp: lowered_def)
next
  show "own_step E c l s s' \<or> at_rest (fst s') \<or> phases_left (fst s') = fst k \<and> rounds_left (fst s') (snd s') (snd k)"
    if "finv T E c l s" "phases_left (fst s) = fst k \<and> rounds_left (fst s) (snd s) (snd k)" "fine_step E c l s s'" for s k s'
    using signals_keep [of T E c l "fst s" "snd s" "snd k" "fst s'" "snd s'"] that by (auto simp: own_step_def)
next
  show "at_rest (fst s')" if "at_rest (fst s)" "fine_step E c l s s'" for s s'
    using rest_stays [of "fst s" E c l "snd s" "fst s'" "snd s'"] that by simp
qed

section \<open>Properties\<close>

text \<open>
  C3: The daemon comes to rest under any stream of signals: in every infinite run from its start in which its own code
  goes on again and again, whatever alarms and SIGUSR1 signals are handled in between, there is a point from which
  on it only waits for signals or has ended.
\<close>

theorem daemon_settles:
  assumes "host_ok E" "at_start w" "env_ok T E c l" "started E w = Some w0"
    and "r 0 = (At Conf, w0)" "\<And>i. fine_step E c l (r i) (r (Suc i))" "\<And>i. \<exists>j\<ge>i. own_step E c l (r j) (r (Suc j))"
  shows "\<exists>i. \<forall>j\<ge>i. at_rest (fst (r j))"
proof -
  have "finv T E c l (r 0)" using finv_phase [OF started_inv [OF assms(1-4)]] assms(5) by simp
  then show ?thesis using rest.comes_to_rest [where r = r and E = E and c = c and l = l] assms(6,7) by blast
qed

text \<open>A run in which an alarm comes before every step.\<close>

lemma alarms_between:
  assumes i: "finv T E c l s0"
  obtains r where "r 0 = s0" "\<And>i. fine_step E c l (r i) (r (Suc i))" "\<And>i. \<exists>j\<ge>i. own_step E c l (r j) (r (Suc j))"
proof -
  have own: "\<exists>s'. own_step E c l s s' \<and> fine_step E c l s s'" if "finv T E c l s" for s
    using finv_responsive [OF that] fine_step.run [of E c l "fst s" "snd s"]
    by (cases s) (auto simp: point_responsive_def own_step_def)
  have al: "\<exists>s'. fine_step E c l s s'" if "finv T E c l s" for s using own [OF that] by blast
  define nx where "nx n s = (if even n \<and> (\<exists>w'. cycleTimeMethod E 14 (snd s) = Some w' \<and> fine_step E c l s (fst s, w'))
      then (fst s, the (cycleTimeMethod E 14 (snd s))) else the (advance_point E c l (fst s) (snd s)))" for n :: nat and s
  define r where "r = rec_nat s0 nx"
  have r: "r 0 = s0" "r (Suc i) = nx i (r i)" for i by (simp_all add: r_def)
  have nx: "fine_step E c l s (nx n s)" "odd n \<Longrightarrow> own_step E c l s (nx n s)" if "finv T E c l s" for s n
    using own [OF that] by (auto simp: nx_def own_step_def)
  have g: "finv T E c l (r i)" for i
    by (induction i) (auto simp: r i intro: fine_step_inv nx(1))
  show thesis
  proof (rule that [of r])
    show "fine_step E c l (r i) (r (Suc i))" for i using nx(1) [OF g] by (simp add: r)
    have "own_step E c l (r (2 * i + 1)) (r (Suc (2 * i + 1)))" for i
      unfolding r(2) by (rule nx(2) [OF g]) simp
    then show "\<exists>j\<ge>i. own_step E c l (r j) (r (Suc j))" for i by (intro exI [of _ "2 * i + 1"]) simp
  qed (simp add: r)
qed

theorem daemon_settles_witness:
  "\<exists>w0 r. started still boot = Some w0 \<and> r 0 = (At Conf, w0) \<and> (\<forall>i. fine_step still None None (r i) (r (Suc i))) \<and>
     (\<exists>i. \<forall>j\<ge>i. at_rest (fst (r j)))"
proof -
  obtain w0 where w0: "started still boot = Some w0" using still_started by blast
  have "finv (=) still None None (At Conf, w0)"
    by (rule finv_phase, rule started_inv [OF _ _ _ w0]) simp_all
  then obtain r where r: "r 0 = (At Conf, w0)" "\<And>i. fine_step still None None (r i) (r (Suc i))"
      "\<And>i. \<exists>j\<ge>i. own_step still None None (r j) (r (Suc j))"
    by (rule alarms_between) blast
  show ?thesis
    using daemon_settles [OF still_host boot_start still_env_ok w0 r] w0 r(1,2) by blast
qed

end
