(* ===== verification/LoadResults.thy ===== *)
theory LoadResults
  imports Settling
begin

text \<open>
  What the interrupted child has computed when it comes to \<open>toSetCycdata\<close>: the sections of the configuration file and
  one task for every library, whatever signals were handled on the way.
\<close>

section \<open>The tasks of the libraries\<close>

definition task_of :: "env \<Rightarrow> string \<Rightarrow> world \<Rightarrow> nat \<Rightarrow> string \<Rightarrow> bool" where
  "task_of E dirch w a d \<longleftrightarrow> map_option cy_libdata (cycs w a) = Some (cy_libdata (lib_node E dirch d)) \<and>
     map_option method_pointers (cycs w a) = Some (method_pointers (lib_node E dirch d))"

definition loaded :: "env \<Rightarrow> string \<Rightarrow> world \<Rightarrow> nat list \<Rightarrow> string list \<Rightarrow> bool" where
  "loaded E dirch w as ds \<longleftrightarrow> (\<forall>d\<in>set ds. good_lib E dirch d) \<and> list_all2 (task_of E dirch w) as ds \<and>
     (\<forall>a\<in>set as. fdates (cycs w) a = None)"

lemma loaded_tr [simp]: "loaded E dirch (w\<lparr>tr := es\<rparr>) as ds = loaded E dirch w as ds"
  by (simp add: loaded_def task_of_def [abs_def])

lemma contents_parts:
  assumes "map_option contents x' = map_option contents x"
  shows "map_option cy_libdata x' = map_option cy_libdata x" "map_option method_pointers x' = map_option method_pointers x"
    "map_option cy_fdate x' = map_option cy_fdate x"
  using assms by (cases x; cases x'; auto simp: method_pointers_def dest: contents_eqD)+

lemma fdates_cong: "map_option cy_fdate (h' a) = map_option cy_fdate (h a) \<Longrightarrow> fdates h' a = fdates h a"
  by (cases "h a"; cases "h' a") (simp_all add: fdates_def)

lemma grown_loaded:
  assumes g: "grown E dirch w bs ts w'" and l: "loaded E dirch w as ds" and d: "set as \<inter> set bs = {}"
    and ok: "\<forall>d\<in>set ts. good_lib E dirch d"
  shows "loaded E dirch w' (as @ bs) (ds @ ts)"
proof -
  have old: "map_option contents (cycs w' a) = map_option contents (cycs w a)" if "a \<in> set as" for a
    using g d that by (auto simp: grown_def)
  have new: "list_all2 (\<lambda>b d. map_option contents (cycs w' b) = Some (lib_node E dirch d)) bs ts"
    using g by (simp add: grown_def)
  have node: "contents (lib_node E dirch d) = lib_node E dirch d" "cy_fdate (lib_node E dirch d) = None" for d
    by (simp_all add: lib_node_def contents_def Let_def zero_cycdata_def)
  have one: "task_of E dirch w' b d" "fdates (cycs w') b = None"
    if "map_option contents (cycs w' b) = Some (lib_node E dirch d)" for b d
    using contents_parts [of "cycs w' b" "Some (lib_node E dirch d)"] that node(1) [of d] node(2) [of d]
    by (auto simp: task_of_def fdates_def)
  have "list_all2 (task_of E dirch w') bs ts" using new one(1) by (rule list_all2_mono)
  moreover have "fdates (cycs w') b = None" if "b \<in> set bs" for b
    using list_all2_in1 [OF new that] one(2) by blast
  moreover have "list_all2 (task_of E dirch w') as ds"
  proof (rule list.rel_mono_strong)
    show "list_all2 (task_of E dirch w) as ds" using l by (simp add: loaded_def)
    show "task_of E dirch w' a d" if "a \<in> set as" "task_of E dirch w a d" for a d
      using that(2) contents_parts(1,2) [OF old [OF that(1)]] by (simp add: task_of_def)
  qed
  moreover have "fdates (cycs w') a = None" if "a \<in> set as" for a
    using l fdates_cong [of "cycs w'" a "cycs w"] contents_parts(3) [OF old [OF that]] that by (simp add: loaded_def)
  ultimately show ?thesis using l ok by (auto simp: loaded_def intro: list_all2_appendI)
qed

lemma undisturbed_loaded:
  assumes "undisturbed w w'"
  shows "loaded E dirch w' as ds = loaded E dirch w as ds"
proof -
  have "task_of E dirch w' = task_of E dirch w"
    using assms by (intro ext) (simp add: task_of_def undisturbed_def)
  then show ?thesis using undisturbed_names(2) [OF assms] by (simp add: loaded_def)
qed

section \<open>The configuration\<close>

definition conf_in :: "world \<Rightarrow> string \<Rightarrow> (nat \<times> nat list) list \<Rightarrow> sect list \<Rightarrow> bool" where
  "conf_in w content cells sl \<longleftrightarrow> conf_sections (conf_entries content) = Some sl \<and>
     conf_at w (filehead w) cells sl \<and> cells_named w cells"

lemma conf_in_same:
  assumes "files w' = files w" "ones w' = ones w" "bufs w' = bufs w" "filehead w' = filehead w"
  shows "conf_in w' content cells sl = conf_in w content cells sl"
  using conf_at_same [OF assms(1-3)] assms by (simp add: conf_in_def cells_named_def)

text \<open>What the child has computed before a point up to \<open>toSetCycdata\<close>, from a file with the text \<open>content\<close>.\<close>

definition on_load :: "env \<Rightarrow> string option \<Rightarrow> string option \<Rightarrow> string \<Rightarrow> point \<times> world \<Rightarrow> bool" where
  "on_load E c l content s \<longleftrightarrow> (case s of (pt, w) \<Rightarrow>
     (case pt of
        At ph \<Rightarrow>
          (case ph of
             Conf \<Rightarrow> \<exists>cells. base E w [] cells \<and> files_small w \<and> file_text w (conf_path c) = Some content \<and>
               apart_from_log E (conf_path c) w
           | Read \<Rightarrow> \<exists>cells. base E w [] cells \<and> block_of w (conf_entries content)
           | Lib \<Rightarrow> \<exists>cells sl. base E w [] cells \<and> conf_in w content cells sl
           | Bind \<Rightarrow> \<exists>cells sl as ds. base E w as cells \<and> conf_in w content cells sl \<and>
               entries E (libdir l) = Some ds \<and> loaded E (libdir l) w as (filter eligible ds) \<and> as \<noteq> []
           | _ \<Rightarrow> False)
      | Loading ds n \<Rightarrow> \<exists>cells sl as us. base E w as cells \<and> conf_in w content cells sl \<and> tail_ok w as \<and> entries_ok ds n \<and>
          entries E (libdir l) = Some (us @ ds) \<and> n = int (length as) \<and> loaded E (libdir l) w as (filter eligible us)
      | _ \<Rightarrow> False))"

section \<open>The child's own steps\<close>

lemma go_on_stops: "go_on E ph (False, v) = Some (ph', v') \<Longrightarrow> \<exists>s. ph' = Done s"
  by (cases "finish E v") (auto simp: go_on_def dest!: finish_exit)

lemma stopped: "at_phase (go_on E ph (False, v)) = Some (pt, w) \<Longrightarrow> \<exists>s. pt = At (Done s)"
  using go_on_stops [of E ph v] by (auto simp: at_phase_def)

lemma lib_exit_error:
  assumes "lib_exit E (r, w) = Some (pt, w')" "r < 0"
  shows "\<exists>s. pt = At (Done s)"
proof -
  obtain v where "at_phase (go_on E Bind (False, v)) = Some (pt, w')"
    using assms by (auto simp: lib_exit_def lib_report_def at_phase_def bind_eq_Some_conv simp del: append.simps)
  then show ?thesis by (rule stopped)
qed

lemma lib_exit_zero:
  assumes "lib_exit E (0, w) = Some (pt, w')" "base E w as cells"
  shows "pt = At Bind" "base E w' as cells" "kept w w'"
proof -
  obtain w1 where "logLog E 1038 LOGINF ''loadLib is ok'' w = Some w1" "base E w1 as cells" "kept w w1"
    using base_log [OF assms(2), of 1038 LOGINF "''loadLib is ok''"] by (auto simp: fits_short)
  then show "pt = At Bind" "base E w' as cells" "kept w w'"
    using assms(1) by (auto simp: lib_exit_def lib_report_def at_phase_def go_on_def)
qed

lemma kept_conf_in: "kept w w' \<Longrightarrow> conf_in w' content cells sl = conf_in w content cells sl"
  by (intro conf_in_same) (simp_all add: kept_def)

lemma on_load_conf:
  assumes e: "env_ok T E c l" and o: "on_load E c l content (At Conf, w)"
    and r: "advance_point E c l (At Conf) w = Some (pt', w')"
  shows "if conf_entries content = [] then \<exists>s. pt' = At (Done s)
    else pt' = At Read \<and> on_load E c l content (At Read, w')"
proof -
  obtain cells where b: "base E w [] cells" "files_small w" "file_text w (conf_path c) = Some content"
      "apart_from_log E (conf_path c) w"
    using o by (auto simp: on_load_def)
  obtain go v w1 where w1: "conf_phase E c w = Some (go, w1)" "base E w1 [] cells"
      "v = w \<or> c \<noteq> None \<and> logLog E 993 LOGINF (''conf file is '' @ conf_path c) w = Some v"
      "if go then \<exists>content. file_text v (conf_path c) = Some content \<and> conf_entries content \<noteq> [] \<and>
         block_of w1 (conf_entries content)
       else \<forall>content. file_text v (conf_path c) = Some content \<longrightarrow> conf_entries content = []"
    using conf_phase_text [OF e b(1,2)] by metis
  have "file_text v (conf_path c) = Some content"
  proof (cases "v = w")
    case False
    then have "c \<noteq> None" "logLog E 993 LOGINF (''conf file is '' @ conf_path c) w = Some v" using w1(3) by simp_all
    moreover have "msg_fits (993, LOGINF, ''conf file is '' @ conf_path c)"
      using e \<open>c \<noteq> None\<close> by (intro fits_short) (auto simp: env_ok_def conf_path_def)
    ultimately show ?thesis using logLog_other b unfolding base_def by blast
  qed (use b(3) in simp)
  then have go: "go \<longleftrightarrow> conf_entries content \<noteq> []" "go \<Longrightarrow> block_of w1 (conf_entries content)"
    using w1(4) by (auto split: if_splits)
  show ?thesis
  proof (cases go)
    case True
    then have "(pt', w') = (At Read, w1)" using r w1(1) by (simp add: advance_point_def advance_main_def at_phase_def go_on_def)
    then show ?thesis using go True w1(2) by (auto simp: on_load_def)
  next
    case False
    then show ?thesis
      using r w1(1) go(1) stopped [of E Read w1 pt' w'] by (auto simp: advance_point_def advance_main_def at_phase_def)
  qed
qed

lemma on_load_read:
  assumes o: "on_load E c l content (At Read, w)" and r: "advance_point E c l (At Read) w = Some (pt', w')"
  shows "if conf_sections (conf_entries content) = None then \<exists>s. pt' = At (Done s)
    else pt' = At Lib \<and> on_load E c l content (At Lib, w')"
proof -
  obtain cells where b: "base E w [] cells" "block_of w (conf_entries content)" using o by (auto simp: on_load_def)
  obtain go w1 cs where w1: "read_phase E w = Some (go, w1)" "base E w1 [] cs"
      "case conf_sections (conf_entries content) of None \<Rightarrow> \<not> go
       | Some sl \<Rightarrow> go \<and> conf_at w1 (filehead w1) cs sl \<and> cells_named w1 cs"
    using read_phase_text [OF b] by blast
  show ?thesis
  proof (cases "conf_sections (conf_entries content)")
    case None
    then have "at_phase (go_on E Lib (False, w1)) = Some (pt', w')"
      using r w1(1,3) by (simp add: advance_point_def advance_main_def)
    from stopped [OF this] show ?thesis using None by simp
  next
    case (Some sl)
    then have "conf_in w1 content cs sl" "(pt', w') = (At Lib, w1)"
      using r w1(1,3) by (auto simp: conf_in_def advance_point_def advance_main_def at_phase_def go_on_def)
    then show ?thesis using w1(2) Some by (auto simp: on_load_def)
  qed
qed

lemma on_load_lib:
  assumes e: "env_ok T E c l" and o: "on_load E c l content (At Lib, w)"
    and r: "advance_point E c l (At Lib) w = Some (pt', w')"
  shows "case entries E (libdir l) of None \<Rightarrow> \<exists>s. pt' = At (Done s)
    | Some ds \<Rightarrow> pt' = Loading ds 0 \<and> on_load E c l content (Loading ds 0, w')"
proof -
  obtain cells sl where b: "base E w [] cells" "conf_in w content cells sl" using o by (auto simp: on_load_def)
  have d: "dir_ok E (libdir l)" using e by (simp add: env_ok_def)
  obtain w1 where w1: "(case l of None \<Rightarrow> Some w | Some l \<Rightarrow> logLog E 1023 LOGINF (''libdir  is '' @ l) w) = Some w1"
      "base E w1 [] cells" "kept w w1"
  proof (cases l)
    case (Some q)
    then have "msg_fits (1023, LOGINF, ''libdir  is '' @ q)" using d by (intro fits_short) (simp_all add: libdir_def dir_ok_def)
    from base_log [OF b(1) this] show thesis using that Some by auto
  qed (use that b in simp)
  have en: "lib_enter E l w = Some (pt', w')" using r by (simp add: advance_point_def)
  show ?thesis
  proof (cases "entries E (libdir l)")
    case None
    then obtain v where "lib_exit E (TCS_OTHER_ERR, v) = Some (pt', w')"
      using en w1(1) by (auto simp: lib_enter_def opendir_def bind_eq_Some_conv)
    from lib_exit_error [OF this] show ?thesis using None by simp
  next
    case (Some ds)
    have w': "pt' = Loading ds 0" "w' = w1\<lparr>dirs := Suc (dirs w1)\<rparr>"
      using en w1(1) Some by (auto simp: lib_enter_def opendir_def)
    have "conf_in w' content cells sl"
      using b(2) kept_conf_in [OF w1(3)] conf_in_same [of w' w1] by (simp add: w'(2))
    moreover have "entries_ok ds 0" using d Some by (auto simp: dir_ok_def entries_ok_def)
    ultimately have "on_load E c l content (Loading ds 0, w')"
      using w1(2) Some unfolding on_load_def prod.case point.case
      by (intro exI [of _ cells] exI [of _ sl] exI [of _ "[]"]) (simp add: w'(2) tail_ok_def loaded_def)
    then show ?thesis using w'(1) Some by simp
  qed
qed

lemma on_load_round:
  assumes e: "env_ok T E c l" and o: "on_load E c l content (Loading (d # ds) n, w)"
    and r: "advance_point E c l (Loading (d # ds) n) w = Some (pt', w')"
  shows "if eligible d \<and> \<not> good_lib E (libdir l) d then \<exists>s. pt' = At (Done s)
    else \<exists>k. pt' = Loading ds k \<and> on_load E c l content (Loading ds k, w') \<and> n \<le> k \<and> (eligible d \<longrightarrow> 0 < k)"
proof -
  obtain cells sl as us where b: "base E w as cells" "conf_in w content cells sl" "tail_ok w as" "entries_ok (d # ds) n"
      "entries E (libdir l) = Some (us @ d # ds)" "n = int (length as)" "loaded E (libdir l) w as (filter eligible us)"
    using o by (auto simp: on_load_def)
  obtain q es where le: "load_end E (libdir l) n (filter eligible [d]) = (q, es)" by (metis surj_pair)
  have nm: "cells_named w cells" using b(2) by (simp add: conf_in_def)
  obtain v bs where v: "load_entry E (libdir l) (cycmake E) d n w = Some (q, v)" "base E v (as @ bs) cells"
      "tail_ok v (as @ bs)" "grown E (libdir l) (w\<lparr>tr := tr w @ es\<rparr>) bs (taken E (libdir l) [d]) v"
    using load_round_base [OF e b(1) nm b(3,4) le] by metis
  have ap: "(case q of Inl e \<Rightarrow> lib_exit E (e, v) | Inr k \<Rightarrow> Some (Loading ds k, v)) = Some (pt', w')"
    using r v(1) by (simp add: advance_point_def)
  show ?thesis
  proof (cases q)
    case (Inl x)
    then have x: "x < 0" "eligible d \<and> \<not> good_lib E (libdir l) d" using le by (auto split: if_splits option.splits)
    have "lib_exit E (x, v) = Some (pt', w')" using ap Inl by simp
    from lib_exit_error [OF this x(1)] show ?thesis using x(2) by simp
  next
    case (Inr k)
    then have w': "pt' = Loading ds k" "w' = v" using ap by simp_all
    have tk: "taken E (libdir l) [d] = filter eligible [d]" "\<forall>x\<in>set (filter eligible [d]). good_lib E (libdir l) x"
        "k = n + int (length (filter eligible [d]))"
      using le Inr by (auto simp: taken_def split: if_splits option.splits)
    have "list_all2 (\<lambda>b d. map_option contents (cycs v b) = Some (lib_node E (libdir l) d)) bs (filter eligible [d])"
      using v(4) tk(1) by (simp add: grown_def)
    then have lb: "length bs = length (filter eligible [d])" by (rule list_all2_lengthD)
    have dj: "set as \<inter> set bs = {}" using v(2) tasksD(4) [of v "as @ bs"] by (simp add: base_def)
    have "loaded E (libdir l) v (as @ bs) (filter eligible us @ filter eligible [d])"
      using grown_loaded [OF v(4) [unfolded tk(1)] _ dj tk(2)] b(7) by simp
    then have ld: "loaded E (libdir l) v (as @ bs) (filter eligible (us @ [d]))" by simp
    have "kept (w\<lparr>tr := tr w @ es, cycs := cycs v, dls := dls v, cychead := cychead v, cycheadnext := cycheadnext v\<rparr>) v"
      using v(4) unfolding grown_def by (elim conjE)
    then have cf: "conf_in v content cells sl" using b(2) conf_in_same [of v w] by (simp add: kept_def)
    have eo: "entries_ok ds k" using b(4) tk(3) by (auto simp: entries_ok_def)
    have "on_load E c l content (Loading ds k, v)"
      unfolding on_load_def prod.case point.case
      using v(2,3) cf ld eo b(5,6) tk(3) lb
      by (intro exI [of _ cells] exI [of _ sl] exI [of _ "as @ bs"] exI [of _ "us @ [d]"]) simp
    moreover have "\<not> (eligible d \<and> \<not> good_lib E (libdir l) d)" using tk(2) by auto
    moreover have "n \<le> k \<and> (eligible d \<longrightarrow> 0 < k)" using tk(3) b(6) by auto
    ultimately show ?thesis using w' by auto
  qed
qed

lemma on_load_return:
  assumes e: "env_ok T E c l" and o: "on_load E c l content (Loading [] n, w)"
    and r: "advance_point E c l (Loading [] n) w = Some (pt', w')"
  shows "if n = 0 then \<exists>s. pt' = At (Done s) else pt' = At Bind \<and> on_load E c l content (At Bind, w')"
proof -
  obtain cells sl as us where b: "base E w as cells" "conf_in w content cells sl" "entries_ok [] n"
      "entries E (libdir l) = Some us" "n = int (length as)" "loaded E (libdir l) w as (filter eligible us)"
    using o by (auto simp: on_load_def)
  have k: "main_log_ok E w" "length (libdir l) \<le> 25" "0 \<le> n" "n < INT_MAX"
    using b(1,3) e by (simp_all add: base_def env_ok_def dir_ok_def entries_ok_def)
  obtain v where v: "load_return E (libdir l) n w = Some (if n = 0 then - 14 else 0, closedir v)" "main_log_ok E v" "kept w v"
    using load_return_ok [OF k] by blast
  have ex: "lib_exit E (if n = 0 then - 14 else 0, closedir v) = Some (pt', w')"
    using r v(1) by (simp add: advance_point_def)
  show ?thesis
  proof (cases "n = 0")
    case True
    then show ?thesis using ex lib_exit_error [of E "- 14" "closedir v" pt' w'] by simp
  next
    case False
    have "base E (closedir v) as cells" using base_kept [OF b(1) v(3,2)] by (simp add: closedir_def)
    note x = lib_exit_zero [OF _ this, of pt' w']
    have w': "pt' = At Bind" "base E w' as cells" "kept (closedir v) w'" using ex False x by simp_all
    have "undisturbed w v" "undisturbed v (closedir v)" "undisturbed (closedir v) w'"
      using kept_undisturbed v(3) w'(3) by (auto simp: closedir_def undisturbed_def)
    then have ld: "loaded E (libdir l) w' as (filter eligible us)" and cf: "conf_in w' content cells sl"
      using b(2,6) conf_in_same [of w' w content cells sl] by (simp_all add: undisturbed_loaded) (auto simp: undisturbed_def)
    have "as \<noteq> []" using False b(5) by auto
    then have "on_load E c l content (At Bind, w')"
      unfolding on_load_def prod.case point.case phase.case using w'(2) ld cf b(4) by blast
    then show ?thesis using w'(1) False by simp
  qed
qed

section \<open>The signals\<close>

lemma on_load_undisturbed:
  assumes o: "on_load E c l content (pt, w)" and n: "pt \<noteq> At Conf" and u: "undisturbed w w'"
    and b: "\<And>bs cells. base E w bs cells \<Longrightarrow> base E w' bs cells"
  shows "on_load E c l content (pt, w')"
proof -
  have cf: "conf_in w' content cells sl = conf_in w content cells sl" for cells sl
    using u by (intro conf_in_same) (simp_all add: undisturbed_def)
  have bo: "block_of w' es = block_of w es" and tl: "tail_ok w' as = tail_ok w as" for es as
    using u by (simp_all add: undisturbed_def block_of_def tail_ok_def)
  note same = cf bo tl undisturbed_loaded [OF u]
  show ?thesis
  proof (cases pt)
    case (At ph)
    then show ?thesis using o n b same by (cases ph) (simp_all add: on_load_def, blast+)
  qed (use o b same in \<open>simp_all add: on_load_def, blast+\<close>)
qed

lemma on_load_base:
  assumes "on_load E c l content (pt, w)"
  obtains bs cells where "base E w bs cells" "pt = At Conf \<Longrightarrow> bs = []"
proof (cases pt)
  case (At ph)
  then show thesis using assms that by (cases ph) (auto simp: on_load_def)
qed (use assms that in \<open>auto simp: on_load_def\<close>)

lemma on_load_alarm:
  assumes e: "env_ok T E c l" and o: "on_load E c l content (pt, w)" and a: "cycleTimeMethod E 14 w = Some w'"
  shows "on_load E c l content (pt, w')"
proof -
  obtain bs cells where b: "base E w bs cells" "pt = At Conf \<Longrightarrow> bs = []" using on_load_base [OF o] by metis
  have al: "base E w' bs cells \<and> undisturbed w w' \<and> (bs = [] \<longrightarrow> w' = w)" if "base E w bs cells" for bs cells
    using alarm_base [OF e that, of 14] a by auto
  show ?thesis
  proof (cases "pt = At Conf")
    case False
    then show ?thesis using on_load_undisturbed [OF o] al b(1) by blast
  qed (use al [OF b(1)] b(2) o in simp)
qed

lemma on_load_usr1:
  assumes e: "env_ok T E c l" and o: "on_load E c l content (pt, w)" and g: "gameover E 10 w = Some (Returned, w')"
  shows "on_load E c l content (pt, w')"
proof -
  obtain bs cells where b: "base E w bs cells" using on_load_base [OF o] by metis
  note k = usr1_returned [OF e b g]
  have bk: "base E w' bs cells" if "base E w bs cells" for bs cells using base_kept [OF that] k by blast
  show ?thesis
  proof (cases "pt = At Conf")
    case True
    obtain cells where c: "base E w [] cells" "files_small w" "file_text w (conf_path c) = Some content"
        "apart_from_log E (conf_path c) w"
      using o True by (auto simp: on_load_def)
    have m: "msg_fits (205, LOGWAR, ''start go gameover'')" by (simp add: fits_short)
    have l: "main_log_ok E w" using c(1) by (simp add: base_def)
    obtain w1 where w1: "logLog E 205 LOGWAR ''start go gameover'' w = Some w1" using logLog_ok [OF l m] by blast
    have "cychead w1 = None" using logLog_ok [OF l m] w1 c(1) by (auto simp: kept_def base_def tasks_def)
    then have "w' = w1" using g w1 by (simp add: gameover_def)
    then show ?thesis
      using True bk [OF c(1)] logLog_small [OF l m c(2)] logLog_other [OF l m w1 c(4,3)] w1 by (auto simp: on_load_def)
  qed (use on_load_undisturbed [OF o] kept_undisturbed k bk in blast)
qed

text \<open>On the way to \<open>toSetCycdata\<close>, in it or behind it, or at the end.\<close>

definition loads :: "env \<Rightarrow> string option \<Rightarrow> string option \<Rightarrow> string \<Rightarrow> point \<times> world \<Rightarrow> bool" where
  "loads E c l content s \<longleftrightarrow> (\<exists>x. fst s = At (Done x)) \<or> on_load E c l content s \<or>
     (\<exists>w. on_load E c l content (At Bind, w) \<and> fine_run E c l (At Bind, w) s)"

lemma on_load_own:
  assumes e: "env_ok T E c l" and o: "on_load E c l content (pt, w)" and n: "pt \<noteq> At Bind"
    and r: "advance_point E c l pt w = Some (pt', w')"
  shows "(\<exists>s. pt' = At (Done s)) \<or> on_load E c l content (pt', w')"
proof (cases pt)
  case (At ph)
  consider "ph = Conf" | "ph = Read" | "ph = Lib" using o n At by (cases ph) (auto simp: on_load_def)
  then show ?thesis
  proof cases
    case 1
    then show ?thesis using on_load_conf [OF e, of content w pt' w'] o r At by (auto split: if_splits)
  next
    case 2
    then show ?thesis using on_load_read [of E c l content w pt' w'] o r At by (auto split: if_splits)
  next
    case 3
    then show ?thesis using on_load_lib [OF e, of content w pt' w'] o r At by (auto split: option.splits)
  qed
next
  case (Loading ds k)
  show ?thesis
  proof (cases ds)
    case Nil
    then show ?thesis using on_load_return [OF e, of content k w pt' w'] o r Loading by (auto split: if_splits)
  next
    case (Cons d ds')
    then show ?thesis using on_load_round [OF e, of content d ds' k w pt' w'] o r Loading by (auto split: if_splits)
  qed
qed (use o in \<open>simp_all add: on_load_def\<close>)

lemma loads_step:
  assumes e: "env_ok T E c l" and o: "loads E c l content s" and st: "fine_step E c l s s'"
  shows "loads E c l content s'"
  using st
proof cases
  case (run pt w pt' w')
  then show ?thesis
    using o on_load_own [OF e, of content pt w pt' w'] st
    by (fastforce simp: loads_def advance_point_def advance_main_def at_phase_def intro: rtranclp.rtrancl_into_rtrancl)
next
  case (alarm pt w w')
  then show ?thesis
    using o on_load_alarm [OF e, of content pt w w'] st
    by (auto simp: loads_def intro: rtranclp.rtrancl_into_rtrancl)
next
  case (usr1 pt w out w')
  then show ?thesis
    using o on_load_usr1 [OF e, of content pt w w'] st
    by (cases out) (auto simp: loads_def intro: rtranclp.rtrancl_into_rtrancl)
qed (simp add: loads_def)

interpretation loading: transition_system "fine_step E c l" "\<lambda>s. env_ok T E c l \<and> loads E c l content s"
  for T E c l content
  by unfold_locales (blast intro: loads_step)

end
