(* ===== verification/StartupSpec.thy ===== *)
theory StartupSpec
  imports RoundResults
begin

text \<open>
  What the start of the daemon computes, as a function of the sections of the configuration and of the listing of the
  library directory: which libraries become tasks, and with which section. On names, \<open>bind_spec\<close> computes it.
\<close>

section \<open>The specification\<close>

abbreviation low :: "string \<Rightarrow> string" where
  "low \<equiv> map tolower"

text \<open>
  The libraries that get a section, in their order: the first of each name, up to case, if there is a section of that
  name. The second argument has the names that were met before.
\<close>

fun assigned :: "sect list \<Rightarrow> string list \<Rightarrow> string list \<Rightarrow> (string \<times> sect) list" where
  "assigned secs seen [] = []"
| "assigned secs seen (d # ds) =
     (case (if low (lib_stem d) \<in> set seen then None else find (\<lambda>s. low (fst s) = low (lib_stem d)) secs) of
        None \<Rightarrow> []
      | Some s \<Rightarrow> [(d, s)]) @ assigned secs (low (lib_stem d) # seen) ds"

text \<open>
  When the start succeeds: there are sections and libraries, every library can be loaded, and every section
  has a name of its own that is the name of a library.
\<close>

definition startable :: "env \<Rightarrow> string \<Rightarrow> sect list \<Rightarrow> string list \<Rightarrow> bool" where
  "startable E dirch secs ds \<longleftrightarrow> secs \<noteq> [] \<and> ds \<noteq> [] \<and> (\<forall>d\<in>set ds. good_lib E dirch d) \<and>
     distinct (map (low \<circ> fst) secs) \<and> (\<forall>s\<in>set secs. \<exists>d\<in>set ds. low (lib_stem d) = low (fst s))"

section \<open>The specification of the bindings, without its order\<close>

lemma bind_spec_result:
  assumes "bind_spec ss lib as m0 = (0, m)"
  shows "distinct (map snd ss)"
    "s \<in> set ss \<Longrightarrow> \<exists>a. find (\<lambda>a. lib a = snd s) as = Some a \<and> m a = Some (fst s)"
    "\<forall>s\<in>set ss. find (\<lambda>a. lib a = snd s) as \<noteq> Some a \<Longrightarrow> m a = m0 a"
proof -
  note map = bind_spec_map [OF assms]
  have z: "snd ` set ss \<subseteq> lib ` set as" and d: "distinct (map snd ss)"
    using bind_spec_zero [of ss lib as m0] assms by simp_all
  show "distinct (map snd ss)" by (rule d)
  show "m a = m0 a" if "\<forall>s\<in>set ss. find (\<lambda>a. lib a = snd s) as \<noteq> Some a"
  proof -
    have "find (\<lambda>s. find (\<lambda>b. lib b = snd s) as = Some a) ss = None" using that unfolding find_None_iff by blast
    then show ?thesis using map [of a] by simp
  qed
  show "\<exists>a. find (\<lambda>a. lib a = snd s) as = Some a \<and> m a = Some (fst s)" if s: "s \<in> set ss"
  proof -
    obtain b where "b \<in> set as" "snd s = lib b" using z s by blast
    then have "find (\<lambda>a. lib a = snd s) as \<noteq> None" unfolding find_None_iff by metis
    then obtain a where a: "find (\<lambda>a. lib a = snd s) as = Some a" by blast
    then have "find (\<lambda>s. find (\<lambda>b. lib b = snd s) as = Some a) ss \<noteq> None" using s unfolding find_None_iff by blast
    then obtain t where t: "find (\<lambda>s. find (\<lambda>b. lib b = snd s) as = Some a) ss = Some t" by blast
    then have "t \<in> set ss" "find (\<lambda>b. lib b = snd t) as = Some a" by (auto simp: find_Some_iff)
    moreover from this(2) a have "snd t = snd s" by (auto simp: find_Some_iff)
    ultimately have "t = s" using d s by (simp add: distinct_map inj_on_def)
    then show ?thesis using a t map [of a] by simp
  qed
qed

lemma bind_spec_succeeds:
  assumes "distinct (map snd ss)" "\<forall>s\<in>set ss. \<exists>a. find (\<lambda>a. lib a = snd s) as = Some a \<and> m0 a = None"
  shows "\<exists>m. bind_spec ss lib as m0 = (0, m)"
proof -
  have "snd s \<in> lib ` set as" if s: "s \<in> set ss" for s
  proof -
    obtain a where "find (\<lambda>a. lib a = snd s) as = Some a" using assms(2) s by blast
    then have "a \<in> set as" "lib a = snd s" by (auto simp: find_Some_iff)
    then show ?thesis by (metis imageI)
  qed
  then have "fst (bind_spec ss lib as m0) = 0" using assms unfolding bind_spec_zero by fastforce
  then show ?thesis by (cases "bind_spec ss lib as m0") simp
qed

lemma find_here:
  "distinct (us @ a # as) \<Longrightarrow> find (\<lambda>b. lib b = nm) (us @ a # as) = Some a \<longleftrightarrow> lib a = nm \<and> nm \<notin> lib ` set us"
  by (induction us) (auto simp: find_Some_iff)

text \<open>For sections \<open>secs\<close> held by the nodes \<open>ids\<close>: the bound tasks are the assigned libraries, with their sections.\<close>

definition holds_sects :: "(nat \<times> string) list \<Rightarrow> sect list \<Rightarrow> bool" where
  "holds_sects ss secs \<longleftrightarrow> list_all2 (\<lambda>s sec. snd s = low (fst sec)) ss secs"

lemma find_sect:
  "holds_sects ss secs \<Longrightarrow> case find (\<lambda>sec. low (fst sec) = nm) secs of
     None \<Rightarrow> nm \<notin> snd ` set ss
   | Some sec \<Rightarrow> \<exists>x. ((x, nm), sec) \<in> set (zip ss secs)"
  unfolding holds_sects_def by (induction ss secs rule: list_all2_induct) (auto split: option.splits)

lemma bound_assigned:
  assumes h: "holds_sects ss secs" and d: "distinct (us @ as)"
    and b: "\<forall>s\<in>set ss. \<exists>a. find (\<lambda>a. lib a = snd s) (us @ as) = Some a \<and> m a = Some (fst s)"
      "\<forall>a. (\<forall>s\<in>set ss. find (\<lambda>a. lib a = snd s) (us @ as) \<noteq> Some a) \<longrightarrow> m a = m0 a"
    and m0: "\<forall>a\<in>set as. m0 a = None" and l: "list_all2 (\<lambda>a d. lib a = low (lib_stem d)) as ds"
    and seen: "set seen = lib ` set us"
  shows "list_all2 (\<lambda>a (d, sec). (a, d) \<in> set (zip as ds) \<and> (\<exists>s. m a = Some (fst s) \<and> (s, sec) \<in> set (zip ss secs)))
    (bound_tasks m as) (assigned secs seen ds)"
  using l d b m0 seen
proof (induction as ds arbitrary: us seen rule: list_all2_induct)
  case Nil
  then show ?case by (simp add: bound_tasks_def)
next
  case (Cons a as d ds)
  let ?nm = "low (lib_stem d)"
  let ?P = "\<lambda>a (d, sec). (a, d) \<in> set (zip as ds) \<and> (\<exists>s. m a = Some (fst s) \<and> (s, sec) \<in> set (zip ss secs))"
  let ?Q = "\<lambda>a' (d', sec). (a', d') \<in> set (zip (a # as) (d # ds)) \<and> (\<exists>s. m a' = Some (fst s) \<and> (s, sec) \<in> set (zip ss secs))"
  have "list_all2 ?P (bound_tasks m as) (assigned secs (?nm # seen) ds)"
    using Cons.IH [of "us @ [a]" "?nm # seen"] Cons.prems Cons.hyps(1) by simp
  then have rest: "list_all2 ?Q (bound_tasks m as) (assigned secs (?nm # seen) ds)"
    by (rule list_all2_mono) auto
  have at: "find (\<lambda>b. lib b = nm) (us @ a # as) = Some a \<longleftrightarrow> nm = ?nm \<and> ?nm \<notin> set seen" for nm
    using find_here [of us a as lib nm] Cons.prems(1,5) Cons.hyps(1) by metis
  show ?case
  proof (cases "?nm \<in> set seen")
    case True
    then have "m a = None" using Cons.prems(3,4) at by auto
    then show ?thesis using rest True by (simp add: bound_tasks_def)
  next
    case new: False
    show ?thesis
    proof (cases "find (\<lambda>sec. low (fst sec) = ?nm) secs")
      case None
      then have "?nm \<notin> snd ` set ss" using find_sect [OF h, of ?nm] by simp
      then have "m a = None" using Cons.prems(3,4) at by (metis image_eqI list.set_intros(1))
      then show ?thesis using rest new None by (simp add: bound_tasks_def)
    next
      case (Some sec)
      then obtain x where x: "((x, ?nm), sec) \<in> set (zip ss secs)" using find_sect [OF h, of ?nm] by auto
      then have "(x, ?nm) \<in> set ss" by (rule set_zip_leftD)
      then obtain b where "find (\<lambda>a. lib a = ?nm) (us @ a # as) = Some b" "m b = Some x"
        using bspec [OF Cons.prems(2)] by fastforce
      then have "m a = Some x" using at [of ?nm] new by simp
      then show ?thesis using rest new Some x by (auto simp: bound_tasks_def)
    qed
  qed
qed

end
