(* ===== verification/StartupResults.thy ===== *)
theory StartupResults
  imports LoadResults StartupSpec
begin

text \<open>
  The start of the daemon from end to end, whatever signals arrive on the way: the task list it ends with is a
  function of the text of the configuration file and of the listing of the library directory.
\<close>

section \<open>What the bindings leave alone\<close>

text \<open>The configuration is the same, and a task that is still there is the task of the same library.\<close>

definition carried :: "world \<Rightarrow> world \<Rightarrow> bool" where
  "carried w w' \<longleftrightarrow> files w' = files w \<and> ones w' = ones w \<and> bufs w' = bufs w \<and> filehead w' = filehead w \<and>
     (\<forall>a. cycs w' a = None \<or> map_option cy_libdata (cycs w' a) = map_option cy_libdata (cycs w a) \<and>
        map_option method_pointers (cycs w' a) = map_option method_pointers (cycs w a))"

lemma carried_refl [simp]: "carried w w"
  by (simp add: carried_def)

lemma carried_trans: "carried u v \<Longrightarrow> carried v w \<Longrightarrow> carried u w"
  unfolding carried_def by (metis option.map_disc_iff)

lemma undisturbed_carried: "undisturbed w w' \<Longrightarrow> carried w w'"
  by (simp add: undisturbed_def carried_def)

lemma rebound_carried:
  assumes "rebound w w'"
  shows "carried w w'"
proof -
  have u: "map_option unbound (cycs w' a) = map_option unbound (cycs w a)" for a using assms by (simp add: rebound_def)
  have "map_option cy_libdata (cycs w' a) = map_option cy_libdata (cycs w a) \<and>
      map_option method_pointers (cycs w' a) = map_option method_pointers (cycs w a)" for a
  proof -
    have f: "map_option f (map_option unbound (cycs w' a)) = map_option f (map_option unbound (cycs w a))"
      for f :: "cycdata \<Rightarrow> 'x" using u [of a] by simp
    show ?thesis using f [of cy_libdata] f [of method_pointers] by (simp add: option.map_comp comp_def unbound_def method_pointers_def [abs_def])
  qed
  then show ?thesis using assms by (simp add: rebound_def kept_def carried_def)
qed

lemma swept_carried:
  assumes "swept w rs w'"
  shows "carried w w'"
proof -
  have "cycs w' a = None \<or> map_option contents (cycs w' a) = map_option contents (cycs w a)" for a
    using assms by (auto simp: swept_def split: if_splits)
  then have "cycs w' a = None \<or> map_option cy_libdata (cycs w' a) = map_option cy_libdata (cycs w a) \<and>
      map_option method_pointers (cycs w' a) = map_option method_pointers (cycs w a)" for a
    using contents_parts(1,2) by blast
  then show ?thesis using assms by (simp add: swept_def kept_def close_lib_def carried_def)
qed

lemma stage_falls:
  assumes i: "finv T E c l (pt, w)" and st: "fine_step E c l (pt, w) (pt', w')"
  shows "phases_left pt' \<le> phases_left pt"
proof (cases "at_rest pt")
  case True
  then have "at_rest pt'" using rest_stays st by blast
  then have "phases_left pt' = 0" by (cases pt' rule: phases_left.cases) auto
  then show ?thesis by simp
next
  case False
  obtain n where n: "rounds_left pt w n" using rounds_left_exist [OF i] by blast
  consider "advance_point E c l pt w = Some (pt', w')" | "at_rest pt'" | "pt' = pt"
    using signals_keep [OF i n st] by blast
  then show ?thesis
  proof cases
    case 1
    then show ?thesis using own_lowers [OF i False n] by (auto simp: lowered_def)
  next
    case 2
    then have "phases_left pt' = 0" by (cases pt' rule: phases_left.cases) auto
    then show ?thesis by simp
  qed simp
qed

lemma bind_point_carried:
  assumes b: "base E w as cells" "point_ok (Binding (Some ft) ch) w as cells"
    and r: "bind_round E ft ch w = Some (q, w')"
  shows "carried w w' \<and> (\<forall>e. q = Inl e \<longrightarrow> e < 0)"
proof -
  obtain xs ys where po: "cells_named w cells" "ch = cychead w" "cells = xs @ ys"
      "lpath fd_next (files w) (Some ft) (map fst ys) None"
    using b(2) by (auto simp: point_ok_def)
  obtain y ys' where y: "ys = y # ys'" "fst y = ft" using po(4) by (cases ys) auto
  then obtain f where f: "files w ft = Some f" using po(4) by (auto split: option.splits)
  have ft: "ft \<in> fst ` set cells" using po(3) y by auto
  obtain res m where bs: "bind_spec [(ft, fname (files w) ft)] (lname (cycs w)) as (fdates (cycs w)) = (res, m)"
    by (metis surj_pair)
  obtain v where "bind_round E ft ch w = Some (if res = 0 then Inr (fd_next f) else Inl res, v)" "rebound w v"
    using bind_round_base [OF b(1) po(1) ft f bs] po(2) by metis
  then show ?thesis using r rebound_carried bind_spec_range [OF bs] by auto
qed

lemma sweep_point_carried:
  assumes b: "base E w as cells" "point_ok (Sweeping (Some a)) w as cells" and r: "sweep_round E a w = Some (q, w')"
  shows "carried w w' \<and> (\<exists>p. q = Inr p)"
proof -
  obtain xs ys where po: "as = xs @ ys" "lpath cy_next (cycs w) (Some a) ys None"
    using b(2) by (auto simp: point_ok_def)
  obtain zs c where z: "ys = a # zs" "cycs w a = Some c" "lpath cy_next (cycs w) (cy_next c) zs None"
    using po(2) by (cases ys) (auto split: option.splits)
  have "base E w (xs @ a # zs) cells" using b(1) po(1) z(1) by simp
  then obtain v where v: "sweep_round E a w = Some (Inr (cy_next c), v)"
      "if fdates (cycs w) a = None then base E v (xs @ zs) cells \<and> swept w [a] v else v = w"
    using sweep_round_base [OF _ z(2,3)] by metis
  then have "carried w v" using swept_carried by (auto split: if_splits)
  then show ?thesis using v(1) r by simp
qed

lemma own_carried:
  assumes b: "base E w as cells" "point_ok pt w as cells" and s: "2 \<le> phases_left pt" "phases_left pt \<le> 5"
    and r: "advance_point E c l pt w = Some (pt', w')"
  shows "phases_left pt' \<le> 1 \<or> carried w w'"
proof (cases pt)
  case (At ph)
  consider "ph = Bind" | "ph = InitStart" using s At by (cases ph) auto
  then show ?thesis
  proof cases
    case 1
    then have be: "bind_enter E w = Some (pt', w')" using r At by (simp add: advance_point_def)
    show ?thesis
    proof (cases "filehead w = None \<or> cychead w = None")
      case True
      then obtain w1 where "bind_exit E (- 1, w1) = Some (pt', w')"
        using be unfolding bind_enter_def by (auto simp only: if_True bind_eq_Some_conv)
      then show ?thesis using bind_exit_error by fastforce
    next
      case False
      then show ?thesis using be by (auto simp: bind_enter_def simp del: not_None_eq)
    qed
  next
    case 2
    then show ?thesis using r At by (auto simp: advance_point_def advance_main_def at_phase_def bind_eq_Some_conv)
  qed
next
  case (Loading ds n)
  then show ?thesis using s by simp
next
  case (Binding p ch)
  show ?thesis
  proof (cases p)
    case (Some ft)
    then obtain q v where q: "bind_round E ft ch w = Some (q, v)"
        "(case q of Inl e \<Rightarrow> bind_exit E (e, v) | Inr p \<Rightarrow> Some (Binding p ch, v)) = Some (pt', w')"
      using r Binding by (auto simp: advance_point_def bind_eq_Some_conv)
    have cv: "carried w v \<and> (\<forall>e. q = Inl e \<longrightarrow> e < 0)" using bind_point_carried [OF b(1) _ q(1)] b(2) Binding Some by simp
    show ?thesis
    proof (cases q)
      case (Inl e)
      then have "bind_exit E (e, v) = Some (pt', w')" "e < 0" using q(2) cv by simp_all
      from bind_exit_error [OF this] show ?thesis by auto
    qed (use q(2) cv in simp)
  qed (use r Binding in \<open>auto simp: advance_point_def\<close>)
next
  case (Sweeping p)
  show ?thesis
  proof (cases p)
    case None
    then show ?thesis
      using r Sweeping bind_exit_zero(3) [OF _ b(1)] undisturbed_carried by (auto simp: advance_point_def)
  next
    case (Some a)
    then obtain q v where q: "sweep_round E a w = Some (q, v)"
        "(case q of Inl e \<Rightarrow> bind_exit E (e, v) | Inr p \<Rightarrow> Some (Sweeping p, v)) = Some (pt', w')"
      using r Sweeping by (auto simp: advance_point_def bind_eq_Some_conv)
    then show ?thesis using sweep_point_carried [OF b(1) _ q(1)] b(2) Sweeping Some by auto
  qed
qed

lemma step_carried:
  assumes i: "finv T E c l (pt, w)" and s: "2 \<le> phases_left pt" "phases_left pt \<le> 5" and st: "fine_step E c l (pt, w) (pt', w')"
  shows "phases_left pt' \<le> 1 \<or> carried w w'"
proof -
  have nd: "\<forall>s. pt \<noteq> At (Done s)" using s by auto
  obtain as cells where o: "env_ok T E c l" "base E w as cells" "point_ok pt w as cells"
    using finv_cases [OF i nd] by blast
  show ?thesis
    using st
  proof cases
    case run
    then show ?thesis using own_carried [OF o(2,3) s] by blast
  next
    case alarm
    then show ?thesis using alarm_base [OF o(1,2), of 14] undisturbed_carried by auto
  next
    case (usr1 out)
    then show ?thesis
      using usr1_returned [OF o(1,2), of 10 w'] kept_undisturbed undisturbed_carried by (cases out) auto
  qed simp
qed

lemma bindings_carried:
  assumes i: "finv T E c l (At Bind, w)" and r: "fine_run E c l (At Bind, w) (pt, w')"
  shows "finv T E c l (pt, w') \<and> phases_left pt \<le> 5 \<and> (phases_left pt \<le> 1 \<or> carried w w')"
  using r
proof (induction rule: rtranclp_induct2)
  case (step pt1 w1 pt2 w2)
  then have f: "finv T E c l (pt1, w1)" "phases_left pt1 \<le> 5" "phases_left pt1 \<le> 1 \<or> carried w w1" by simp_all
  have st: "phases_left pt2 \<le> phases_left pt1" by (rule stage_falls [OF f(1) step(2)])
  moreover have "phases_left pt2 \<le> 1 \<or> carried w w2"
    using f(3) st step_carried [OF f(1) _ f(2) step(2)] carried_trans [of w w1 w2] by fastforce
  ultimately show ?case using fine_step_inv [OF f(1) step(2)] f(2) by simp
qed (use i in simp)

section \<open>From the tasks of the libraries to the tasks with sections\<close>

lemma lname_task:
  assumes "task_of E dirch w a d" "eligible d" "NUL \<notin> set d"
  shows "lname (cycs w) a = low (lib_stem d)"
proof -
  have st: "NUL \<notin> set (lib_stem d)" "length (lib_stem d) < 32"
    using assms(2,3) in_set_takeD [of NUL "length d - 6" "drop 3 d"] in_set_dropD [of NUL 3 d]
    by (auto simp: lib_stem_def eligible_def)
  obtain k where "pad 32 (lib_stem d) = lib_stem d @ NUL # replicate k NUL"
    using st(2) by (cases "32 - length (lib_stem d)") (simp_all add: pad_def)
  then have "cstr (pad 32 (lib_stem d)) = lib_stem d" using st(1) by (simp add: cstr_app)
  moreover obtain cy where "cycs w a = Some cy" "cy_libdata cy = cy_libdata (lib_node E dirch d)"
    using assms(1) by (auto simp: task_of_def)
  ultimately show ?thesis by (simp add: lname_def lib_node_def Let_def)
qed

lemma holds_names: "holds_sects ss secs \<Longrightarrow> map snd ss = map (low \<circ> fst) secs"
  unfolding holds_sects_def by (induction ss secs rule: list_all2_induct) simp_all

lemma conf_holds:
  assumes "conf_at w p cells sl"
  shows "holds_sects (named_secs (fname (files w)) cells) sl"
proof -
  have "list_all2 (sect_at w) cells sl" using assms by (simp add: conf_at_def)
  then show ?thesis
    by (induction rule: list_all2_induct) (auto simp: holds_sects_def sect_at_def fname_def)
qed

text \<open>What is known when the child comes to \<open>toSetCycdata\<close>.\<close>

lemma bind_start:
  assumes e: "env_ok T E c l" and o: "on_load E c l content (At Bind, w)"
  obtains cells sl as ds where "base E w as cells" "conf_in w content cells sl" "entries E (libdir l) = Some ds"
    "loaded E (libdir l) w as (filter eligible ds)" "as \<noteq> []" "finv T E c l (At Bind, w)"
    "list_all2 (\<lambda>a d. lname (cycs w) a = low (lib_stem d)) as (filter eligible ds)" "distinct as"
    "holds_sects (named_secs (fname (files w)) cells) sl"
proof -
  obtain cells sl as ds where b: "base E w as cells" "conf_in w content cells sl" "entries E (libdir l) = Some ds"
      "loaded E (libdir l) w as (filter eligible ds)" "as \<noteq> []"
    using o by (auto simp: on_load_def)
  have "\<forall>d\<in>set ds. NUL \<notin> set d" using e b(3) by (simp add: env_ok_def dir_ok_def)
  moreover have la: "list_all2 (task_of E (libdir l) w) as (filter eligible ds)" using b(4) by (simp add: loaded_def)
  ultimately have "list_all2 (\<lambda>a d. lname (cycs w) a = low (lib_stem d)) as (filter eligible ds)"
    using lname_task by (intro list.rel_mono_strong [OF la]) auto
  moreover have "finv T E c l (At Bind, w)" using e b(1,2) by (auto simp: point_ok_def phase_ok_def conf_in_def)
  moreover have "distinct as" using b(1) tasksD(4) [of w as] by (simp add: base_def)
  ultimately show thesis using that b conf_holds [of w "filehead w" cells sl] by (simp add: conf_in_def)
qed

text \<open>Without configuration \<open>toSetCycdata\<close> fails.\<close>

lemma bind_needs_conf:
  assumes i: "finv T E c l (At Bind, w)" and n: "filehead w = None" and r: "fine_run E c l (At Bind, w) (pt, w')"
  shows "pt = At Bind \<and> filehead w' = None \<or> (\<exists>s. pt = At (Done s))"
  using r
proof (induction rule: rtranclp_induct2)
  case (step pt1 w1 pt2 w2)
  show ?case
  proof (cases "\<exists>s. pt1 = At (Done s)")
    case True
    then show ?thesis using step(2) by (auto elim!: fine_stepE simp: advance_point_def advance_main_def at_phase_def)
  next
    case False
    then have b: "pt1 = At Bind" "filehead w1 = None" using step(3) by simp_all
    have f: "finv T E c l (At Bind, w1)" using bindings_carried [OF i] step(1) b(1) by blast
    then have c: "phases_left pt2 \<le> 1 \<or> carried w1 w2" using step_carried [OF f _ _ step(2) [unfolded b(1)]] by simp
    show ?thesis
      using step(2)
    proof cases
      case run
      then obtain w3 where "bind_exit E (- 1, w3) = Some (pt2, w2)"
        using b by (auto simp: advance_point_def bind_enter_def bind_eq_Some_conv)
      from bind_exit_error [OF this] show ?thesis by simp
    next
      case alarm
      then show ?thesis using c b by (auto simp: carried_def)
    next
      case (usr1 out)
      then show ?thesis using c b by (cases out) (auto simp: carried_def)
    qed simp
  qed
qed (use n in simp)

text \<open>The task has the data of its library and the section.\<close>

definition runs_section :: "env \<Rightarrow> string \<Rightarrow> world \<Rightarrow> nat \<Rightarrow> string \<times> sect \<Rightarrow> bool" where
  "runs_section E dirch w a x \<longleftrightarrow> task_of E dirch w a (fst x) \<and>
     (\<exists>f ps. fdates (cycs w) a = Some f \<and> sect_at w (f, ps) (snd x))"

lemma bound_startable:
  assumes ss: "holds_sects ss sl" and la: "list_all2 (\<lambda>a d. lib a = low (lib_stem d)) as ds"
    and g: "\<forall>d\<in>set ds. good_lib E dirch d" and ne: "sl \<noteq> []" "as \<noteq> []"
    and bs: "bind_spec ss lib as m0 = (0, m)"
  shows "startable E dirch sl ds"
proof -
  note z = bind_spec_result [OF bs]
  have names: "map snd ss = map (low \<circ> fst) sl"
    by (rule holds_names [OF ss])
  have "\<exists>d\<in>set ds. low (lib_stem d) = low (fst s)" if "s \<in> set sl" for s
  proof -
    have "low (fst s) \<in> snd ` set ss" using that names by (metis comp_apply image_eqI list.set_map)
    then obtain a where "find (\<lambda>a. lib a = low (fst s)) as = Some a" using z(2) by fastforce
    then have "a \<in> set as" "lib a = low (fst s)" by (auto simp: find_Some_iff)
    then show ?thesis using list_all2_in1 [OF la, of a] by auto
  qed
  moreover have "ds \<noteq> []" using la ne(2) by auto
  ultimately show ?thesis using z(1) names g ne(1) by (simp add: startable_def)
qed

lemma bound_result:
  assumes e: "env_ok T E c l" and o: "on_load E c l content (At Bind, w)" and r: "fine_run E c l (At Bind, w) (At InitStart, w')"
  shows "\<exists>secs ds as. conf_sections (conf_entries content) = Some secs \<and> entries E (libdir l) = Some ds \<and>
    startable E (libdir l) secs (filter eligible ds) \<and> tasks w' as \<and>
    list_all2 (runs_section E (libdir l) w') as (assigned secs [] (filter eligible ds))"
proof -
  obtain cells sl as ds where b: "base E w as cells" "conf_in w content cells sl" "entries E (libdir l) = Some ds"
      "loaded E (libdir l) w as (filter eligible ds)" "as \<noteq> []" "finv T E c l (At Bind, w)"
      "list_all2 (\<lambda>a d. lname (cycs w) a = low (lib_stem d)) as (filter eligible ds)" "distinct as"
      "holds_sects (named_secs (fname (files w)) cells) sl"
    using bind_start [OF e o] by metis
  let ?ss = "named_secs (fname (files w)) cells" and ?ds = "filter eligible ds"
  obtain res m where bs: "bind_spec ?ss (lname (cycs w)) as (fdates (cycs w)) = (res, m)" by (metis surj_pair)
  have ow: "res = 0" "tasks w' (bound_tasks m as)" "\<forall>a\<in>set (bound_tasks m as). fdates (cycs w') a = m a"
    using binding_despite_signals [OF e b(1) _ bs r] b(2) by (auto simp: conf_in_def bound_tasks_def)
  note z = bind_spec_result [OF bs [unfolded ow(1)]]
  have cw: "carried w w'" using bindings_carried [OF b(6) r] by simp
  have "filehead w \<noteq> None" using bind_needs_conf [OF b(6) _ r] by auto
  then have "sl \<noteq> []" using b(2) by (auto simp: conf_in_def conf_at_def)
  then have st: "startable E (libdir l) sl ?ds"
    using bound_startable [OF b(9,7) _ _ b(5) bs [unfolded ow(1)]] b(4) by (simp add: loaded_def)
  have "list_all2 (\<lambda>a (d, sec). (a, d) \<in> set (zip as ?ds) \<and> (\<exists>s. m a = Some (fst s) \<and> (s, sec) \<in> set (zip ?ss sl)))
      (bound_tasks m as) (assigned sl [] ?ds)"
    using z b(4,7,8,9) by (intro bound_assigned [where us = "[]" and lib = "lname (cycs w)"]) (auto simp: loaded_def)
  moreover have "runs_section E (libdir l) w' a (d, sec)"
    if a: "a \<in> set (bound_tasks m as)" "(a, d) \<in> set (zip as ?ds)" "m a = Some (fst s)" "(s, sec) \<in> set (zip ?ss sl)" for a d s sec
  proof -
    have "task_of E (libdir l) w a d" using b(4) a(2) by (auto simp: loaded_def list_all2_iff)
    moreover have "cycs w' a \<noteq> None" using tasksD(2) [OF ow(2) a(1)] by auto
    ultimately have "task_of E (libdir l) w' a d" using cw unfolding carried_def task_of_def by metis
    moreover obtain x where x: "(x, sec) \<in> set (zip cells sl)" "fst s = fst x"
      using a(4) by (auto simp: named_secs_def zip_map1)
    have "list_all2 (sect_at w) cells sl" using b(2) by (simp add: conf_in_def conf_at_def)
    then have "sect_at w x sec" using x(1) by (auto simp: list_all2_iff)
    then have "sect_at w' x sec" using sect_at_same [of w' w] cw by (simp add: carried_def)
    then have "\<exists>f ps. fdates (cycs w') a = Some f \<and> sect_at w' (f, ps) sec"
      using ow(3) a(1,3) x(2) by (intro exI [of _ "fst x"] exI [of _ "snd x"]) simp
    ultimately show ?thesis by (simp add: runs_section_def)
  qed
  ultimately have "list_all2 (runs_section E (libdir l) w') (bound_tasks m as) (assigned sl [] ?ds)"
    by (elim list.rel_mono_strong) auto
  then show ?thesis using b(2,3) st ow(2) by (auto simp: conf_in_def)
qed

section \<open>A start that succeeds\<close>

lemma on_load_finv:
  assumes e: "env_ok T E c l" and o: "on_load E c l content (pt, w)"
  shows "finv T E c l (pt, w)"
proof (cases pt)
  case (At ph)
  then show ?thesis
    using e o by (cases ph) (auto simp: on_load_def point_ok_def phase_ok_def conf_in_def block_ready_def)
qed (use e o in \<open>auto simp: on_load_def point_ok_def conf_in_def\<close>)

lemma on_load_goes:
  assumes "env_ok T E c l" "on_load E c l content (pt, w)"
  obtains pt' w' where "advance_point E c l pt w = Some (pt', w')"
  using finv_responsive [OF on_load_finv [OF assms]] by (auto simp: point_responsive_def)

lemma load_reaches:
  assumes e: "env_ok T E c l"
  shows "on_load E c l content (Loading ds n, w) \<Longrightarrow> \<forall>d\<in>set (filter eligible ds). good_lib E (libdir l) d \<Longrightarrow>
    0 < n \<or> filter eligible ds \<noteq> [] \<Longrightarrow> \<exists>w'. fine_run E c l (Loading ds n, w) (At Bind, w') \<and> on_load E c l content (At Bind, w')"
proof (induction ds arbitrary: n w)
  case Nil
  obtain pt' w' where r: "advance_point E c l (Loading [] n) w = Some (pt', w')" using on_load_goes [OF e Nil.prems(1)] .
  then show ?case using on_load_return [OF e Nil.prems(1) r] Nil.prems(3) run_last [OF r] by auto
next
  case (Cons d ds)
  obtain pt' w' where r: "advance_point E c l (Loading (d # ds) n) w = Some (pt', w')" using on_load_goes [OF e Cons.prems(1)] .
  obtain k where k: "pt' = Loading ds k" "on_load E c l content (Loading ds k, w')" "n \<le> k" "eligible d \<longrightarrow> 0 < k"
    using on_load_round [OF e Cons.prems(1) r] Cons.prems(2) by (auto split: if_splits)
  have "0 < k \<or> filter eligible ds \<noteq> []" using Cons.prems(3) k(3,4) by (auto split: if_splits)
  then show ?case using Cons.IH [OF k(2)] Cons.prems(2) run_first [OF r [unfolded k(1)]] by fastforce
qed

lemma bind_reaches:
  assumes e: "env_ok T E c l" and o: "on_load E c l content (At Bind, w)"
    and cs: "conf_sections (conf_entries content) = Some secs" and en: "entries E (libdir l) = Some ds"
    and st: "startable E (libdir l) secs (filter eligible ds)"
  shows "\<exists>w'. fine_run E c l (At Bind, w) (At InitStart, w')"
proof -
  obtain cells sl as ds' where b: "base E w as cells" "conf_in w content cells sl" "entries E (libdir l) = Some ds'"
      "loaded E (libdir l) w as (filter eligible ds')" "as \<noteq> []"
      "list_all2 (\<lambda>a d. lname (cycs w) a = low (lib_stem d)) as (filter eligible ds')"
      "holds_sects (named_secs (fname (files w)) cells) sl"
    using bind_start [OF e o] by metis
  have eq: "sl = secs" "ds' = ds" using b(2,3) cs en by (simp_all add: conf_in_def)
  let ?ss = "named_secs (fname (files w)) cells" and ?lib = "lname (cycs w)"
  have names: "map snd ?ss = map (low \<circ> fst) secs"
    using holds_names [OF b(7)] eq(1) by simp
  have "\<exists>a. find (\<lambda>a. ?lib a = snd s) as = Some a \<and> fdates (cycs w) a = None" if "s \<in> set ?ss" for s
  proof -
    have "snd s \<in> (low \<circ> fst) ` set secs" using that names by (metis image_eqI list.set_map)
    then obtain d where d: "d \<in> set (filter eligible ds)" "low (lib_stem d) = snd s"
      using st by (fastforce simp: startable_def)
    then obtain a where "a \<in> set as" "?lib a = snd s" using list_all2_in2 [OF b(6), of d] eq(2) by auto
    then have "find (\<lambda>a. ?lib a = snd s) as \<noteq> None" by (auto simp: find_None_iff)
    then obtain a where a: "find (\<lambda>a. ?lib a = snd s) as = Some a" by blast
    then have "a \<in> set as" by (auto simp: find_Some_iff)
    then show ?thesis using a b(4) by (auto simp: loaded_def)
  qed
  then obtain m where bs: "bind_spec ?ss ?lib as (fdates (cycs w)) = (0, m)"
    using bind_spec_succeeds [where ss = ?ss and as = as and lib = ?lib and ?m0.0 = "fdates (cycs w)"] names st by (auto simp: startable_def)
  have t: "main_log_ok E w" "tasks w as" using b(1) by (simp_all add: base_def)
  have fh: "lpath fd_next (files w) (filehead w) (map fst ?ss) None" "\<forall>s\<in>set ?ss. named (files w) s" "?ss \<noteq> []"
    using b(2) st names eq(1) by (auto simp: conf_in_def conf_at_def cells_named_def named_secs_def comp_def startable_def)
  obtain w1 where w1: "toSetCycdata E (filehead w) (cychead w) w = Some (0, w1)"
    using toSetCycdata_ok [OF t b(5) fh(1,3,2) bs] by blast
  obtain r where r: "bind_phase E w = Some r"
    using bind_phase_ok [OF b(1)] b(2) by (auto simp: phase_ok_def conf_in_def)
  then obtain w2 where "bind_phase E w = Some (True, w2)" using w1 by (auto simp: bind_phase_def bind_eq_Some_conv)
  then show ?thesis using bind_steps [of E w InitStart w2 c l] by (auto simp: go_on_def)
qed

lemma start_reaches:
  assumes e: "env_ok T E c l" and o: "on_load E c l content (At Conf, w)"
    and cs: "conf_sections (conf_entries content) = Some secs" and en: "entries E (libdir l) = Some ds"
    and st: "startable E (libdir l) secs (filter eligible ds)"
  shows "\<exists>w'. fine_run E c l (At Conf, w) (At InitStart, w')"
proof -
  have ne: "conf_entries content \<noteq> []" using cs st by (auto simp: startable_def conf_sections_def)
  obtain pt1 w1 where r1: "advance_point E c l (At Conf) w = Some (pt1, w1)" using on_load_goes [OF e o] .
  note o1 = on_load_conf [OF e o r1, unfolded if_not_P [OF ne]]
  obtain pt2 w2 where r2: "advance_point E c l (At Read) w1 = Some (pt2, w2)" using on_load_goes [OF e] o1 by metis
  have o2: "pt2 = At Lib" "on_load E c l content (At Lib, w2)" using on_load_read [OF _ r2] o1 cs by auto
  obtain pt3 w3 where r3: "advance_point E c l (At Lib) w2 = Some (pt3, w3)" using on_load_goes [OF e o2(2)] .
  have o3: "pt3 = Loading ds 0" "on_load E c l content (Loading ds 0, w3)" using on_load_lib [OF e o2(2) r3] en by auto
  obtain w4 where w4: "fine_run E c l (Loading ds 0, w3) (At Bind, w4)" "on_load E c l content (At Bind, w4)"
    using load_reaches [OF e o3(2)] st by (auto simp: startable_def)
  obtain w5 where w5: "fine_run E c l (At Bind, w4) (At InitStart, w5)" using bind_reaches [OF e w4(2) cs en st] by blast
  have "fine_run E c l (At Conf, w) (At Bind, w4)"
    using run_first [OF r1] run_first [OF r2] run_first [OF r3] w4(1) o1 o2(1) o3(1) by blast
  then show ?thesis using w5 by (metis rtranclp_trans)
qed

section \<open>A concrete start\<close>

text \<open>A directory with two libraries and a configuration with a section for the first.\<close>

definition two_libs :: env where
  "two_libs = still\<lparr>entries := (\<lambda>_. Some [''liba.so'', ''x'', ''libb.so'']), dlopen := (\<lambda>_. Some 100), dlsym := (\<lambda>_ _. Some 40)\<rparr>"

definition conf_disk :: world where
  "conf_disk = boot\<lparr>brk := 1, dir := [''../conf/xxh.conf'' \<mapsto> 0], ino := [0 \<mapsto> ''A'' @ [NL] @ ''k:1'' @ [NL]]\<rparr>"

lemma two_libs_calm: "calm two_libs" "asc_ok two_libs"
  by (simp_all add: two_libs_def calm_def still_def asc_ok_def)

lemma two_libs_tame: "tame (=) two_libs"
proof -
  have "call two_libs f a w = Some (0, w)" for f a w by (simp add: two_libs_def still_def)
  moreover have "touched (=) a w w []" if "cycs w a \<noteq> None" for w a
    using that touched_refl [of "(=)" w a _ w] by (auto simp: reflp_on_def)
  ultimately show ?thesis by (simp add: tame_def INT_MIN_def INT_MAX_def reflp_on_def transp_on_def)
qed

lemma two_libs_ok: "host_ok two_libs" "env_ok (=) two_libs None None" "at_start conf_disk"
proof -
  show "host_ok two_libs" using two_libs_calm by (simp add: host_ok_def) (simp add: two_libs_def still_def INT_MIN_def INT_MAX_def)
  have "dir_ok two_libs ''../libdir''" by (simp add: dir_ok_def two_libs_def still_def INT_MAX_def)
  then show "env_ok (=) two_libs None None" using two_libs_tame by (simp add: env_ok_def libdir_def)
  show "at_start conf_disk" by (auto simp: at_start_def conf_disk_def boot_def fresh_def dir_total_def)
qed

lemma conf_disk_text:
  "file_text conf_disk (conf_path None) = Some (''A'' @ [NL] @ ''k:1'' @ [NL])"
  "not_log two_libs ''./logs/main.log'' (conf_path None) conf_disk"
proof -
  show "file_text conf_disk (conf_path None) = Some (''A'' @ [NL] @ ''k:1'' @ [NL])"
    by (simp add: conf_disk_def conf_path_def file_text_def)
  have "''../conf/xxh.conf'' \<noteq> moved_name ''./logs/main.log'' (asc two_libs n)" for n
  proof
    assume "''../conf/xxh.conf'' = moved_name ''./logs/main.log'' (asc two_libs n)"
    then have "length ''../conf/xxh.conf'' = length (moved_name ''./logs/main.log'' (asc two_libs n))" by (rule arg_cong)
    then show False by (simp add: moved_name_def two_libs_def still_def)
  qed
  then show "not_log two_libs ''./logs/main.log'' (conf_path None) conf_disk"
    by (simp add: not_log_def conf_path_def conf_disk_def)
qed

lemma conf_disk_spec:
  "conf_sections (conf_entries (''A'' @ [NL] @ ''k:1'' @ [NL])) = Some [(''A'', [(''k'', ''1'')])]"
  "filter eligible [''liba.so'', ''x'', ''libb.so''] = [''liba.so'', ''libb.so'']"
  "startable two_libs ''../libdir'' [(''A'', [(''k'', ''1'')])] [''liba.so'', ''libb.so'']"
  "assigned [(''A'', [(''k'', ''1'')])] [] [''liba.so'', ''libb.so''] = [(''liba.so'', (''A'', [(''k'', ''1'')]))]"
proof -
  show "conf_sections (conf_entries (''A'' @ [NL] @ ''k:1'' @ [NL])) = Some [(''A'', [(''k'', ''1'')])]" by code_simp
  show "filter eligible [''liba.so'', ''x'', ''libb.so''] = [''liba.so'', ''libb.so'']" by (simp add: eligible_def)
  show "assigned [(''A'', [(''k'', ''1'')])] [] [''liba.so'', ''libb.so''] = [(''liba.so'', (''A'', [(''k'', ''1'')]))]"
    by code_simp
  have "low (lib_stem ''liba.so'') = low ''A''" by code_simp
  moreover have "good_lib two_libs ''../libdir'' d" for d by (simp add: good_lib_def two_libs_def sym_names_def)
  ultimately show "startable two_libs ''../libdir'' [(''A'', [(''k'', ''1'')])] [''liba.so'', ''libb.so'']"
    by (simp add: startable_def)
qed

lemma started_text:
  assumes h: "host_ok E" and w: "at_start w" and s: "started E w = Some w0"
    and p: "not_log E ''./logs/main.log'' p w" "file_text w p = Some content"
  shows "file_text w0 p = Some content \<and> apart_from_log E p w0"
proof -
  let ?fn = "''./logs/main.log''" and ?w = "snd (opendir E ''./logs'' (globals_reset w))"
  obtain ld w1 where w1: "logInit E (Some ?fn) 100 ?w = Some (Some ld, w1)"
      "base E (w1\<lparr>mainld := Some ld\<rparr>) [] []" "files_small (w1\<lparr>mainld := Some ld\<rparr>)"
    using main_log_opened [OF h w] by blast
  have same: "dir ?w = dir w" "ino ?w = ino w" "fresh ?w"
    using w by (auto simp: opendir_def globals_reset_def at_start_def fresh_def split: option.splits)
  have "calm E" using h by (simp add: host_ok_def)
  then have o: "file_text w1 p = Some content" "not_log E ?fn p w1"
    using logInit_other [OF _ same(3) w1(1), of p content] p by (simp_all add: not_log_def file_text_def same)
  have "dir_total ?w" using w by (auto simp: opendir_def globals_reset_def at_start_def dir_total_def split: option.splits)
  then have "log_at w1 ld ?fn (1024 * min 100 1024)"
    using logInit_ok [OF \<open>calm E\<close> same(3), of ?fn 100] w1(1) by force
  then have "fn = ?fn" if "log_at w1 ld fn mx" for fn mx
    using that by (auto simp: log_at_def)
  then have a: "apart_from_log E p (w1\<lparr>mainld := Some ld\<rparr>)"
    using o(2) by (auto simp: apart_from_log_def not_log_def log_at_def)
  let ?v = "w1\<lparr>mainld := Some ld\<rparr>"
  have t: "file_text ?v p = Some content" using o(1) by (simp add: file_text_def)
  have ok: "main_log_ok E ?v" using w1(2) by (simp add: base_def)
  have m: "msg_fits (965, LOGERR, ''main open() err '' @ dec (null_fd E))"
    using dec_length [of "null_fd E"] h by (simp add: host_ok_def fits_short)
  obtain go v where v: "daemonize E ?v = Some (go, v)" "go" "w0 = v"
    using s w1(1) by (auto simp: started_def bind_eq_Some_conv split: if_splits)
  then have "v = ?v \<or> logLog E 965 LOGERR (''main open() err '' @ dec (null_fd E)) ?v = Some v"
    by (auto simp: daemonize_def bind_eq_Some_conv split: if_splits)
  then show ?thesis using v(3) a t logLog_other [OF ok m _ a t] by blast
qed

section \<open>A run that starts\<close>

lemma started_on_load:
  assumes "host_ok E" "at_start w" "env_ok T E c l" "started E w = Some w0"
    and "file_text w (conf_path c) = Some content" "not_log E ''./logs/main.log'' (conf_path c) w"
  shows "on_load E c l content (At Conf, w0)"
  using started_inv [OF assms(1-4)] started_text [OF assms(1,2,4,6,5)] by (auto simp: on_load_def phase_ok_def)

lemma start_result:
  assumes "host_ok E" "at_start w" "env_ok T E c l" "started E w = Some w0"
    and "file_text w (conf_path c) = Some content" "not_log E ''./logs/main.log'' (conf_path c) w"
    and r: "fine_run E c l (At Conf, w0) (At InitStart, w')"
  shows "\<exists>secs ds as. conf_sections (conf_entries content) = Some secs \<and> entries E (libdir l) = Some ds \<and>
    startable E (libdir l) secs (filter eligible ds) \<and> tasks w' as \<and>
    list_all2 (runs_section E (libdir l) w') as (assigned secs [] (filter eligible ds))"
proof -
  have "loads E c l content (At InitStart, w')"
    using loading.reach_good [OF r, of T content] started_on_load [OF assms(1-6)] assms(3) by (simp add: loads_def)
  moreover have "\<not> on_load E c l content (At InitStart, w')" by (simp add: on_load_def)
  ultimately obtain v where "on_load E c l content (At Bind, v)" "fine_run E c l (At Bind, v) (At InitStart, w')"
    unfolding loads_def by auto
  then show ?thesis by (rule bound_result [OF assms(3)])
qed

lemma two_libs_started: "\<exists>w0. started two_libs conf_disk = Some w0"
proof -
  obtain ld w1 where "logInit two_libs (Some ''./logs/main.log'') 100 (snd (opendir two_libs ''./logs'' (globals_reset conf_disk)))
      = Some (Some ld, w1)"
    using main_log_opened [OF two_libs_ok(1,3)] by blast
  moreover have "setsid_ret two_libs = 1" "null_fd two_libs = 3" by (simp_all add: two_libs_def still_def)
  ultimately show ?thesis by (simp add: started_def daemonize_def)
qed

lemma two_libs_listing: "entries two_libs (libdir None) = Some [''liba.so'', ''x'', ''libb.so'']" "libdir None = ''../libdir''"
  by (simp_all add: two_libs_def libdir_def)

lemma two_libs_starts:
  "\<exists>w0 w'. started two_libs conf_disk = Some w0 \<and> fine_run two_libs None None (At Conf, w0) (At InitStart, w')"
proof -
  obtain w0 where w0: "started two_libs conf_disk = Some w0" using two_libs_started by blast
  show ?thesis
    using start_reaches [OF two_libs_ok(2) started_on_load [OF two_libs_ok(1,3,2) w0 conf_disk_text] conf_disk_spec(1)
        two_libs_listing(1)] conf_disk_spec(2,3) two_libs_listing(2) w0 by auto
qed

section \<open>Properties\<close>

text \<open>
  C2: The start of the daemon from end to end, under any stream of signals: the child can come to the initialisation of
  its tasks exactly if the configuration file has sections and the directory has libraries, every library can be
  loaded, and every section has a name of its own that is the name of a library; and whenever it comes there,
  whatever alarms and SIGUSR1 signals were handled on the way, its tasks are the libraries with a section, in the
  order of the directory, each with the data of its library and with the section of its name.
\<close>

theorem startup_despite_signals:
  assumes "host_ok E" "at_start w" "env_ok T E c l" "started E w = Some w0"
    and "file_text w (conf_path c) = Some content" "not_log E ''./logs/main.log'' (conf_path c) w"
  shows "((\<exists>w'. fine_run E c l (At Conf, w0) (At InitStart, w')) \<longleftrightarrow>
      (\<exists>secs ds. conf_sections (conf_entries content) = Some secs \<and> entries E (libdir l) = Some ds \<and>
        startable E (libdir l) secs (filter eligible ds))) \<and>
    (\<forall>w'. fine_run E c l (At Conf, w0) (At InitStart, w') \<longrightarrow>
      (\<exists>secs ds as. conf_sections (conf_entries content) = Some secs \<and> entries E (libdir l) = Some ds \<and> tasks w' as \<and>
        list_all2 (runs_section E (libdir l) w') as (assigned secs [] (filter eligible ds))))"
proof -
  have o: "on_load E c l content (At Conf, w0)" by (rule started_on_load [OF assms])
  show ?thesis using start_result [OF assms(1-6)] start_reaches [OF assms(3) o] by blast
qed

theorem startup_despite_signals_witness:
  "\<exists>w0 w' a. started two_libs conf_disk = Some w0 \<and> fine_run two_libs None None (At Conf, w0) (At InitStart, w') \<and>
     tasks w' [a] \<and> runs_section two_libs ''../libdir'' w' a (''liba.so'', (''A'', [(''k'', ''1'')]))"
proof -
  obtain w0 where w0: "started two_libs conf_disk = Some w0" using two_libs_started by blast
  note d = two_libs_listing
  note r = startup_despite_signals [OF two_libs_ok(1,3,2) w0 conf_disk_text]
  obtain w' where w': "fine_run two_libs None None (At Conf, w0) (At InitStart, w')"
    using r conf_disk_spec(1,3) d conf_disk_spec(2) by fastforce
  then obtain as where "tasks w' as" "list_all2 (runs_section two_libs ''../libdir'' w') as
      (assigned [(''A'', [(''k'', ''1'')])] [] [''liba.so'', ''libb.so''])"
    using r d conf_disk_spec(1,2) by fastforce
  then show ?thesis using w0 w' unfolding conf_disk_spec(4) by (auto simp: list_all2_Cons2)
qed

end
