(* ===== verification/ServiceResults.thy ===== *)
theory ServiceResults
  imports StartupResults
begin

text \<open>
  What the daemon does once it waits: from the files it was started with to the methods each alarm calls, whatever
  signals it was sent in between.
\<close>

section \<open>The initialisation leaves the tasks in place\<close>

lemma undisturbed_refl [simp]: "undisturbed w w"
  by (simp add: undisturbed_def)

lemma undisturbed_trans: "undisturbed u v \<Longrightarrow> undisturbed v w \<Longrightarrow> undisturbed u w"
  by (simp add: undisturbed_def)

lemma touched_undisturbed: "touched T a w w' es \<Longrightarrow> undisturbed w w'"
  by (auto simp: touched_def kept_def undisturbed_def method_pointers_def)

lemma init_one_undisturbed:
  assumes e: "env_ok T E c l" and b: "base E w as cells" and a: "a \<in> set as" and r: "init_one E a w = Some (res, w')"
  shows "undisturbed w w'"
proof -
  have T: "tame T E" "\<forall>t t'. T t t' \<longrightarrow> clock_ok t \<longrightarrow> clock_ok t'" using e by (simp_all add: env_ok_def)
  have "tasks w as" using b by (simp add: base_def)
  then obtain n where n: "cycs w a = Some n" using tasksD(2) a by blast
  obtain q w1 es where w1: "TimeInit E (Some a) w = Some (q, w1)" "main_log_ok E w1" "touched T a w w1 es"
      "pipe_ok (init_methods n) a es q"
    using TimeInit_runs [OF T(1) a] b n unfolding runs_def base_def by blast
  have b1: "base E w1 as cells" by (rule touched_base [OF b w1(3) a w1(2) T(2)])
  have "- 20 \<le> q" "q \<le> 0" using init_methods_range [OF w1(4)] by auto
  then have "msg_fits (1059, LOGERR, ''TimeInit is err '' @ dec q)"
    using dec_small [of q] by (intro fits_short) simp_all
  then obtain w2 where w2: "logLog E 1059 LOGERR (''TimeInit is err '' @ dec q) w1 = Some w2" "kept w1 w2"
    using base_log [OF b1] by metis
  then have "w' = w1 \<or> w' = w2" using r w1(1) by (auto simp: init_one_def split: if_splits)
  then show ?thesis
    using touched_undisturbed [OF w1(3)] kept_undisturbed [OF w2(2)] undisturbed_trans by auto
qed

lemma base_log_undisturbed:
  assumes "base E w as cells" "msg_fits (line, type, msg)" "logLog E line type msg w = Some w'"
  shows "undisturbed w w'"
  using base_log [OF assms(1,2)] assms(3) kept_undisturbed by (metis option.inject)

text \<open>The points of the child from the first round of the initialisation on.\<close>

fun past_start :: "point \<Rightarrow> bool" where
  "past_start (At ph) = (case ph of InitStart \<Rightarrow> True | Init _ \<Rightarrow> True | Ready \<Rightarrow> True | _ \<Rightarrow> False)"
| "past_start _ = False"

lemma bind_exit_entry: "bind_exit E x = Some (pt, w) \<Longrightarrow> past_start pt \<Longrightarrow> pt = At InitStart"
  using exits_end(2) [of E x pt w] by auto

lemma enters_at_start:
  assumes r: "advance_point E c l pt w = Some (pt', w')" and p: "\<not> past_start pt" "past_start pt'"
  shows "pt' = At InitStart"
proof (cases pt)
  case (At ph)
  show ?thesis
  proof (cases "ph = Lib \<or> ph = Bind")
    case True
    then show ?thesis
    proof
      assume "ph = Lib"
      then have "lib_enter E l w = Some (pt', w')" using r At by (simp add: advance_point_def)
      from lib_enter_end [OF this] show ?thesis using p(2) by auto
    next
      assume "ph = Bind"
      then have "bind_enter E w = Some (pt', w')" using r At by (simp add: advance_point_def)
      then show ?thesis
        using p(2) bind_exit_entry [of E _ pt' w']
        by (auto simp: bind_enter_def bind_eq_Some_conv simp del: not_None_eq split: if_splits)
    qed
  next
    case False
    then have m: "at_phase (advance_main E c l ph w) = Some (pt', w')" using r At by (simp add: advance_point_def)
    show ?thesis
      using False m p At phase_end [of _ E _ pt' w']
      by (cases ph) (force simp: advance_main_def at_phase_def)+
  qed
next
  case (Loading ds n)
  have "\<exists>x. lib_exit E x = Some (pt', w')"
  proof (cases ds)
    case (Cons d ds')
    then obtain x v where "(case x of Inl e \<Rightarrow> lib_exit E (e, v) | Inr k \<Rightarrow> Some (Loading ds' k, v)) = Some (pt', w')"
      using r Loading by (auto simp: advance_point_def bind_eq_Some_conv)
    then show ?thesis using p(2) by (cases x) auto
  qed (use r Loading in \<open>auto simp: advance_point_def bind_eq_Some_conv\<close>)
  then obtain x where "lib_exit E x = Some (pt', w')" ..
  from exits_end(1) [OF this] show ?thesis using p(2) by auto
next
  case (Binding q ch)
  have "(\<exists>q'. pt' = Binding q' ch \<or> pt' = Sweeping q') \<or> (\<exists>x. bind_exit E x = Some (pt', w'))"
  proof (cases q)
    case (Some ft)
    then obtain x v where "(case x of Inl e \<Rightarrow> bind_exit E (e, v) | Inr p \<Rightarrow> Some (Binding p ch, v)) = Some (pt', w')"
      using r Binding by (auto simp: advance_point_def bind_eq_Some_conv)
    then show ?thesis by (cases x) auto
  qed (use r Binding in \<open>auto simp: advance_point_def\<close>)
  then show ?thesis using p(2) bind_exit_entry by auto
next
  case (Sweeping q)
  have "(\<exists>q'. pt' = Sweeping q') \<or> (\<exists>x. bind_exit E x = Some (pt', w'))"
  proof (cases q)
    case (Some a)
    then obtain x v where "(case x of Inl e \<Rightarrow> bind_exit E (e, v) | Inr p \<Rightarrow> Some (Sweeping p, v)) = Some (pt', w')"
      using r Sweeping by (auto simp: advance_point_def bind_eq_Some_conv)
    then show ?thesis by (cases x) auto
  qed (use r Sweeping in \<open>auto simp: advance_point_def\<close>)
  then show ?thesis using p(2) bind_exit_entry by auto
qed
lemma init_point_undisturbed:
  assumes e: "env_ok T E c l" and b: "base E w as cells" "point_ok pt w as cells"
    and p: "past_start pt" "past_start pt'" and r: "advance_point E c l pt w = Some (pt', w')"
  shows "undisturbed w w'"
proof -
  obtain ph where ph: "pt = At ph" "ph = InitStart \<or> ph = Ready \<or> (\<exists>q. ph = Init q)"
    using p(1) by (cases pt rule: past_start.cases) (auto split: phase.splits)
  from ph(2) show ?thesis
  proof (elim disjE exE)
    assume "ph = InitStart"
    then have "logLog E 1051 LOGINF ''--start TimeInit'' w = Some w'"
      using r ph(1) by (auto simp: advance_point_def advance_main_def at_phase_def bind_eq_Some_conv)
    from base_log_undisturbed [OF b(1) _ this] show ?thesis by (simp add: fits_short)
  next
    assume "ph = Ready"
    then show ?thesis using r ph(1) by (simp add: advance_point_def advance_main_def at_phase_def)
  next
    fix q
    assume q: "ph = Init q"
    show ?thesis
    proof (cases q)
      case None
      then have "logLog E 1065 LOGINF ''TimeInit is ok'' w = Some w'"
        using r ph(1) q by (auto simp: advance_point_def advance_main_def at_phase_def bind_eq_Some_conv)
      from base_log_undisturbed [OF b(1) _ this] show ?thesis by (simp add: fits_short)
    next
      case (Some a)
      obtain res v where v: "init_one E a w = Some (res, v)"
          "at_phase (if res \<noteq> 0 then go_on E Ready (False, v) else do { d \<leftarrow> cycs v a; Some (Init (cy_next d), v) }) =
             Some (pt', w')"
        using r ph(1) q Some by (cases "init_one E a w") (auto simp: advance_point_def advance_main_def at_phase_def)
      obtain ys where "lpath cy_next (cycs w) (Some a) ys None" "set ys \<subseteq> set as"
        using b(2) ph(1) q Some by (auto simp: point_ok_def phase_ok_def)
      then have a: "a \<in> set as" by (cases ys) auto
      have "res = 0"
      proof (rule ccontr)
        assume "res \<noteq> 0"
        then obtain ph' where h: "go_on E Ready (False, v) = Some (ph', w')" "pt' = At ph'"
          using v(2) by (auto simp: at_phase_def bind_eq_Some_conv)
        then obtain x where "finish E v = Some (x, w')" "ph' = (case x of Exit s \<Rightarrow> Done s | Waiting \<Rightarrow> Ready)"
          by (auto simp: go_on_def bind_eq_Some_conv)
        then show False using finish_exit h(2) p(2) by fastforce
      qed
      then have "w' = v" using v(2) by (auto simp: at_phase_def bind_eq_Some_conv)
      then show ?thesis using init_one_undisturbed [OF e b(1) a] v(1) by simp
    qed
  qed
qed

lemma init_step:
  assumes i: "finv T E c l (pt, w)" and p: "past_start pt'" and st: "fine_step E c l (pt, w) (pt', w')"
  shows "if past_start pt then undisturbed w w' else pt' = At InitStart"
proof -
  have "\<forall>s. pt \<noteq> At (Done s)"
    using st p by (auto elim!: fine_stepE simp: advance_point_def advance_main_def at_phase_def)
  then obtain as cells where o: "env_ok T E c l" "base E w as cells" "point_ok pt w as cells"
    using finv_cases [OF i] by blast
  from st show ?thesis
  proof cases
    case run
    then show ?thesis using init_point_undisturbed [OF o _ p] enters_at_start p by auto
  next
    case alarm
    then show ?thesis using alarm_base [OF o(1,2), of 14] p by auto
  next
    case (usr1 out)
    then show ?thesis using usr1_returned [OF o(1,2), of 10 w'] kept_undisturbed p by (cases out) auto
  qed (use p in simp)
qed

lemma past_start_run:
  assumes i: "finv T E c l (At Conf, w0)" and r: "fine_run E c l (At Conf, w0) (pt, w)" and p: "past_start pt"
  shows "\<exists>v. fine_run E c l (At Conf, w0) (At InitStart, v) \<and> undisturbed v w"
proof -
  have "finv T E c l (pt, w) \<and>
      (past_start pt \<longrightarrow> (\<exists>v. fine_run E c l (At Conf, w0) (At InitStart, v) \<and> undisturbed v w))"
    using r
  proof (induction rule: rtranclp_induct2)
    case (step pt1 w1 pt2 w2)
    have f: "finv T E c l (pt1, w1)" using step(3) by simp
    have "\<exists>v. fine_run E c l (At Conf, w0) (At InitStart, v) \<and> undisturbed v w2" if q: "past_start pt2"
    proof (cases "past_start pt1")
      case True
      then show ?thesis using step(3) init_step [OF f q step(2)] undisturbed_trans by auto
    next
      case False
      then have "pt2 = At InitStart" using init_step [OF f q step(2)] by simp
      then show ?thesis using step(1,2) by (intro exI [of _ w2]) (auto intro: rtranclp.rtrancl_into_rtrancl)
    qed
    then show ?case using fine_step_inv [OF f step(2)] by blast
  qed (use i in simp)
  then show ?thesis using p by blast
qed

section \<open>What an undisturbed state keeps\<close>

lemma undisturbed_tasks:
  assumes "undisturbed v w" "tasks v as" "tasks w bs"
  shows "bs = as"
proof -
  have "lpath cy_next (cycs w) (cychead w) as None"
    using undisturbed_path [OF assms(1)] tasksD(1) [OF assms(2)] assms(1) by (simp add: undisturbed_def)
  then show ?thesis using tasksD(1) [OF assms(3)] lpath_unique by metis
qed

lemma undisturbed_runs_section:
  assumes u: "undisturbed v w" and r: "runs_section E dirch v a x"
  shows "runs_section E dirch w a x"
proof -
  have "sect_at w = sect_at v" using u by (intro sect_at_same) (simp_all add: undisturbed_def)
  moreover have "task_of E dirch w a d = task_of E dirch v a d" for d
    using u by (simp add: undisturbed_def task_of_def)
  ultimately show ?thesis using r undisturbed_names(2) [OF u] by (simp add: runs_section_def)
qed

section \<open>One alarm of the waiting daemon\<close>

text \<open>
  What an alarm does for the task \<open>a\<close> of the library file \<open>d\<close>: its counter advances, and if it was due the search,
  process and send functions the linker found in that library are called, in this order, up to the first that fails.
\<close>

definition serves ::
  "(onedate \<Rightarrow> onedate \<Rightarrow> bool) \<Rightarrow> env \<Rightarrow> string \<Rightarrow> world \<Rightarrow> world \<Rightarrow> nat \<Rightarrow> string \<Rightarrow> event list \<Rightarrow> bool" where
  "serves T E dirch w w' a d es \<longleftrightarrow> (\<exists>c c'. cycs w a = Some c \<and> cycs w' a = Some c' \<and>
     T (advance (cy_tidata c)) (cy_tidata c') \<and>
     (if due (cy_tidata c) then \<exists>r. pipe_ok (methods (lib_node E dirch d)) a es r else es = []))"

lemma methods_pointers: "method_pointers c = method_pointers d \<Longrightarrow> methods c = methods d"
  by (simp add: method_pointers_def methods_def)

lemma ticked_serves:
  assumes "ticked T w w' a es" "task_of E dirch w a d"
  shows "serves T E dirch w w' a d es"
proof -
  obtain c t p where c: "cycs w a = Some c" "cycs w' a = Some (c\<lparr>cy_tidata := t, cy_para := p\<rparr>)" "T (advance (cy_tidata c)) t"
      "if due (cy_tidata c) then \<exists>r. pipe_ok (methods c) a es r else es = []"
    using assms(1) by (auto simp: ticked_def)
  have "methods c = methods (lib_node E dirch d)" using assms(2) c(1) by (auto simp: task_of_def intro: methods_pointers)
  then show ?thesis using c by (auto simp: serves_def)
qed

lemma served_tasks:
  assumes "list_all2 (ticked T w w') as ess" "list_all2 (runs_section E dirch w) as xs"
  shows "list_all2 (\<lambda>(a, d, s) es. serves T E dirch w w' a d es) (zip as xs) ess"
proof -
  have "serves T E dirch w w' (as ! i) (fst (xs ! i)) (ess ! i)" if "i < length as" for i
    using that assms ticked_serves by (auto simp: list_all2_conv_all_nth runs_section_def)
  then show ?thesis
    using assms by (auto simp: list_all2_conv_all_nth case_prod_unfold)
qed

section \<open>A daemon that waits\<close>

lemma two_libs_init:
  assumes b: "base two_libs w as cells" and a: "a \<in> set as"
  shows "\<exists>w'. init_one two_libs a w = Some (0, w') \<and> cycs w' = cycs w \<and> base two_libs w' as cells"
proof -
  have c: "call two_libs f a w = Some (0, w)" for f w by (simp add: two_libs_def still_def)
  have s: "\<exists>es. stage two_libs m line type what a w = Some (0, w\<lparr>tr := es\<rparr>)" if n: "cycs w a \<noteq> None" for m line type what w
  proof -
    obtain c where "cycs w a = Some c" using n by blast
    then show ?thesis by (cases "m c") (auto simp: stage_def invoke_def c intro: exI [of _ "tr w"])
  qed
  have "tasks w as" using b by (simp add: base_def)
  then have n: "cycs w a \<noteq> None" using tasksD(2) a by blast
  obtain es where es: "stage two_libs cy_init 877 LOGERR '' sysinit err '' a w = Some (0, w\<lparr>tr := es\<rparr>)" using s [OF n] by blast
  obtain es' where "stage two_libs cy_login 887 LOGERR '' syslogin err '' a (w\<lparr>tr := es\<rparr>) = Some (0, w\<lparr>tr := es\<rparr>\<lparr>tr := es'\<rparr>)"
    using s [of "w\<lparr>tr := es\<rparr>"] n by fastforce
  then have i: "init_one two_libs a w = Some (0, w\<lparr>tr := es'\<rparr>)" using es by (simp add: init_one_def TimeInit_def)
  then show ?thesis using init_one_ok [OF two_libs_ok(2) b a] by auto
qed

lemma two_libs_ready:
  assumes "base two_libs w as cells" "lpath cy_next (cycs w) p ys None" "set ys \<subseteq> set as"
  shows "\<exists>w'. fine_run two_libs c l (At (Init p), w) (At Ready, w')"
  using assms
proof (induction ys arbitrary: p w)
  case Nil
  have "msg_fits (1065, LOGINF, ''TimeInit is ok'')" by (simp add: fits_short)
  then obtain w' where "logLog two_libs 1065 LOGINF ''TimeInit is ok'' w = Some w'" using base_log [OF Nil(1)] by metis
  then have "advance_point two_libs c l (At (Init p)) w = Some (At Ready, w')"
    using Nil(2) by (simp add: advance_point_def advance_main_def at_phase_def)
  then show ?case using run_last by blast
next
  case (Cons a ys)
  obtain w' where w': "init_one two_libs a w = Some (0, w')" "cycs w' = cycs w" "base two_libs w' as cells"
    using two_libs_init [OF Cons.prems(1), of a] Cons.prems(3) by auto
  obtain n where n: "p = Some a" "cycs w a = Some n" "lpath cy_next (cycs w) (cy_next n) ys None"
    using Cons.prems(2) by (auto split: option.splits)
  have "advance_point two_libs c l (At (Init p)) w = Some (At (Init (cy_next n)), w')"
    using w'(1,2) n by (simp add: advance_point_def advance_main_def at_phase_def)
  then show ?case using Cons.IH [OF w'(3), of "cy_next n"] w'(2) n(3) Cons.prems(3) run_first by fastforce
qed

lemma two_libs_waits:
  "\<exists>w0 w'. started two_libs conf_disk = Some w0 \<and> fine_run two_libs None None (At Conf, w0) (At Ready, w')"
proof -
  obtain w0 w1 where w1: "started two_libs conf_disk = Some w0"
      "fine_run two_libs None None (At Conf, w0) (At InitStart, w1)"
    using two_libs_starts by blast
  have i: "finv (=) two_libs None None (At Conf, w0)"
    by (rule finv_phase, rule started_inv [OF two_libs_ok(1,3,2) w1(1)])
  have "finv (=) two_libs None None (At InitStart, w1)" by (rule rounds.reach_good [OF w1(2) i])
  then obtain as cells where b: "base two_libs w1 as cells" by auto
  have "msg_fits (1051, LOGINF, ''--start TimeInit'')" by (simp add: fits_short)
  then obtain w2 where w2: "logLog two_libs 1051 LOGINF ''--start TimeInit'' w1 = Some w2" "base two_libs w2 as cells" "kept w1 w2"
    using base_log [OF b] by metis
  then have a: "advance_point two_libs None None (At InitStart) w1 = Some (At (Init (cychead w1)), w2)"
    by (simp add: advance_point_def advance_main_def at_phase_def)
  have "tasks w2 as" using w2(2) by (simp add: base_def)
  then have "lpath cy_next (cycs w2) (cychead w1) as None" using tasksD(1) w2(3) by (metis kept_def)
  then obtain w3 where "fine_run two_libs None None (At (Init (cychead w1)), w2) (At Ready, w3)"
    using two_libs_ready [OF w2(2)] by blast
  then show ?thesis using w1 run_first [OF a] by (meson rtranclp_trans)
qed

section \<open>Property\<close>

text \<open>
  C4: The waiting daemon does what its files say. Whatever alarms and SIGUSR1 signals were handled since it was started,
  when it waits its tasks are the libraries with a section, in the order of the directory, each with the data and the
  section of its library; and the next alarm goes through exactly these libraries, in this order: it advances the
  counter of each and calls, of those that are due, the search, process and send functions the linker found in them.
\<close>

theorem daemon_serves:
  assumes "host_ok E" "at_start w" "env_ok T E c l" "started E w = Some w0"
    and "file_text w (conf_path c) = Some content" "not_log E ''./logs/main.log'' (conf_path c) w"
    and "fine_run E c l (At Conf, w0) (At Ready, w')"
  shows "\<exists>secs ds as w'' ess. conf_sections (conf_entries content) = Some secs \<and> entries E (libdir l) = Some ds \<and>
    startable E (libdir l) secs (filter eligible ds) \<and> tasks w' as \<and>
    list_all2 (runs_section E (libdir l) w') as (assigned secs [] (filter eligible ds)) \<and>
    cycleTimeMethod E 14 w' = Some w'' \<and> tr w'' = tr w' @ concat ess \<and>
    list_all2 (\<lambda>(a, d, s) es. serves T E (libdir l) w' w'' a d es) (zip as (assigned secs [] (filter eligible ds))) ess"
proof -
  have i: "finv T E c l (At Conf, w0)" by (rule finv_phase, rule started_inv [OF assms(1-4)])
  obtain v where v: "fine_run E c l (At Conf, w0) (At InitStart, v)" "undisturbed v w'"
    using past_start_run [OF i assms(7)] by auto
  obtain secs ds as where r: "conf_sections (conf_entries content) = Some secs" "entries E (libdir l) = Some ds"
      "startable E (libdir l) secs (filter eligible ds)" "tasks v as"
      "list_all2 (runs_section E (libdir l) v) as (assigned secs [] (filter eligible ds))"
    using start_result [OF assms(1-6) v(1)] by blast
  have "finv T E c l (At Ready, w')" by (rule rounds.reach_good [OF assms(7) i])
  then obtain bs where b: "tame T E" "main_log_ok E w'" "tasks w' bs" "clocks_ok w' bs"
    by (auto simp: env_ok_def base_def)
  then have t: "tasks w' as" "clocks_ok w' as" using undisturbed_tasks [OF v(2) r(4)] by simp_all
  have sec: "list_all2 (runs_section E (libdir l) w') as (assigned secs [] (filter eligible ds))"
    by (rule list.rel_mono_strong [OF r(5) undisturbed_runs_section [OF v(2)]])
  obtain w'' ess where w'': "cycleTimeMethod E 14 w' = Some w''" "ticking T E w' as [] ess w''"
    using cycleTimeMethod_ok [OF b(1,2) t] by blast
  then have "list_all2 (ticked T w' w'') as ess" "tr w'' = tr w' @ concat ess" by (simp_all add: ticking_def kept_def)
  then show ?thesis using r(1,2,3) t(1) sec w''(1) served_tasks [OF _ sec] by blast
qed

theorem daemon_serves_witness:
  "\<exists>w0 w' a w'' es. started two_libs conf_disk = Some w0 \<and> fine_run two_libs None None (At Conf, w0) (At Ready, w') \<and>
     tasks w' [a] \<and> cycleTimeMethod two_libs 14 w' = Some w'' \<and> tr w'' = tr w' @ es \<and>
     serves (=) two_libs ''../libdir'' w' w'' a ''liba.so'' es"
proof -
  obtain w0 w' where w0: "started two_libs conf_disk = Some w0"
      "fine_run two_libs None None (At Conf, w0) (At Ready, w')"
    using two_libs_waits by blast
  have d: "entries two_libs (libdir None) = Some [''liba.so'', ''x'', ''libb.so'']" "libdir None = ''../libdir''"
    by (simp_all add: two_libs_def libdir_def)
  obtain as w'' ess where x: "tasks w' as" "list_all2 (runs_section two_libs ''../libdir'' w') as
        [(''liba.so'', (''A'', [(''k'', ''1'')]))]" "cycleTimeMethod two_libs 14 w' = Some w''" "tr w'' = tr w' @ concat ess"
      "list_all2 (\<lambda>(a, d, s) es. serves (=) two_libs ''../libdir'' w' w'' a d es)
        (zip as [(''liba.so'', (''A'', [(''k'', ''1'')]))]) ess"
    using daemon_serves [OF two_libs_ok(1,3,2) w0(1) conf_disk_text w0(2)] d conf_disk_spec(1,2,4) by auto
  obtain a where a: "as = [a]" using x(2) by (auto simp: list_all2_Cons2)
  then obtain es where "ess = [es]" "serves (=) two_libs ''../libdir'' w' w'' a ''liba.so'' es"
    using x(5) by (auto simp: list_all2_Cons1)
  then show ?thesis using w0 x(1,3,4) a by fastforce
qed

end
