(* ===== verification/ByteOrder.thy ===== *)
theory ByteOrder
  imports Prelude
begin

text \<open>
  The byte-order macros of the MySQL client headers: \<^verbatim>\<open>my_global.h\<close> (low byte first, \<open>uint2korr\<close> to
  \<open>int8store\<close>, in the portable form and in the form for x86) and \<^verbatim>\<open>myisampack.h\<close> (high byte first,
  \<open>mi_uint2korr\<close> to \<open>mi_int8store\<close>).

  Memory is a list of bytes from the pointer of the macro on; a read or a write outside it has no
  value. The reads give words of the width of the C type, the signed ones their signed value. The
  specification is arithmetic: the value of a string of bytes, and the bytes of a number.
\<close>

unbundle bit_operations_syntax

type_synonym bytes = "8 word list"

section \<open>Helpers of the model\<close>

text \<open>A macro applied to \<open>T + k\<close>.\<close>

definition at_off :: "nat \<Rightarrow> (bytes \<Rightarrow> bytes option) \<Rightarrow> bytes \<Rightarrow> bytes option" where
  "at_off k f T = (if k \<le> length T then map_option ((@) (take k T)) (f (drop k T)) else None)"

definition get_off :: "nat \<Rightarrow> (bytes \<Rightarrow> 'a option) \<Rightarrow> bytes \<Rightarrow> 'a option" where
  "get_off k f T = (if k \<le> length T then f (drop k T) else None)"

section \<open>my_global.h, portable form\<close>

definition sint2korr :: "bytes \<Rightarrow> int option" where
  "sint2korr A = do { a0 \<leftarrow> rd A 0; a1 \<leftarrow> rd A 1;
     Some (sint (ucast a0 + push_bit 8 (ucast a1) :: 16 word)) }"

definition sint3korr :: "bytes \<Rightarrow> int option" where
  "sint3korr A = do { a0 \<leftarrow> rd A 0; a1 \<leftarrow> rd A 1; a2 \<leftarrow> rd A 2;
     Some (sint (if a2 AND 128 \<noteq> 0
       then push_bit 24 255 OR push_bit 16 (ucast a2) OR push_bit 8 (ucast a1) OR ucast a0
       else push_bit 16 (ucast a2) OR push_bit 8 (ucast a1) OR ucast a0 :: 32 word)) }"

definition sint4korr :: "bytes \<Rightarrow> int option" where
  "sint4korr A = do { a0 \<leftarrow> rd A 0; a1 \<leftarrow> rd A 1; a2 \<leftarrow> rd A 2; a3 \<leftarrow> rd A 3;
     Some (sint (ucast a0 + push_bit 8 (ucast a1) + push_bit 16 (ucast a2) + push_bit 24 (ucast a3) :: 32 word)) }"

definition uint2korr :: "bytes \<Rightarrow> 16 word option" where
  "uint2korr A = do { a0 \<leftarrow> rd A 0; a1 \<leftarrow> rd A 1;
     Some (ucast a0 + push_bit 8 (ucast a1)) }"

definition uint3korr :: "bytes \<Rightarrow> 32 word option" where
  "uint3korr A = do { a0 \<leftarrow> rd A 0; a1 \<leftarrow> rd A 1; a2 \<leftarrow> rd A 2;
     Some (ucast a0 + push_bit 8 (ucast a1) + push_bit 16 (ucast a2)) }"

definition uint4korr :: "bytes \<Rightarrow> 32 word option" where
  "uint4korr A = do { a0 \<leftarrow> rd A 0; a1 \<leftarrow> rd A 1; a2 \<leftarrow> rd A 2; a3 \<leftarrow> rd A 3;
     Some (ucast a0 + push_bit 8 (ucast a1) + push_bit 16 (ucast a2) + push_bit 24 (ucast a3)) }"

definition uint5korr :: "bytes \<Rightarrow> 64 word option" where
  "uint5korr A = do { a0 \<leftarrow> rd A 0; a1 \<leftarrow> rd A 1; a2 \<leftarrow> rd A 2; a3 \<leftarrow> rd A 3; a4 \<leftarrow> rd A 4;
     Some (ucast (ucast a0 + push_bit 8 (ucast a1) + push_bit 16 (ucast a2) + push_bit 24 (ucast a3) :: 32 word) +
       push_bit 32 (ucast a4)) }"

definition uint6korr :: "bytes \<Rightarrow> 64 word option" where
  "uint6korr A = do { a0 \<leftarrow> rd A 0; a1 \<leftarrow> rd A 1; a2 \<leftarrow> rd A 2; a3 \<leftarrow> rd A 3; a4 \<leftarrow> rd A 4; a5 \<leftarrow> rd A 5;
     Some (ucast (ucast a0 + push_bit 8 (ucast a1) + push_bit 16 (ucast a2) + push_bit 24 (ucast a3) :: 32 word) +
       push_bit 32 (ucast a4) + push_bit 40 (ucast a5)) }"

definition uint8korr :: "bytes \<Rightarrow> 64 word option" where
  "uint8korr A = do { a0 \<leftarrow> rd A 0; a1 \<leftarrow> rd A 1; a2 \<leftarrow> rd A 2; a3 \<leftarrow> rd A 3; a4 \<leftarrow> rd A 4; a5 \<leftarrow> rd A 5; a6 \<leftarrow> rd A 6; a7 \<leftarrow> rd A 7;
     Some (ucast (ucast a0 + push_bit 8 (ucast a1) + push_bit 16 (ucast a2) + push_bit 24 (ucast a3) :: 32 word) +
       push_bit 32 (ucast (ucast a4 + push_bit 8 (ucast a5) + push_bit 16 (ucast a6) + push_bit 24 (ucast a7) :: 32 word))) }"

definition sint8korr :: "bytes \<Rightarrow> int option" where
  "sint8korr A = map_option sint (uint8korr A)"

definition int2store :: "bytes \<Rightarrow> 'a::len word \<Rightarrow> bytes option" where
  "int2store T A = do {
     let def_temp = (ucast A :: 32 word);
     T \<leftarrow> wr T 0 (ucast def_temp);
     wr T 1 (ucast (drop_bit 8 def_temp)) }"

definition int3store :: "bytes \<Rightarrow> 'a::len word \<Rightarrow> bytes option" where
  "int3store T A = do {
     T \<leftarrow> wr T 0 (ucast A);
     T \<leftarrow> wr T 1 (ucast (drop_bit 8 A));
     wr T 2 (ucast (drop_bit 16 A)) }"

definition int4store :: "bytes \<Rightarrow> 'a::len word \<Rightarrow> bytes option" where
  "int4store T A = do {
     T \<leftarrow> wr T 0 (ucast A);
     T \<leftarrow> wr T 1 (ucast (drop_bit 8 A));
     T \<leftarrow> wr T 2 (ucast (drop_bit 16 A));
     wr T 3 (ucast (drop_bit 24 A)) }"

definition int5store :: "bytes \<Rightarrow> 64 word \<Rightarrow> bytes option" where
  "int5store T A = do {
     T \<leftarrow> wr T 0 (ucast A);
     T \<leftarrow> wr T 1 (ucast (drop_bit 8 A));
     T \<leftarrow> wr T 2 (ucast (drop_bit 16 A));
     T \<leftarrow> wr T 3 (ucast (drop_bit 24 A));
     wr T 4 (ucast (drop_bit 32 A)) }"

definition int6store :: "bytes \<Rightarrow> 64 word \<Rightarrow> bytes option" where
  "int6store T A = do {
     T \<leftarrow> wr T 0 (ucast A);
     T \<leftarrow> wr T 1 (ucast (drop_bit 8 A));
     T \<leftarrow> wr T 2 (ucast (drop_bit 16 A));
     T \<leftarrow> wr T 3 (ucast (drop_bit 24 A));
     T \<leftarrow> wr T 4 (ucast (drop_bit 32 A));
     wr T 5 (ucast (drop_bit 40 A)) }"

definition int8store :: "bytes \<Rightarrow> 64 word \<Rightarrow> bytes option" where
  "int8store T A = do {
     let def_temp = (ucast A :: 32 word); let def_temp2 = (ucast (drop_bit 32 A) :: 32 word);
     T \<leftarrow> int4store T def_temp;
     at_off 4 (\<lambda>T. int4store T def_temp2) T }"

text \<open>Reading a 32-bit integer in network byte order.\<close>

definition int4net :: "bytes \<Rightarrow> int option" where
  "int4net A = do { a0 \<leftarrow> rd A 0; a1 \<leftarrow> rd A 1; a2 \<leftarrow> rd A 2; a3 \<leftarrow> rd A 3;
     Some (sint (ucast a3 OR push_bit 8 (ucast a2) OR push_bit 16 (ucast a1) OR push_bit 24 (ucast a0) :: 32 word)) }"

text \<open>The forms for machine format on a machine that stores the low byte first.\<close>

definition ushortget :: "bytes \<Rightarrow> 16 word option" where
  "ushortget M = uint2korr M"

definition shortget :: "bytes \<Rightarrow> int option" where
  "shortget M = sint2korr M"

definition longget :: "bytes \<Rightarrow> int option" where
  "longget M = sint4korr M"

definition ulongget :: "bytes \<Rightarrow> 32 word option" where
  "ulongget M = uint4korr M"

definition shortstore :: "bytes \<Rightarrow> 'a::len word \<Rightarrow> bytes option" where
  "shortstore T V = int2store T V"

definition longstore :: "bytes \<Rightarrow> 'a::len word \<Rightarrow> bytes option" where
  "longstore T V = int4store T V"

section \<open>my_global.h, form for x86\<close>

text \<open>
  There the macros read through a pointer to the wider type: \<open>*((const uint32 *) (A))\<close> has the value of
  the bytes the machine stores, low byte first, and needs all of them.
\<close>

fun le_value :: "bytes \<Rightarrow> nat" where
  "le_value [] = 0"
| "le_value (b # bs) = unat b + 256 * le_value bs"

fun le_bytes :: "nat \<Rightarrow> nat \<Rightarrow> bytes" where
  "le_bytes 0 x = []"
| "le_bytes (Suc n) x = word_of_nat x # le_bytes n (x div 256)"

definition x86_load :: "nat \<Rightarrow> bytes \<Rightarrow> 'a::len word option" where
  "x86_load n A = (if n \<le> length A then Some (word_of_nat (le_value (take n A))) else None)"

definition x86_save :: "nat \<Rightarrow> bytes \<Rightarrow> 'a::len word \<Rightarrow> bytes option" where
  "x86_save n T V = (if n \<le> length T then Some (le_bytes n (unat V) @ drop n T) else None)"

definition x86_sint2korr :: "bytes \<Rightarrow> int option" where
  "x86_sint2korr A = map_option sint (x86_load 2 A :: 16 word option)"

definition x86_sint3korr :: "bytes \<Rightarrow> int option" where
  "x86_sint3korr A = do { a0 \<leftarrow> rd A 0; a1 \<leftarrow> rd A 1; a2 \<leftarrow> rd A 2;
     Some (sint (if a2 AND 128 \<noteq> 0
       then push_bit 24 255 OR push_bit 16 (ucast a2) OR push_bit 8 (ucast a1) OR ucast a0
       else push_bit 16 (ucast a2) OR push_bit 8 (ucast a1) OR ucast a0 :: 32 word)) }"

definition x86_sint4korr :: "bytes \<Rightarrow> int option" where
  "x86_sint4korr A = map_option sint (x86_load 4 A :: 32 word option)"

definition x86_uint2korr :: "bytes \<Rightarrow> 16 word option" where
  "x86_uint2korr A = x86_load 2 A"

definition x86_uint3korr_purify :: "bytes \<Rightarrow> 32 word option" where
  "x86_uint3korr_purify A = do { a0 \<leftarrow> rd A 0; a1 \<leftarrow> rd A 1; a2 \<leftarrow> rd A 2;
     Some (ucast a0 + push_bit 8 (ucast a1) + push_bit 16 (ucast a2)) }"

definition x86_uint3korr :: "bytes \<Rightarrow> 32 word option" where
  "x86_uint3korr A = map_option (\<lambda>v. v AND 0xFFFFFF) (x86_load 4 A)"

definition x86_uint4korr :: "bytes \<Rightarrow> 32 word option" where
  "x86_uint4korr A = x86_load 4 A"

definition x86_uint5korr :: "bytes \<Rightarrow> 64 word option" where
  "x86_uint5korr A = do { a0 \<leftarrow> rd A 0; a1 \<leftarrow> rd A 1; a2 \<leftarrow> rd A 2; a3 \<leftarrow> rd A 3; a4 \<leftarrow> rd A 4;
     Some (ucast (ucast a0 + push_bit 8 (ucast a1) + push_bit 16 (ucast a2) + push_bit 24 (ucast a3) :: 32 word) +
       push_bit 32 (ucast a4)) }"

definition x86_uint6korr :: "bytes \<Rightarrow> 64 word option" where
  "x86_uint6korr A = do { a0 \<leftarrow> rd A 0; a1 \<leftarrow> rd A 1; a2 \<leftarrow> rd A 2; a3 \<leftarrow> rd A 3; a4 \<leftarrow> rd A 4; a5 \<leftarrow> rd A 5;
     Some (ucast (ucast a0 + push_bit 8 (ucast a1) + push_bit 16 (ucast a2) + push_bit 24 (ucast a3) :: 32 word) +
       push_bit 32 (ucast a4) + push_bit 40 (ucast a5)) }"

definition x86_uint8korr :: "bytes \<Rightarrow> 64 word option" where
  "x86_uint8korr A = x86_load 8 A"

definition x86_sint8korr :: "bytes \<Rightarrow> int option" where
  "x86_sint8korr A = map_option sint (x86_load 8 A :: 64 word option)"

definition x86_int2store :: "bytes \<Rightarrow> 'a::len word \<Rightarrow> bytes option" where
  "x86_int2store T A = x86_save 2 T (ucast A :: 16 word)"

definition x86_int3store :: "bytes \<Rightarrow> 'a::len word \<Rightarrow> bytes option" where
  "x86_int3store T A = do {
     T \<leftarrow> wr T 0 (ucast A);
     T \<leftarrow> wr T 1 (ucast (drop_bit 8 (ucast A :: 32 word)));
     wr T 2 (ucast (drop_bit 16 A)) }"

definition x86_int4store :: "bytes \<Rightarrow> 'a::len word \<Rightarrow> bytes option" where
  "x86_int4store T A = x86_save 4 T (ucast A :: 32 word)"

definition x86_int5store :: "bytes \<Rightarrow> 64 word \<Rightarrow> bytes option" where
  "x86_int5store T A = do {
     T \<leftarrow> wr T 0 (ucast A);
     T \<leftarrow> wr T 1 (ucast (drop_bit 8 A));
     T \<leftarrow> wr T 2 (ucast (drop_bit 16 A));
     T \<leftarrow> wr T 3 (ucast (drop_bit 24 A));
     wr T 4 (ucast (drop_bit 32 A)) }"

definition x86_int6store :: "bytes \<Rightarrow> 64 word \<Rightarrow> bytes option" where
  "x86_int6store T A = do {
     T \<leftarrow> wr T 0 (ucast A);
     T \<leftarrow> wr T 1 (ucast (drop_bit 8 A));
     T \<leftarrow> wr T 2 (ucast (drop_bit 16 A));
     T \<leftarrow> wr T 3 (ucast (drop_bit 24 A));
     T \<leftarrow> wr T 4 (ucast (drop_bit 32 A));
     wr T 5 (ucast (drop_bit 40 A)) }"

definition x86_int8store :: "bytes \<Rightarrow> 64 word \<Rightarrow> bytes option" where
  "x86_int8store T A = x86_save 8 T A"

section \<open>myisampack.h\<close>

definition mi_sint1korr :: "bytes \<Rightarrow> int option" where
  "mi_sint1korr A = map_option sint (rd A 0)"

definition mi_uint1korr :: "bytes \<Rightarrow> 8 word option" where
  "mi_uint1korr A = rd A 0"

definition mi_sint2korr :: "bytes \<Rightarrow> int option" where
  "mi_sint2korr A = do { a0 \<leftarrow> rd A 0; a1 \<leftarrow> rd A 1;
     Some (sint (ucast a1 + push_bit 8 (ucast a0) :: 16 word)) }"

definition mi_sint3korr :: "bytes \<Rightarrow> int option" where
  "mi_sint3korr A = do { a0 \<leftarrow> rd A 0; a1 \<leftarrow> rd A 1; a2 \<leftarrow> rd A 2;
     Some (sint (if a0 AND 128 \<noteq> 0
       then push_bit 24 255 OR push_bit 16 (ucast a0) OR push_bit 8 (ucast a1) OR ucast a2
       else push_bit 16 (ucast a0) OR push_bit 8 (ucast a1) OR ucast a2 :: 32 word)) }"

definition mi_sint4korr :: "bytes \<Rightarrow> int option" where
  "mi_sint4korr A = do { a0 \<leftarrow> rd A 0; a1 \<leftarrow> rd A 1; a2 \<leftarrow> rd A 2; a3 \<leftarrow> rd A 3;
     Some (sint (ucast a3 + push_bit 8 (ucast a2) + push_bit 16 (ucast a1) + push_bit 24 (ucast a0) :: 32 word)) }"

definition mi_uint2korr :: "bytes \<Rightarrow> 16 word option" where
  "mi_uint2korr A = do { a0 \<leftarrow> rd A 0; a1 \<leftarrow> rd A 1;
     Some (ucast a1 + push_bit 8 (ucast a0)) }"

definition mi_uint3korr :: "bytes \<Rightarrow> 32 word option" where
  "mi_uint3korr A = do { a0 \<leftarrow> rd A 0; a1 \<leftarrow> rd A 1; a2 \<leftarrow> rd A 2;
     Some (ucast a2 + push_bit 8 (ucast a1) + push_bit 16 (ucast a0)) }"

definition mi_uint4korr :: "bytes \<Rightarrow> 32 word option" where
  "mi_uint4korr A = do { a0 \<leftarrow> rd A 0; a1 \<leftarrow> rd A 1; a2 \<leftarrow> rd A 2; a3 \<leftarrow> rd A 3;
     Some (ucast a3 + push_bit 8 (ucast a2) + push_bit 16 (ucast a1) + push_bit 24 (ucast a0)) }"

definition mi_uint5korr :: "bytes \<Rightarrow> 64 word option" where
  "mi_uint5korr A = do { a0 \<leftarrow> rd A 0; a1 \<leftarrow> rd A 1; a2 \<leftarrow> rd A 2; a3 \<leftarrow> rd A 3; a4 \<leftarrow> rd A 4;
     Some (ucast (ucast a4 + push_bit 8 (ucast a3) + push_bit 16 (ucast a2) + push_bit 24 (ucast a1) :: 32 word) +
       push_bit 32 (ucast a0)) }"

definition mi_uint6korr :: "bytes \<Rightarrow> 64 word option" where
  "mi_uint6korr A = do { a0 \<leftarrow> rd A 0; a1 \<leftarrow> rd A 1; a2 \<leftarrow> rd A 2; a3 \<leftarrow> rd A 3; a4 \<leftarrow> rd A 4; a5 \<leftarrow> rd A 5;
     Some (ucast (ucast a5 + push_bit 8 (ucast a4) + push_bit 16 (ucast a3) + push_bit 24 (ucast a2) :: 32 word) +
       push_bit 32 (ucast (ucast a1 + push_bit 8 (ucast a0) :: 32 word))) }"

definition mi_uint7korr :: "bytes \<Rightarrow> 64 word option" where
  "mi_uint7korr A = do { a0 \<leftarrow> rd A 0; a1 \<leftarrow> rd A 1; a2 \<leftarrow> rd A 2; a3 \<leftarrow> rd A 3; a4 \<leftarrow> rd A 4; a5 \<leftarrow> rd A 5; a6 \<leftarrow> rd A 6;
     Some (ucast (ucast a6 + push_bit 8 (ucast a5) + push_bit 16 (ucast a4) + push_bit 24 (ucast a3) :: 32 word) +
       push_bit 32 (ucast (ucast a2 + push_bit 8 (ucast a1) + push_bit 16 (ucast a0) :: 32 word))) }"

definition mi_uint8korr :: "bytes \<Rightarrow> 64 word option" where
  "mi_uint8korr A = do { a0 \<leftarrow> rd A 0; a1 \<leftarrow> rd A 1; a2 \<leftarrow> rd A 2; a3 \<leftarrow> rd A 3; a4 \<leftarrow> rd A 4; a5 \<leftarrow> rd A 5; a6 \<leftarrow> rd A 6; a7 \<leftarrow> rd A 7;
     Some (ucast (ucast a7 + push_bit 8 (ucast a6) + push_bit 16 (ucast a5) + push_bit 24 (ucast a4) :: 32 word) +
       push_bit 32 (ucast (ucast a3 + push_bit 8 (ucast a2) + push_bit 16 (ucast a1) + push_bit 24 (ucast a0) :: 32 word))) }"

definition mi_sint8korr :: "bytes \<Rightarrow> int option" where
  "mi_sint8korr A = map_option sint (mi_uint8korr A)"

definition mi_int1store :: "bytes \<Rightarrow> 'a::len word \<Rightarrow> bytes option" where
  "mi_int1store T A = do {
     wr T 0 (ucast A) }"

definition mi_int2store :: "bytes \<Rightarrow> 'a::len word \<Rightarrow> bytes option" where
  "mi_int2store T A = do {
     let def_temp = (ucast A :: 32 word);
     T \<leftarrow> wr T 1 (ucast def_temp);
     wr T 0 (ucast (drop_bit 8 def_temp)) }"

definition mi_int3store :: "bytes \<Rightarrow> 'a::len word \<Rightarrow> bytes option" where
  "mi_int3store T A = do {
     let def_temp = (ucast A :: 64 word);
     T \<leftarrow> wr T 2 (ucast def_temp);
     T \<leftarrow> wr T 1 (ucast (drop_bit 8 def_temp));
     wr T 0 (ucast (drop_bit 16 def_temp)) }"

definition mi_int4store :: "bytes \<Rightarrow> 'a::len word \<Rightarrow> bytes option" where
  "mi_int4store T A = do {
     let def_temp = (ucast A :: 64 word);
     T \<leftarrow> wr T 3 (ucast def_temp);
     T \<leftarrow> wr T 2 (ucast (drop_bit 8 def_temp));
     T \<leftarrow> wr T 1 (ucast (drop_bit 16 def_temp));
     wr T 0 (ucast (drop_bit 24 def_temp)) }"

definition mi_int5store :: "bytes \<Rightarrow> 64 word \<Rightarrow> bytes option" where
  "mi_int5store T A = do {
     let def_temp = A;
     let def_temp2 = drop_bit 32 A;
     T \<leftarrow> wr T 4 (ucast def_temp);
     T \<leftarrow> wr T 3 (ucast (drop_bit 8 def_temp));
     T \<leftarrow> wr T 2 (ucast (drop_bit 16 def_temp));
     T \<leftarrow> wr T 1 (ucast (drop_bit 24 def_temp));
     wr T 0 (ucast def_temp2) }"

definition mi_int6store :: "bytes \<Rightarrow> 64 word \<Rightarrow> bytes option" where
  "mi_int6store T A = do {
     let def_temp = A;
     let def_temp2 = drop_bit 32 A;
     T \<leftarrow> wr T 5 (ucast def_temp);
     T \<leftarrow> wr T 4 (ucast (drop_bit 8 def_temp));
     T \<leftarrow> wr T 3 (ucast (drop_bit 16 def_temp));
     T \<leftarrow> wr T 2 (ucast (drop_bit 24 def_temp));
     T \<leftarrow> wr T 1 (ucast def_temp2);
     wr T 0 (ucast (drop_bit 8 def_temp2)) }"

definition mi_int7store :: "bytes \<Rightarrow> 64 word \<Rightarrow> bytes option" where
  "mi_int7store T A = do {
     let def_temp = A;
     let def_temp2 = drop_bit 32 A;
     T \<leftarrow> wr T 6 (ucast def_temp);
     T \<leftarrow> wr T 5 (ucast (drop_bit 8 def_temp));
     T \<leftarrow> wr T 4 (ucast (drop_bit 16 def_temp));
     T \<leftarrow> wr T 3 (ucast (drop_bit 24 def_temp));
     T \<leftarrow> wr T 2 (ucast def_temp2);
     T \<leftarrow> wr T 1 (ucast (drop_bit 8 def_temp2));
     wr T 0 (ucast (drop_bit 16 def_temp2)) }"

definition mi_int8store :: "bytes \<Rightarrow> 64 word \<Rightarrow> bytes option" where
  "mi_int8store T A = do {
     let def_temp3 = A; let def_temp4 = drop_bit 32 A;
     T \<leftarrow> mi_int4store T def_temp4;
     at_off 4 (\<lambda>T. mi_int4store T def_temp3) T }"

text \<open>Row numbers, for tables of 32-bit row numbers, and file offsets of 64 bits.\<close>

definition mi_rowstore :: "bytes \<Rightarrow> 'a::len word \<Rightarrow> bytes option" where
  "mi_rowstore T A = do {
     T \<leftarrow> mi_int4store T (0 :: 32 word);
     at_off 4 (\<lambda>T. mi_int4store T A) T }"

definition mi_rowkorr :: "bytes \<Rightarrow> 32 word option" where
  "mi_rowkorr T = get_off 4 mi_uint4korr T"

definition mi_sizestore :: "bytes \<Rightarrow> 64 word \<Rightarrow> bytes option" where
  "mi_sizestore T A = mi_int8store T A"

definition mi_sizekorr :: "bytes \<Rightarrow> 64 word option" where
  "mi_sizekorr T = mi_uint8korr T"
section \<open>Values of byte strings\<close>

lemma length_le_bytes [simp]: "length (le_bytes n x) = n"
  by (induction n arbitrary: x) simp_all

lemma unat_byte: "unat (b :: 8 word) < 256"
  using unsigned_less [of b, where ?'a = nat] by simp

lemma le_value_bound: "le_value bs < 256 ^ length bs"
proof (induction bs)
  case (Cons b bs)
  have "unat b < 256" by (rule unat_byte)
  then show ?case using Cons by simp
qed simp

lemma le_value_bytes: "le_value (le_bytes n x) = x mod 256 ^ n"
proof (induction n arbitrary: x)
  case (Suc n)
  then show ?case by (simp add: unsigned_of_nat take_bit_eq_mod mod_mult2_eq)
qed simp

lemma le_bytes_value: "le_bytes (length bs) (le_value bs) = bs"
proof (induction bs)
  case (Cons b bs)
  have b: "unat b < 256" by (rule unat_byte)
  then have "(unat b + 256 * le_value bs) div 256 = le_value bs" by simp
  moreover have "word_of_nat (unat b + 256 * le_value bs) = b"
  proof -
    have "256 * (x :: 8 word) = 0" for x
    proof -
      have "(256 :: 8 word) = 0" by simp
      then show ?thesis by (metis mult_zero_left)
    qed
    then show ?thesis by simp
  qed
  ultimately show ?case using Cons by simp
qed simp

definition be_value :: "bytes \<Rightarrow> nat" where
  "be_value bs = le_value (rev bs)"

definition be_bytes :: "nat \<Rightarrow> nat \<Rightarrow> bytes" where
  "be_bytes n x = rev (le_bytes n x)"

lemma be_value_bytes: "be_value (be_bytes n x) = x mod 256 ^ n"
  by (simp add: be_value_def be_bytes_def le_value_bytes)

lemma length_be_bytes [simp]: "length (be_bytes n x) = n"
  by (simp add: be_bytes_def)

section \<open>What the macros compute\<close>

lemma byte_at: "(ucast (drop_bit k (A :: 'a::len word)) :: 8 word) = word_of_nat (unat A div 2 ^ k)"
  by (metis of_nat_unat unat_drop_bit_eq drop_bit_eq_div)

lemma ucast_sum:
  assumes "x < 2 ^ 32"
  shows "(ucast (word_of_nat x :: 32 word) :: 64 word) = word_of_nat x"
  using assms by (simp add: unsigned_of_nat take_bit_nat_eq_self word_eq_iff_unsigned)

lemma quad:
  fixes a0 a1 a2 a3 :: "8 word"
  shows "(ucast (ucast a0 + push_bit 8 (ucast a1) + push_bit 16 (ucast a2) + push_bit 24 (ucast a3) :: 32 word) :: 64 word)
    = ucast a0 + push_bit 8 (ucast a1) + push_bit 16 (ucast a2) + push_bit 24 (ucast a3)"
proof -
  let ?x = "unat a0 + 256 * unat a1 + 65536 * unat a2 + 16777216 * unat a3"
  have "unat a0 < 256" "unat a1 < 256" "unat a2 < 256" "unat a3 < 256"
    by (rule unat_byte)+
  then have "?x < 2 ^ 32" by simp
  then show ?thesis
    using ucast_sum [of ?x] by (simp add: push_bit_eq_mult mult.commute)
qed

lemma triple:
  fixes a0 a1 a2 :: "8 word"
  shows "(ucast (ucast a0 + push_bit 8 (ucast a1) + push_bit 16 (ucast a2) :: 32 word) :: 64 word)
    = ucast a0 + push_bit 8 (ucast a1) + push_bit 16 (ucast a2)"
  using quad [of a0 a1 a2 0] by simp

lemma pair:
  fixes a0 a1 :: "8 word"
  shows "(ucast (ucast a0 + push_bit 8 (ucast a1) :: 32 word) :: 64 word) = ucast a0 + push_bit 8 (ucast a1)"
  using quad [of a0 a1 0 0] by simp

text \<open>A macro that reads the first \<open>n\<close> bytes, and one that writes them.\<close>

definition reads_le :: "nat \<Rightarrow> (bytes \<Rightarrow> 'a::len word option) \<Rightarrow> bool" where
  "reads_le n f \<longleftrightarrow> (\<forall>A. f A = (if n \<le> length A then Some (word_of_nat (le_value (take n A))) else None))"

definition reads_be :: "nat \<Rightarrow> (bytes \<Rightarrow> 'a::len word option) \<Rightarrow> bool" where
  "reads_be n f \<longleftrightarrow> (\<forall>A. f A = (if n \<le> length A then Some (word_of_nat (be_value (take n A))) else None))"

definition writes_le :: "nat \<Rightarrow> (bytes \<Rightarrow> 'a::len word \<Rightarrow> bytes option) \<Rightarrow> bool" where
  "writes_le n f \<longleftrightarrow> (\<forall>T A. f T A = (if n \<le> length T then Some (le_bytes n (unat A) @ drop n T) else None))"

definition writes_be :: "nat \<Rightarrow> (bytes \<Rightarrow> 'a::len word \<Rightarrow> bytes option) \<Rightarrow> bool" where
  "writes_be n f \<longleftrightarrow> (\<forall>T A. f T A = (if n \<le> length T then Some (be_bytes n (unat A) @ drop n T) else None))"

lemma length_split:
  "n \<le> length (A :: bytes) \<Longrightarrow> (\<And>bs r. A = bs @ r \<Longrightarrow> length bs = n \<Longrightarrow> thesis) \<Longrightarrow> thesis"
  by (metis append_take_drop_id length_take min_absorb2)

lemma at_least:
  "(2 \<le> length (A :: bytes)) \<longleftrightarrow> (\<exists>a0 a1 r. A = a0 # a1 # r)"
  "(3 \<le> length A) \<longleftrightarrow> (\<exists>a0 a1 a2 r. A = a0 # a1 # a2 # r)"
  "(4 \<le> length A) \<longleftrightarrow> (\<exists>a0 a1 a2 a3 r. A = a0 # a1 # a2 # a3 # r)"
  "(5 \<le> length A) \<longleftrightarrow> (\<exists>a0 a1 a2 a3 a4 r. A = a0 # a1 # a2 # a3 # a4 # r)"
  "(6 \<le> length A) \<longleftrightarrow> (\<exists>a0 a1 a2 a3 a4 a5 r. A = a0 # a1 # a2 # a3 # a4 # a5 # r)"
  "(7 \<le> length A) \<longleftrightarrow> (\<exists>a0 a1 a2 a3 a4 a5 a6 r. A = a0 # a1 # a2 # a3 # a4 # a5 # a6 # r)"
  "(8 \<le> length A) \<longleftrightarrow> (\<exists>a0 a1 a2 a3 a4 a5 a6 a7 r. A = a0 # a1 # a2 # a3 # a4 # a5 # a6 # a7 # r)"
  by (auto simp: Suc_le_length_iff numeral_eq_Suc)

lemma rd_Cons [simp]: "rd (a # A) 0 = Some a" "rd (a # A) (Suc i) = rd A i"
    "rd (a # A) (numeral k) = rd A (pred_numeral k)"
  by (simp_all add: rd_def numeral_eq_Suc)

lemma wr_Cons [simp]: "wr (a # A) 0 x = Some (x # A)" "wr (a # A) (Suc i) x = map_option ((#) a) (wr A i x)"
    "wr (a # A) (numeral k) x = map_option ((#) a) (wr A (pred_numeral k) x)"
  by (simp_all add: wr_def numeral_eq_Suc)

lemmas le_sums = push_bit_eq_mult algebra_simps quad triple pair

lemma reads_leI:
  assumes "\<And>A. n \<le> length A \<Longrightarrow> f A = Some (word_of_nat (le_value (take n A)))" "\<And>A. \<not> n \<le> length A \<Longrightarrow> f A = None"
  shows "reads_le n f"
  using assms by (simp add: reads_le_def)

lemma reads_beI:
  assumes "\<And>A. n \<le> length A \<Longrightarrow> f A = Some (word_of_nat (be_value (take n A)))" "\<And>A. \<not> n \<le> length A \<Longrightarrow> f A = None"
  shows "reads_be n f"
  using assms by (simp add: reads_be_def)

lemma writes_leI:
  assumes "\<And>T A. n \<le> length T \<Longrightarrow> f T A = Some (le_bytes n (unat A) @ drop n T)" "\<And>T A. \<not> n \<le> length T \<Longrightarrow> f T A = None"
  shows "writes_le n f"
  using assms by (simp add: writes_le_def)

lemma writes_beI:
  assumes "\<And>T A. n \<le> length T \<Longrightarrow> f T A = Some (be_bytes n (unat A) @ drop n T)" "\<And>T A. \<not> n \<le> length T \<Longrightarrow> f T A = None"
  shows "writes_be n f"
  using assms by (simp add: writes_be_def)

lemma le_bytes_numeral [simp]: "le_bytes (numeral k) x = word_of_nat x # le_bytes (pred_numeral k) (x div 256)"
  using le_bytes.simps(2) [of "pred_numeral k" x] by (simp only: numeral_eq_Suc [of k, symmetric])

lemma byte_cast:
  assumes "k + 8 \<le> LENGTH('b)"
  shows "(ucast (drop_bit k (ucast (A :: 'a::len word) :: 'b::len word)) :: 8 word) = ucast (drop_bit k A)"
  using assms by (intro bit_word_eqI) (auto simp: bit_simps)

lemma byte_cast0: "8 \<le> LENGTH('b) \<Longrightarrow> (ucast (ucast (A :: 'a::len word) :: 'b::len word) :: 8 word) = ucast A"
  using byte_cast [of 0, where 'b = 'b] by simp

lemma byte_shift: "(ucast (drop_bit k (drop_bit 32 (A :: 'a::len word))) :: 8 word) = ucast (drop_bit (k + 32) A)"
  by simp

lemma div_div: "x div 256 div (256 :: nat) = x div 65536" "x div 65536 div (256 :: nat) = x div 16777216"
    "x div 16777216 div (256 :: nat) = x div 4294967296" "x div 4294967296 div (256 :: nat) = x div 1099511627776"
    "x div 1099511627776 div (256 :: nat) = x div 281474976710656" "x div 281474976710656 div (256 :: nat) = x div 72057594037927936"
  by (simp_all add: div_mult2_eq [symmetric])

lemma uint2korr_reads: "reads_le 2 uint2korr"
proof (rule reads_leI)
  fix A :: bytes
  show "2 \<le> length A \<Longrightarrow> uint2korr A = Some (word_of_nat (le_value (take 2 A)))"
    by (auto simp: at_least uint2korr_def quad triple pair be_value_def) (simp add: push_bit_eq_mult algebra_simps)?
  show "\<not> 2 \<le> length A \<Longrightarrow> uint2korr A = None" by (simp add: uint2korr_def rd_def)
qed

lemma uint3korr_reads: "reads_le 3 uint3korr"
proof (rule reads_leI)
  fix A :: bytes
  show "3 \<le> length A \<Longrightarrow> uint3korr A = Some (word_of_nat (le_value (take 3 A)))"
    by (auto simp: at_least uint3korr_def quad triple pair be_value_def) (simp add: push_bit_eq_mult algebra_simps)?
  show "\<not> 3 \<le> length A \<Longrightarrow> uint3korr A = None" by (simp add: uint3korr_def rd_def)
qed

lemma uint4korr_reads: "reads_le 4 uint4korr"
proof (rule reads_leI)
  fix A :: bytes
  show "4 \<le> length A \<Longrightarrow> uint4korr A = Some (word_of_nat (le_value (take 4 A)))"
    by (auto simp: at_least uint4korr_def quad triple pair be_value_def) (simp add: push_bit_eq_mult algebra_simps)?
  show "\<not> 4 \<le> length A \<Longrightarrow> uint4korr A = None" by (simp add: uint4korr_def rd_def)
qed

lemma uint5korr_reads: "reads_le 5 uint5korr"
proof (rule reads_leI)
  fix A :: bytes
  show "5 \<le> length A \<Longrightarrow> uint5korr A = Some (word_of_nat (le_value (take 5 A)))"
    by (auto simp: at_least uint5korr_def quad triple pair be_value_def) (simp add: push_bit_eq_mult algebra_simps)?
  show "\<not> 5 \<le> length A \<Longrightarrow> uint5korr A = None" by (simp add: uint5korr_def rd_def)
qed

lemma uint6korr_reads: "reads_le 6 uint6korr"
proof (rule reads_leI)
  fix A :: bytes
  show "6 \<le> length A \<Longrightarrow> uint6korr A = Some (word_of_nat (le_value (take 6 A)))"
    by (auto simp: at_least uint6korr_def quad triple pair be_value_def) (simp add: push_bit_eq_mult algebra_simps)?
  show "\<not> 6 \<le> length A \<Longrightarrow> uint6korr A = None" by (simp add: uint6korr_def rd_def)
qed

lemma uint8korr_reads: "reads_le 8 uint8korr"
proof (rule reads_leI)
  fix A :: bytes
  show "8 \<le> length A \<Longrightarrow> uint8korr A = Some (word_of_nat (le_value (take 8 A)))"
    by (auto simp: at_least uint8korr_def quad triple pair be_value_def) (simp add: push_bit_eq_mult algebra_simps)?
  show "\<not> 8 \<le> length A \<Longrightarrow> uint8korr A = None" by (simp add: uint8korr_def rd_def)
qed

lemma int2store_writes: "writes_le 2 int2store"
proof (rule writes_leI)
  fix T :: bytes and A :: "'a::len word"
  show "2 \<le> length T \<Longrightarrow> int2store T A = Some (le_bytes 2 (unat A) @ drop 2 T)"
    by (auto simp: at_least int2store_def Let_def byte_cast byte_cast0 be_bytes_def) (simp_all add: byte_at div_div)?
  show "\<not> 2 \<le> length T \<Longrightarrow> int2store T A = None" by (simp add: int2store_def wr_def Let_def)
qed

lemma int3store_writes: "writes_le 3 int3store"
proof (rule writes_leI)
  fix T :: bytes and A :: "'a::len word"
  show "3 \<le> length T \<Longrightarrow> int3store T A = Some (le_bytes 3 (unat A) @ drop 3 T)"
    by (auto simp: at_least int3store_def Let_def byte_cast byte_cast0 be_bytes_def) (simp_all add: byte_at div_div)?
  show "\<not> 3 \<le> length T \<Longrightarrow> int3store T A = None" by (simp add: int3store_def wr_def Let_def)
qed

lemma int4store_writes: "writes_le 4 int4store"
proof (rule writes_leI)
  fix T :: bytes and A :: "'a::len word"
  show "4 \<le> length T \<Longrightarrow> int4store T A = Some (le_bytes 4 (unat A) @ drop 4 T)"
    by (auto simp: at_least int4store_def Let_def byte_cast byte_cast0 be_bytes_def) (simp_all add: byte_at div_div)?
  show "\<not> 4 \<le> length T \<Longrightarrow> int4store T A = None" by (simp add: int4store_def wr_def Let_def)
qed

lemma int5store_writes: "writes_le 5 int5store"
proof (rule writes_leI)
  fix T :: bytes and A :: "64 word"
  show "5 \<le> length T \<Longrightarrow> int5store T A = Some (le_bytes 5 (unat A) @ drop 5 T)"
    by (auto simp: at_least int5store_def Let_def byte_cast byte_cast0 be_bytes_def) (simp_all add: byte_at div_div)?
  show "\<not> 5 \<le> length T \<Longrightarrow> int5store T A = None" by (simp add: int5store_def wr_def Let_def)
qed

lemma int6store_writes: "writes_le 6 int6store"
proof (rule writes_leI)
  fix T :: bytes and A :: "64 word"
  show "6 \<le> length T \<Longrightarrow> int6store T A = Some (le_bytes 6 (unat A) @ drop 6 T)"
    by (auto simp: at_least int6store_def Let_def byte_cast byte_cast0 be_bytes_def) (simp_all add: byte_at div_div)?
  show "\<not> 6 \<le> length T \<Longrightarrow> int6store T A = None" by (simp add: int6store_def wr_def Let_def)
qed

lemma int8store_writes: "writes_le 8 int8store"
proof (rule writes_leI)
  fix T :: bytes and A :: "64 word"
  show "8 \<le> length T \<Longrightarrow> int8store T A = Some (le_bytes 8 (unat A) @ drop 8 T)"
    by (auto simp: at_least int8store_def Let_def byte_cast byte_cast0 be_bytes_def at_off_def int4store_def) (simp_all add: byte_at div_div)?
  show "\<not> 8 \<le> length T \<Longrightarrow> int8store T A = None" by (simp add: int8store_def wr_def Let_def at_off_def int4store_def)
qed

lemma mi_uint2korr_reads: "reads_be 2 mi_uint2korr"
proof (rule reads_beI)
  fix A :: bytes
  show "2 \<le> length A \<Longrightarrow> mi_uint2korr A = Some (word_of_nat (be_value (take 2 A)))"
    by (auto simp: at_least mi_uint2korr_def quad triple pair be_value_def) (simp add: push_bit_eq_mult algebra_simps)?
  show "\<not> 2 \<le> length A \<Longrightarrow> mi_uint2korr A = None" by (simp add: mi_uint2korr_def rd_def)
qed

lemma mi_uint3korr_reads: "reads_be 3 mi_uint3korr"
proof (rule reads_beI)
  fix A :: bytes
  show "3 \<le> length A \<Longrightarrow> mi_uint3korr A = Some (word_of_nat (be_value (take 3 A)))"
    by (auto simp: at_least mi_uint3korr_def quad triple pair be_value_def) (simp add: push_bit_eq_mult algebra_simps)?
  show "\<not> 3 \<le> length A \<Longrightarrow> mi_uint3korr A = None" by (simp add: mi_uint3korr_def rd_def)
qed

lemma mi_uint4korr_reads: "reads_be 4 mi_uint4korr"
proof (rule reads_beI)
  fix A :: bytes
  show "4 \<le> length A \<Longrightarrow> mi_uint4korr A = Some (word_of_nat (be_value (take 4 A)))"
    by (auto simp: at_least mi_uint4korr_def quad triple pair be_value_def) (simp add: push_bit_eq_mult algebra_simps)?
  show "\<not> 4 \<le> length A \<Longrightarrow> mi_uint4korr A = None" by (simp add: mi_uint4korr_def rd_def)
qed

lemma mi_uint5korr_reads: "reads_be 5 mi_uint5korr"
proof (rule reads_beI)
  fix A :: bytes
  show "5 \<le> length A \<Longrightarrow> mi_uint5korr A = Some (word_of_nat (be_value (take 5 A)))"
    by (auto simp: at_least mi_uint5korr_def quad triple pair be_value_def) (simp add: push_bit_eq_mult algebra_simps)?
  show "\<not> 5 \<le> length A \<Longrightarrow> mi_uint5korr A = None" by (simp add: mi_uint5korr_def rd_def)
qed

lemma mi_uint6korr_reads: "reads_be 6 mi_uint6korr"
proof (rule reads_beI)
  fix A :: bytes
  show "6 \<le> length A \<Longrightarrow> mi_uint6korr A = Some (word_of_nat (be_value (take 6 A)))"
    by (auto simp: at_least mi_uint6korr_def quad triple pair be_value_def) (simp add: push_bit_eq_mult algebra_simps)?
  show "\<not> 6 \<le> length A \<Longrightarrow> mi_uint6korr A = None" by (simp add: mi_uint6korr_def rd_def)
qed

lemma mi_uint7korr_reads: "reads_be 7 mi_uint7korr"
proof (rule reads_beI)
  fix A :: bytes
  show "7 \<le> length A \<Longrightarrow> mi_uint7korr A = Some (word_of_nat (be_value (take 7 A)))"
    by (auto simp: at_least mi_uint7korr_def quad triple pair be_value_def) (simp add: push_bit_eq_mult algebra_simps)?
  show "\<not> 7 \<le> length A \<Longrightarrow> mi_uint7korr A = None" by (simp add: mi_uint7korr_def rd_def)
qed

lemma mi_uint8korr_reads: "reads_be 8 mi_uint8korr"
proof (rule reads_beI)
  fix A :: bytes
  show "8 \<le> length A \<Longrightarrow> mi_uint8korr A = Some (word_of_nat (be_value (take 8 A)))"
    by (auto simp: at_least mi_uint8korr_def quad triple pair be_value_def) (simp add: push_bit_eq_mult algebra_simps)?
  show "\<not> 8 \<le> length A \<Longrightarrow> mi_uint8korr A = None" by (simp add: mi_uint8korr_def rd_def)
qed

lemma mi_int2store_writes: "writes_be 2 mi_int2store"
proof (rule writes_beI)
  fix T :: bytes and A :: "'a::len word"
  show "2 \<le> length T \<Longrightarrow> mi_int2store T A = Some (be_bytes 2 (unat A) @ drop 2 T)"
    by (auto simp: at_least mi_int2store_def Let_def byte_cast byte_cast0 be_bytes_def) (simp_all add: byte_at div_div)?
  show "\<not> 2 \<le> length T \<Longrightarrow> mi_int2store T A = None" by (simp add: mi_int2store_def wr_def Let_def)
qed

lemma mi_int3store_writes: "writes_be 3 mi_int3store"
proof (rule writes_beI)
  fix T :: bytes and A :: "'a::len word"
  show "3 \<le> length T \<Longrightarrow> mi_int3store T A = Some (be_bytes 3 (unat A) @ drop 3 T)"
    by (auto simp: at_least mi_int3store_def Let_def byte_cast byte_cast0 be_bytes_def) (simp_all add: byte_at div_div)?
  show "\<not> 3 \<le> length T \<Longrightarrow> mi_int3store T A = None" by (simp add: mi_int3store_def wr_def Let_def)
qed

lemma mi_int4store_writes: "writes_be 4 mi_int4store"
proof (rule writes_beI)
  fix T :: bytes and A :: "'a::len word"
  show "4 \<le> length T \<Longrightarrow> mi_int4store T A = Some (be_bytes 4 (unat A) @ drop 4 T)"
    by (auto simp: at_least mi_int4store_def Let_def byte_cast byte_cast0 be_bytes_def) (simp_all add: byte_at div_div)?
  show "\<not> 4 \<le> length T \<Longrightarrow> mi_int4store T A = None" by (simp add: mi_int4store_def wr_def Let_def)
qed

lemma mi_int5store_writes: "writes_be 5 mi_int5store"
proof (rule writes_beI)
  fix T :: bytes and A :: "64 word"
  show "5 \<le> length T \<Longrightarrow> mi_int5store T A = Some (be_bytes 5 (unat A) @ drop 5 T)"
    by (auto simp: at_least mi_int5store_def Let_def byte_cast byte_cast0 be_bytes_def) (simp_all add: byte_at div_div)?
  show "\<not> 5 \<le> length T \<Longrightarrow> mi_int5store T A = None" by (simp add: mi_int5store_def wr_def Let_def)
qed

lemma mi_int6store_writes: "writes_be 6 mi_int6store"
proof (rule writes_beI)
  fix T :: bytes and A :: "64 word"
  show "6 \<le> length T \<Longrightarrow> mi_int6store T A = Some (be_bytes 6 (unat A) @ drop 6 T)"
    by (auto simp: at_least mi_int6store_def Let_def byte_cast byte_cast0 be_bytes_def) (simp_all add: byte_at div_div)?
  show "\<not> 6 \<le> length T \<Longrightarrow> mi_int6store T A = None" by (simp add: mi_int6store_def wr_def Let_def)
qed

lemma mi_int7store_writes: "writes_be 7 mi_int7store"
proof (rule writes_beI)
  fix T :: bytes and A :: "64 word"
  show "7 \<le> length T \<Longrightarrow> mi_int7store T A = Some (be_bytes 7 (unat A) @ drop 7 T)"
    by (auto simp: at_least mi_int7store_def Let_def byte_cast byte_cast0 be_bytes_def) (simp_all add: byte_at div_div)?
  show "\<not> 7 \<le> length T \<Longrightarrow> mi_int7store T A = None" by (simp add: mi_int7store_def wr_def Let_def)
qed

lemma mi_int8store_writes: "writes_be 8 mi_int8store"
proof (rule writes_beI)
  fix T :: bytes and A :: "64 word"
  show "8 \<le> length T \<Longrightarrow> mi_int8store T A = Some (be_bytes 8 (unat A) @ drop 8 T)"
    by (auto simp: at_least mi_int8store_def Let_def byte_cast byte_cast0 be_bytes_def at_off_def mi_int4store_def) (simp_all add: byte_at div_div)?
  show "\<not> 8 \<le> length T \<Longrightarrow> mi_int8store T A = None" by (simp add: mi_int8store_def wr_def Let_def at_off_def mi_int4store_def)
qed

section \<open>Round trips\<close>

text \<open>
  A pair of macros that write and read an integer of \<open>n\<close> bytes: the laws of the one are stated by the
  bytes it writes, of the other by the value it reads. What follows holds for every such pair.
\<close>

locale byte_codec =
  fixes n :: nat
    and get :: "bytes \<Rightarrow> 'v::len word option"
    and store :: "bytes \<Rightarrow> 'v word \<Rightarrow> bytes option"
    and val :: "bytes \<Rightarrow> nat"
    and enc :: "nat \<Rightarrow> nat \<Rightarrow> bytes"
  assumes get_eq: "get A = (if n \<le> length A then Some (word_of_nat (val (take n A))) else None)"
    and store_eq: "store T V = (if n \<le> length T then Some (enc n (unat V) @ drop n T) else None)"
    and enc_length: "length (enc n x) = n"
    and val_enc: "val (enc n x) = x mod 256 ^ n"
begin

lemma round_trip:
  assumes "n \<le> length T"
  shows "\<exists>T'. store T V = Some T' \<and> get T' = Some (take_bit (8 * n) V) \<and> drop n T' = drop n T \<and> length T' = length T"
proof -
  have "word_of_nat (unat V mod 256 ^ n) = take_bit (8 * n) V"
  proof -
    have "(256 :: nat) ^ n = 2 ^ (8 * n)" by (simp add: power_mult)
    then have "unat V mod 256 ^ n = unat (take_bit (8 * n) V)"
      by (simp add: unsigned_take_bit_eq flip: take_bit_eq_mod)
    then show ?thesis by simp
  qed
  then show ?thesis using assms by (simp add: get_eq store_eq enc_length val_enc)
qed

lemma short: "length T < n \<Longrightarrow> store T V = None \<and> get T = None"
  by (simp add: get_eq store_eq)

lemma overwrite: "store T V = Some T' \<Longrightarrow> store T' W = store T W"
  by (auto simp: store_eq enc_length split: if_splits)

text \<open>A row of integers, each behind the other.\<close>

fun put_all :: "'v word list \<Rightarrow> bytes \<Rightarrow> bytes option" where
  "put_all [] T = Some T"
| "put_all (v # vs) T = do { T \<leftarrow> store T v; at_off n (put_all vs) T }"

fun get_all :: "nat \<Rightarrow> bytes \<Rightarrow> 'v word list option" where
  "get_all 0 T = Some []"
| "get_all (Suc k) T = do { v \<leftarrow> get T; vs \<leftarrow> get_off n (get_all k) T; Some (v # vs) }"

lemma put_get_all:
  "n * length vs \<le> length T \<Longrightarrow>
     \<exists>T'. put_all vs T = Some T' \<and> get_all (length vs) T' = Some (map (take_bit (8 * n)) vs) \<and> length T' = length T"
proof (induction vs arbitrary: T)
  case Nil
  then show ?case by simp
next
  case (Cons v vs)
  then have nl: "n \<le> length T" by simp
  obtain T1 where T1: "store T v = Some T1" "get T1 = Some (take_bit (8 * n) v)" "length T1 = length T"
    using round_trip [OF nl] by blast
  have "n * length vs \<le> length (drop n T1)" using Cons.prems T1(3) by simp
  then obtain T2 where T2: "put_all vs (drop n T1) = Some T2" "get_all (length vs) T2 = Some (map (take_bit (8 * n)) vs)"
      "length T2 = length (drop n T1)"
    using Cons.IH by blast
  have "get (take n T1 @ T2) = get T1" using T1(3) nl by (simp add: get_eq)
  then show ?case
    using T1 T2 nl by (simp add: at_off_def get_off_def)
qed

end

lemmas reads_defs = reads_le_def reads_be_def writes_le_def writes_be_def

lemma le_codec: "reads_le n get \<Longrightarrow> writes_le n store \<Longrightarrow> byte_codec n get store le_value le_bytes"
  by unfold_locales (simp_all add: reads_defs le_value_bytes)

lemma be_codec: "reads_be n get \<Longrightarrow> writes_be n store \<Longrightarrow> byte_codec n get store be_value be_bytes"
  by unfold_locales (simp_all add: reads_defs be_value_bytes)

interpretation le2: byte_codec 2 uint2korr int2store le_value le_bytes
  by (rule le_codec [OF uint2korr_reads int2store_writes])
interpretation le3: byte_codec 3 uint3korr int3store le_value le_bytes
  by (rule le_codec [OF uint3korr_reads int3store_writes])
interpretation le4: byte_codec 4 uint4korr int4store le_value le_bytes
  by (rule le_codec [OF uint4korr_reads int4store_writes])
interpretation le5: byte_codec 5 uint5korr int5store le_value le_bytes
  by (rule le_codec [OF uint5korr_reads int5store_writes])
interpretation le6: byte_codec 6 uint6korr int6store le_value le_bytes
  by (rule le_codec [OF uint6korr_reads int6store_writes])
interpretation le8: byte_codec 8 uint8korr int8store le_value le_bytes
  by (rule le_codec [OF uint8korr_reads int8store_writes])
interpretation be2: byte_codec 2 mi_uint2korr mi_int2store be_value be_bytes
  by (rule be_codec [OF mi_uint2korr_reads mi_int2store_writes])
interpretation be3: byte_codec 3 mi_uint3korr mi_int3store be_value be_bytes
  by (rule be_codec [OF mi_uint3korr_reads mi_int3store_writes])
interpretation be4: byte_codec 4 mi_uint4korr mi_int4store be_value be_bytes
  by (rule be_codec [OF mi_uint4korr_reads mi_int4store_writes])
interpretation be5: byte_codec 5 mi_uint5korr mi_int5store be_value be_bytes
  by (rule be_codec [OF mi_uint5korr_reads mi_int5store_writes])
interpretation be6: byte_codec 6 mi_uint6korr mi_int6store be_value be_bytes
  by (rule be_codec [OF mi_uint6korr_reads mi_int6store_writes])
interpretation be7: byte_codec 7 mi_uint7korr mi_int7store be_value be_bytes
  by (rule be_codec [OF mi_uint7korr_reads mi_int7store_writes])
interpretation be8: byte_codec 8 mi_uint8korr mi_int8store be_value be_bytes
  by (rule be_codec [OF mi_uint8korr_reads mi_int8store_writes])

section \<open>Signed reads\<close>

text \<open>The signed value of \<open>k\<close> bits.\<close>

definition signed_of :: "nat \<Rightarrow> nat \<Rightarrow> int" where
  "signed_of k x = (if x < 2 ^ (k - 1) then int x else int x - 2 ^ k)"

lemma sint_signed_of:
  fixes w :: "'a::len word"
  shows "sint w = signed_of LENGTH('a) (unat w)"
proof -
  let ?n = "LENGTH('a) - 1" and ?k = "int (unat w)"
  obtain m where m: "LENGTH('a) = Suc m" by (metis Suc_pred len_gt_0)
  have b: "?k < 2 ^ Suc m" "0 \<le> ?k" using unsigned_less [of w, where ?'a = nat] by (simp_all add: m flip: of_nat_less_iff [where ?'a = int])
  have "sint w = (?k + 2 ^ m) mod 2 ^ Suc m - 2 ^ m"
    by (simp only: sint_uint m diff_Suc_Suc minus_nat.diff_0 One_nat_def signed_take_bit_eq_take_bit_shift take_bit_eq_mod uint_nat)
  moreover have "(?k + 2 ^ m) mod 2 ^ Suc m = (if ?k < 2 ^ m then ?k + 2 ^ m else ?k + 2 ^ m - 2 ^ Suc m)"
  proof (cases "?k < 2 ^ m")
    case True
    then show ?thesis using b by (simp add: mod_pos_pos_trivial)
  next
    case False
    then have "(?k + 2 ^ m - 2 ^ Suc m) mod 2 ^ Suc m = ?k + 2 ^ m - 2 ^ Suc m"
      using b by (intro mod_pos_pos_trivial) simp_all
    then show ?thesis using False by (metis minus_mod_self2)
  qed
  moreover have "?k < 2 ^ m \<longleftrightarrow> unat w < 2 ^ m" by (metis of_nat_less_iff of_nat_numeral of_nat_power)
  ultimately show ?thesis by (simp add: signed_of_def m)
qed

lemma sint2korr_eq: "sint2korr A = map_option sint (uint2korr A)"
  by (simp add: sint2korr_def uint2korr_def map_option_bind comp_def)

lemma sint4korr_eq: "sint4korr A = map_option sint (uint4korr A)"
  by (simp add: sint4korr_def uint4korr_def map_option_bind comp_def)

lemma mi_sint2korr_eq: "mi_sint2korr A = map_option sint (mi_uint2korr A)"
  by (simp add: mi_sint2korr_def mi_uint2korr_def map_option_bind comp_def)

lemma mi_sint4korr_eq: "mi_sint4korr A = map_option sint (mi_uint4korr A)"
  by (simp add: mi_sint4korr_def mi_uint4korr_def map_option_bind comp_def)

lemma bit7: "(a :: 8 word) AND 128 \<noteq> 0 \<longleftrightarrow> 128 \<le> unat a"
proof -
  have "(128 :: 8 word) = 2 ^ 7" by simp
  then have "a AND 128 \<noteq> 0 \<longleftrightarrow> bit a 7" by (metis and_exp_eq_0_iff_not_bit)
  also have "\<dots> \<longleftrightarrow> odd (unat a div 128)" using bit_unsigned_iff [of a 7, where ?'a = nat] by (simp add: bit_iff_odd)
  also have "\<dots> \<longleftrightarrow> 128 \<le> unat a"
  proof (cases "128 \<le> unat a")
    case True
    then have "unat a div 128 = 1" using unat_byte [of a] by (intro div_nat_eqI) simp_all
    then show ?thesis using True by simp
  qed simp
  finally show ?thesis .
qed

lemma or3:
  fixes a0 a1 a2 :: "8 word"
  shows "(push_bit 16 (ucast a2) OR push_bit 8 (ucast a1) OR ucast a0 :: 32 word) = word_of_nat (le_value [a0, a1, a2])"
    "(push_bit 24 255 OR push_bit 16 (ucast a2) OR push_bit 8 (ucast a1) OR ucast a0 :: 32 word) =
      word_of_nat (le_value [a0, a1, a2] + 4278190080)"
proof -
  let ?b = "push_bit 8 (ucast a1) :: 32 word" and ?c = "push_bit 16 (ucast a2) :: 32 word"
  have 1: "?b AND ucast a0 = 0"
    by (rule bit_word_eqI) (auto simp: bit_simps dest: bit_imp_le_length)
  have 2: "?c AND (?b OR ucast a0) = 0"
    by (rule bit_word_eqI) (auto simp: bit_simps dest: bit_imp_le_length)
  have 3: "push_bit 24 d AND (?c OR ?b OR ucast a0) = 0" for d :: "32 word"
    by (rule bit_word_eqI) (auto simp: bit_simps dest: bit_imp_le_length)
  show s: "?c OR ?b OR ucast a0 = word_of_nat (le_value [a0, a1, a2])"
    unfolding disjunctive_add_eq_or [OF 2, symmetric] unfolding disjunctive_add_eq_or [OF 1, symmetric]
    by (simp add: push_bit_eq_mult algebra_simps)
  show "push_bit 24 255 OR ?c OR ?b OR ucast a0 = word_of_nat (le_value [a0, a1, a2] + 4278190080)"
    unfolding disjunctive_add_eq_or [OF 3 [of 255], symmetric] unfolding s by (simp add: push_bit_eq_mult)
qed

lemma sign3:
  fixes a0 a1 a2 :: "8 word"
  shows "sint (if a2 AND 128 \<noteq> 0
       then push_bit 24 255 OR push_bit 16 (ucast a2) OR push_bit 8 (ucast a1) OR ucast a0
       else push_bit 16 (ucast a2) OR push_bit 8 (ucast a1) OR ucast a0 :: 32 word)
    = signed_of 24 (le_value [a0, a1, a2])"
proof -
  let ?x = "le_value [a0, a1, a2]"
  have b: "unat a0 < 256" "unat a1 < 256" "unat a2 < 256" by (rule unat_byte)+
  have u: "unat (word_of_nat y :: 32 word) = y" if "y < 4294967296" for y
    using that by (simp add: unsigned_of_nat take_bit_nat_eq_self)
  show ?thesis
  proof (cases "128 \<le> unat a2")
    case True
    then show ?thesis
      unfolding bit7 or3(2) unfolding or3(1) sint_signed_of
      using b by (simp add: u signed_of_def del: of_nat_add)
  next
    case False
    then show ?thesis
      unfolding bit7 or3(2) unfolding or3(1) sint_signed_of
      using b by (simp add: u signed_of_def del: of_nat_add)
  qed
qed

lemma signed_reads_eq:
  "mi_sint8korr A = map_option sint (mi_uint8korr A)" "sint8korr A = map_option sint (uint8korr A)"
  "mi_sint1korr A = map_option sint (mi_uint1korr A)"
  by (simp_all add: mi_sint8korr_def sint8korr_def mi_sint1korr_def mi_uint1korr_def)

lemma sint_read:
  assumes "reads_le n f" "LENGTH('v) = 8 * n"
  shows "map_option sint (f A :: 'v::len word option) = (if n \<le> length A then Some (signed_of (8 * n) (le_value (take n A))) else None)"
proof -
  have "unat (word_of_nat (le_value (take n A)) :: 'v word) = le_value (take n A)" if "n \<le> length A"
  proof -
    have "le_value (take n A) < 256 ^ n" using le_value_bound [of "take n A"] that by simp
    also have "\<dots> = 2 ^ LENGTH('v)" by (simp add: assms(2) power_mult)
    finally show ?thesis by (simp add: unsigned_of_nat take_bit_nat_eq_self)
  qed
  then show ?thesis using assms by (simp add: reads_le_def sint_signed_of)
qed

lemma sint_read_be:
  assumes "reads_be n f" "LENGTH('v) = 8 * n"
  shows "map_option sint (f A :: 'v::len word option) = (if n \<le> length A then Some (signed_of (8 * n) (be_value (take n A))) else None)"
proof -
  have "unat (word_of_nat (be_value (take n A)) :: 'v word) = be_value (take n A)" if "n \<le> length A"
  proof -
    have "be_value (take n A) < 256 ^ n" using le_value_bound [of "rev (take n A)"] that by (simp add: be_value_def)
    also have "\<dots> = 2 ^ LENGTH('v)" by (simp add: assms(2) power_mult)
    finally show ?thesis by (simp add: unsigned_of_nat take_bit_nat_eq_self)
  qed
  then show ?thesis using assms by (simp add: reads_be_def sint_signed_of)
qed

lemma sint3korr_value: "sint3korr A = (if 3 \<le> length A then Some (signed_of 24 (le_value (take 3 A))) else None)"
proof (cases "3 \<le> length A")
  case True
  then obtain a0 a1 a2 r where A: "A = a0 # a1 # a2 # r" by (auto simp: at_least)
  have "take 3 A = [a0, a1, a2]" by (simp add: A)
  then show ?thesis using sign3 [of a2 a1 a0] by (simp add: sint3korr_def A del: le_value.simps)
qed (simp add: sint3korr_def)

lemma mi_sint3korr_value: "mi_sint3korr A = (if 3 \<le> length A then Some (signed_of 24 (be_value (take 3 A))) else None)"
proof (cases "3 \<le> length A")
  case True
  then obtain a0 a1 a2 r where A: "A = a0 # a1 # a2 # r" by (auto simp: at_least)
  have "take 3 A = [a0, a1, a2]" by (simp add: A)
  then show ?thesis using sign3 [of a0 a1 a2] by (simp add: mi_sint3korr_def A be_value_def del: le_value.simps)
qed (simp add: mi_sint3korr_def)

section \<open>The forms for x86\<close>

lemma x86_load_reads: "reads_le n (x86_load n)"
  by (simp add: reads_le_def x86_load_def)

lemma x86_save_writes: "writes_le n (x86_save n)"
  by (simp add: writes_le_def x86_save_def)

lemma reads_le_unique: "reads_le n f \<Longrightarrow> reads_le n g \<Longrightarrow> f = g"
  by (auto simp: reads_le_def)

lemma writes_le_unique: "writes_le n f \<Longrightarrow> writes_le n g \<Longrightarrow> f = g"
  by (auto simp: writes_le_def fun_eq_iff)

lemma x86_save_cast:
  assumes "8 * n \<le> LENGTH('b)"
  shows "writes_le n (\<lambda>T (A :: 'a::len word). x86_save n T (ucast A :: 'b::len word))"
proof -
  have "le_bytes n (unat (ucast A :: 'b word)) = le_bytes n (unat A)" for A :: "'a word"
  proof -
    have c: "le_bytes n (x mod 2 ^ (8 * n + k)) = le_bytes n x" for x n k
    proof (induction n arbitrary: x)
      case (Suc n)
      have "x mod 2 ^ (8 * Suc n + k) div 256 = x div 256 mod 2 ^ (8 * n + k)"
        using drop_bit_take_bit [of 8 "8 * Suc n + k" x] by (simp add: take_bit_eq_mod drop_bit_eq_div)
      moreover have "(word_of_nat (x mod 2 ^ (8 * Suc n + k)) :: 8 word) = word_of_nat x"
        by (simp add: word_of_nat_eq_iff take_bit_take_bit flip: take_bit_eq_mod)
      ultimately show ?case using Suc by simp
    qed simp
    obtain k where "LENGTH('b) = 8 * n + k" using assms le_Suc_ex by blast
    then show ?thesis using c [of n "unat A" k] by (simp add: unsigned_ucast_eq take_bit_eq_mod)
  qed
  then show ?thesis by (simp add: writes_le_def x86_save_def)
qed

lemma low3: "(w :: 32 word) AND 0xFFFFFF = take_bit 24 w"
proof -
  have "(0xFFFFFF :: 32 word) = mask 24" by (simp add: mask_eq_exp_minus_1)
  then show ?thesis by (simp add: take_bit_eq_mask)
qed

lemma x86_uint3korr_eq: "x86_uint3korr A = (if 4 \<le> length A then uint3korr A else None)"
proof (cases "4 \<le> length A")
  case True
  then obtain a0 a1 a2 a3 r where A: "A = a0 # a1 # a2 # a3 # r" by (auto simp: at_least)
  have b: "unat a0 < 256" "unat a1 < 256" "unat a2 < 256" by (rule unat_byte)+
  let ?x = "le_value [a0, a1, a2]"
  have "le_value [a0, a1, a2, a3] = ?x + 16777216 * unat a3" "?x < 16777216"
    using b by simp_all
  then have "take_bit 24 (le_value [a0, a1, a2, a3]) = ?x"
    by (simp add: take_bit_eq_mod del: le_value.simps)
  then have "take_bit 24 (word_of_nat (le_value [a0, a1, a2, a3])) = (word_of_nat (le_value [a0, a1, a2]) :: 32 word)"
    by (metis of_nat_take_bit)
  moreover have "uint3korr A = Some (word_of_nat (le_value [a0, a1, a2]))"
    using uint3korr_reads by (simp add: reads_le_def A del: le_value.simps)
  moreover have "take 4 A = [a0, a1, a2, a3]" by (simp add: A)
  ultimately show ?thesis using True by (simp add: x86_uint3korr_def x86_load_def low3 del: le_value.simps)
qed (simp add: x86_uint3korr_def x86_load_def)

section \<open>What the macros promise\<close>

text \<open>
  A buffer of at least \<open>n\<close> bytes takes an integer and gives back its low \<open>8 n\<close> bits, and nothing
  behind these bytes changes.
\<close>

definition codec :: "nat \<Rightarrow> (bytes \<Rightarrow> 'v::len word option) \<Rightarrow> (bytes \<Rightarrow> 'v word \<Rightarrow> bytes option) \<Rightarrow> bool" where
  "codec n get store \<longleftrightarrow> (\<forall>T V. if n \<le> length T
     then \<exists>T'. store T V = Some T' \<and> get T' = Some (take_bit (8 * n) V) \<and> drop n T' = drop n T \<and> length T' = length T
     else store T V = None \<and> get T = None)"

lemma codecI: "byte_codec n get store val enc \<Longrightarrow> codec n get store"
  by (auto simp: codec_def byte_codec.round_trip byte_codec.short)

text \<open>The same for a signed integer in the range of \<open>n\<close> bytes, which comes back as it is.\<close>

definition signed_codec :: "nat \<Rightarrow> (bytes \<Rightarrow> int option) \<Rightarrow> (bytes \<Rightarrow> 'v::len word \<Rightarrow> bytes option) \<Rightarrow> bool" where
  "signed_codec n get store \<longleftrightarrow> (\<forall>T i. n \<le> length T \<longrightarrow> - (2 ^ (8 * n - 1)) \<le> i \<longrightarrow> i < 2 ^ (8 * n - 1) \<longrightarrow>
     (\<exists>T'. store T (word_of_int i) = Some T' \<and> get T' = Some i \<and> drop n T' = drop n T))"

lemma signed_of_word:
  assumes "0 < k" "- (2 ^ (k - 1)) \<le> i" "i < 2 ^ (k - 1)" "k \<le> LENGTH('v::len)"
  shows "signed_of k (unat (word_of_int i :: 'v word) mod 2 ^ k) = i"
proof -
  obtain m where k: "k = Suc m" using assms(1) gr0_implies_Suc by blast
  define x where "x = unat (word_of_int i :: 'v word) mod 2 ^ k"
  have "int x = uint (word_of_int i :: 'v word) mod 2 ^ k" by (simp add: x_def zmod_int)
  also have "\<dots> = i mod 2 ^ k"
    using assms(4) by (simp add: uint_word_of_int_eq take_bit_take_bit min_def flip: take_bit_eq_mod)
  finally have x: "int x = i mod 2 ^ k" .
  have p: "(2 :: int) ^ k = 2 * 2 ^ m" by (simp add: k)
  have "i mod 2 ^ k = (if 0 \<le> i then i else i + 2 ^ k)"
  proof (cases "0 \<le> i")
    case True
    then show ?thesis using assms(3) p by (simp add: k)
  next
    case False
    then have "(i + 2 ^ k) mod 2 ^ k = i + 2 ^ k" using assms(2) p by (intro mod_pos_pos_trivial) (simp_all add: k)
    then show ?thesis using False by simp
  qed
  moreover have "x < 2 ^ (k - 1) \<longleftrightarrow> int x < 2 ^ m" by (metis k diff_Suc_1 of_nat_less_iff of_nat_numeral of_nat_power)
  ultimately have "signed_of k x = i" using assms x p by (auto simp: signed_of_def k)
  then show ?thesis by (simp add: x_def)
qed

lemma signed_codecI:
  assumes "byte_codec n get store val enc" "0 < n" "8 * n \<le> LENGTH('v::len)"
    and sget: "\<And>A. sget A = (if n \<le> length A then Some (signed_of (8 * n) (val (take n A))) else None)"
  shows "signed_codec n sget (store :: bytes \<Rightarrow> 'v word \<Rightarrow> bytes option)"
  unfolding signed_codec_def
proof (intro allI impI)
  note laws = byte_codec.store_eq [OF assms(1)] byte_codec.enc_length [OF assms(1)] byte_codec.val_enc [OF assms(1)]
  fix T :: bytes and i :: int
  assume h: "n \<le> length T" "- (2 ^ (8 * n - 1)) \<le> i" "i < 2 ^ (8 * n - 1)"
  have "(256 :: nat) ^ n = 2 ^ (8 * n)" by (simp add: power_mult)
  then show "\<exists>T'. store T (word_of_int i) = Some T' \<and> sget T' = Some i \<and> drop n T' = drop n T"
    using signed_of_word [of "8 * n" i, where 'v = 'v] assms(2,3) h by (simp add: laws sget)
qed

text \<open>The order in which \<open>memcmp\<close> puts two keys: the first difference decides.\<close>

fun memcmp_sign :: "nat \<Rightarrow> bytes \<Rightarrow> bytes \<Rightarrow> int" where
  "memcmp_sign (Suc n) (a # A) (b # B) = (if a < b then - 1 else if b < a then 1 else memcmp_sign n A B)"
| "memcmp_sign _ _ _ = 0"

lemma be_value_Cons: "be_value (a # A) = unat a * 256 ^ length A + be_value A"
proof -
  have "le_value (xs @ [a]) = le_value xs + 256 ^ length xs * unat a" for xs
    by (induction xs) (simp_all add: algebra_simps)
  then show ?thesis by (simp add: be_value_def)
qed

lemma be_value_bound: "be_value A < 256 ^ length A"
  using le_value_bound [of "rev A"] by (simp add: be_value_def)

lemma memcmp_be_value:
  "length A = n \<Longrightarrow> length B = n \<Longrightarrow> memcmp_sign n (A @ r) (B @ s) = sgn (int (be_value A) - int (be_value B))"
proof (induction n arbitrary: A B)
  case (Suc n)
  then obtain a A' b B' where AB: "A = a # A'" "B = b # B'" "length A' = n" "length B' = n"
    by (metis length_Suc_conv)
  have lt: "be_value (x # X) < be_value (y # Y)" if "x < y" "length X = length Y" for x y X Y
  proof -
    have "be_value (x # X) < (unat x + 1) * 256 ^ length Y"
      using be_value_bound [of X] that by (simp add: be_value_Cons)
    also have "\<dots> \<le> unat y * 256 ^ length Y" using that by (intro mult_right_mono) (simp_all add: word_less_nat_alt)
    finally show ?thesis by (simp add: be_value_Cons)
  qed
  consider "a < b" | "b < a" | "a = b" by fastforce
  then show ?case
  proof cases
    case 3
    then show ?thesis using Suc.IH AB by (simp add: be_value_Cons)
  qed (use lt [of a b A' B'] lt [of b a B' A'] AB in simp_all)
qed (simp add: be_value_def)

text \<open>Keys of \<open>n\<close> bytes that compare as the numbers do.\<close>

definition sorts_keys :: "nat \<Rightarrow> (bytes \<Rightarrow> 'v::len word \<Rightarrow> bytes option) \<Rightarrow> bool" where
  "sorts_keys n store \<longleftrightarrow> (\<forall>T V W. n \<le> length T \<longrightarrow> (\<exists>A B. store T V = Some A \<and> store T W = Some B \<and>
     memcmp_sign n A B = sgn (int (unat V mod 256 ^ n) - int (unat W mod 256 ^ n))))"

lemma sorts_keysI: "writes_be n store \<Longrightarrow> sorts_keys n store"
  by (simp add: sorts_keys_def writes_be_def memcmp_be_value be_value_bytes)

section \<open>Properties\<close>

text \<open>
  C35: Every pair of macros that store and read an unsigned integer is a codec, low byte first
  (2, 3, 4, 5, 6 and 8 bytes) and high byte first (2 to 8 bytes): a buffer that is long enough gives the stored
  number back, cut to the bytes of the macro, and keeps every byte behind; a shorter one is an access
  outside the buffer for both.
\<close>

theorem store_korr_round_trip:
  "codec 2 uint2korr (int2store :: _ \<Rightarrow> 16 word \<Rightarrow> _) \<and> codec 3 uint3korr (int3store :: _ \<Rightarrow> 32 word \<Rightarrow> _) \<and>
   codec 4 uint4korr (int4store :: _ \<Rightarrow> 32 word \<Rightarrow> _) \<and> codec 5 uint5korr int5store \<and> codec 6 uint6korr int6store \<and>
   codec 8 uint8korr int8store \<and>
   codec 2 mi_uint2korr (mi_int2store :: _ \<Rightarrow> 16 word \<Rightarrow> _) \<and> codec 3 mi_uint3korr (mi_int3store :: _ \<Rightarrow> 32 word \<Rightarrow> _) \<and>
   codec 4 mi_uint4korr (mi_int4store :: _ \<Rightarrow> 32 word \<Rightarrow> _) \<and> codec 5 mi_uint5korr mi_int5store \<and>
   codec 6 mi_uint6korr mi_int6store \<and> codec 7 mi_uint7korr mi_int7store \<and> codec 8 mi_uint8korr mi_int8store"
  by (intro conjI codecI [OF le2.byte_codec_axioms] codecI [OF le3.byte_codec_axioms] codecI [OF le4.byte_codec_axioms]
      codecI [OF le5.byte_codec_axioms] codecI [OF le6.byte_codec_axioms] codecI [OF le8.byte_codec_axioms]
      codecI [OF be2.byte_codec_axioms] codecI [OF be3.byte_codec_axioms] codecI [OF be4.byte_codec_axioms]
      codecI [OF be5.byte_codec_axioms] codecI [OF be6.byte_codec_axioms] codecI [OF be7.byte_codec_axioms]
      codecI [OF be8.byte_codec_axioms])

text \<open>
  A signed integer in the range of 2, 3, 4 or 8 bytes that is stored comes back with its sign, in
  both byte orders; for 3 bytes this is the sign extension the macros write out.
\<close>

lemma signed_store_korr:
  "signed_codec 2 sint2korr (int2store :: _ \<Rightarrow> 16 word \<Rightarrow> _) \<and> signed_codec 3 sint3korr (int3store :: _ \<Rightarrow> 32 word \<Rightarrow> _) \<and>
   signed_codec 4 sint4korr (int4store :: _ \<Rightarrow> 32 word \<Rightarrow> _) \<and> signed_codec 8 sint8korr int8store \<and>
   signed_codec 2 mi_sint2korr (mi_int2store :: _ \<Rightarrow> 16 word \<Rightarrow> _) \<and>
   signed_codec 3 mi_sint3korr (mi_int3store :: _ \<Rightarrow> 32 word \<Rightarrow> _) \<and>
   signed_codec 4 mi_sint4korr (mi_int4store :: _ \<Rightarrow> 32 word \<Rightarrow> _) \<and> signed_codec 8 mi_sint8korr mi_int8store"
proof (intro conjI)
  show "signed_codec 2 sint2korr (int2store :: _ \<Rightarrow> 16 word \<Rightarrow> _)"
    by (rule signed_codecI [OF le2.byte_codec_axioms]) (simp_all add: sint2korr_eq sint_read [OF uint2korr_reads])
  show "signed_codec 3 sint3korr (int3store :: _ \<Rightarrow> 32 word \<Rightarrow> _)"
    by (rule signed_codecI [OF le3.byte_codec_axioms]) (simp_all add: sint3korr_value)
  show "signed_codec 4 sint4korr (int4store :: _ \<Rightarrow> 32 word \<Rightarrow> _)"
    by (rule signed_codecI [OF le4.byte_codec_axioms]) (simp_all add: sint4korr_eq sint_read [OF uint4korr_reads])
  show "signed_codec 8 sint8korr int8store"
    by (rule signed_codecI [OF le8.byte_codec_axioms]) (simp_all add: signed_reads_eq sint_read [OF uint8korr_reads])
  show "signed_codec 2 mi_sint2korr (mi_int2store :: _ \<Rightarrow> 16 word \<Rightarrow> _)"
    by (rule signed_codecI [OF be2.byte_codec_axioms]) (simp_all add: mi_sint2korr_eq sint_read_be [OF mi_uint2korr_reads])
  show "signed_codec 3 mi_sint3korr (mi_int3store :: _ \<Rightarrow> 32 word \<Rightarrow> _)"
    by (rule signed_codecI [OF be3.byte_codec_axioms]) (simp_all add: mi_sint3korr_value)
  show "signed_codec 4 mi_sint4korr (mi_int4store :: _ \<Rightarrow> 32 word \<Rightarrow> _)"
    by (rule signed_codecI [OF be4.byte_codec_axioms]) (simp_all add: mi_sint4korr_eq sint_read_be [OF mi_uint4korr_reads])
  show "signed_codec 8 mi_sint8korr mi_int8store"
    by (rule signed_codecI [OF be8.byte_codec_axioms]) (simp_all add: signed_reads_eq sint_read_be [OF mi_uint8korr_reads])
qed

text \<open>
  C37: The keys that the macros of \<^verbatim>\<open>myisampack.h\<close> store, high byte first, compare byte by byte in the
  order of the numbers, for every width.
\<close>

theorem mi_keys_sorted:
  "sorts_keys 2 (mi_int2store :: _ \<Rightarrow> 16 word \<Rightarrow> _) \<and> sorts_keys 3 (mi_int3store :: _ \<Rightarrow> 32 word \<Rightarrow> _) \<and>
   sorts_keys 4 (mi_int4store :: _ \<Rightarrow> 32 word \<Rightarrow> _) \<and> sorts_keys 5 mi_int5store \<and> sorts_keys 6 mi_int6store \<and>
   sorts_keys 7 mi_int7store \<and> sorts_keys 8 mi_int8store"
  by (simp add: sorts_keysI mi_int2store_writes mi_int3store_writes mi_int4store_writes mi_int5store_writes
      mi_int6store_writes mi_int7store_writes mi_int8store_writes)

text \<open>
  C36: The optimised macros for x86, which go through a pointer to the wider type, are the portable ones
  on every buffer, but for \<open>uint3korr\<close>: it reads four bytes, so it agrees where a fourth byte exists
  and is an access outside the buffer where the portable form is not.
\<close>

theorem x86_forms_agree:
  "x86_sint2korr = sint2korr \<and> x86_sint3korr = sint3korr \<and> x86_sint4korr = sint4korr \<and> x86_sint8korr = sint8korr \<and>
   x86_uint2korr = uint2korr \<and> x86_uint3korr_purify = uint3korr \<and> x86_uint4korr = uint4korr \<and>
   x86_uint5korr = uint5korr \<and> x86_uint6korr = uint6korr \<and> x86_uint8korr = uint8korr \<and>
   (\<forall>A. x86_uint3korr A = (if 4 \<le> length A then uint3korr A else None)) \<and>
   (x86_int2store :: _ \<Rightarrow> 'a::len word \<Rightarrow> _) = int2store \<and> (x86_int3store :: _ \<Rightarrow> 'a word \<Rightarrow> _) = int3store \<and>
   (x86_int4store :: _ \<Rightarrow> 'a word \<Rightarrow> _) = int4store \<and>
   x86_int5store = int5store \<and> x86_int6store = int6store \<and> x86_int8store = int8store"
proof (intro conjI allI)
  note load = reads_le_unique [OF x86_load_reads]
  show "x86_sint2korr = sint2korr" "x86_sint4korr = sint4korr" "x86_sint8korr = sint8korr"
    by (simp_all add: fun_eq_iff x86_sint2korr_def x86_sint4korr_def x86_sint8korr_def sint2korr_eq sint4korr_eq
        sint8korr_def load [OF uint2korr_reads] load [OF uint4korr_reads] load [OF uint8korr_reads])
  show "x86_uint2korr = uint2korr" "x86_uint4korr = uint4korr" "x86_uint8korr = uint8korr"
    by (simp_all add: fun_eq_iff x86_uint2korr_def x86_uint4korr_def x86_uint8korr_def
        load [OF uint2korr_reads] load [OF uint4korr_reads] load [OF uint8korr_reads])
  show "x86_sint3korr = sint3korr" "x86_uint3korr_purify = uint3korr" "x86_uint5korr = uint5korr" "x86_uint6korr = uint6korr"
    by (simp_all add: fun_eq_iff x86_sint3korr_def sint3korr_def x86_uint3korr_purify_def uint3korr_def
        x86_uint5korr_def uint5korr_def x86_uint6korr_def uint6korr_def)
  show "x86_int5store = int5store" "x86_int6store = int6store"
    by (simp_all add: fun_eq_iff x86_int5store_def int5store_def x86_int6store_def int6store_def)
  show "x86_int8store = int8store"
    using writes_le_unique [OF x86_save_writes int8store_writes] by (simp add: fun_eq_iff x86_int8store_def)
  show "(x86_int3store :: _ \<Rightarrow> 'a word \<Rightarrow> _) = int3store"
    by (simp add: fun_eq_iff x86_int3store_def int3store_def byte_cast)
  show "(x86_int2store :: _ \<Rightarrow> 'a word \<Rightarrow> _) = int2store"
    using writes_le_unique [OF x86_save_cast [where 'b = 16] int2store_writes] by (simp add: fun_eq_iff x86_int2store_def)
  show "(x86_int4store :: _ \<Rightarrow> 'a word \<Rightarrow> _) = int4store"
    using writes_le_unique [OF x86_save_cast [where 'b = 32] int4store_writes] by (simp add: fun_eq_iff x86_int4store_def)
  show "x86_uint3korr A = (if 4 \<le> length A then uint3korr A else None)" for A
    by (rule x86_uint3korr_eq)
qed
end
