(* ===== verification/MachineBytes.thy ===== *)
theory MachineBytes
  imports ByteOrder
begin

text \<open>
  The macros of \<^verbatim>\<open>my_global.h\<close> and \<^verbatim>\<open>myisampack.h\<close> that move the bytes of an object of the machine: floating-point
  numbers, whose object representation is a string of 4 or 8 bytes, and the reads and writes in machine
  format. The header has one form for each layout of the machine; all are here, with a suffix for the
  layout where it is not the one of x86: \<open>be\<close> for the high byte first, \<open>mid\<close> for a double stored as two
  words, the high word first, each low byte first.
\<close>

section \<open>Floating-point objects\<close>

text \<open>Assignments \<open>T[i] = V[j]\<close>, one after the other, for the pairs \<open>(i, j)\<close>.\<close>

fun move_bytes :: "(nat \<times> nat) list \<Rightarrow> bytes \<Rightarrow> bytes \<Rightarrow> bytes option" where
  "move_bytes [] T V = Some T"
| "move_bytes ((i, j) # m) T V = do { b \<leftarrow> rd V j; T \<leftarrow> wr T i b; move_bytes m T V }"

subsection \<open>my_global.h, machine with the high byte first\<close>

definition float4store_be :: "bytes \<Rightarrow> bytes \<Rightarrow> bytes option" where
  "float4store_be T V = move_bytes [(0, 3), (1, 2), (2, 1), (3, 0)] T V"

definition float4get_be :: "bytes \<Rightarrow> bytes option" where
  "float4get_be M = move_bytes [(0, 3), (1, 2), (2, 1), (3, 0)] (replicate 4 0) M"

definition float8store_be :: "bytes \<Rightarrow> bytes \<Rightarrow> bytes option" where
  "float8store_be T V = move_bytes [(0, 7), (1, 6), (2, 5), (3, 4), (4, 3), (5, 2), (6, 1), (7, 0)] T V"

definition float8get_be :: "bytes \<Rightarrow> bytes option" where
  "float8get_be M = move_bytes [(0, 7), (1, 6), (2, 5), (3, 4), (4, 3), (5, 2), (6, 1), (7, 0)] (replicate 8 0) M"

subsection \<open>my_global.h, low byte first with the words of a double swapped\<close>

definition doublestore_mid :: "bytes \<Rightarrow> bytes \<Rightarrow> bytes option" where
  "doublestore_mid T V = move_bytes [(0, 4), (1, 5), (2, 6), (3, 7), (4, 0), (5, 1), (6, 2), (7, 3)] T V"

definition doubleget_mid :: "bytes \<Rightarrow> bytes option" where
  "doubleget_mid M = move_bytes [(0, 4), (1, 5), (2, 6), (3, 7), (4, 0), (5, 1), (6, 2), (7, 3)] (replicate 8 0) M"

subsection \<open>myisampack.h, machine with the high byte first\<close>

definition mi_float4store_be :: "bytes \<Rightarrow> bytes \<Rightarrow> bytes option" where
  "mi_float4store_be T V = move_bytes [(0, 0), (1, 1), (2, 2), (3, 3)] T V"

definition mi_float4get_be :: "bytes \<Rightarrow> bytes option" where
  "mi_float4get_be M = move_bytes [(0, 0), (1, 1), (2, 2), (3, 3)] (replicate 4 0) M"

definition mi_float8store_be :: "bytes \<Rightarrow> bytes \<Rightarrow> bytes option" where
  "mi_float8store_be T V = move_bytes [(0, 0), (1, 1), (2, 2), (3, 3), (4, 4), (5, 5), (6, 6), (7, 7)] T V"

definition mi_float8get_be :: "bytes \<Rightarrow> bytes option" where
  "mi_float8get_be M = move_bytes [(0, 0), (1, 1), (2, 2), (3, 3), (4, 4), (5, 5), (6, 6), (7, 7)] (replicate 8 0) M"

subsection \<open>myisampack.h, machine with the low byte first\<close>

definition mi_float4store :: "bytes \<Rightarrow> bytes \<Rightarrow> bytes option" where
  "mi_float4store T V = move_bytes [(0, 3), (1, 2), (2, 1), (3, 0)] T V"

definition mi_float4get :: "bytes \<Rightarrow> bytes option" where
  "mi_float4get M = move_bytes [(0, 3), (1, 2), (2, 1), (3, 0)] (replicate 4 0) M"

subsection \<open>myisampack.h, low byte first with the words of a double swapped\<close>

definition mi_float8store_mid :: "bytes \<Rightarrow> bytes \<Rightarrow> bytes option" where
  "mi_float8store_mid T V = move_bytes [(0, 3), (1, 2), (2, 1), (3, 0), (4, 7), (5, 6), (6, 5), (7, 4)] T V"

definition mi_float8get_mid :: "bytes \<Rightarrow> bytes option" where
  "mi_float8get_mid M = move_bytes [(0, 3), (1, 2), (2, 1), (3, 0), (4, 7), (5, 6), (6, 5), (7, 4)] (replicate 8 0) M"

subsection \<open>myisampack.h, low byte first throughout\<close>

definition mi_float8store :: "bytes \<Rightarrow> bytes \<Rightarrow> bytes option" where
  "mi_float8store T V = move_bytes [(0, 7), (1, 6), (2, 5), (3, 4), (4, 3), (5, 2), (6, 1), (7, 0)] T V"

definition mi_float8get :: "bytes \<Rightarrow> bytes option" where
  "mi_float8get M = move_bytes [(0, 7), (1, 6), (2, 5), (3, 4), (4, 3), (5, 2), (6, 1), (7, 0)] (replicate 8 0) M"

subsection \<open>Copies by memcpy\<close>

text \<open>\<open>memcpy\<close> of \<open>n\<close> bytes.\<close>

definition copy_bytes :: "nat \<Rightarrow> bytes \<Rightarrow> bytes \<Rightarrow> bytes option" where
  "copy_bytes n T V = move_bytes (zip [0..<n] [0..<n]) T V"

definition float4get :: "bytes \<Rightarrow> bytes option" where
  "float4get M = copy_bytes 4 (replicate 4 0) M"

definition float4store :: "bytes \<Rightarrow> bytes \<Rightarrow> bytes option" where
  "float4store V M = copy_bytes 4 V M"

definition floatstore :: "bytes \<Rightarrow> bytes \<Rightarrow> bytes option" where
  "floatstore T V = copy_bytes 4 T V"

definition floatget :: "bytes \<Rightarrow> bytes option" where
  "floatget M = copy_bytes 4 (replicate 4 0) M"

definition doubleget :: "bytes \<Rightarrow> bytes option" where
  "doubleget M = copy_bytes 8 (replicate 8 0) M"

definition doublestore :: "bytes \<Rightarrow> bytes \<Rightarrow> bytes option" where
  "doublestore T V = copy_bytes 8 T V"

definition longlongget :: "bytes \<Rightarrow> bytes option" where
  "longlongget M = copy_bytes 8 (replicate 8 0) M"

definition longlongstore :: "bytes \<Rightarrow> bytes \<Rightarrow> bytes option" where
  "longlongstore T V = copy_bytes 8 T V"

subsection \<open>A double as two words, on x86\<close>

definition x86_doubleget :: "bytes \<Rightarrow> bytes option" where
  "x86_doubleget M = do {
     m0 \<leftarrow> (x86_load 4 M :: 32 word option);
     m1 \<leftarrow> (get_off 4 (x86_load 4) M :: 32 word option);
     tmp \<leftarrow> x86_save 4 (replicate 8 0) m0;
     at_off 4 (\<lambda>t. x86_save 4 t m1) tmp }"

definition x86_doublestore :: "bytes \<Rightarrow> bytes \<Rightarrow> bytes option" where
  "x86_doublestore T V = do {
     m0 \<leftarrow> (x86_load 4 V :: 32 word option);
     T \<leftarrow> x86_save 4 T m0;
     m1 \<leftarrow> (get_off 4 (x86_load 4) V :: 32 word option);
     at_off 4 (\<lambda>t. x86_save 4 t m1) T }"

section \<open>Machine format with the high byte first\<close>

text \<open>
  There \<open>def_temp\<close> is an object whose first byte is the highest one: its value is the big-endian value
  of the bytes moved into it.
\<close>

definition ushortget_be :: "bytes \<Rightarrow> 16 word option" where
  "ushortget_be M = do { m1 \<leftarrow> rd M 1; m0 \<leftarrow> rd M 0; Some (ucast m1 + push_bit 8 (ucast m0)) }"

definition shortget_be :: "bytes \<Rightarrow> int option" where
  "shortget_be M = do { m1 \<leftarrow> rd M 1; m0 \<leftarrow> rd M 0; Some (sint (ucast m1 + push_bit 8 (ucast m0) :: 16 word)) }"

definition longget_be :: "bytes \<Rightarrow> int option" where
  "longget_be M = do {
     def_temp \<leftarrow> move_bytes [(0, 0), (1, 1), (2, 2), (3, 3)] (replicate 4 0) M;
     Some (sint (word_of_nat (be_value def_temp) :: 32 word)) }"

definition ulongget_be :: "bytes \<Rightarrow> 32 word option" where
  "ulongget_be M = do {
     def_temp \<leftarrow> move_bytes [(0, 0), (1, 1), (2, 2), (3, 3)] (replicate 4 0) M;
     Some (word_of_nat (be_value def_temp)) }"

definition shortstore_be :: "bytes \<Rightarrow> 'a::len word \<Rightarrow> bytes option" where
  "shortstore_be T A = do {
     let def_temp = (ucast A :: 32 word);
     T \<leftarrow> wr T 1 (ucast def_temp);
     wr T 0 (ucast (drop_bit 8 def_temp)) }"

definition longstore_be :: "bytes \<Rightarrow> 'a::len word \<Rightarrow> bytes option" where
  "longstore_be T A = do {
     T \<leftarrow> wr T 3 (ucast A);
     T \<leftarrow> wr T 2 (ucast (drop_bit 8 A));
     T \<leftarrow> wr T 1 (ucast (drop_bit 16 A));
     wr T 0 (ucast (drop_bit 24 A)) }"

section \<open>Moving bytes in a permutation\<close>

text \<open>
  A pair of macros that move \<open>n\<close> bytes as the list \<open>ps\<close> says (the byte at \<open>i\<close> comes from \<open>ps ! i\<close>), where
  moving twice puts every byte back.
\<close>

lemma move_bytes_zip:
  assumes "\<forall>p \<in> set ps. p < length V" "k + length ps \<le> length T"
  shows "move_bytes (zip [k..<k + length ps] ps) T V = Some (take k T @ map ((!) V) ps @ drop (k + length ps) T)"
  using assms
proof (induction ps arbitrary: k T)
  case (Cons p ps)
  have k: "k < length T" using Cons.prems by simp
  have "move_bytes (zip [Suc k..<Suc k + length ps] ps) (T[k := V ! p]) V =
      Some (take (Suc k) (T[k := V ! p]) @ map ((!) V) ps @ drop (Suc k + length ps) (T[k := V ! p]))"
    using Cons.prems by (intro Cons.IH) simp_all
  moreover have "take (Suc k) (T[k := V ! p]) = take k T @ [V ! p]"
    using k by (simp add: take_Suc_conv_app_nth)
  moreover have "[k..<k + length (p # ps)] = k # [Suc k..<Suc k + length ps]"
    using upt_conv_Cons [of k "k + length (p # ps)"] by simp
  ultimately show ?case using Cons.prems k by simp
qed simp

locale byte_object =
  fixes n :: nat and ps :: "nat list"
    and store :: "bytes \<Rightarrow> bytes \<Rightarrow> bytes option" and get :: "bytes \<Rightarrow> bytes option"
  assumes store_eq: "store T V = move_bytes (zip [0..<n] ps) T V"
    and get_eq: "get M = move_bytes (zip [0..<n] ps) (replicate n 0) M"
    and len: "length ps = n"
    and inv: "\<forall>i < n. ps ! i < n \<and> ps ! (ps ! i) = i"
begin

lemma moves: "n \<le> length T \<Longrightarrow> n \<le> length V \<Longrightarrow> move_bytes (zip [0..<n] ps) T V = Some (map ((!) V) ps @ drop n T)"
  using move_bytes_zip [of ps V 0 T] inv len by (force simp: in_set_conv_nth)

lemma round_trip:
  assumes "n \<le> length T" "length V = n"
  shows "\<exists>T'. store T V = Some T' \<and> get T' = Some V \<and> drop n T' = drop n T \<and> length T' = length T"
proof -
  let ?T = "map ((!) V) ps @ drop n T"
  have "store T V = Some ?T" using assms by (simp add: store_eq moves)
  moreover have "get ?T = Some (map ((!) ?T) ps)" using len assms by (simp add: get_eq moves)
  moreover have "map ((!) ?T) ps = V"
    using assms len inv by (intro nth_equalityI) (simp_all add: nth_append)
  ultimately show ?thesis using assms len by simp
qed

end

text \<open>The list of moves of a macro, with the index written out.\<close>

lemma moves4: "zip [0..<4] [a, b, c, d] = [(0, a), (1, b), (2, c), (3, d)]"
  by (simp add: upt_rec)

lemma moves8: "zip [0..<8] [a, b, c, d, e, f, g, h] = [(0, a), (1, b), (2, c), (3, d), (4, e), (5, f), (6, g), (7, h)]"
  by (simp add: upt_rec)

lemma all_below4: "(\<forall>i < 4. P i) \<longleftrightarrow> P 0 \<and> P 1 \<and> P 2 \<and> P (3 :: nat)"
  by (auto simp: less_Suc_eq numeral_eq_Suc)

lemma all_below8: "(\<forall>i < 8. P i) \<longleftrightarrow> P 0 \<and> P 1 \<and> P 2 \<and> P 3 \<and> P 4 \<and> P 5 \<and> P 6 \<and> P (7 :: nat)"
  by (auto simp: numeral_eq_Suc All_less_Suc)

lemmas object_simps = moves4 moves8 all_below4 all_below8

interpretation float4_be: byte_object 4 "[3, 2, 1, 0]" float4store_be float4get_be
  by unfold_locales (simp_all only: float4store_be_def float4get_be_def object_simps, simp_all)

interpretation float8_be: byte_object 8 "[7, 6, 5, 4, 3, 2, 1, 0]" float8store_be float8get_be
  by unfold_locales (simp_all only: float8store_be_def float8get_be_def object_simps, simp_all)

interpretation double_mid: byte_object 8 "[4, 5, 6, 7, 0, 1, 2, 3]" doublestore_mid doubleget_mid
  by unfold_locales (simp_all only: doublestore_mid_def doubleget_mid_def object_simps, simp_all)

interpretation mi_float4_be: byte_object 4 "[0, 1, 2, 3]" mi_float4store_be mi_float4get_be
  by unfold_locales (simp_all only: mi_float4store_be_def mi_float4get_be_def object_simps, simp_all)

interpretation mi_float8_be: byte_object 8 "[0, 1, 2, 3, 4, 5, 6, 7]" mi_float8store_be mi_float8get_be
  by unfold_locales (simp_all only: mi_float8store_be_def mi_float8get_be_def object_simps, simp_all)

interpretation mi_float4: byte_object 4 "[3, 2, 1, 0]" mi_float4store mi_float4get
  by unfold_locales (simp_all only: mi_float4store_def mi_float4get_def object_simps, simp_all)

interpretation mi_float8_mid: byte_object 8 "[3, 2, 1, 0, 7, 6, 5, 4]" mi_float8store_mid mi_float8get_mid
  by unfold_locales (simp_all only: mi_float8store_mid_def mi_float8get_mid_def object_simps, simp_all)

interpretation mi_float8: byte_object 8 "[7, 6, 5, 4, 3, 2, 1, 0]" mi_float8store mi_float8get
  by unfold_locales (simp_all only: mi_float8store_def mi_float8get_def object_simps, simp_all)

lemma copy_object: "\<forall>T V. st T V = copy_bytes n T V \<Longrightarrow> \<forall>M. gt M = copy_bytes n (replicate n 0) M \<Longrightarrow> byte_object n [0..<n] st gt"
  by unfold_locales (simp_all add: copy_bytes_def)

interpretation float4_copy: byte_object 4 "[0..<4]" float4store float4get
  by (rule copy_object) (simp_all add: float4store_def float4get_def)
interpretation float_copy: byte_object 4 "[0..<4]" floatstore floatget
  by (rule copy_object) (simp_all add: floatstore_def floatget_def)
interpretation double_copy: byte_object 8 "[0..<8]" doublestore doubleget
  by (rule copy_object) (simp_all add: doublestore_def doubleget_def)
interpretation longlong_copy: byte_object 8 "[0..<8]" longlongstore longlongget
  by (rule copy_object) (simp_all add: longlongstore_def longlongget_def)

text \<open>The two words of a double on x86: loading and saving four bytes copies them.\<close>

lemma load_save4:
  assumes "4 \<le> length V" "4 \<le> length T"
  shows "\<exists>m. x86_load 4 V = Some (m :: 32 word) \<and> x86_save 4 T m = Some (take 4 V @ drop 4 T)"
proof -
  let ?x = "le_value (take 4 V)"
  have "?x < 2 ^ 32" using le_value_bound [of "take 4 V"] assms by simp
  then have "unat (word_of_nat ?x :: 32 word) = ?x" by (simp add: unsigned_of_nat take_bit_nat_eq_self)
  moreover have "le_bytes 4 ?x = take 4 V" using le_bytes_value [of "take 4 V"] assms by simp
  ultimately show ?thesis using assms by (simp add: x86_load_def x86_save_def del: le_bytes_numeral)
qed

lemma two_words:
  assumes "8 \<le> length V" "8 \<le> length T"
  shows "do { m0 \<leftarrow> (x86_load 4 V :: 32 word option); m1 \<leftarrow> (get_off 4 (x86_load 4) V :: 32 word option);
      T \<leftarrow> x86_save 4 T m0; at_off 4 (\<lambda>t. x86_save 4 t m1) T } = Some (take 8 V @ drop 8 T)" (is ?a)
    "do { m0 \<leftarrow> (x86_load 4 V :: 32 word option); T \<leftarrow> x86_save 4 T m0;
      m1 \<leftarrow> (get_off 4 (x86_load 4) V :: 32 word option); at_off 4 (\<lambda>t. x86_save 4 t m1) T } = Some (take 8 V @ drop 8 T)" (is ?b)
proof -
  obtain m0 where 0: "x86_load 4 V = Some (m0 :: 32 word)" "x86_save 4 T m0 = Some (take 4 V @ drop 4 T)"
    using load_save4 [of V T] assms by auto
  obtain m1 where 1: "x86_load 4 (drop 4 V) = Some (m1 :: 32 word)"
      "x86_save 4 (drop 4 T) m1 = Some (take 4 (drop 4 V) @ drop 4 (drop 4 T))"
    using load_save4 [of "drop 4 V" "drop 4 T"] assms by (auto simp: le_diff_conv2)
  have "take 4 V @ take 4 (drop 4 V) = take 8 V" using take_add [of 4 4 V] by simp
  then show ?a ?b using assms 0 1 by (simp_all add: get_off_def at_off_def flip: append_assoc)
qed

lemma x86_double_round_trip:
  assumes "8 \<le> length T" "length V = 8"
  shows "\<exists>T'. x86_doublestore T V = Some T' \<and> x86_doubleget T' = Some V \<and> drop 8 T' = drop 8 T \<and> length T' = length T"
  using assms two_words(1) [of "V @ drop 8 T" "replicate 8 0"] two_words(2) [of V T]
  by (simp add: x86_doublestore_def x86_doubleget_def)

section \<open>What the macros promise\<close>

text \<open>A buffer of at least \<open>n\<close> bytes takes an object of \<open>n\<close> bytes and gives it back.\<close>

definition keeps_object :: "nat \<Rightarrow> (bytes \<Rightarrow> bytes \<Rightarrow> bytes option) \<Rightarrow> (bytes \<Rightarrow> bytes option) \<Rightarrow> bool" where
  "keeps_object n store get \<longleftrightarrow> (\<forall>T V. n \<le> length T \<longrightarrow> length V = n \<longrightarrow>
     (\<exists>T'. store T V = Some T' \<and> get T' = Some V \<and> drop n T' = drop n T \<and> length T' = length T))"

lemma keeps_objectI: "byte_object n ps store get \<Longrightarrow> keeps_object n store get"
  by (simp add: keeps_object_def byte_object.round_trip)

lemma longstore_be_writes: "writes_be 4 longstore_be"
proof (rule writes_beI)
  fix T :: bytes and A :: "'a::len word"
  show "4 \<le> length T \<Longrightarrow> longstore_be T A = Some (be_bytes 4 (unat A) @ drop 4 T)"
    by (auto simp: at_least longstore_be_def be_bytes_def) (simp_all add: byte_at div_div)
  show "\<not> 4 \<le> length T \<Longrightarrow> longstore_be T A = None" by (simp add: longstore_be_def wr_def)
qed

lemma ulongget_be_reads: "reads_be 4 ulongget_be"
proof (rule reads_beI)
  fix A :: bytes
  show "4 \<le> length A \<Longrightarrow> ulongget_be A = Some (word_of_nat (be_value (take 4 A)))"
  proof -
    assume "4 \<le> length A"
    then obtain a0 a1 a2 a3 r where A: "A = a0 # a1 # a2 # a3 # r" by (auto simp: at_least)
    have "replicate 4 0 = [0, 0, 0, 0 :: 8 word]" by (simp add: eval_nat_numeral)
    then show ?thesis by (simp add: A ulongget_be_def)
  qed
  show "\<not> 4 \<le> length A \<Longrightarrow> ulongget_be A = None"
    by (auto simp: ulongget_be_def rd_def wr_def Option.bind_eq_None_conv)
qed

lemma be_format_eq:
  "shortstore_be = mi_int2store" "ushortget_be = mi_uint2korr" "shortget_be = mi_sint2korr"
  by (auto simp: fun_eq_iff shortstore_be_def mi_int2store_def ushortget_be_def mi_uint2korr_def shortget_be_def mi_sint2korr_def
      rd_def)

interpretation be_long: byte_codec 4 ulongget_be longstore_be be_value be_bytes
  by (rule be_codec [OF ulongget_be_reads longstore_be_writes])

lemma longget_be_eq: "longget_be A = map_option sint (ulongget_be A)"
  by (simp add: longget_be_def ulongget_be_def map_option_bind comp_def)

text \<open>
  Every pair of macros that store and read a float, a double or a 64-bit object keeps it, in each of
  the layouts the headers distinguish: what is stored in a buffer is read back byte by byte as it was,
  and no byte behind it changes.
\<close>

lemma objects_round_trip:
  "keeps_object 4 float4store_be float4get_be \<and> keeps_object 8 float8store_be float8get_be \<and>
   keeps_object 8 doublestore_mid doubleget_mid \<and>
   keeps_object 4 mi_float4store_be mi_float4get_be \<and> keeps_object 8 mi_float8store_be mi_float8get_be \<and>
   keeps_object 4 mi_float4store mi_float4get \<and> keeps_object 8 mi_float8store_mid mi_float8get_mid \<and>
   keeps_object 8 mi_float8store mi_float8get \<and>
   keeps_object 4 float4store float4get \<and> keeps_object 4 floatstore floatget \<and>
   keeps_object 8 doublestore doubleget \<and> keeps_object 8 longlongstore longlongget \<and>
   keeps_object 8 x86_doublestore x86_doubleget"
proof (intro conjI)
  show "keeps_object 8 x86_doublestore x86_doubleget"
    by (simp add: keeps_object_def x86_double_round_trip)
qed (rule keeps_objectI, rule float4_be.byte_object_axioms float8_be.byte_object_axioms double_mid.byte_object_axioms
    mi_float4_be.byte_object_axioms mi_float8_be.byte_object_axioms mi_float4.byte_object_axioms
    mi_float8_mid.byte_object_axioms mi_float8.byte_object_axioms float4_copy.byte_object_axioms
    float_copy.byte_object_axioms double_copy.byte_object_axioms longlong_copy.byte_object_axioms)+

text \<open>
  The macros for machine format keep unsigned and signed integers of 2 and 4 bytes, in the form for a
  machine with the high byte first and in the form for the others.
\<close>

lemma machine_format_round_trip:
  "codec 2 ushortget (shortstore :: _ \<Rightarrow> 16 word \<Rightarrow> _) \<and> codec 4 ulongget (longstore :: _ \<Rightarrow> 32 word \<Rightarrow> _) \<and>
   codec 2 ushortget_be (shortstore_be :: _ \<Rightarrow> 16 word \<Rightarrow> _) \<and> codec 4 ulongget_be (longstore_be :: _ \<Rightarrow> 32 word \<Rightarrow> _) \<and>
   signed_codec 2 shortget (shortstore :: _ \<Rightarrow> 16 word \<Rightarrow> _) \<and> signed_codec 4 longget (longstore :: _ \<Rightarrow> 32 word \<Rightarrow> _) \<and>
   signed_codec 2 shortget_be (shortstore_be :: _ \<Rightarrow> 16 word \<Rightarrow> _) \<and>
   signed_codec 4 longget_be (longstore_be :: _ \<Rightarrow> 32 word \<Rightarrow> _)"
proof (intro conjI)
  have eqs: "ushortget = uint2korr" "shortget = sint2korr" "longget = sint4korr" "ulongget = uint4korr"
      "(shortstore :: _ \<Rightarrow> 16 word \<Rightarrow> _) = int2store" "(longstore :: _ \<Rightarrow> 32 word \<Rightarrow> _) = int4store"
    by (simp_all add: fun_eq_iff ushortget_def shortget_def longget_def ulongget_def shortstore_def longstore_def)
  show "codec 2 ushortget (shortstore :: _ \<Rightarrow> 16 word \<Rightarrow> _)" "codec 4 ulongget (longstore :: _ \<Rightarrow> 32 word \<Rightarrow> _)"
    by (simp_all add: eqs codecI [OF le2.byte_codec_axioms] codecI [OF le4.byte_codec_axioms])
  show "codec 2 ushortget_be (shortstore_be :: _ \<Rightarrow> 16 word \<Rightarrow> _)" "codec 4 ulongget_be (longstore_be :: _ \<Rightarrow> 32 word \<Rightarrow> _)"
    by (simp_all add: be_format_eq codecI [OF be2.byte_codec_axioms] codecI [OF be_long.byte_codec_axioms])
  show "signed_codec 2 shortget (shortstore :: _ \<Rightarrow> 16 word \<Rightarrow> _)" unfolding eqs
    by (rule signed_codecI [OF le2.byte_codec_axioms]) (simp_all add: sint2korr_eq sint_read [OF uint2korr_reads])
  show "signed_codec 4 longget (longstore :: _ \<Rightarrow> 32 word \<Rightarrow> _)" unfolding eqs
    by (rule signed_codecI [OF le4.byte_codec_axioms]) (simp_all add: sint4korr_eq sint_read [OF uint4korr_reads])
  show "signed_codec 2 shortget_be (shortstore_be :: _ \<Rightarrow> 16 word \<Rightarrow> _)" unfolding be_format_eq
    by (rule signed_codecI [OF be2.byte_codec_axioms]) (simp_all add: mi_sint2korr_eq sint_read_be [OF mi_uint2korr_reads])
  show "signed_codec 4 longget_be (longstore_be :: _ \<Rightarrow> 32 word \<Rightarrow> _)"
    by (rule signed_codecI [OF be_long.byte_codec_axioms]) (simp_all add: longget_be_eq sint_read_be [OF ulongget_be_reads])
qed

end
