(* ===== verification/BitMacros.thy ===== *)
theory BitMacros
  imports ByteOrder
begin

text \<open>
  The inline functions of \<^verbatim>\<open>my_bit.h\<close>: logarithm, number of set bits, next power of two, highest bit,
  reversal. The two tables of 256 bytes are declared \<open>extern\<close> there and defined outside the repository:
  they are arguments of the functions that read them, and what the functions rely on is a hypothesis
  about the table. Words have the width of the C types of a 64-bit Linux.
\<close>

unbundle bit_operations_syntax

section \<open>The functions\<close>

lemma unat_half: "unat (drop_bit 1 v) = unat v div 2"
  by (metis drop_bit_eq_div power_one_right unat_drop_bit_eq)

text \<open>The loop of \<open>my_bit_log2\<close>.\<close>

function bit_log2_loop :: "64 word \<Rightarrow> 32 word \<Rightarrow> 32 word" where
  "bit_log2_loop v b = (if 1 < v then bit_log2_loop (drop_bit 1 v) (b + 1) else b)"
  by auto

termination
proof (relation "measure (\<lambda>(v, b). unat v)", goal_cases)
  case (2 v b)
  then have "1 < unat v" by (simp add: word_less_nat_alt)
  then show ?case using unat_half [of v] by simp
qed simp

declare bit_log2_loop.simps [simp del]

definition my_bit_log2 :: "64 word \<Rightarrow> 32 word" where
  "my_bit_log2 v = bit_log2_loop v 0"

text \<open>The sum of the table entries is an \<open>int\<close>, cut to a byte.\<close>

definition my_count_bits :: "(8 word \<Rightarrow> 8 word) \<Rightarrow> 64 word \<Rightarrow> 32 word" where
  "my_count_bits nbits v = (let v2 = drop_bit 32 v in
     ucast (ucast (scast (nbits (ucast v)) + scast (nbits (ucast (drop_bit 8 v))) +
       scast (nbits (ucast (drop_bit 16 v))) + scast (nbits (ucast (drop_bit 24 v))) +
       scast (nbits (ucast v2)) + scast (nbits (ucast (drop_bit 8 v2))) +
       scast (nbits (ucast (drop_bit 16 v2))) + scast (nbits (ucast (drop_bit 24 v2))) :: 32 word) :: 8 word))"

text \<open>The table has 256 entries, the argument 16 bits.\<close>

definition my_count_bits_ushort :: "(8 word \<Rightarrow> 8 word) \<Rightarrow> 16 word \<Rightarrow> 32 word option" where
  "my_count_bits_ushort nbits v = (if v < 256 then Some (scast (nbits (ucast v))) else None)"

definition my_round_up_to_next_power :: "32 word \<Rightarrow> 32 word" where
  "my_round_up_to_next_power v = (
     let v = v - 1;
       v = v OR drop_bit 1 v;
       v = v OR drop_bit 2 v;
       v = v OR drop_bit 4 v;
       v = v OR drop_bit 8 v;
       v = v OR drop_bit 16 v
     in v + 1)"

definition my_clear_highest_bit :: "32 word \<Rightarrow> 32 word" where
  "my_clear_highest_bit v = (
     let w = drop_bit 1 v;
       w = w OR drop_bit 1 w;
       w = w OR drop_bit 2 w;
       w = w OR drop_bit 4 w;
       w = w OR drop_bit 8 w;
       w = w OR drop_bit 16 w
     in v AND w)"

definition my_reverse_bits :: "(8 word \<Rightarrow> 8 word) \<Rightarrow> 32 word \<Rightarrow> 32 word" where
  "my_reverse_bits table key =
     push_bit 24 (ucast (table (ucast (key AND 255)))) OR
     push_bit 16 (ucast (table (ucast (drop_bit 8 key AND 255)))) OR
     push_bit 8 (ucast (table (ucast (drop_bit 16 key AND 255)))) OR
     ucast (table (ucast (drop_bit 24 key)))"

section \<open>Logarithm\<close>

lemma bit_log2_loop_value:
  "0 < v \<Longrightarrow> unat v < 2 ^ Suc n \<Longrightarrow> n < 64 \<Longrightarrow>
     \<exists>k \<le> n. bit_log2_loop v b = b + of_nat k \<and> 2 ^ k \<le> unat v \<and> unat v < 2 ^ Suc k"
proof (induction n arbitrary: v b)
  case 0
  then have "unat v = 1" by (simp add: word_less_nat_alt)
  then have "v = 1" by (metis unat_1 word_unat_eq_iff)
  then show ?case by (simp add: bit_log2_loop.simps [of 1])
next
  case (Suc n)
  show ?case
  proof (cases "1 < v")
    case True
    let ?w = "drop_bit 1 v :: 64 word"
    have w: "unat ?w = unat v div 2" by (rule unat_half)
    moreover have "1 < unat v" using True by (simp add: word_less_nat_alt)
    ultimately have "0 < ?w" "unat ?w < 2 ^ Suc n" using Suc.prems by (simp_all add: word_less_nat_alt)
    then obtain k where k: "k \<le> n" "bit_log2_loop ?w (b + 1) = b + 1 + of_nat k" "2 ^ k \<le> unat ?w" "unat ?w < 2 ^ Suc k"
      using Suc.IH [of ?w "b + 1"] Suc.prems by auto
    have "bit_log2_loop v b = b + of_nat (Suc k)"
      using True k(2) by (subst bit_log2_loop.simps) simp
    moreover have "2 ^ Suc k \<le> unat v" "unat v < 2 ^ Suc (Suc k)" using k(3,4) w by simp_all
    ultimately show ?thesis using k(1) by (intro exI [of _ "Suc k"]) simp
  next
    case False
    then have "unat v = 1" using Suc.prems by (simp add: word_less_nat_alt)
    moreover have "bit_log2_loop v b = b" using False by (simp add: bit_log2_loop.simps)
    ultimately show ?thesis by (intro exI [of _ 0]) simp
  qed
qed

section \<open>Smearing the highest bit\<close>

text \<open>The five steps set every bit below a set one.\<close>

definition smear :: "32 word \<Rightarrow> 32 word" where
  "smear v = (
     let v = v OR drop_bit 1 v;
       v = v OR drop_bit 2 v;
       v = v OR drop_bit 4 v;
       v = v OR drop_bit 8 v
     in v OR drop_bit 16 v)"

definition below :: "nat \<Rightarrow> 32 word \<Rightarrow> 32 word \<Rightarrow> bool" where
  "below k v w \<longleftrightarrow> (\<forall>n. bit w n \<longleftrightarrow> (\<exists>j < k. bit v (n + j)))"

lemma below_double: "below k v w \<Longrightarrow> below (k + k) v (w OR drop_bit k w)"
  unfolding below_def
proof (intro allI)
  fix n
  assume b: "\<forall>n. bit w n = (\<exists>j<k. bit v (n + j))"
  have "(\<exists>j < k + k. bit v (n + j)) \<longleftrightarrow> (\<exists>j < k. bit v (n + j)) \<or> (\<exists>j < k. bit v (k + n + j))"
  proof -
    have "\<exists>i < k. bit v (k + n + i)" if "j < k + k" "\<not> j < k" "bit v (n + j)" for j
      using that by (intro exI [of _ "j - k"]) (simp add: algebra_simps)
    moreover have "\<exists>i < k + k. bit v (n + i)" if "j < k" "bit v (k + n + j)" for j
      using that by (intro exI [of _ "k + j"]) (simp add: algebra_simps)
    ultimately show ?thesis by (meson trans_less_add1)
  qed
  then show "bit (w OR drop_bit k w) n = (\<exists>j<k + k. bit v (n + j))"
    by (simp add: b bit_simps)
qed

lemma below_smear: "below 32 v (smear v)"
proof -
  define v1 where "v1 = v OR drop_bit 1 v"
  define v2 where "v2 = v1 OR drop_bit 2 v1"
  define v4 where "v4 = v2 OR drop_bit 4 v2"
  define v8 where "v8 = v4 OR drop_bit 8 v4"
  have "below 1 v v" by (simp add: below_def)
  from below_double [OF this] have "below 2 v v1" by (simp only: v1_def one_add_one)
  from below_double [OF this] have "below 4 v v2" by (simp add: v2_def)
  from below_double [OF this] have "below 8 v v4" by (simp add: v4_def)
  from below_double [OF this] have "below 16 v v8" by (simp add: v8_def)
  from below_double [OF this] have "below 32 v (v8 OR drop_bit 16 v8)" by simp
  then show ?thesis by (simp only: smear_def Let_def v1_def v2_def v4_def v8_def)
qed

lemma smear_mask:
  assumes "2 ^ k \<le> unat v" "unat v < 2 ^ Suc k"
  shows "smear v = mask (Suc k)"
proof (rule bit_word_eqI)
  fix n assume n: "n < LENGTH(32)"
  have hi: "\<not> bit v m" if "Suc k \<le> m" for m
  proof -
    have "unat v < 2 ^ m" using assms(2) power_increasing [of "Suc k" m "2 :: nat"] that by linarith
    then have "\<not> bit (unat v) m" by (simp add: bit_iff_odd)
    then show ?thesis by (simp add: bit_unsigned_iff)
  qed
  have "unat v div 2 ^ k = 1" using assms by (intro div_nat_eqI) simp_all
  then have "bit (unat v) k" by (simp add: bit_iff_odd)
  then have k: "bit v k" by (simp add: bit_unsigned_iff)
  have "bit (smear v) n \<longleftrightarrow> (\<exists>j < 32. bit v (n + j))" using below_smear by (simp add: below_def)
  also have "\<dots> \<longleftrightarrow> n < Suc k"
  proof
    assume "\<exists>j < 32. bit v (n + j)"
    then obtain j where "bit v (n + j)" by blast
    then have "\<not> Suc k \<le> n + j" using hi by blast
    then show "n < Suc k" by simp
  next
    assume "n < Suc k"
    moreover have "k < 32" using k bit_imp_le_length by fastforce
    ultimately show "\<exists>j < 32. bit v (n + j)" using k by (intro exI [of _ "k - n"]) simp
  qed
  finally show "bit (smear v) n = bit (mask (Suc k) :: 32 word) n" using n by (simp add: bit_simps)
qed

lemma smear_0 [simp]: "smear 0 = 0"
  by (simp add: smear_def)

lemma top_bit: "0 < unat (v :: 32 word) \<Longrightarrow> \<exists>k < 32. 2 ^ k \<le> unat v \<and> unat v < 2 ^ Suc k"
proof -
  assume v: "0 < unat v"
  then obtain k where k: "2 ^ k \<le> unat v" "unat v < 2 ^ (k + 1)" using ex_power_ivl1 [of 2 "unat v"] by auto
  have "unat v < 2 ^ 32" using unsigned_less [of v, where ?'a = nat] by simp
  with k(1) have "(2 :: nat) ^ k < 2 ^ 32" by linarith
  then have "k < 32" by (rule power_less_imp_less_exp [rotated]) simp
  then show ?thesis using k by auto
qed

lemma round_up_smear: "my_round_up_to_next_power v = smear (v - 1) + 1"
  by (simp add: my_round_up_to_next_power_def smear_def Let_def)

lemma clear_highest_smear: "my_clear_highest_bit v = v AND smear (drop_bit 1 v)"
  by (simp add: my_clear_highest_bit_def smear_def Let_def)

lemma round_up_cases:
  "my_round_up_to_next_power 0 = 0"
  "v = 1 \<Longrightarrow> my_round_up_to_next_power v = 1"
  "1 < v \<Longrightarrow> \<exists>k < 32. 2 ^ k \<le> unat v - 1 \<and> unat v - 1 < 2 ^ Suc k \<and> my_round_up_to_next_power v = 2 ^ Suc k"
proof -
  have "unat (- 1 :: 32 word) = 4294967295" by (simp add: unsigned_minus_1_eq_mask mask_eq_exp_minus_1)
  then have "smear (- 1) = mask (Suc 31)" by (intro smear_mask) simp_all
  then show "my_round_up_to_next_power 0 = 0" by (simp add: round_up_smear mask_eq_exp_minus_1)
  show "v = 1 \<Longrightarrow> my_round_up_to_next_power v = 1" by (simp add: round_up_smear)
  assume v: "1 < v"
  then have "1 \<le> v" by simp
  then have "unat (v - 1) = unat v - 1" using unat_sub [of 1 v] by simp
  moreover from this have "0 < unat (v - 1)" using v by (simp add: word_less_nat_alt)
  ultimately obtain k where "k < 32" "2 ^ k \<le> unat v - 1" "unat v - 1 < 2 ^ Suc k" "smear (v - 1) = mask (Suc k)"
    using top_bit [of "v - 1"] smear_mask by metis
  then show "\<exists>k < 32. 2 ^ k \<le> unat v - 1 \<and> unat v - 1 < 2 ^ Suc k \<and> my_round_up_to_next_power v = 2 ^ Suc k"
    by (auto simp: round_up_smear mask_eq_exp_minus_1)
qed

section \<open>Counting and reversing\<close>

text \<open>The number of set bits, and a table that holds it for every byte.\<close>

definition ones :: "'a::len word \<Rightarrow> nat" where
  "ones w = card {n. n < LENGTH('a) \<and> bit w n}"

definition counts_bits :: "(8 word \<Rightarrow> 8 word) \<Rightarrow> bool" where
  "counts_bits nbits \<longleftrightarrow> (\<forall>b. unat (nbits b) = ones b)"

definition reverses_bits :: "(8 word \<Rightarrow> 8 word) \<Rightarrow> bool" where
  "reverses_bits table \<longleftrightarrow> (\<forall>b. \<forall>n. bit (table b) n \<longleftrightarrow> n < 8 \<and> bit b (7 - n))"

lemma ones_le: "ones (w :: 'a::len word) \<le> LENGTH('a)"
  unfolding ones_def using card_mono [of "{..<LENGTH('a)}" "{n. n < LENGTH('a) \<and> bit w n}"] by auto

lemma ones_slice: "ones (ucast (drop_bit k (v :: 64 word)) :: 8 word) = card {n. k \<le> n \<and> n < k + 8 \<and> bit v n}"
proof -
  have "card ((+) k ` {n. n < 8 \<and> bit (ucast (drop_bit k v) :: 8 word) n}) = card {n. n < 8 \<and> bit (ucast (drop_bit k v) :: 8 word) n}"
    by (rule card_image) simp
  moreover have "(+) k ` {n. n < 8 \<and> bit (ucast (drop_bit k v) :: 8 word) n} = {n. k \<le> n \<and> n < k + 8 \<and> bit v n}"
    by (auto simp: bit_simps image_iff le_iff_add dest: bit_imp_le_length)
  ultimately show ?thesis by (simp add: ones_def)
qed

lemma ones_prefix: "card {n. n < k + 8 \<and> bit (v :: 64 word) n} = card {n. n < k \<and> bit v n} + ones (ucast (drop_bit k v) :: 8 word)"
proof -
  have "{n. n < k + 8 \<and> bit v n} = {n. n < k \<and> bit v n} \<union> {n. k \<le> n \<and> n < k + 8 \<and> bit v n}" by auto
  moreover have "card ({n. n < k \<and> bit v n} \<union> {n. k \<le> n \<and> n < k + 8 \<and> bit v n}) =
      card {n. n < k \<and> bit v n} + card {n. k \<le> n \<and> n < k + 8 \<and> bit v n}"
    by (rule card_Un_disjoint) (auto intro: finite_subset [of _ "{..<k + 8}"])
  ultimately show ?thesis unfolding ones_slice by simp
qed

lemma eight_steps:
  fixes f g :: "nat \<Rightarrow> nat"
  assumes "\<And>k. f (k + 8) = f k + g k" "f 0 = 0"
  shows "f 64 = g 0 + g 8 + g 16 + g 24 + g 32 + g 40 + g 48 + g 56"
  using assms(1) [of 0] assms(1) [of 8] assms(1) [of 16] assms(1) [of 24] assms(1) [of 32] assms(1) [of 40] assms(1) [of 48]
    assms(1) [of 56] assms(2)
  by simp

lemma ones_bytes:
  "ones (v :: 64 word) = ones (ucast (drop_bit 0 v) :: 8 word) + ones (ucast (drop_bit 8 v) :: 8 word) + ones (ucast (drop_bit 16 v) :: 8 word) +
     ones (ucast (drop_bit 24 v) :: 8 word) + ones (ucast (drop_bit 32 v) :: 8 word) + ones (ucast (drop_bit 40 v) :: 8 word) +
     ones (ucast (drop_bit 48 v) :: 8 word) + ones (ucast (drop_bit 56 v) :: 8 word)"
proof -
  have "ones v = card {n. n < 64 \<and> bit v n}" by (simp add: ones_def)
  also have "\<dots> = ones (ucast (drop_bit 0 v) :: 8 word) + ones (ucast (drop_bit 8 v) :: 8 word) + ones (ucast (drop_bit 16 v) :: 8 word) +
     ones (ucast (drop_bit 24 v) :: 8 word) + ones (ucast (drop_bit 32 v) :: 8 word) + ones (ucast (drop_bit 40 v) :: 8 word) +
     ones (ucast (drop_bit 48 v) :: 8 word) + ones (ucast (drop_bit 56 v) :: 8 word)"
    by (rule eight_steps, rule ones_prefix) simp
  finally show ?thesis .
qed

lemma small_byte: "unat (b :: 8 word) \<le> 8 \<Longrightarrow> (scast b :: 32 word) = word_of_nat (unat b)"
proof -
  assume "unat b \<le> 8"
  then have "sint b = int (unat b)" unfolding sint_signed_of by (simp add: signed_of_def)
  moreover have "(scast b :: 32 word) = word_of_int (sint b)" by (rule of_int_sint [symmetric])
  ultimately show ?thesis by (simp only: of_int_of_nat_eq)
qed

lemma count_bits_value:
  assumes "counts_bits nbits"
  shows "unat (my_count_bits nbits v) = ones v"
proof -
  have le: "ones (b :: 8 word) \<le> 8" for b using ones_le [of b] by simp
  have c: "(scast (nbits b) :: 32 word) = word_of_nat (ones b)" for b
    using assms le [of b] small_byte [of "nbits b"] by (simp add: counts_bits_def)
  have "ones v \<le> 64" using ones_le [of v] by simp
  have "my_count_bits nbits v = ucast (ucast (word_of_nat (ones v) :: 32 word) :: 8 word)"
    unfolding my_count_bits_def Let_def c ones_bytes [of v] by (simp add: add.assoc)
  also have "unat \<dots> = ones v"
    using \<open>ones v \<le> 64\<close> by (simp add: unsigned_ucast_eq unsigned_of_nat take_bit_nat_eq_self)
  finally show ?thesis .
qed

lemma reverse_bits_bit:
  assumes "reverses_bits table"
  shows "bit (my_reverse_bits table key) n \<longleftrightarrow> n < 32 \<and> bit key (31 - n)"
proof (cases "n < 32")
  case True
  have "(255 :: 32 word) = mask 8" by (simp add: mask_eq_exp_minus_1)
  then have m: "(ucast (w AND 255 :: 32 word) :: 8 word) = ucast w" for w
    by (intro bit_word_eqI) (simp only: bit_unsigned_iff bit_and_iff bit_mask_iff, simp)
  have t: "bit (table b) k \<longleftrightarrow> k < 8 \<and> bit b (7 - k)" for b k using assms by (simp add: reverses_bits_def)
  consider "n < 8" | "8 \<le> n" "n < 16" | "16 \<le> n" "n < 24" | "24 \<le> n" "n < 32" using True by linarith
  then show ?thesis
    unfolding my_reverse_bits_def m by cases (auto simp: bit_simps t)
next
  case False
  then show ?thesis by (auto dest: bit_imp_le_length)
qed


text \<open>Tables with these entries.\<close>

definition byte_count :: "8 word \<Rightarrow> 8 word" where
  "byte_count b = word_of_nat (length (filter (bit b) [0..<8]))"

definition byte_reverse :: "8 word \<Rightarrow> 8 word" where
  "byte_reverse b = horner_sum of_bool 2 (map (\<lambda>i. bit b (7 - i)) [0..<8])"

lemma counts_byte_count: "counts_bits byte_count"
  unfolding counts_bits_def
proof
  fix b :: "8 word"
  have "length (filter (bit b) [0..<8]) = card (set (filter (bit b) [0..<8]))"
    by (rule distinct_card [symmetric]) simp
  also have "\<dots> = ones b" by (simp add: ones_def)
  finally have "length (filter (bit b) [0..<8]) = ones b" .
  then show "unat (byte_count b) = ones b"
    using ones_le [of b] by (simp add: byte_count_def unsigned_of_nat take_bit_nat_eq_self)
qed

lemma reverses_byte_reverse: "reverses_bits byte_reverse"
  by (auto simp: reverses_bits_def byte_reverse_def bit_horner_sum_bit_word_iff)

section \<open>Properties\<close>

lemma clear_highest_value:
  assumes "unat v = 2 ^ k + r" "r < 2 ^ k"
  shows "unat (my_clear_highest_bit v) = r"
proof -
  have w: "unat (drop_bit 1 v) = unat v div 2" by (rule unat_half)
  have "smear (drop_bit 1 v) = mask k"
  proof (cases k)
    case 0
    then have "unat (drop_bit 1 v) = 0" using assms w by simp
    then have "drop_bit 1 v = 0" by (simp only: unat_eq_0)
    then show ?thesis using 0 by simp
  next
    case (Suc j)
    then show ?thesis using assms w by (simp only:) (rule smear_mask; simp)
  qed
  then have "my_clear_highest_bit v = take_bit k v" by (simp add: clear_highest_smear take_bit_eq_mask)
  moreover have "unat (take_bit k v) = unat v mod 2 ^ k" by (metis unsigned_take_bit_eq take_bit_eq_mod)
  ultimately show ?thesis using assms by simp
qed

lemma top_exponent: "2 ^ k \<le> unat (v :: 32 word) \<Longrightarrow> k < 32"
proof -
  assume k: "2 ^ k \<le> unat v"
  have "unat v < 2 ^ 32" using unsigned_less [of v, where ?'a = nat] by simp
  with k have "(2 :: nat) ^ k < 2 ^ 32" by linarith
  then show "k < 32" by (rule power_less_imp_less_exp [rotated]) simp
qed

lemma power_between: "2 ^ j < (x :: nat) \<Longrightarrow> x \<le> 2 ^ Suc j \<Longrightarrow> x = 2 ^ k + r \<Longrightarrow> r < 2 ^ k \<Longrightarrow> Suc j = (if r = 0 then k else Suc k)"
proof -
  assume h: "2 ^ j < x" "x \<le> 2 ^ Suc j" "x = 2 ^ k + r" "r < 2 ^ k"
  have "(2 :: nat) ^ j < 2 ^ Suc k" "(2 :: nat) ^ k \<le> 2 ^ Suc j" using h by simp_all
  then have "j < Suc k" "k \<le> Suc j"
    using power_less_imp_less_exp [of "2 :: nat" j "Suc k"] power_le_imp_le_exp [of "2 :: nat" k "Suc j"] by simp_all
  then consider "j = k" | "Suc j = k" by linarith
  then show ?thesis using h by cases auto
qed

text \<open>
  The three functions of the highest bit, for a number \<open>2 ^ k + r\<close> with \<open>r < 2 ^ k\<close>: \<open>my_bit_log2\<close> is
  \<open>k\<close>, the logarithm rounded down (the comment above it says up), \<open>my_clear_highest_bit\<close> is \<open>r\<close>, and
  \<open>my_round_up_to_next_power\<close> is the number itself when it is a power of two and the next one
  otherwise, 0 where that does not fit 32 bits. All three map 0 to 0.
\<close>

lemma highest_bit_functions:
  "my_bit_log2 0 = 0 \<and> my_clear_highest_bit 0 = 0 \<and> my_round_up_to_next_power 0 = 0 \<and>
   (\<forall>v k r. unat v = 2 ^ k + r \<longrightarrow> r < 2 ^ k \<longrightarrow>
     unat (my_bit_log2 (ucast v)) = k \<and> unat (my_clear_highest_bit v) = r \<and>
     my_round_up_to_next_power v = (if r = 0 then v else 2 ^ (k + 1)))"
proof (intro conjI allI impI)
  show "my_bit_log2 0 = 0" by (simp add: my_bit_log2_def bit_log2_loop.simps)
  show "my_clear_highest_bit 0 = 0" by (simp add: my_clear_highest_bit_def)
  show "my_round_up_to_next_power 0 = 0" by (rule round_up_cases)
  fix v :: "32 word" and k r :: nat
  assume v: "unat v = 2 ^ k + r" "r < 2 ^ k"
  then have k: "k < 32" using top_exponent [of k v] by simp
  show "unat (my_clear_highest_bit v) = r" using v by (rule clear_highest_value)
  have "unat v < 2 ^ 32" using unsigned_less [of v, where ?'a = nat] by simp
  then have u: "unat (ucast v :: 64 word) = unat v" by (simp add: unsigned_ucast_eq take_bit_nat_eq_self)
  then obtain j where j: "j \<le> k" "my_bit_log2 (ucast v) = of_nat j" "2 ^ j \<le> unat v" "unat v < 2 ^ Suc j"
    using bit_log2_loop_value [of "ucast v" k 0] v k by (auto simp: my_bit_log2_def word_less_nat_alt)
  have "\<not> Suc j \<le> k" using v j(4) power_increasing [of "Suc j" k "2 :: nat"] by auto
  then have "j = k" using j(1) by simp
  then show "unat (my_bit_log2 (ucast v)) = k"
    using j k by (simp add: unsigned_of_nat take_bit_nat_eq_self less_trans [OF k])
  show "my_round_up_to_next_power v = (if r = 0 then v else 2 ^ (k + 1))"
  proof (cases "1 < v")
    case True
    then obtain i where i: "2 ^ i \<le> unat v - 1" "unat v - 1 < 2 ^ Suc i" "my_round_up_to_next_power v = 2 ^ Suc i"
      using round_up_cases(3) by blast
    moreover have "0 < unat v" using True by (simp add: word_less_nat_alt)
    ultimately have "Suc i = (if r = 0 then k else Suc k)" using v by (intro power_between [of i "unat v"]) simp_all
    moreover have "v = 2 ^ k" if "r = 0"
      using v that by (metis add_0_right of_nat_numeral of_nat_power of_nat_unat ucast_id)
    ultimately show ?thesis using i(3) by (auto split: if_splits)
  next
    case False
    then have "unat v = 1" using v by (simp add: word_less_nat_alt)
    moreover from this have "v = 1" by (simp add: word_unat_eq_iff)
    moreover have "r = 0" using v calculation(1) by (cases r) auto
    ultimately show ?thesis using round_up_cases(2) by simp
  qed
qed

lemma highest_bit_functions_witness:
  "unat (my_bit_log2 (ucast (11 :: 32 word))) = 3 \<and> unat (my_clear_highest_bit 11) = 3 \<and> my_round_up_to_next_power 11 = 16"
proof -
  have "unat (11 :: 32 word) = 2 ^ 3 + 3" "(3 :: nat) < 2 ^ 3" by simp_all
  then show ?thesis using highest_bit_functions by fastforce
qed

text \<open>
  With tables that hold the number of set bits and the reversal of every byte, \<open>my_count_bits\<close> is
  the number of set bits of 64 bits, \<open>my_reverse_bits\<close> puts bit \<open>n\<close> at \<open>31 - n\<close> and is its own inverse;
  \<open>my_count_bits_ushort\<close> counts the bits of a byte and reads behind the table for every larger argument
  of its type.
\<close>

lemma table_functions:
  assumes "counts_bits nbits" "reverses_bits table"
  shows "unat (my_count_bits nbits v) = ones v \<and>
    (\<forall>n < 32. bit (my_reverse_bits table key) n \<longleftrightarrow> bit key (31 - n)) \<and>
    my_reverse_bits table (my_reverse_bits table key) = key \<and>
    map_option unat (my_count_bits_ushort nbits u) = (if u < 256 then Some (ones u) else None)"
proof (intro conjI)
  show "unat (my_count_bits nbits v) = ones v" by (rule count_bits_value [OF assms(1)])
  note rev = reverse_bits_bit [OF assms(2)]
  show "\<forall>n < 32. bit (my_reverse_bits table key) n \<longleftrightarrow> bit key (31 - n)" by (simp add: rev)
  show "my_reverse_bits table (my_reverse_bits table key) = key" by (rule bit_word_eqI) (auto simp: rev)
  have "unat (scast (nbits (ucast u)) :: 32 word) = ones u" if u: "u < 256"
  proof -
    let ?b = "ucast u :: 8 word"
    have n: "unat (nbits ?b) = ones ?b" using assms(1) by (simp add: counts_bits_def)
    have "\<not> bit u n" if "8 \<le> n" for n
    proof -
      have "unat u < 2 ^ n" using u power_increasing [OF that, of "2 :: nat"] by (simp add: word_less_nat_alt)
      then have "\<not> bit (unat u) n" by (simp add: bit_iff_odd)
      then show ?thesis by (simp add: bit_unsigned_iff)
    qed
    then have "{n. n < 16 \<and> bit u n} = {n. n < 8 \<and> bit ?b n}"
      by (auto simp: bit_simps not_le [symmetric])
    then have "ones u = ones ?b" by (simp add: ones_def)
    moreover have "ones ?b \<le> 8" using ones_le [of ?b] by simp
    ultimately show ?thesis using n small_byte [of "nbits ?b"] by (simp add: unsigned_of_nat take_bit_nat_eq_self)
  qed
  then show "map_option unat (my_count_bits_ushort nbits u) = (if u < 256 then Some (ones u) else None)"
    by (simp add: my_count_bits_ushort_def)
qed

lemma table_functions_witness:
  "unat (my_count_bits byte_count 0xF00000000000000F) = ones (0xF00000000000000F :: 64 word) \<and>
   my_reverse_bits byte_reverse (my_reverse_bits byte_reverse 0x12345678) = 0x12345678 \<and>
   my_count_bits_ushort byte_count 0x1FF = None"
  using table_functions [OF counts_byte_count reverses_byte_reverse, of "0xF00000000000000F" "0x12345678" "0x1FF"] by simp

end
