(* ===== verification/Bitmap.thy ===== *)
theory Bitmap
  imports ByteOrder
begin

text \<open>
  \<^verbatim>\<open>my_bitmap.h\<close>: the bitmap structure with its macros and inline functions. The array of 32-bit words is
  the list of its bytes, because the macros reach it through a pointer to bytes; the word at
  \<open>last_word_ptr\<close> is read and written as x86 does, low byte first. The mutex is not part of the model:
  the operations of this header never take it. \<open>None\<close> is an access outside the array or a failed
  \<open>DBUG_ASSERT\<close>.
\<close>

unbundle bit_operations_syntax

section \<open>The structure and its operations\<close>

record my_bitmap =
  bitmap :: bytes
  n_bits :: "32 word"
  last_word_mask :: "32 word"
  last_word_ptr :: nat  \<comment> \<open>the index of the word in the array\<close>

definition bitmap_buffer_size :: "32 word \<Rightarrow> 32 word" where
  "bitmap_buffer_size bits = (bits + 31) div 32 * 4"

definition no_bytes_in_map :: "my_bitmap \<Rightarrow> 32 word" where
  "no_bytes_in_map mp = (n_bits mp + 7) div 8"

definition no_words_in_map :: "my_bitmap \<Rightarrow> 32 word" where
  "no_words_in_map mp = (n_bits mp + 31) div 32"

definition bytes_word_aligned :: "32 word \<Rightarrow> 32 word" where
  "bytes_word_aligned b = 4 * ((b + 3) div 4)"

text \<open>\<open>1 << ((BIT) & 7)\<close>, cut to the byte it is combined with.\<close>

definition bit_in_byte :: "32 word \<Rightarrow> 8 word" where
  "bit_in_byte b = push_bit (unat (b AND 7)) 1"

definition set_bit_macro :: "my_bitmap \<Rightarrow> 32 word \<Rightarrow> my_bitmap option" where
  "set_bit_macro mp b = do {
     x \<leftarrow> rd (bitmap mp) (unat (b div 8));
     bm \<leftarrow> wr (bitmap mp) (unat (b div 8)) (x OR bit_in_byte b);
     Some (mp\<lparr>bitmap := bm\<rparr>) }"

definition flip_bit_macro :: "my_bitmap \<Rightarrow> 32 word \<Rightarrow> my_bitmap option" where
  "flip_bit_macro mp b = do {
     x \<leftarrow> rd (bitmap mp) (unat (b div 8));
     bm \<leftarrow> wr (bitmap mp) (unat (b div 8)) (x XOR bit_in_byte b);
     Some (mp\<lparr>bitmap := bm\<rparr>) }"

definition clear_bit_macro :: "my_bitmap \<Rightarrow> 32 word \<Rightarrow> my_bitmap option" where
  "clear_bit_macro mp b = do {
     x \<leftarrow> rd (bitmap mp) (unat (b div 8));
     bm \<leftarrow> wr (bitmap mp) (unat (b div 8)) (x AND NOT (bit_in_byte b));
     Some (mp\<lparr>bitmap := bm\<rparr>) }"

definition is_set_macro :: "my_bitmap \<Rightarrow> 32 word \<Rightarrow> 32 word option" where
  "is_set_macro mp b = do {
     x \<leftarrow> rd (bitmap mp) (unat (b div 8));
     Some (ucast (x AND bit_in_byte b)) }"

text \<open>The inline functions of the debug build.\<close>

definition bitmap_set_bit :: "my_bitmap \<Rightarrow> 32 word \<Rightarrow> my_bitmap option" where
  "bitmap_set_bit mp b = (if b < n_bits mp then set_bit_macro mp b else None)"

definition bitmap_flip_bit :: "my_bitmap \<Rightarrow> 32 word \<Rightarrow> my_bitmap option" where
  "bitmap_flip_bit mp b = (if b < n_bits mp then flip_bit_macro mp b else None)"

definition bitmap_clear_bit :: "my_bitmap \<Rightarrow> 32 word \<Rightarrow> my_bitmap option" where
  "bitmap_clear_bit mp b = (if b < n_bits mp then clear_bit_macro mp b else None)"

definition bitmap_is_set :: "my_bitmap \<Rightarrow> 32 word \<Rightarrow> 32 word option" where
  "bitmap_is_set mp b = (if b < n_bits mp then is_set_macro mp b else None)"

text \<open>\<open>*(map)->last_word_ptr |= (map)->last_word_mask\<close>.\<close>

definition or_last_word :: "my_bitmap \<Rightarrow> my_bitmap option" where
  "or_last_word mp = do {
     w \<leftarrow> get_off (4 * last_word_ptr mp) (x86_load 4) (bitmap mp);
     bm \<leftarrow> at_off (4 * last_word_ptr mp) (\<lambda>T. x86_save 4 T (w OR last_word_mask mp)) (bitmap mp);
     Some (mp\<lparr>bitmap := bm\<rparr>) }"

definition bitmap_cmp :: "my_bitmap \<Rightarrow> my_bitmap \<Rightarrow> (my_bitmap \<times> my_bitmap \<times> bool) option" where
  "bitmap_cmp mp1 mp2 = do {
     mp1 \<leftarrow> or_last_word mp1;
     mp2 \<leftarrow> or_last_word mp2;
     let n = unat (4 * no_words_in_map mp1);
     if n \<le> length (bitmap mp1) \<and> n \<le> length (bitmap mp2)
     then Some (mp1, mp2, memcmp_sign n (bitmap mp1) (bitmap mp2) = 0) else None }"

definition bitmap_fill :: "8 word \<Rightarrow> my_bitmap \<Rightarrow> my_bitmap option" where
  "bitmap_fill c mp = (let n = unat (4 * no_words_in_map mp) in
     if n \<le> length (bitmap mp) then Some (mp\<lparr>bitmap := replicate n c @ drop n (bitmap mp)\<rparr>) else None)"

definition bitmap_clear_all :: "my_bitmap \<Rightarrow> my_bitmap option" where
  "bitmap_clear_all mp = bitmap_fill 0 mp"

definition bitmap_set_all :: "my_bitmap \<Rightarrow> my_bitmap option" where
  "bitmap_set_all mp = bitmap_fill 0xFF mp"

text \<open>A bit of interest of an integer; the writes give the new integer and the value of the expression.\<close>

definition bit_is_set :: "'a::len word \<Rightarrow> nat \<Rightarrow> int" where
  "bit_is_set I B = (if B < LENGTH('a) then (if ucast I AND (push_bit B 1 :: 64 word) = 0 then 0 else 1) else - 1)"

definition bit_do_set :: "'a::len word \<Rightarrow> nat \<Rightarrow> 'a word \<times> int" where
  "bit_do_set I B = (if B < LENGTH('a) then (ucast (ucast I OR (push_bit B 1 :: 64 word)), 1) else (I, - 1))"

definition bit_do_clear :: "'a::len word \<Rightarrow> nat \<Rightarrow> 'a word \<times> int" where
  "bit_do_clear I B = (if B < LENGTH('a) then (ucast (ucast I AND NOT (push_bit B 1 :: 64 word)), 0) else (I, - 1))"

section \<open>The bits of a byte string\<close>

definition bits_of :: "bytes \<Rightarrow> nat set" where
  "bits_of A = {b. b < 8 * length A \<and> bit (A ! (b div 8)) (b mod 8)}"

lemma bits_of_update:
  assumes "i < length A"
  shows "bits_of (A[i := x]) = {b. b < 8 * length A \<and> (if b div 8 = i then bit x (b mod 8) else b \<in> bits_of A)}"
  using assms by (auto simp: bits_of_def nth_list_update)

lemma bits_of_inject: "length A = length B \<Longrightarrow> bits_of A = bits_of B \<Longrightarrow> A = B"
proof (rule nth_equalityI)
  fix i assume h: "length A = length B" "bits_of A = bits_of B" "i < length A"
  show "A ! i = B ! i"
  proof (rule bit_word_eqI)
    fix n assume n: "n < LENGTH(8)"
    then have b: "(8 * i + n) div 8 = i" "(8 * i + n) mod 8 = n" "8 * i + n < 8 * length A" using h by simp_all
    have "8 * i + n \<in> bits_of A \<longleftrightarrow> 8 * i + n \<in> bits_of B" using h by simp
    then show "bit (A ! i) n = bit (B ! i) n" using b h by (simp add: bits_of_def)
  qed
qed

lemma bit_byte: "bit (bit_in_byte b) n \<longleftrightarrow> n = unat b mod 8"
proof -
  have "unat (b AND 7) = unat b mod 8"
  proof -
    have "(7 :: 32 word) = mask 3" by (simp add: mask_eq_exp_minus_1)
    then have "b AND 7 = take_bit 3 b" by (simp add: take_bit_eq_mask)
    moreover have "unat (take_bit 3 b) = take_bit 3 (unat b)" by (rule unsigned_take_bit_eq)
    ultimately show ?thesis by (simp only: take_bit_eq_mod) simp
  qed
  moreover have "unat b mod 8 < 8" by simp
  ultimately show ?thesis by (auto simp: bit_in_byte_def bit_simps)
qed

lemma le_value_bit: "bit (le_value A) n \<longleftrightarrow> n \<in> bits_of A"
proof (induction A arbitrary: n)
  case Nil
  then show ?case by (simp add: bits_of_def)
next
  case (Cons a A)
  let ?v = "unat a + 256 * le_value A"
  have a: "unat a < 256" by (rule unat_byte)
  have low: "take_bit 8 ?v = unat a" and high: "drop_bit 8 ?v = le_value A"
    using a by (simp_all add: take_bit_eq_mod drop_bit_eq_div)
  show ?case
  proof (cases "n < 8")
    case True
    then have "bit ?v n = bit (take_bit 8 ?v) n" by (simp add: bit_take_bit_iff)
    then have "bit ?v n = bit a n" using True by (simp only: low) (simp add: bit_unsigned_iff)
    then show ?thesis using True by (simp add: bits_of_def)
  next
    case False
    then have "bit ?v n = bit (drop_bit 8 ?v) (n - 8)" by (simp add: bit_drop_bit_eq)
    moreover have "n div 8 = Suc ((n - 8) div 8)" "n mod 8 = (n - 8) mod 8"
      using False by (simp_all add: le_div_geq le_mod_geq)
    ultimately show ?thesis using Cons [of "n - 8"] False by (simp only: high) (auto simp: bits_of_def)
  qed
qed

lemma bits_of_append: "bits_of (A @ B) = bits_of A \<union> (+) (8 * length A) ` bits_of B"
proof -
  have "b \<in> bits_of (A @ B) \<longleftrightarrow> b \<in> bits_of A \<or> (\<exists>c \<in> bits_of B. b = 8 * length A + c)" for b
  proof (cases "b < 8 * length A")
    case True
    then have "b div 8 < length A" by simp
    then show ?thesis using True by (auto simp: bits_of_def nth_append)
  next
    case False
    then obtain c where c: "b = 8 * length A + c" using le_Suc_ex by (metis not_less)
    then show ?thesis by (auto simp: bits_of_def nth_append)
  qed
  then show ?thesis by (auto simp: image_iff)
qed

lemma memcmp_zero: "n \<le> length A \<Longrightarrow> n \<le> length B \<Longrightarrow> memcmp_sign n A B = 0 \<longleftrightarrow> take n A = take n B"
proof (induction n A B rule: memcmp_sign.induct)
  case (1 n a A b B)
  then show ?case by auto
qed auto

section \<open>The operations on the set of bits\<close>

text \<open>
  A bitmap whose array has the words its bits need, with the last of them at \<open>last_word_ptr\<close>; the bits
  fit the arithmetic of \<open>no_words_in_map\<close>.
\<close>

definition bitmap_ok :: "my_bitmap \<Rightarrow> bool" where
  "bitmap_ok m \<longleftrightarrow> 0 < n_bits m \<and> unat (n_bits m) \<le> 2 ^ 32 - 32 \<and>
     length (bitmap m) = 4 * ((unat (n_bits m) + 31) div 32) \<and> last_word_ptr m = (unat (n_bits m) - 1) div 32"

abbreviation the_bits :: "my_bitmap \<Rightarrow> nat set" where
  "the_bits m \<equiv> bits_of (bitmap m)"

lemma words_of_map: "bitmap_ok m \<Longrightarrow> unat (4 * no_words_in_map m) = length (bitmap m)"
proof -
  assume ok: "bitmap_ok m"
  let ?n = "unat (n_bits m)"
  have "unat (n_bits m + 31) = ?n + 31"
    using ok unat_add_lem [of "n_bits m" 31] by (simp add: bitmap_ok_def)
  then have "unat (no_words_in_map m) = (?n + 31) div 32"
    by (simp add: no_words_in_map_def unat_div)
  moreover have "?n \<le> 4294967264" using ok by (simp add: bitmap_ok_def)
  then have "4 * ((?n + 31) div 32) < 2 ^ 32" by simp
  ultimately show ?thesis using ok unat_mult_lem [of 4 "no_words_in_map m"] by (simp add: bitmap_ok_def)
qed

lemma byte_index: "bitmap_ok m \<Longrightarrow> b < n_bits m \<Longrightarrow> unat (b div 8) = unat b div 8 \<and> unat b div 8 < length (bitmap m)"
proof -
  assume "bitmap_ok m" "b < n_bits m"
  then have "unat b < unat (n_bits m)" "length (bitmap m) = 4 * ((unat (n_bits m) + 31) div 32)"
    by (simp_all add: word_less_nat_alt bitmap_ok_def)
  then have "unat b div 8 < length (bitmap m)" by linarith
  then show ?thesis by (simp add: unat_div)
qed

lemma bit_position: "b < 8 * length A \<Longrightarrow> c div 8 = b div 8 \<and> c mod 8 = b mod 8 \<longleftrightarrow> c = (b :: nat)"
  by (metis mult_div_mod_eq)

lemma set_bits:
  assumes "b div 8 = i" "i < length A" and x: "\<And>n. bit x n \<longleftrightarrow> n = b mod 8"
  shows "bits_of (A[i := A ! i OR x]) = insert b (bits_of A)"
    and "bits_of (A[i := A ! i XOR x]) = (if b \<in> bits_of A then bits_of A - {b} else insert b (bits_of A))"
    and "bits_of (A[i := A ! i AND NOT x]) = bits_of A - {b}"
proof -
  have b: "b < 8 * length A" using assms(1,2) by (simp add: div_less_iff_less_mult mult.commute)
  have pos: "c mod 8 = b mod 8 \<longleftrightarrow> c = b" if "c div 8 = i" for c
    using bit_position [OF b, of c] assms(1) that by auto
  have mem: "bit (A ! (b div 8)) (c mod 8) \<longleftrightarrow> c \<in> bits_of A" if "c div 8 = b div 8" "c < 8 * length A" for c
    using that assms(1) by (simp add: bits_of_def)
  have less: "c < 8 * length A" if "c \<in> bits_of A" for c using that by (simp add: bits_of_def)
  note upd = bits_of_update [OF assms(2)] bit_or_iff bit_xor_iff bit_and_iff bit_not_iff x
  show "bits_of (A[i := A ! i OR x]) = insert b (bits_of A)"
    using b assms(1) by (auto simp: upd pos mem less)
  show "bits_of (A[i := A ! i XOR x]) = (if b \<in> bits_of A then bits_of A - {b} else insert b (bits_of A))"
    using b assms(1) by (auto simp: upd pos mem less)
  show "bits_of (A[i := A ! i AND NOT x]) = bits_of A - {b}"
    using b assms(1) by (auto simp: upd pos mem less bit_imp_le_length)
qed

lemma bits_of_replicate: "bits_of (replicate n 0) = {}" "bits_of (replicate n 0xFF) = {..<8 * n}"
proof -
  have "(0xFF :: 8 word) = mask 8" by (simp add: mask_eq_exp_minus_1)
  then have "bit (0xFF :: 8 word) k \<longleftrightarrow> k < 8" for k by (simp only: bit_mask_iff) simp
  then have "bit (0xFF :: 8 word) (b mod 8)" for b :: nat by (metis mod_less_divisor zero_less_numeral)
  moreover have "b div 8 < n" if "b < 8 * n" for b using that by simp
  ultimately show "bits_of (replicate n 0xFF) = {..<8 * n}" by (auto simp: bits_of_def)
  show "bits_of (replicate n 0) = {}" by (auto simp: bits_of_def)
qed

lemma bitmap_ok_update: "bitmap_ok m \<Longrightarrow> length B = length (bitmap m) \<Longrightarrow> bitmap_ok (m\<lparr>bitmap := B\<rparr>)"
  by (simp add: bitmap_ok_def)

lemma bit_ops:
  assumes "bitmap_ok m" "b < n_bits m"
  defines "A \<equiv> bitmap m" and "i \<equiv> unat b div 8"
  shows "bitmap_set_bit m b = Some (m\<lparr>bitmap := A[i := A ! i OR bit_in_byte b]\<rparr>)"
    and "bitmap_flip_bit m b = Some (m\<lparr>bitmap := A[i := A ! i XOR bit_in_byte b]\<rparr>)"
    and "bitmap_clear_bit m b = Some (m\<lparr>bitmap := A[i := A ! i AND NOT (bit_in_byte b)]\<rparr>)"
    and "bitmap_is_set m b = Some (ucast (A ! i AND bit_in_byte b))"
  using byte_index [OF assms(1,2)] assms(2)
  by (simp_all add: A_def i_def bitmap_set_bit_def bitmap_flip_bit_def bitmap_clear_bit_def bitmap_is_set_def
      set_bit_macro_def flip_bit_macro_def clear_bit_macro_def is_set_macro_def)

lemma is_set_value:
  assumes "bitmap_ok m" "b < n_bits m"
  shows "(ucast (bitmap m ! (unat b div 8) AND bit_in_byte b) :: 32 word) \<noteq> 0 \<longleftrightarrow> unat b \<in> the_bits m"
proof -
  let ?x = "bitmap m ! (unat b div 8)"
  have "unat b < 8 * length (bitmap m)" using byte_index [OF assms] by (simp add: div_less_iff_less_mult mult.commute)
  then have "unat b \<in> the_bits m \<longleftrightarrow> bit ?x (unat b mod 8)" by (simp add: bits_of_def)
  moreover have "(ucast (?x AND bit_in_byte b) :: 32 word) \<noteq> 0 \<longleftrightarrow> bit ?x (unat b mod 8)"
  proof
    assume "bit ?x (unat b mod 8)"
    then have "bit (ucast (?x AND bit_in_byte b) :: 32 word) (unat b mod 8)"
      using bit_imp_le_length [of ?x "unat b mod 8"] by (simp add: bit_simps bit_byte)
    then show "(ucast (?x AND bit_in_byte b) :: 32 word) \<noteq> 0" by auto
  next
    assume "(ucast (?x AND bit_in_byte b) :: 32 word) \<noteq> 0"
    then obtain n where "bit (?x AND bit_in_byte b) n" by (metis bit_word_eqI bit_0_eq bot_apply bot_bool_def ucast_0 bit_eq_iff)
    then show "bit ?x (unat b mod 8)" by (auto simp: bit_and_iff bit_byte)
  qed
  ultimately show ?thesis by simp
qed

text \<open>The bits that the mask of the last word sets, and what setting them gives.\<close>

definition masked :: "my_bitmap \<Rightarrow> nat set" where
  "masked m = {32 * last_word_ptr m + j | j. bit (last_word_mask m) j}"

lemma le_bytes_bits: "bits_of (le_bytes n x) = {b. b < 8 * n \<and> bit x b}"
proof -
  have "le_value (le_bytes n x) = take_bit (8 * n) x"
    by (simp add: le_value_bytes take_bit_eq_mod power_mult)
  then have "b \<in> bits_of (le_bytes n x) \<longleftrightarrow> bit (take_bit (8 * n) x) b" for b using le_value_bit [of "le_bytes n x" b] by simp
  then show ?thesis by (auto simp: bit_take_bit_iff)
qed

lemma load_bits:
  assumes "length A = 4"
  shows "bits_of (le_bytes 4 (unat (word_of_nat (le_value A) OR w :: 32 word))) = bits_of A \<union> {b. bit w b}"
proof -
  have "bit (word_of_nat (le_value A) OR w) b \<longleftrightarrow> b < 32 \<and> b \<in> bits_of A \<or> bit w b" for b
    using le_value_bit [of A b] by (auto simp: bit_simps)
  moreover have "b < 32" if "b \<in> bits_of A" for b using that assms by (simp add: bits_of_def)
  moreover have "b < 32" if "bit w b" for b using bit_imp_le_length [OF that] by simp
  ultimately show ?thesis unfolding le_bytes_bits by (auto simp: bit_unsigned_iff)
qed

lemma or_last_word_bits:
  assumes "bitmap_ok m"
  shows "\<exists>s. or_last_word m = Some s \<and> bitmap_ok s \<and> n_bits s = n_bits m \<and> the_bits s = the_bits m \<union> masked m"
proof -
  let ?B = "bitmap m" and ?p = "last_word_ptr m"
  have "?p < (unat (n_bits m) + 31) div 32"
  proof -
    have "?p = (unat (n_bits m) - 1) div 32" "0 < unat (n_bits m)"
      using assms by (simp_all add: bitmap_ok_def word_less_nat_alt)
    then show ?thesis by linarith
  qed
  moreover have len: "length ?B = 4 * ((unat (n_bits m) + 31) div 32)" using assms by (simp add: bitmap_ok_def)
  ultimately have p: "4 * ?p + 4 \<le> length ?B" by simp
  define L where "L = take (4 * ?p) ?B"
  define W where "W = take 4 (drop (4 * ?p) ?B)"
  define R where "R = drop 4 (drop (4 * ?p) ?B)"
  have B: "?B = L @ W @ R" by (simp only: L_def W_def R_def append_take_drop_id)
  have l: "length L = 4 * ?p" "length W = 4" using p by (simp_all add: L_def W_def)
  let ?w = "word_of_nat (le_value W) OR last_word_mask m"
  let ?s = "m\<lparr>bitmap := L @ le_bytes 4 (unat ?w) @ R\<rparr>"
  have "or_last_word m = Some ?s"
    by (simp add: or_last_word_def get_off_def at_off_def x86_load_def x86_save_def B l del: le_bytes_numeral)
  moreover have "bitmap_ok ?s" using B l by (intro bitmap_ok_update assms) simp
  moreover have "the_bits ?s = the_bits m \<union> masked m"
    using l by (auto simp: B bits_of_append load_bits masked_def image_iff simp del: le_bytes_numeral)
  ultimately show ?thesis by auto
qed

text \<open>
  C38: The operations of a bitmap are those of the set of its bits. For a bit in range, set adds it, clear
  removes it, flip does the one or the other, all three keep the invariant of the structure, and the
  test is not 0 just for a member; a bit out of range fails the assertion of each. Clearing and setting
  all give the empty set and the set of all bits of the words.
\<close>

theorem bitmap_refines_set:
  assumes "bitmap_ok m"
  shows "(\<forall>b < n_bits m.
      (\<exists>s. bitmap_set_bit m b = Some s \<and> bitmap_ok s \<and> the_bits s = insert (unat b) (the_bits m)) \<and>
      (\<exists>s. bitmap_clear_bit m b = Some s \<and> bitmap_ok s \<and> the_bits s = the_bits m - {unat b}) \<and>
      (\<exists>s. bitmap_flip_bit m b = Some s \<and> bitmap_ok s \<and>
        the_bits s = (if unat b \<in> the_bits m then the_bits m - {unat b} else insert (unat b) (the_bits m))) \<and>
      (\<exists>r. bitmap_is_set m b = Some r \<and> (r \<noteq> 0 \<longleftrightarrow> unat b \<in> the_bits m))) \<and>
    (\<forall>b. n_bits m \<le> b \<longrightarrow> bitmap_set_bit m b = None \<and> bitmap_clear_bit m b = None \<and> bitmap_flip_bit m b = None \<and>
      bitmap_is_set m b = None) \<and>
    (\<exists>s. bitmap_clear_all m = Some s \<and> bitmap_ok s \<and> the_bits s = {}) \<and>
    (\<exists>s. bitmap_set_all m = Some s \<and> bitmap_ok s \<and> the_bits s = {..<32 * ((unat (n_bits m) + 31) div 32)})"
proof (intro conjI allI impI)
  fix b assume b: "b < n_bits m"
  note ops = bit_ops [OF assms b]
  note bits = set_bits [OF refl conjunct2 [OF byte_index [OF assms b]] bit_byte]
  show "\<exists>s. bitmap_set_bit m b = Some s \<and> bitmap_ok s \<and> the_bits s = insert (unat b) (the_bits m)"
    by (simp add: ops bits bitmap_ok_update assms)
  show "\<exists>s. bitmap_clear_bit m b = Some s \<and> bitmap_ok s \<and> the_bits s = the_bits m - {unat b}"
    by (simp add: ops bits bitmap_ok_update assms)
  show "\<exists>s. bitmap_flip_bit m b = Some s \<and> bitmap_ok s \<and>
      the_bits s = (if unat b \<in> the_bits m then the_bits m - {unat b} else insert (unat b) (the_bits m))"
    by (simp add: ops bits bitmap_ok_update assms)
  show "\<exists>r. bitmap_is_set m b = Some r \<and> (r \<noteq> 0 \<longleftrightarrow> unat b \<in> the_bits m)"
    unfolding ops(4) using is_set_value [OF assms b] by blast
next
  fix b assume "n_bits m \<le> b"
  then have "\<not> b < n_bits m" by simp
  then show "bitmap_set_bit m b = None" "bitmap_clear_bit m b = None" "bitmap_flip_bit m b = None" "bitmap_is_set m b = None"
    by (simp_all add: bitmap_set_bit_def bitmap_clear_bit_def bitmap_flip_bit_def bitmap_is_set_def)
next
  have fill: "bitmap_fill c m = Some (m\<lparr>bitmap := replicate (length (bitmap m)) c\<rparr>)" for c
    using words_of_map [OF assms] by (simp add: bitmap_fill_def)
  have len: "8 * length (bitmap m) = 32 * ((unat (n_bits m) + 31) div 32)" using assms by (simp add: bitmap_ok_def)
  show "\<exists>s. bitmap_clear_all m = Some s \<and> bitmap_ok s \<and> the_bits s = {}"
    by (simp add: bitmap_clear_all_def fill bits_of_replicate bitmap_ok_update assms)
  show "\<exists>s. bitmap_set_all m = Some s \<and> bitmap_ok s \<and> the_bits s = {..<32 * ((unat (n_bits m) + 31) div 32)}"
    by (simp only: bitmap_set_all_def fill option.inject ex_simps simp_thms bits_of_replicate select_convs len)
      (simp add: bits_of_replicate bitmap_ok_update assms len)
qed

definition demo_bitmap :: my_bitmap where
  "demo_bitmap = \<lparr>bitmap = [5, 0, 0, 0, 0, 0, 0, 0], n_bits = 40, last_word_mask = 0xFFFFFF00, last_word_ptr = 1\<rparr>"

lemma demo_bitmap_ok: "bitmap_ok demo_bitmap"
  by (simp add: bitmap_ok_def demo_bitmap_def)

theorem bitmap_refines_set_witness:
  "\<exists>s. bitmap_set_bit demo_bitmap 33 = Some s \<and> the_bits s = insert 33 (the_bits demo_bitmap)"
proof -
  have "(33 :: 32 word) < n_bits demo_bitmap" by (simp add: demo_bitmap_def)
  then show ?thesis using bitmap_refines_set [OF demo_bitmap_ok] by fastforce
qed

text \<open>
  \<open>bitmap_cmp\<close> of two bitmaps of one size compares them on every bit outside the mask of the last word,
  and has set the bits of the masks in both (which the \<open>const\<close> of its parameters does not show).
\<close>

lemma bitmap_cmp_compares:
  assumes "bitmap_ok m1" "bitmap_ok m2" "n_bits m1 = n_bits m2" "last_word_mask m1 = last_word_mask m2"
  shows "\<exists>s1 s2. bitmap_cmp m1 m2 = Some (s1, s2, the_bits m1 - masked m1 = the_bits m2 - masked m2) \<and>
    the_bits s1 = the_bits m1 \<union> masked m1 \<and> the_bits s2 = the_bits m2 \<union> masked m2"
proof -
  obtain s1 where s1: "or_last_word m1 = Some s1" "bitmap_ok s1" "n_bits s1 = n_bits m1" "the_bits s1 = the_bits m1 \<union> masked m1"
    using or_last_word_bits [OF assms(1)] by blast
  obtain s2 where s2: "or_last_word m2 = Some s2" "bitmap_ok s2" "n_bits s2 = n_bits m2" "the_bits s2 = the_bits m2 \<union> masked m2"
    using or_last_word_bits [OF assms(2)] by blast
  have len: "length (bitmap s1) = length (bitmap s2)" using s1 s2 assms(3) by (simp add: bitmap_ok_def)
  have mm: "masked m1 = masked m2" using assms by (simp add: masked_def bitmap_ok_def)
  have "memcmp_sign (length (bitmap s1)) (bitmap s1) (bitmap s2) = 0 \<longleftrightarrow> bitmap s1 = bitmap s2"
    using len by (simp add: memcmp_zero)
  also have "\<dots> \<longleftrightarrow> the_bits s1 = the_bits s2" using bits_of_inject [OF len] by auto
  also have "\<dots> \<longleftrightarrow> the_bits m1 - masked m1 = the_bits m2 - masked m2" using s1(4) s2(4) mm by auto
  finally show ?thesis
    using s1 s2 len words_of_map [OF s1(2)] by (simp add: bitmap_cmp_def)
qed

lemma bitmap_cmp_compares_witness:
  "\<exists>s1 s2. bitmap_cmp demo_bitmap (demo_bitmap\<lparr>bitmap := [5, 0, 0, 0, 0, 9, 0, 0]\<rparr>) =
    Some (s1, s2, the_bits demo_bitmap - masked demo_bitmap =
      bits_of [5, 0, 0, 0, 0, 9, 0, 0] - masked (demo_bitmap\<lparr>bitmap := [5, 0, 0, 0, 0, 9, 0, 0]\<rparr>))"
proof -
  have "bitmap_ok (demo_bitmap\<lparr>bitmap := [5, 0, 0, 0, 0, 9, 0, 0]\<rparr>)"
    by (simp add: bitmap_ok_def demo_bitmap_def)
  from bitmap_cmp_compares [OF demo_bitmap_ok this] show ?thesis by auto
qed

end
