(* ===== verification/Uctype.thy ===== *)
theory Uctype
  imports UctypePages
begin

text \<open>
  The class bits and the classification macros of \<^verbatim>\<open>m_ctype.h\<close>, over the table \<open>ctype\<close> of a character set (257
  entries: one for EOF and one for each byte), and what the Unicode tables of \<open>UctypePages\<close> hold.
\<close>

unbundle bit_operations_syntax

section \<open>Class bits and macros\<close>

definition MY_U :: "8 word" where "MY_U = 0x01"
definition MY_L :: "8 word" where "MY_L = 0x02"
definition MY_NMR :: "8 word" where "MY_NMR = 0x04"
definition MY_SPC :: "8 word" where "MY_SPC = 0x08"
definition MY_PNT :: "8 word" where "MY_PNT = 0x10"
definition MY_CTR :: "8 word" where "MY_CTR = 0x20"
definition MY_B :: "8 word" where "MY_B = 0x40"
definition MY_X :: "8 word" where "MY_X = 0x80"

lemmas class_bits = MY_U_def MY_L_def MY_NMR_def MY_SPC_def MY_PNT_def MY_CTR_def MY_B_def MY_X_def

definition my_isascii :: "32 word \<Rightarrow> bool" where
  "my_isascii c \<longleftrightarrow> c AND NOT 0x7F = 0"

definition my_toascii :: "32 word \<Rightarrow> 32 word" where
  "my_toascii c = c AND 0x7F"

definition my_tocntrl :: "32 word \<Rightarrow> 32 word" where
  "my_tocntrl c = c AND 31"

definition my_toprint :: "32 word \<Rightarrow> 32 word" where
  "my_toprint c = c OR 64"

text \<open>The entry of a byte, \<open>((s)->ctype+1)[(uchar) (c)]\<close>, and the bits of interest of it.\<close>

definition class_of :: "ctype_table \<Rightarrow> 8 word \<Rightarrow> 8 word \<Rightarrow> 8 word option" where
  "class_of s c mask_bits = (if 1 + unat c < length s then Some (s ! (1 + unat c) AND mask_bits) else None)"

definition my_isalpha :: "ctype_table \<Rightarrow> 8 word \<Rightarrow> 8 word option" where
  "my_isalpha s c = class_of s c (MY_U OR MY_L)"

definition my_isupper :: "ctype_table \<Rightarrow> 8 word \<Rightarrow> 8 word option" where
  "my_isupper s c = class_of s c MY_U"

definition my_islower :: "ctype_table \<Rightarrow> 8 word \<Rightarrow> 8 word option" where
  "my_islower s c = class_of s c MY_L"

definition my_isdigit :: "ctype_table \<Rightarrow> 8 word \<Rightarrow> 8 word option" where
  "my_isdigit s c = class_of s c MY_NMR"

definition my_isxdigit :: "ctype_table \<Rightarrow> 8 word \<Rightarrow> 8 word option" where
  "my_isxdigit s c = class_of s c MY_X"

definition my_isalnum :: "ctype_table \<Rightarrow> 8 word \<Rightarrow> 8 word option" where
  "my_isalnum s c = class_of s c (MY_U OR MY_L OR MY_NMR)"

definition my_isspace :: "ctype_table \<Rightarrow> 8 word \<Rightarrow> 8 word option" where
  "my_isspace s c = class_of s c MY_SPC"

definition my_ispunct :: "ctype_table \<Rightarrow> 8 word \<Rightarrow> 8 word option" where
  "my_ispunct s c = class_of s c MY_PNT"

definition my_isprint :: "ctype_table \<Rightarrow> 8 word \<Rightarrow> 8 word option" where
  "my_isprint s c = class_of s c (MY_PNT OR MY_U OR MY_L OR MY_NMR OR MY_B)"

definition my_isgraph :: "ctype_table \<Rightarrow> 8 word \<Rightarrow> 8 word option" where
  "my_isgraph s c = class_of s c (MY_PNT OR MY_U OR MY_L OR MY_NMR)"

definition my_iscntrl :: "ctype_table \<Rightarrow> 8 word \<Rightarrow> 8 word option" where
  "my_iscntrl s c = class_of s c MY_CTR"

text \<open>A macro used as a condition.\<close>

definition holds :: "8 word option \<Rightarrow> bool" where
  "holds r \<longleftrightarrow> (case r of Some x \<Rightarrow> x \<noteq> 0 | None \<Rightarrow> False)"

definition my_isvar :: "ctype_table \<Rightarrow> 8 word \<Rightarrow> bool" where
  "my_isvar s c \<longleftrightarrow> holds (my_isalnum s c) \<or> c = 0x5F"

definition my_isvar_start :: "ctype_table \<Rightarrow> 8 word \<Rightarrow> bool" where
  "my_isvar_start s c \<longleftrightarrow> holds (my_isalpha s c) \<or> c = 0x5F"

section \<open>The tables\<close>

text \<open>
  Every page has an entry for each of its 256 characters, and a page with a table has 0 for the bits of
  all its characters: a lookup by the two bytes of a 16-bit character never leaves a table.
\<close>

definition entry_ok :: "my_uni_ctype_entry \<Rightarrow> bool" where
  "entry_ok e \<longleftrightarrow> (case ctype e of None \<Rightarrow> True | Some p \<Rightarrow> length p = 256 \<and> pctype e = 0)"

lemma low_ok: "length my_uni_ctype_low = 128 \<and> list_all entry_ok my_uni_ctype_low"
  by code_simp

lemma high_ok: "length my_uni_ctype_high = 128 \<and> list_all entry_ok my_uni_ctype_high"
  by code_simp

lemma uni_ctype_ok: "length my_uni_ctype = 256 \<and> list_all entry_ok my_uni_ctype"
  by (simp add: my_uni_ctype_def low_ok high_ok)

lemma page_of_character:
  fixes wc :: "16 word"
  defines "e \<equiv> my_uni_ctype ! unat (drop_bit 8 wc)"
  shows "unat (drop_bit 8 wc) < length my_uni_ctype" "ctype e = Some p \<Longrightarrow> unat (wc AND 0xFF) < length p"
proof -
  have "unat (drop_bit 8 wc) = unat wc div 2 ^ 8" by (metis drop_bit_eq_div unat_drop_bit_eq)
  moreover have "unat wc < 2 ^ 16" using unsigned_less [of wc, where ?'a = nat] by simp
  ultimately show "unat (drop_bit 8 wc) < length my_uni_ctype" using uni_ctype_ok by simp
  then have "e \<in> set my_uni_ctype" by (simp add: e_def)
  then have "entry_ok e" using uni_ctype_ok by (simp add: list_all_iff)
  moreover have "wc AND 0xFF \<le> 0xFF" by (rule word_and_le1)
  ultimately show "ctype e = Some p \<Longrightarrow> unat (wc AND 0xFF) < length p"
    by (simp add: entry_ok_def word_le_nat_alt)
qed

text \<open>The classes of the ASCII characters that the first page gives.\<close>

definition ascii_entry :: "nat \<Rightarrow> 8 word \<Rightarrow> bool" where
  "ascii_entry c b \<longleftrightarrow> b = (
     if 65 \<le> c \<and> c \<le> 90 then 0x81 else if 97 \<le> c \<and> c \<le> 122 then 0x82 else if 48 \<le> c \<and> c \<le> 57 then 0x04
     else if c = 32 then 0x08 else if 33 \<le> c \<and> c \<le> 126 then 0x10 else 0x20)"

lemma ascii_page: "length uctype_page00 = 256 \<and> list_all (\<lambda>(c, b). ascii_entry c b) (zip [0..<128] uctype_page00)"
  by code_simp

lemma ascii_class: "c < 128 \<Longrightarrow> class_of (0 # uctype_page00) c m = Some (uctype_page00 ! unat c AND m) \<and> ascii_entry (unat c) (uctype_page00 ! unat c)"
proof -
  assume "c < 128"
  then have c: "unat c < 128" by (simp add: word_less_nat_alt)
  then have "(unat c, uctype_page00 ! unat c) = zip [0..<128] uctype_page00 ! unat c" using ascii_page by simp
  also have "\<dots> \<in> set (zip [0..<128] uctype_page00)" using c ascii_page by (intro nth_mem) simp
  finally have "ascii_entry (unat c) (uctype_page00 ! unat c)" using ascii_page by (force simp: list_all_iff)
  then show ?thesis using c ascii_page by (simp add: class_of_def)
qed

lemmas class_macros = my_isalpha_def my_isupper_def my_islower_def my_isdigit_def my_isxdigit_def my_isalnum_def my_isspace_def
  my_ispunct_def my_isprint_def my_isgraph_def my_iscntrl_def

text \<open>
  With the bits of the first Unicode page the macros classify ASCII as the C library does for letters,
  digits, punctuation, visible and control characters. Three differ: \<open>my_isspace\<close> holds of the blank
  alone, since tab to carriage return are only control characters in the table; \<open>my_isprint\<close> fails for
  the blank, which has not the bit \<open>_MY_B\<close>; and \<open>my_isxdigit\<close> holds of every letter and of no digit.
\<close>

lemma unicode_ascii_classes:
  fixes c :: "8 word"
  assumes "c < 128"
  defines "s \<equiv> 0 # uctype_page00" and "n \<equiv> unat c"
  shows "(holds (my_isupper s c) \<longleftrightarrow> 65 \<le> n \<and> n \<le> 90) \<and> (holds (my_islower s c) \<longleftrightarrow> 97 \<le> n \<and> n \<le> 122) \<and>
    (holds (my_isdigit s c) \<longleftrightarrow> 48 \<le> n \<and> n \<le> 57) \<and>
    (holds (my_isalpha s c) \<longleftrightarrow> holds (my_isupper s c) \<or> holds (my_islower s c)) \<and>
    (holds (my_isalnum s c) \<longleftrightarrow> holds (my_isalpha s c) \<or> holds (my_isdigit s c)) \<and>
    (holds (my_isgraph s c) \<longleftrightarrow> 33 \<le> n \<and> n \<le> 126) \<and>
    (holds (my_ispunct s c) \<longleftrightarrow> holds (my_isgraph s c) \<and> \<not> holds (my_isalnum s c)) \<and>
    (holds (my_iscntrl s c) \<longleftrightarrow> n < 32 \<or> n = 127) \<and>
    (holds (my_isspace s c) \<longleftrightarrow> n = 32) \<and> (holds (my_isprint s c) \<longleftrightarrow> holds (my_isgraph s c)) \<and>
    (holds (my_isxdigit s c) \<longleftrightarrow> holds (my_isalpha s c))"
proof -
  have n: "n < 128" using assms(1) by (simp add: n_def word_less_nat_alt)
  have e: "ascii_entry n (uctype_page00 ! n)" using ascii_class [OF assms(1)] by (simp add: n_def)
  have m: "class_of s c m = Some (uctype_page00 ! n AND m)" for m using ascii_class [OF assms(1)] by (simp add: s_def n_def)
  show ?thesis
    using e n by (simp add: class_macros m holds_def class_bits ascii_entry_def split: if_splits) arith
qed

lemma unicode_ascii_classes_witness:
  "holds (my_isxdigit (0 # uctype_page00) 0x5A) \<and> \<not> holds (my_isxdigit (0 # uctype_page00) 0x30) \<and>
   \<not> holds (my_isspace (0 # uctype_page00) 9)"
  using unicode_ascii_classes [of "0x5A"] unicode_ascii_classes [of "0x30"] unicode_ascii_classes [of 9] by simp

end
