(* ===== verification/MString.thy ===== *)
theory MString
  imports ByteOrder
begin

text \<open>
  \<open>skip_trailing_space\<close> of \<^verbatim>\<open>m_string.h\<close>: the end of a string without its trailing spaces, found four bytes at
  a time where the string is long.

  Pointers are addresses; \<open>s\<close> holds the bytes of the object at the address \<open>ptr\<close>. A read of a byte
  outside the object has no value, nor has a read of a word outside it or at an address that is not a
  multiple of four.
\<close>

section \<open>The function\<close>

definition byte_at_addr :: "nat \<Rightarrow> bytes \<Rightarrow> nat \<Rightarrow> 8 word option" where
  "byte_at_addr ptr s a = (if ptr \<le> a then rd s (a - ptr) else None)"

definition word_at_addr :: "nat \<Rightarrow> bytes \<Rightarrow> nat \<Rightarrow> 32 word option" where
  "word_at_addr ptr s a = (if ptr \<le> a \<and> 4 dvd a then get_off (a - ptr) (x86_load 4) s else None)"

definition SPACE_INT :: "32 word" where
  "SPACE_INT = 0x20202020"

text \<open>\<open>while (end > lim && end[-1] == 0x20) end--\<close>.\<close>

function back_spaces :: "nat \<Rightarrow> bytes \<Rightarrow> nat \<Rightarrow> nat \<Rightarrow> nat option" where
  "back_spaces ptr s lim e =
     (if lim < e
      then do { b \<leftarrow> byte_at_addr ptr s (e - 1); if b = 0x20 then back_spaces ptr s lim (e - 1) else Some e }
      else Some e)"
  by auto
termination by (relation "measure (\<lambda>(ptr, s, lim, e). e)") simp_all

text \<open>\<open>while (end > lim && ((unsigned *)end)[-1] == SPACE_INT) end -= SIZEOF_INT\<close>.\<close>

function back_words :: "nat \<Rightarrow> bytes \<Rightarrow> nat \<Rightarrow> nat \<Rightarrow> nat option" where
  "back_words ptr s lim e =
     (if lim < e
      then do { w \<leftarrow> word_at_addr ptr s (e - 4); if w = SPACE_INT then back_words ptr s lim (e - 4) else Some e }
      else Some e)"
  by auto
termination by (relation "measure (\<lambda>(ptr, s, lim, e). e)") simp_all

declare back_spaces.simps [simp del] back_words.simps [simp del]

definition skip_trailing_space :: "nat \<Rightarrow> bytes \<Rightarrow> nat \<Rightarrow> nat option" where
  "skip_trailing_space ptr s len = do {
     let e = ptr + len;
     e \<leftarrow> (if len > 20
       then
         let end_words = e div 4 * 4;
           start_words = (ptr + 4 - 1) div 4 * 4
         in if \<not> 4 \<le> ptr then None
         else if end_words > ptr
         then do {
           e \<leftarrow> back_spaces ptr s end_words e;
           b \<leftarrow> byte_at_addr ptr s (e - 1);
           if b = 0x20 \<and> start_words < end_words then back_words ptr s start_words e else Some e
         }
         else Some e
       else Some e);
     back_spaces ptr s ptr e
   }"

section \<open>What it computes\<close>

text \<open>The length of the first \<open>n\<close> bytes without trailing spaces.\<close>

definition trimmed :: "bytes \<Rightarrow> nat \<Rightarrow> nat" where
  "trimmed s n = length (dropWhile ((=) 0x20) (rev (take n s)))"

lemma trimmed_0 [simp]: "trimmed s 0 = 0"
  by (simp add: trimmed_def)

lemma trimmed_Suc: "n < length s \<Longrightarrow> trimmed s (Suc n) = (if s ! n = 0x20 then trimmed s n else Suc n)"
  by (auto simp: trimmed_def take_Suc_conv_app_nth)

lemma trimmed_spaces: "n + k \<le> length s \<Longrightarrow> (\<forall>i < k. s ! (n + i) = 0x20) \<Longrightarrow> trimmed s (n + k) = trimmed s n"
  by (induction k) (simp_all add: trimmed_Suc)

lemma back_spaces_ok:
  assumes "n \<le> length s" "l \<le> n"
  shows "\<exists>m. back_spaces ptr s (ptr + l) (ptr + n) = Some (ptr + m) \<and> l \<le> m \<and> m \<le> n \<and> trimmed s m = trimmed s n \<and>
    (l < m \<longrightarrow> s ! (m - 1) \<noteq> 0x20)"
  using assms
proof (induction n)
  case 0
  then show ?case by (subst back_spaces.simps) simp
next
  case (Suc n)
  show ?case
  proof (cases "l = Suc n")
    case True
    then show ?thesis by (subst back_spaces.simps) simp
  next
    case False
    then have l: "l \<le> n" "n < length s" using Suc.prems by simp_all
    have b: "byte_at_addr ptr s (ptr + n) = Some (s ! n)" using l by (simp add: byte_at_addr_def)
    show ?thesis
    proof (cases "s ! n = 0x20")
      case True
      obtain m where "back_spaces ptr s (ptr + l) (ptr + n) = Some (ptr + m)" "l \<le> m" "m \<le> n"
          "trimmed s m = trimmed s n" "l < m \<longrightarrow> s ! (m - 1) \<noteq> 0x20"
        using Suc.IH l by auto
      then show ?thesis using b l True by (subst back_spaces.simps) (auto simp: trimmed_Suc)
    next
      case space: False
      then show ?thesis using b l by (subst back_spaces.simps) (auto simp: trimmed_Suc)
    qed
  qed
qed

lemma space_word:
  assumes "k + 4 \<le> length s" "(word_of_nat (le_value (take 4 (drop k s))) :: 32 word) = SPACE_INT"
  shows "\<forall>i < 4. s ! (k + i) = 0x20"
proof -
  let ?A = "take 4 (drop k s)"
  have len: "length ?A = 4" using assms(1) by simp
  have "le_value ?A < 2 ^ 32" using le_value_bound [of ?A] len by simp
  then have "unat (word_of_nat (le_value ?A) :: 32 word) = le_value ?A"
    by (simp add: unsigned_of_nat take_bit_nat_eq_self)
  then have "le_value ?A = 0x20202020" using assms(2) by (simp add: SPACE_INT_def)
  then have "?A = le_bytes 4 0x20202020" using le_bytes_value [of ?A] len by simp
  then have A: "?A = [0x20, 0x20, 0x20, 0x20]" by simp
  show ?thesis
  proof (intro allI impI)
    fix i :: nat assume i: "i < 4"
    have "s ! (k + i) = ?A ! i" using i assms(1) by simp
    also have "\<dots> = 0x20" unfolding A using i by (auto simp: less_Suc_eq numeral_eq_Suc)
    finally show "s ! (k + i) = 0x20" .
  qed
qed

lemma back_words_ok:
  assumes "n \<le> length s" "l \<le> n" "4 dvd ptr + l" "4 dvd ptr + n"
  shows "\<exists>m. back_words ptr s (ptr + l) (ptr + n) = Some (ptr + m) \<and> m \<le> n \<and> trimmed s m = trimmed s n"
  using assms
proof (induction n rule: less_induct)
  case (less n)
  show ?case
  proof (cases "l = n")
    case True
    then show ?thesis by (subst back_words.simps) auto
  next
    case False
    have "4 dvd (ptr + n) - (ptr + l)" using less.prems by (intro dvd_diff_nat)
    then have "4 dvd n - l" by simp
    then have d: "4 \<le> n - l" using False less.prems(2) by (intro dvd_imp_le) simp_all
    then obtain k where n: "n = k + 4" "l \<le> k" by (metis add.commute diff_le_self le_add_diff_inverse2 le_diff_conv2 le_trans less.prems(2))
    have k: "4 dvd ptr + k" using less.prems(4) by (simp add: n flip: add.assoc)
    have w: "word_at_addr ptr s (ptr + n - 4) = Some (word_of_nat (le_value (take 4 (drop k s))))"
      using k less.prems(1) by (simp add: word_at_addr_def get_off_def x86_load_def n)
    have e: "ptr + n - 4 = ptr + k" by (simp add: n)
    have lt: "ptr + l < ptr + n" using n by simp
    show ?thesis
    proof (cases "(word_of_nat (le_value (take 4 (drop k s))) :: 32 word) = SPACE_INT")
      case True
      then have "trimmed s n = trimmed s k"
        using space_word [of k s] less.prems(1) trimmed_spaces [of k 4 s] by (simp add: n)
      moreover obtain m where "back_words ptr s (ptr + l) (ptr + k) = Some (ptr + m)" "m \<le> k" "trimmed s m = trimmed s k"
        using less.IH [of k] less.prems k n by auto
      ultimately show ?thesis using w e lt True n by (subst back_words.simps) auto
    next
      case other: False
      then show ?thesis using w lt by (subst back_words.simps) auto
    qed
  qed
qed

lemma back_spaces_trimmed:
  assumes n: "n \<le> length s"
  shows "back_spaces ptr s ptr (ptr + n) = Some (ptr + trimmed s n)"
proof -
  obtain m where m: "back_spaces ptr s ptr (ptr + n) = Some (ptr + m)" "m \<le> n" "trimmed s m = trimmed s n"
      "0 < m \<longrightarrow> s ! (m - 1) \<noteq> 0x20"
    using back_spaces_ok [OF n, of 0 ptr] by auto
  have "trimmed s m = m"
  proof (cases m)
    case (Suc k)
    then have "trimmed s (Suc k) = Suc k" using m(2,4) n by (simp add: trimmed_Suc)
    then show ?thesis by (simp only: Suc)
  qed simp
  then show ?thesis using m by simp
qed

lemma back_words_trimmed:
  assumes len: "len \<le> length s" and long: "20 < len" and ptr: "4 \<le> ptr"
  shows "\<exists>k. skip_trailing_space ptr s len = back_spaces ptr s ptr (ptr + k) \<and> k \<le> len \<and> trimmed s k = trimmed s len"
proof -
  define ew where "ew = (ptr + len) div 4 * 4"
  define sw where "sw = (ptr + 4 - 1) div 4 * 4"
  have ew: "ew \<le> ptr + len" "ptr + len < ew + 4" "4 dvd ew" unfolding ew_def by presburger+
  have sw: "ptr \<le> sw" "sw < ptr + 4" "4 dvd sw" unfolding sw_def by presburger+
  have "ptr < ew" using ew long by simp
  define l where "l = ew - ptr"
  have l: "ew = ptr + l" "l \<le> len" "0 < l" using ew \<open>ptr < ew\<close> by (simp_all add: l_def)
  obtain m where m: "back_spaces ptr s ew (ptr + len) = Some (ptr + m)" "l \<le> m" "m \<le> len"
      "trimmed s m = trimmed s len" "l < m \<longrightarrow> s ! (m - 1) \<noteq> 0x20"
    using back_spaces_ok [of len s l ptr] len l by auto
  have b: "byte_at_addr ptr s (ptr + m - 1) = Some (s ! (m - 1))"
    using m l len by (simp add: byte_at_addr_def)
  have "\<exists>k. (if s ! (m - 1) = 0x20 \<and> sw < ew then back_words ptr s sw (ptr + m) else Some (ptr + m)) = Some (ptr + k) \<and>
      k \<le> len \<and> trimmed s k = trimmed s len"
  proof (cases "s ! (m - 1) = 0x20 \<and> sw < ew")
    case True
    then have "m = l" using m by (cases "l = m") auto
    then have e: "ptr + m = ew" using l by simp
    obtain j where j: "sw = ptr + j" using sw(1) le_Suc_ex by blast
    then have "j \<le> m" using True e by simp
    then show ?thesis
      using back_words_ok [of m s j ptr] m len True e j ew(3) sw(3) by auto
  next
    case False
    then show ?thesis using m by auto
  qed
  then obtain k where k: "(if s ! (m - 1) = 0x20 \<and> sw < ew then back_words ptr s sw (ptr + m) else Some (ptr + m)) = Some (ptr + k)"
      "k \<le> len" "trimmed s k = trimmed s len" by blast
  have "skip_trailing_space ptr s len = back_spaces ptr s ptr (ptr + k)"
    unfolding skip_trailing_space_def Let_def ew_def [symmetric] sw_def [symmetric]
    using long ptr \<open>ptr < ew\<close> m(1) b k(1) by (auto split: if_splits)
  then show ?thesis using k by blast
qed

text \<open>
  C34: \<open>skip_trailing_space\<close> returns the end of the string without its trailing spaces, as the loop over single
  bytes would, for every length and every alignment of the string: it reads no byte outside the string, and
  every word it reads is aligned.
\<close>

theorem skip_trailing_space_correct:
  assumes "4 \<le> ptr" "len \<le> length s"
  shows "skip_trailing_space ptr s len = Some (ptr + trimmed s len)"
proof (cases "20 < len")
  case True
  then show ?thesis using back_words_trimmed [OF assms(2) _ assms(1)] assms(2) by (auto simp: back_spaces_trimmed)
next
  case False
  then show ?thesis using assms(2) by (simp add: skip_trailing_space_def back_spaces_trimmed)
qed

theorem skip_trailing_space_correct_witness:
  "skip_trailing_space 7 ([0x41, 0x42] @ replicate 30 0x20) 32 = Some 9"
proof -
  have "trimmed ([0x41, 0x42] @ replicate 30 0x20) 32 = 2" by code_simp
  then show ?thesis using skip_trailing_space_correct [of 7 32 "[0x41, 0x42] @ replicate 30 0x20"] by simp
qed

end
