(* ===== verification/Atomic.thy ===== *)
theory Atomic
  imports Prelude
begin

text \<open>
  The atomic operations of \<^verbatim>\<open>my_atomic.h\<close>: add, fetch-and-store, load and store, made from compare-and-swap by
  loops that run until no other thread has changed the variable in between. The bodies of
  \<^verbatim>\<open>atomic/rwlock.h\<close>, which run under a mutex, are the reference.

  Threads share one variable. A step of a thread is one access to it: the plain read with which a
  function begins, or one compare-and-swap. A schedule is the list of the threads that move, one step
  each. Words have any width: the functions exist for 32 bits and for pointers. Sums wrap around; in C the overflow of
  an \<open>int32\<close> is undefined, so the results are about sums that do not overflow or a compiler that wraps.
\<close>

section \<open>The bodies under the mutex\<close>

text \<open>Each gives the new value of \<open>*a\<close> and the result of the function.\<close>

definition rw_add :: "'a::len word \<Rightarrow> 'a word \<Rightarrow> 'a word \<times> 'a word" where
  "rw_add a v = (let sav = a in (a + v, sav))"

definition rw_fas :: "'a::len word \<Rightarrow> 'a word \<Rightarrow> 'a word \<times> 'a word" where
  "rw_fas a v = (let sav = a in (v, sav))"

definition rw_load :: "'a::len word \<Rightarrow> 'a word \<times> 'a word" where
  "rw_load a = (a, a)"

definition rw_store :: "'a::len word \<Rightarrow> 'a word \<Rightarrow> 'a word" where
  "rw_store a v = v"

text \<open>Compare-and-swap: the new \<open>*a\<close>, the new \<open>*cmp\<close> and whether the two were equal.\<close>

definition cas :: "'a::len word \<Rightarrow> 'a word \<Rightarrow> 'a word \<Rightarrow> 'a word \<times> 'a word \<times> bool" where
  "cas a cmp v = (if a = cmp then (v, cmp, True) else (a, a, False))"

section \<open>The functions made from compare-and-swap\<close>

datatype 'v op = Add 'v | Fas 'v | Load | Store 'v

text \<open>
  A thread before its call, in the loop with its local \<open>tmp\<close>, and after it with the value returned.
\<close>

datatype 'v thread = Call "'v op" | Spin "'v op" 'v | Done "'v op" 'v

text \<open>The value a loop tries to store.\<close>

fun desired :: "'a::len word op \<Rightarrow> 'a word \<Rightarrow> 'a word" where
  "desired (Add v) tmp = tmp + v"
| "desired (Fas v) tmp = v"
| "desired Load tmp = tmp"
| "desired (Store v) tmp = v"

text \<open>One step of a thread: the new value of the variable, the thread, and whether its call took effect.\<close>

fun thread_step :: "'a::len word \<Rightarrow> 'a word thread \<Rightarrow> 'a word \<times> 'a word thread \<times> bool" where
  "thread_step a (Call Load) = (case cas a 0 0 of (a, ret, _) \<Rightarrow> (a, Done Load ret, True))"
| "thread_step a (Call f) = (a, Spin f a, False)"
| "thread_step a (Spin f tmp) =
     (case cas a tmp (desired f tmp) of (a, tmp, ok) \<Rightarrow> (a, if ok then Done f tmp else Spin f tmp, ok))"
| "thread_step a (Done f r) = (a, Done f r, False)"

text \<open>
  The state: the variable, the threads, and the threads whose calls took effect, in the order in which they
  did.
\<close>

record 'v system =
  var :: 'v
  threads :: "'v thread list"
  effects :: "nat list"

definition move :: "nat \<Rightarrow> 'a::len word system \<Rightarrow> 'a word system" where
  "move i s =
     (if i < length (threads s)
      then case thread_step (var s) (threads s ! i) of (a, t, eff) \<Rightarrow>
        \<lparr>var = a, threads = (threads s)[i := t], effects = effects s @ (if eff then [i] else [])\<rparr>
      else s)"

definition run :: "nat list \<Rightarrow> 'a::len word system \<Rightarrow> 'a word system" where
  "run sched s = fold move sched s"

definition start :: "'a::len word \<Rightarrow> 'a word op list \<Rightarrow> 'a word system" where
  "start a fs = \<lparr>var = a, threads = map Call fs, effects = []\<rparr>"

section \<open>Replaying the calls under the mutex\<close>

text \<open>The effect of a call in one piece; a store returns nothing.\<close>

fun call_op :: "'a::len word op \<Rightarrow> 'a word \<Rightarrow> 'a word \<times> 'a word option" where
  "call_op (Add v) a = map_prod id Some (rw_add a v)"
| "call_op (Fas v) a = map_prod id Some (rw_fas a v)"
| "call_op Load a = map_prod id Some (rw_load a)"
| "call_op (Store v) a = (rw_store a v, None)"

fun returned :: "'v op \<Rightarrow> 'v \<Rightarrow> 'v option" where
  "returned (Store v) r = None"
| "returned f r = Some r"

fun op_of :: "'v thread \<Rightarrow> 'v op" where
  "op_of (Call f) = f"
| "op_of (Spin f tmp) = f"
| "op_of (Done f r) = f"

definition finished :: "'v thread \<Rightarrow> bool" where
  "finished t \<longleftrightarrow> (\<exists>f r. t = Done f r)"

text \<open>The calls of the threads \<open>is\<close> one after the other, where each returns what its thread has returned.\<close>

fun replay :: "'a::len word thread list \<Rightarrow> nat list \<Rightarrow> 'a word \<Rightarrow> 'a word option" where
  "replay ts [] a = Some a"
| "replay ts (i # is) a =
     (case ts ! i of
        Done f r \<Rightarrow> if snd (call_op f a) = returned f r then replay ts is (fst (call_op f a)) else None
      | _ \<Rightarrow> None)"

section \<open>The invariant\<close>

definition linear :: "'a::len word \<Rightarrow> 'a word op list \<Rightarrow> 'a word system \<Rightarrow> bool" where
  "linear a0 fs s \<longleftrightarrow>
     length (threads s) = length fs \<and> (\<forall>i < length fs. op_of (threads s ! i) = fs ! i) \<and>
     (\<forall>i < length fs. \<forall>tmp. threads s ! i \<noteq> Spin Load tmp) \<and>
     distinct (effects s) \<and> set (effects s) = {i. i < length fs \<and> finished (threads s ! i)} \<and>
     replay (threads s) (effects s) a0 = Some (var s)"

lemma replay_append: "replay ts (is @ js) a = Option.bind (replay ts is a) (replay ts js)"
  by (induction "is" arbitrary: a) (auto split: thread.splits)

lemma replay_update: "i \<notin> set is \<Longrightarrow> replay (ts[i := t]) is a = replay ts is a"
  by (induction "is" arbitrary: a) (auto split: thread.splits)

lemma desired_call: "f \<noteq> Load \<Longrightarrow> call_op f a = (desired f a, returned f a)"
  by (cases f) (simp_all add: rw_add_def rw_fas_def rw_store_def)

lemma thread_step_effect:
  assumes "thread_step a t = (a', t', True)" "\<And>tmp. t \<noteq> Spin Load tmp"
  shows "\<exists>r. t' = Done (op_of t) r \<and> call_op (op_of t) a = (a', returned (op_of t) r) \<and> \<not> finished t"
  using assms(1) assms(2) [of "case t of Spin f x \<Rightarrow> x | _ \<Rightarrow> 0"]
  by (cases "(a, t)" rule: thread_step.cases)
    (auto simp: cas_def finished_def rw_load_def desired_call split: if_splits)

lemma thread_step_quiet:
  assumes "thread_step a t = (a', t', False)"
  shows "a' = a \<and> op_of t' = op_of t \<and> finished t' = finished t \<and> (finished t \<longrightarrow> t' = t)"
  using assms
  by (cases "(a, t)" rule: thread_step.cases) (auto simp: cas_def finished_def split: if_splits)

lemma thread_step_not_load:
  "thread_step a t = (a', t', e) \<Longrightarrow> (\<And>tmp. t \<noteq> Spin Load tmp) \<Longrightarrow> t' \<noteq> Spin Load tmp'"
  by (cases "(a, t)" rule: thread_step.cases) (auto simp: cas_def split: if_splits)

lemma move_linear:
  assumes "linear a0 fs s"
  shows "linear a0 fs (move i s)"
proof (cases "i < length fs")
  case True
  obtain a t e where st: "thread_step (var s) (threads s ! i) = (a, t, e)" by (metis prod_cases3)
  have i: "i < length (threads s)" using assms True by (simp add: linear_def)
  have nl: "threads s ! i \<noteq> Spin Load tmp" for tmp using assms True by (simp add: linear_def)
  have ns: "t \<noteq> Spin Load tmp" for tmp using thread_step_not_load [OF st nl] .
  show ?thesis
  proof (cases e)
    case True
    then have st': "thread_step (var s) (threads s ! i) = (a, t, True)" using st by simp
    obtain r where r: "t = Done (op_of (threads s ! i)) r" "\<not> finished (threads s ! i)"
        "call_op (op_of (threads s ! i)) (var s) = (a, returned (op_of (threads s ! i)) r)"
      using thread_step_effect [OF st' nl] by blast
    have notin: "i \<notin> set (effects s)" using assms r(2) by (simp add: linear_def)
    have "replay ((threads s)[i := t]) (effects s @ [i]) a0 = Some a"
      using assms r(1,3) i by (simp add: replay_append replay_update [OF notin] linear_def)
    moreover have "op_of t = op_of (threads s ! i)" "finished t" using r(1) by (simp_all add: finished_def)
    ultimately show ?thesis
      using assms notin i st True ns by (auto simp: linear_def move_def nth_list_update)
  next
    case False
    then have st': "thread_step (var s) (threads s ! i) = (a, t, False)" using st by simp
    have q: "a = var s" "op_of t = op_of (threads s ! i)" "finished t = finished (threads s ! i)"
        "finished (threads s ! i) \<longrightarrow> t = threads s ! i"
      using thread_step_quiet [OF st'] by auto
    have "replay ((threads s)[i := t]) (effects s) a0 = replay (threads s) (effects s) a0"
    proof (cases "finished (threads s ! i)")
      case True
      then show ?thesis using q(4) by simp
    next
      case False
      then have "i \<notin> set (effects s)" using assms by (simp add: linear_def)
      then show ?thesis by (rule replay_update)
    qed
    then show ?thesis
      using assms q i st False ns by (auto simp: linear_def move_def nth_list_update)
  qed
next
  case False
  then show ?thesis using assms by (simp add: linear_def move_def)
qed

lemma run_linear: "linear a0 fs s \<Longrightarrow> linear a0 fs (run sched s)"
  unfolding run_def by (induction sched arbitrary: s) (simp_all add: move_linear)

lemma start_linear: "linear a0 fs (start a0 fs)"
  by (auto simp: linear_def start_def finished_def)

text \<open>A thread that moves alone: it reads, and its compare-and-swap then succeeds.\<close>

lemma cas_same [simp]: "cas a a v = (v, a, True)"
  by (simp add: cas_def)

lemma solo_step:
  "thread_step a t = (a', t', e) \<Longrightarrow> finished t' \<or> (\<exists>f. t' = Spin f a')"
  by (cases "(a, t)" rule: thread_step.cases) (auto simp: cas_def finished_def split: if_splits)

lemma solo_finishes:
  assumes "i < length (threads s)"
  shows "finished (threads (run [i, i] s) ! i)"
proof -
  obtain a t e where st: "thread_step (var s) (threads s ! i) = (a, t, e)" by (metis prod_cases3)
  from solo_step [OF st] show ?thesis
  proof
    assume "finished t"
    then show ?thesis using assms st by (auto simp: run_def move_def finished_def)
  next
    assume "\<exists>f. t = Spin f a"
    then show ?thesis using assms st by (auto simp: run_def move_def finished_def)
  qed
qed

section \<open>Properties\<close>

text \<open>
  C29: Whatever the schedule of the threads, the functions made from compare-and-swap are atomic: there is
  one order of the calls that took effect in which the mutex bodies, one after the other, bring the
  variable to its value and return to each thread what it was returned. Each of those threads took effect
  once, and every other is still in its call.
\<close>

theorem atomics_linearizable:
  fixes a0 :: "'a::len word" and fs :: "'a word op list" and sched :: "nat list"
  defines "s \<equiv> run sched (start a0 fs)"
  shows "replay (threads s) (effects s) a0 = Some (var s) \<and> distinct (effects s) \<and>
    set (effects s) = {i. i < length fs \<and> finished (threads s ! i)} \<and> map op_of (threads s) = fs"
proof -
  have "linear a0 fs s" unfolding s_def by (intro run_linear start_linear)
  then show ?thesis by (auto simp: linear_def intro: nth_equalityI)
qed

text \<open>
  No thread can keep the others from returning: from every state a schedule reaches, a thread that
  takes two steps alone has returned.
\<close>

lemma atomics_obstruction_free:
  assumes "i < length fs"
  shows "finished (threads (run [i, i] (run sched (start a0 fs))) ! i)"
proof -
  have "linear a0 fs (run sched (start a0 fs))" by (intro run_linear start_linear)
  then show ?thesis using assms by (intro solo_finishes) (simp add: linear_def)
qed

lemma atomics_obstruction_free_witness:
  "finished (threads (run [1, 1] (run [0, 1, 0, 1] (start (7 :: 32 word) [Add 1, Add 2]))) ! 1)"
  by (rule atomics_obstruction_free) simp

end
