(* ===== verification/Trie.thy ===== *)
theory Trie
  imports LinkedHeap "HOL-Library.Word" "HOL-Library.Sublist"
begin

text \<open>
  The inline functions of \<^verbatim>\<open>my_trie.h\<close>: look-up of a key in a trie (\<open>trie_search\<close>) and one step of the
  Aho-Corasick automaton on it (\<open>trie_goto\<close>, \<open>ac_trie_next\<close>). The nodes are cells of a heap, linked by
  \<open>next\<close>, \<open>links\<close> and \<open>fail\<close>; the functions that build a trie are only declared in the header, so
  what they build is stated as the invariants \<open>trie_ok\<close> and \<open>ac_ok\<close>.
\<close>

section \<open>Nodes and functions\<close>

record trie_node =
  tn_leaf :: "16 word"
  tn_c :: "8 word"
  tn_next :: ptr
  tn_links :: ptr
  tn_fail :: ptr

text \<open>The loop of \<open>trie_goto\<close> over the edges of a node, and the function.\<close>

partial_function (option) goto_loop :: "trie_node heap \<Rightarrow> ptr \<Rightarrow> 8 word \<Rightarrow> ptr option" where
  "goto_loop h nx c =
     (case nx of
        None \<Rightarrow> Some None
      | Some a \<Rightarrow> do { n \<leftarrow> h a; if tn_c n = c then Some (Some a) else goto_loop h (tn_next n) c })"

definition trie_goto :: "trie_node heap \<Rightarrow> nat \<Rightarrow> nat \<Rightarrow> 8 word \<Rightarrow> ptr option" where
  "trie_goto h root node c = do {
     n \<leftarrow> h node;
     nx \<leftarrow> goto_loop h (tn_links n) c;
     if nx \<noteq> None then Some nx else if root = node then Some (Some root) else Some None }"

text \<open>
  The loop of \<open>ac_trie_next\<close> gives the new node of the state; the function returns it and its \<open>leaf\<close>.
\<close>

partial_function (option) fail_loop :: "trie_node heap \<Rightarrow> nat \<Rightarrow> nat \<Rightarrow> 8 word \<Rightarrow> nat option" where
  "fail_loop h root node c = do {
     nx \<leftarrow> trie_goto h root node c;
     case nx of
       Some m \<Rightarrow> Some m
     | None \<Rightarrow> do { n \<leftarrow> h node; f \<leftarrow> tn_fail n; fail_loop h root f c } }"

definition ac_trie_next :: "trie_node heap \<Rightarrow> nat \<Rightarrow> nat \<Rightarrow> 8 word \<Rightarrow> (nat \<times> 16 word) option" where
  "ac_trie_next h root node c = do { m \<leftarrow> fail_loop h root node c; n \<leftarrow> h m; Some (m, tn_leaf n) }"

text \<open>\<open>while (p != node->c) if (!(node = node->next)) return FALSE\<close>, with \<open>None\<close> for the return.\<close>

partial_function (option) edge_loop :: "trie_node heap \<Rightarrow> nat \<Rightarrow> 8 word \<Rightarrow> ptr option" where
  "edge_loop h node p = do {
     n \<leftarrow> h node;
     if p \<noteq> tn_c n then (case tn_next n of None \<Rightarrow> Some None | Some b \<Rightarrow> edge_loop h b p) else Some (Some node) }"

fun search_loop :: "trie_node heap \<Rightarrow> nat \<Rightarrow> 8 word list \<Rightarrow> bool option" where
  "search_loop h node [] = do { n \<leftarrow> h node; Some (tn_leaf n > 0) }"
| "search_loop h node (p # key) = do {
     n \<leftarrow> h node;
     case tn_links n of
       None \<Rightarrow> Some False
     | Some a \<Rightarrow> do {
         r \<leftarrow> edge_loop h a p;
         case r of None \<Rightarrow> Some False | Some b \<Rightarrow> search_loop h b key } }"

definition trie_search :: "trie_node heap \<Rightarrow> nat \<Rightarrow> 8 word list \<Rightarrow> bool option" where
  "trie_search h root key = (if key = [] then None else search_loop h root key)"

section \<open>Well-formed tries\<close>

text \<open>
  \<open>w a\<close> is the word on the path from the root to the node \<open>a\<close>: the edges of \<open>a\<close> lead to the words one
  character longer, no two nodes have the same word, and every node but the root hangs on another.
\<close>

definition edges :: "trie_node heap \<Rightarrow> nat \<Rightarrow> nat list \<Rightarrow> bool" where
  "edges h a bs \<longleftrightarrow> (\<exists>n. h a = Some n \<and> lpath tn_next h (tn_links n) bs None)"

definition trie_ok :: "trie_node heap \<Rightarrow> nat \<Rightarrow> (nat \<Rightarrow> 8 word list) \<Rightarrow> bool" where
  "trie_ok h root w \<longleftrightarrow> root \<in> dom h \<and> w root = [] \<and> inj_on w (dom h) \<and>
     (\<forall>a \<in> dom h. \<exists>bs. edges h a bs \<and> (\<forall>b \<in> set bs. \<exists>m. h b = Some m \<and> w b = w a @ [tn_c m])) \<and>
     (\<forall>b \<in> dom h. b \<noteq> root \<longrightarrow> (\<exists>a bs. edges h a bs \<and> b \<in> set bs))"

text \<open>The words of the trie, and the longest of them that ends a given word.\<close>

definition words :: "trie_node heap \<Rightarrow> (nat \<Rightarrow> 8 word list) \<Rightarrow> 8 word list set" where
  "words h w = w ` dom h"

definition longest :: "8 word list set \<Rightarrow> 8 word list \<Rightarrow> 8 word list \<Rightarrow> bool" where
  "longest W u v \<longleftrightarrow> v \<in> W \<and> suffix v u \<and> (\<forall>x \<in> W. suffix x u \<longrightarrow> length x \<le> length v)"

text \<open>The failure function: the longest proper end of a node's word that the trie has.\<close>

definition ac_ok :: "trie_node heap \<Rightarrow> nat \<Rightarrow> (nat \<Rightarrow> 8 word list) \<Rightarrow> bool" where
  "ac_ok h root w \<longleftrightarrow> trie_ok h root w \<and>
     (\<forall>a n. h a = Some n \<longrightarrow> a \<noteq> root \<longrightarrow>
       (\<exists>f. tn_fail n = Some f \<and> f \<in> dom h \<and> longest (words h w) (tl (w a)) (w f)))"

lemma same_word: "trie_ok h root w \<Longrightarrow> a \<in> dom h \<Longrightarrow> b \<in> dom h \<Longrightarrow> w a = w b \<Longrightarrow> a = b"
  unfolding trie_ok_def by (meson inj_onD)

lemma edges_unique: "edges h a bs \<Longrightarrow> edges h a cs \<Longrightarrow> bs = cs"
  by (auto simp: edges_def dest: lpath_unique)

lemma child_word:
  assumes "trie_ok h root w" "edges h a bs" "b \<in> set bs"
  shows "\<exists>m. h b = Some m \<and> w b = w a @ [tn_c m]"
proof -
  have "a \<in> dom h" using assms(2) by (auto simp: edges_def)
  then show ?thesis using assms edges_unique [OF assms(2)] unfolding trie_ok_def by metis
qed

lemma word_child:
  assumes "trie_ok h root w" "edges h a bs" "b \<in> dom h" "w b = w a @ [c]"
  shows "b \<in> set bs"
proof -
  have "b \<noteq> root" using assms(1,4) by (auto simp: trie_ok_def)
  then obtain a' cs where p: "edges h a' cs" "b \<in> set cs" using assms(1,3) unfolding trie_ok_def by meson
  then obtain m :: trie_node where "w b = w a' @ [tn_c m]" using child_word [OF assms(1) p] by blast
  then have "w a' = w a" using assms(4) by simp
  moreover have "a' \<in> dom h" "a \<in> dom h" using p(1) assms(2) by (auto simp: edges_def)
  ultimately have "a' = a" using assms(1) by (auto simp: trie_ok_def inj_on_def)
  then show ?thesis using edges_unique p assms(2) by blast
qed

lemma prefix_words:
  assumes "trie_ok h root w" "u @ [c] \<in> words h w"
  shows "u \<in> words h w"
proof -
  obtain b where b: "b \<in> dom h" "w b = u @ [c]" using assms(2) unfolding words_def by (metis imageE)
  then have "b \<noteq> root" using assms(1) by (auto simp: trie_ok_def)
  then obtain a bs where a: "edges h a bs" "b \<in> set bs" using assms(1) b(1) unfolding trie_ok_def by meson
  then have "w a = u" using child_word [OF assms(1) a] b(2) by auto
  moreover have "a \<in> dom h" using a(1) by (auto simp: edges_def)
  ultimately show ?thesis by (auto simp: words_def)
qed

lemma prefix_words': "trie_ok h root w \<Longrightarrow> u @ v \<in> words h w \<Longrightarrow> u \<in> words h w"
  by (induction v rule: rev_induct) (auto dest: prefix_words simp flip: append_assoc)

section \<open>The loops\<close>

lemma goto_loop_ok:
  "lpath tn_next h p bs None \<Longrightarrow>
     \<exists>r. goto_loop h p c = Some r \<and>
       (case r of None \<Rightarrow> \<forall>b \<in> set bs. \<forall>m. h b = Some m \<longrightarrow> tn_c m \<noteq> c
        | Some b \<Rightarrow> b \<in> set bs \<and> (\<exists>m. h b = Some m \<and> tn_c m = c))"
proof (induction bs arbitrary: p)
  case Nil
  then show ?case by (subst goto_loop.simps) simp
next
  case (Cons b bs)
  then obtain n where n: "p = Some b" "h b = Some n" "lpath tn_next h (tn_next n) bs None"
    by (auto split: option.splits)
  show ?case
  proof (cases "tn_c n = c")
    case True
    then show ?thesis using n by (subst goto_loop.simps) simp
  next
    case False
    obtain r where "goto_loop h (tn_next n) c = Some r"
        "case r of None \<Rightarrow> \<forall>b \<in> set bs. \<forall>m. h b = Some m \<longrightarrow> tn_c m \<noteq> c
         | Some b \<Rightarrow> b \<in> set bs \<and> (\<exists>m. h b = Some m \<and> tn_c m = c)"
      using Cons.IH [OF n(3)] by blast
    then show ?thesis using n False by (subst goto_loop.simps) (auto split: option.splits)
  qed
qed

lemma edge_loop_goto: "lpath tn_next h (Some a) bs None \<Longrightarrow> edge_loop h a c = goto_loop h (Some a) c"
proof (induction bs arbitrary: a)
  case (Cons b bs)
  then obtain n where n: "b = a" "h a = Some n" "lpath tn_next h (tn_next n) bs None" by (auto split: option.splits)
  show ?case
  proof (cases "tn_next n")
    case None
    then show ?thesis using n
      by (subst edge_loop.simps, subst goto_loop.simps) (auto simp: goto_loop.simps [of h None])
  next
    case (Some b')
    then have "edge_loop h b' c = goto_loop h (Some b') c" using Cons.IH n(3) by simp
    then show ?thesis using n Some by (subst edge_loop.simps, subst goto_loop.simps) simp
  qed
qed simp

text \<open>Following an edge: to the node of the longer word, if the trie has it.\<close>

lemma goto_word:
  assumes "trie_ok h root w" "h a = Some n"
  shows "\<exists>r. goto_loop h (tn_links n) c = Some r \<and>
    (case r of None \<Rightarrow> w a @ [c] \<notin> words h w | Some b \<Rightarrow> b \<in> dom h \<and> w b = w a @ [c])"
proof -
  have "a \<in> dom h" using assms(2) by blast
  then obtain bs where e: "edges h a bs" using assms(1) unfolding trie_ok_def by meson
  then have "lpath tn_next h (tn_links n) bs None" using assms(2) by (simp add: edges_def)
  from goto_loop_ok [OF this, of c] obtain r where r: "goto_loop h (tn_links n) c = Some r"
      "case r of None \<Rightarrow> \<forall>b \<in> set bs. \<forall>m. h b = Some m \<longrightarrow> tn_c m \<noteq> c
       | Some b \<Rightarrow> b \<in> set bs \<and> (\<exists>m. h b = Some m \<and> tn_c m = c)" by blast
  show ?thesis
  proof (cases r)
    case None
    have "w a @ [c] \<notin> words h w"
    proof
      assume "w a @ [c] \<in> words h w"
      then obtain b where b: "b \<in> dom h" "w b = w a @ [c]" unfolding words_def by (metis imageE)
      have "b \<in> set bs" by (rule word_child [OF assms(1) e b])
      moreover from child_word [OF assms(1) e this] b(2) obtain m where "h b = Some m" "tn_c m = c" by auto
      ultimately show False using r(2) None by auto
    qed
    then show ?thesis using r(1) None by simp
  next
    case (Some b)
    then obtain m where "b \<in> set bs" "h b = Some m" "tn_c m = c" using r(2) by auto
    then show ?thesis using child_word [OF assms(1) e] r(1) Some by fastforce
  qed
qed

section \<open>Looking up a key\<close>

lemma search_loop_ok:
  assumes "trie_ok h root w"
  shows "a \<in> dom h \<Longrightarrow> search_loop h a key = Some (\<exists>b n. h b = Some n \<and> w b = w a @ key \<and> 0 < tn_leaf n)"
proof (induction key arbitrary: a)
  case Nil
  then obtain n where n: "h a = Some n" by blast
  have "b = a \<and> m = n" if "h b = Some m" "w b = w a" for b m
  proof -
    have "b = a" using same_word [OF assms, of b a] that n by blast
    then show ?thesis using that n by simp
  qed
  then have "(\<exists>b m. h b = Some m \<and> w b = w a \<and> 0 < tn_leaf m) \<longleftrightarrow> 0 < tn_leaf n" using n by metis
  then show ?case using n by simp
next
  case (Cons p key)
  then obtain n where n: "h a = Some n" by blast
  obtain r where r: "goto_loop h (tn_links n) p = Some r"
      "case r of None \<Rightarrow> w a @ [p] \<notin> words h w | Some b \<Rightarrow> b \<in> dom h \<and> w b = w a @ [p]"
    using goto_word [OF assms n] by blast
  have none: "\<not> (\<exists>b n. h b = Some n \<and> w b = w a @ p # key \<and> 0 < tn_leaf n)" if "r = None"
  proof
    assume "\<exists>b n. h b = Some n \<and> w b = w a @ p # key \<and> 0 < tn_leaf n"
    then obtain b :: nat where "b \<in> dom h" "w b = w a @ p # key" by blast
    then have "w a @ p # key \<in> words h w" unfolding words_def by (metis imageI)
    then have "(w a @ [p]) @ key \<in> words h w" by simp
    then have "w a @ [p] \<in> words h w" by (rule prefix_words' [OF assms])
    then show False using r(2) that by simp
  qed
  show ?case
  proof (cases "tn_links n")
    case None
    then have "r = None" using r(1) by (simp add: goto_loop.simps [of h None])
    then show ?thesis using none n None by simp
  next
    case (Some a')
    obtain bs where "edges h a bs" using assms Cons.prems unfolding trie_ok_def by meson
    then have "lpath tn_next h (Some a') bs None" using n Some by (simp add: edges_def)
    then have e: "edge_loop h a' p = Some r" using edge_loop_goto r(1) Some by metis
    show ?thesis
    proof (cases r)
      case None
      then show ?thesis using none n Some e by simp
    next
      case found: (Some b)
      then have "b \<in> dom h" "w b = w a @ [p]" using r(2) by simp_all
      then show ?thesis using Cons.IH [of b] n Some e found by simp
    qed
  qed
qed

text \<open>
  \<open>trie_search\<close> of a key that is not empty tells whether the trie has the key as a word with a leaf; it
  returns for every key and follows no NULL pointer.
\<close>

lemma trie_search_correct:
  assumes "trie_ok h root w" "key \<noteq> []"
  shows "trie_search h root key = Some (\<exists>b n. h b = Some n \<and> w b = key \<and> 0 < tn_leaf n)"
proof -
  have "root \<in> dom h" "w root = []" using assms(1) by (simp_all add: trie_ok_def)
  then show ?thesis using search_loop_ok [OF assms(1), of root key] assms(2) by (simp add: trie_search_def)
qed

section \<open>The automaton\<close>

lemma trie_goto_word:
  assumes "trie_ok h root w" "a \<in> dom h"
  shows "\<exists>r. trie_goto h root a c = Some r \<and>
    (case r of
       Some m \<Rightarrow> m \<in> dom h \<and> (w m = w a @ [c] \<or> m = root \<and> a = root \<and> [c] \<notin> words h w)
     | None \<Rightarrow> a \<noteq> root \<and> w a @ [c] \<notin> words h w)"
proof -
  obtain n where n: "h a = Some n" using assms(2) by blast
  have root: "root \<in> dom h" "w root = []" using assms(1) by (simp_all add: trie_ok_def)
  obtain r where "goto_loop h (tn_links n) c = Some r"
      "case r of None \<Rightarrow> w a @ [c] \<notin> words h w | Some b \<Rightarrow> b \<in> dom h \<and> w b = w a @ [c]"
    using goto_word [OF assms(1) n] by blast
  then show ?thesis using n root by (cases r) (auto simp: trie_goto_def)
qed

lemma suffix_snoc_cases: "suffix x (u @ [c]) \<Longrightarrow> x = [] \<or> (\<exists>v. x = v @ [c] \<and> suffix v u)"
  by (cases x rule: rev_cases) auto

text \<open>
  The loop at the node \<open>a\<close> while looking for the longest end of \<open>u @ [c]\<close>: the word of \<open>a\<close> ends \<open>u\<close>, and no
  longer end of \<open>u\<close> can go on with \<open>c\<close>.
\<close>

lemma fail_loop_ok:
  assumes "ac_ok h root w" "a \<in> dom h" "suffix (w a) u"
    and "\<And>v. suffix v u \<Longrightarrow> v @ [c] \<in> words h w \<Longrightarrow> length v \<le> length (w a)"
  shows "\<exists>m. fail_loop h root a c = Some m \<and> m \<in> dom h \<and> longest (words h w) (u @ [c]) (w m)"
  using assms(2-)
proof (induction "length (w a)" arbitrary: a rule: less_induct)
  case less
  have t: "trie_ok h root w" using assms(1) by (simp add: ac_ok_def)
  have root: "w root = []" "root \<in> dom h" using t by (simp_all add: trie_ok_def)
  have below: "length x \<le> Suc (length (w a))" if "x \<in> words h w" "suffix x (u @ [c])" for x
    using suffix_snoc_cases [OF that(2)] that(1) less.prems(3) by fastforce
  obtain r where r: "trie_goto h root a c = Some r"
      "case r of
        Some m \<Rightarrow> m \<in> dom h \<and> (w m = w a @ [c] \<or> m = root \<and> a = root \<and> [c] \<notin> words h w)
       | None \<Rightarrow> a \<noteq> root \<and> w a @ [c] \<notin> words h w"
    using trie_goto_word [OF t less.prems(1)] by blast
  show ?case
  proof (cases r)
    case (Some m)
    then have m: "m \<in> dom h" "w m = w a @ [c] \<or> m = root \<and> a = root \<and> [c] \<notin> words h w" using r(2) by simp_all
    have "longest (words h w) (u @ [c]) (w m)"
    proof (cases "w m = w a @ [c]")
      case True
      moreover have "w m \<in> words h w" using m(1) by (simp add: words_def)
      ultimately show ?thesis using below less.prems(2) by (auto simp: longest_def)
    next
      case False
      then have f: "m = root" "a = root" "[c] \<notin> words h w" using m(2) by simp_all
      have "x = []" if x: "x \<in> words h w" "suffix x (u @ [c])" for x
      proof (rule ccontr)
        assume "x \<noteq> []"
        then obtain v where v: "x = v @ [c]" "suffix v u" using suffix_snoc_cases [OF x(2)] by blast
        then have "v = []" using less.prems(3) [of v] x(1) f(2) root by simp
        then show False using f(3) v x(1) by simp
      qed
      then show ?thesis using f root by (force simp: longest_def words_def)
    qed
    then show ?thesis using r(1) Some m(1) by (subst fail_loop.simps) simp
  next
    case None
    then have no: "a \<noteq> root" "w a @ [c] \<notin> words h w" using r(2) by simp_all
    obtain n where n: "h a = Some n" using less.prems(1) by blast
    then obtain f where f: "tn_fail n = Some f" "f \<in> dom h" "longest (words h w) (tl (w a)) (w f)"
      using assms(1) no(1) unfolding ac_ok_def by meson
    have "w a \<noteq> []" using no(1) root less.prems(1) same_word [OF t, of a root] by auto
    then have tl: "length (tl (w a)) < length (w a)" "suffix (tl (w a)) (w a)" by (simp_all add: suffix_tl)
    have sf: "suffix (w f) (tl (w a))" using f(3) by (simp add: longest_def)
    have lt: "length (w f) < length (w a)" "suffix (w f) u"
      using suffix_length_le [OF sf] tl(1) suffix_order.trans [OF suffix_order.trans [OF sf tl(2)] less.prems(2)] by simp_all
    have "length v \<le> length (w f)" if v: "suffix v u" "v @ [c] \<in> words h w" for v
    proof -
      have "length v \<le> length (w a)" using less.prems(3) v .
      moreover have "v \<noteq> w a" using v(2) no(2) by blast
      ultimately obtain p where "w a = p @ v" "p \<noteq> []"
        using suffix_length_suffix [OF v(1) less.prems(2)] by (auto simp: suffix_def)
      then have "suffix v (tl (w a))" by (auto simp: suffix_def)
      moreover have "v \<in> words h w" using prefix_words [OF t v(2)] .
      ultimately show ?thesis using f(3) by (simp add: longest_def)
    qed
    then obtain m where "fail_loop h root f c = Some m" "m \<in> dom h" "longest (words h w) (u @ [c]) (w m)"
      using less.hyps [OF lt(1) f(2) lt(2)] by blast
    then show ?thesis using r(1) None n f(1) by (subst fail_loop.simps) simp
  qed
qed

text \<open>A text fed to the automaton, byte by byte; the nodes of the state it passes.\<close>

fun feed :: "trie_node heap \<Rightarrow> nat \<Rightarrow> nat \<Rightarrow> 8 word list \<Rightarrow> (nat \<times> 16 word) list option" where
  "feed h root a [] = Some []"
| "feed h root a (c # cs) = do {
     (m, leaf) \<leftarrow> ac_trie_next h root a c;
     r \<leftarrow> feed h root m cs;
     Some ((m, leaf) # r) }"

lemma longest_step:
  assumes "longest W t u" "longest W (u @ [c]) v" "\<And>x y. x @ y \<in> W \<Longrightarrow> x \<in> W"
  shows "longest W (t @ [c]) v"
proof -
  have "suffix v (t @ [c])" using assms(1,2) by (auto simp: longest_def suffix_def)
  moreover have "length x \<le> length v" if x: "x \<in> W" "suffix x (t @ [c])" for x
  proof (cases "x = []")
    case False
    then obtain y where y: "x = y @ [c]" "suffix y t" using suffix_snoc_cases [OF x(2)] by blast
    then have "y \<in> W" using assms(3) x(1) by blast
    then have "suffix y u" using assms(1) y(2) by (meson longest_def suffix_length_suffix)
    then have "suffix x (u @ [c])" using y(1) by simp
    then show ?thesis using assms(2) x(1) unfolding longest_def by blast
  qed simp
  ultimately show ?thesis using assms(2) by (simp add: longest_def)
qed

lemma feed_ok:
  assumes "ac_ok h root w"
  shows "a \<in> dom h \<Longrightarrow> longest (words h w) t (w a) \<Longrightarrow>
    \<exists>ms. feed h root a cs = Some ms \<and> length ms = length cs \<and>
      (\<forall>i < length cs. \<exists>n. h (fst (ms ! i)) = Some n \<and> snd (ms ! i) = tn_leaf n \<and>
        longest (words h w) (t @ take (Suc i) cs) (w (fst (ms ! i))))"
proof (induction cs arbitrary: a t)
  case (Cons c cs)
  have t: "trie_ok h root w" using assms by (simp add: ac_ok_def)
  obtain m where m: "fail_loop h root a c = Some m" "m \<in> dom h" "longest (words h w) (w a @ [c]) (w m)"
    using fail_loop_ok [OF assms Cons.prems(1), of "w a" c] by (auto dest: suffix_length_le)
  then obtain n where n: "h m = Some n" by blast
  have l: "longest (words h w) (t @ [c]) (w m)"
    by (rule longest_step [OF Cons.prems(2) m(3)]) (rule prefix_words' [OF t])
  obtain ms where ms: "feed h root m cs = Some ms" "length ms = length cs"
      "\<forall>i < length cs. \<exists>n. h (fst (ms ! i)) = Some n \<and> snd (ms ! i) = tn_leaf n \<and>
        longest (words h w) ((t @ [c]) @ take (Suc i) cs) (w (fst (ms ! i)))"
    using Cons.IH [OF m(2) l] by blast
  have "\<forall>i < length (c # cs). \<exists>n'. h (fst (((m, tn_leaf n) # ms) ! i)) = Some n' \<and> snd (((m, tn_leaf n) # ms) ! i) = tn_leaf n' \<and>
      longest (words h w) (t @ take (Suc i) (c # cs)) (w (fst (((m, tn_leaf n) # ms) ! i)))"
  proof (intro allI impI)
    fix i assume "i < length (c # cs)"
    then show "\<exists>n'. h (fst (((m, tn_leaf n) # ms) ! i)) = Some n' \<and> snd (((m, tn_leaf n) # ms) ! i) = tn_leaf n' \<and>
        longest (words h w) (t @ take (Suc i) (c # cs)) (w (fst (((m, tn_leaf n) # ms) ! i)))"
      using ms(3) n l by (cases i) auto
  qed
  moreover have "feed h root a (c # cs) = Some ((m, tn_leaf n) # ms)" using m(1) n ms(1) by (simp add: ac_trie_next_def)
  moreover have "length ((m, tn_leaf n) # ms) = length (c # cs)" using ms(2) by simp
  ultimately show ?case by blast
qed simp

text \<open>
  C31: Fed with a text from the root, \<open>ac_trie_next\<close> returns at every position, and the node it moves to is the
  longest word of the trie that ends there; its value is the leaf of that node.
\<close>

theorem ac_trie_next_correct:
  assumes "ac_ok h root w"
  shows "\<exists>ms. feed h root root text' = Some ms \<and> length ms = length text' \<and>
    (\<forall>i < length text'. \<exists>n. h (fst (ms ! i)) = Some n \<and> snd (ms ! i) = tn_leaf n \<and>
      longest (words h w) (take (Suc i) text') (w (fst (ms ! i))))"
proof -
  have "root \<in> dom h" "w root = []" using assms by (simp_all add: ac_ok_def trie_ok_def)
  moreover from this have "longest (words h w) [] (w root)" by (force simp: longest_def words_def)
  ultimately show ?thesis using feed_ok [OF assms, of root "[]" text'] by simp
qed

section \<open>An example\<close>

text \<open>A trie with the words \<open>ab\<close> and \<open>b\<close>.\<close>

definition demo_trie :: "trie_node heap" where
  "demo_trie = [
     3 \<mapsto> \<lparr>tn_leaf = 0, tn_c = 0, tn_next = None, tn_links = Some 4, tn_fail = Some 3\<rparr>,
     4 \<mapsto> \<lparr>tn_leaf = 0, tn_c = 0x61, tn_next = Some 6, tn_links = Some 5, tn_fail = Some 3\<rparr>,
     5 \<mapsto> \<lparr>tn_leaf = 2, tn_c = 0x62, tn_next = None, tn_links = None, tn_fail = Some 6\<rparr>,
     6 \<mapsto> \<lparr>tn_leaf = 1, tn_c = 0x62, tn_next = None, tn_links = None, tn_fail = Some 3\<rparr>]"

definition demo_word :: "nat \<Rightarrow> 8 word list" where
  "demo_word a = (if a = 4 then [0x61] else if a = 5 then [0x61, 0x62] else if a = 6 then [0x62] else [])"

lemma demo_dom: "dom demo_trie = {3, 4, 5, 6}"
  by (auto simp: demo_trie_def)

lemma demo_edges: "edges demo_trie 3 [4, 6]" "edges demo_trie 4 [5]" "edges demo_trie 5 []" "edges demo_trie 6 []"
  by (simp_all add: edges_def demo_trie_def)

lemma demo_trie_ok: "trie_ok demo_trie 3 demo_word"
  unfolding trie_ok_def demo_dom
proof (intro conjI)
  show "inj_on demo_word {3, 4, 5, 6}" by (simp add: demo_word_def)
  show "\<forall>a \<in> {3, 4, 5, 6}. \<exists>bs. edges demo_trie a bs \<and> (\<forall>b \<in> set bs. \<exists>m. demo_trie b = Some m \<and> demo_word b = demo_word a @ [tn_c m])"
  proof (intro ballI)
    fix a :: nat assume "a \<in> {3, 4, 5, 6}"
    then consider "a = 3" | "a = 4" | "a = 5" | "a = 6" by auto
    then show "\<exists>bs. edges demo_trie a bs \<and> (\<forall>b \<in> set bs. \<exists>m. demo_trie b = Some m \<and> demo_word b = demo_word a @ [tn_c m])"
    proof cases
      case 1
      then show ?thesis using demo_edges(1) by (intro exI [of _ "[4, 6]"]) (simp add: demo_trie_def demo_word_def)
    next
      case 2
      then show ?thesis using demo_edges(2) by (intro exI [of _ "[5]"]) (simp add: demo_trie_def demo_word_def)
    next
      case 3
      then show ?thesis using demo_edges(3) by (intro exI [of _ "[]"]) simp
    next
      case 4
      then show ?thesis using demo_edges(4) by (intro exI [of _ "[]"]) simp
    qed
  qed
  show "\<forall>b \<in> {3, 4, 5, 6}. b \<noteq> 3 \<longrightarrow> (\<exists>a bs. edges demo_trie a bs \<and> b \<in> set bs)"
    using demo_edges by (metis insert_iff list.set(1,2) singletonD)
qed (simp_all add: demo_word_def)

lemma demo_ac_ok: "ac_ok demo_trie 3 demo_word"
proof -
  have words: "words demo_trie demo_word = {[], [0x61], [0x61, 0x62], [0x62]}"
    by (auto simp: words_def demo_dom demo_word_def)
  have f: "longest {[], [0x61], [0x61, 0x62], [0x62]} [] []" "longest {[], [0x61], [0x61, 0x62], [0x62]} [0x62 :: 8 word] [0x62]"
    by (auto simp: longest_def dest: suffix_length_le)
  have "\<exists>f. tn_fail n = Some f \<and> f \<in> dom demo_trie \<and> longest (words demo_trie demo_word) (tl (demo_word a)) (demo_word f)"
    if "demo_trie a = Some n" "a \<noteq> 3" for a n
  proof -
    have "a \<in> {4, 5, 6}" using that demo_dom by blast
    then consider "a = 4" | "a = 5" | "a = 6" by auto
    then show ?thesis
    proof cases
      case 1
      then show ?thesis unfolding words demo_dom using that f by (intro exI [of _ 3]) (auto simp: demo_trie_def demo_word_def)
    next
      case 2
      then show ?thesis unfolding words demo_dom using that f by (intro exI [of _ 6]) (auto simp: demo_trie_def demo_word_def)
    next
      case 3
      then show ?thesis unfolding words demo_dom using that f by (intro exI [of _ 3]) (auto simp: demo_trie_def demo_word_def)
    qed
  qed
  then show ?thesis using demo_trie_ok by (simp add: ac_ok_def)
qed

lemma trie_search_correct_witness:
  "trie_search demo_trie 3 [0x61, 0x62] = Some True \<and> trie_search demo_trie 3 [0x61] = Some False"
proof -
  have w: "demo_trie b = Some n \<Longrightarrow> b \<in> {3, 4, 5, 6}" for b n using demo_dom by blast
  have "\<exists>b n. demo_trie b = Some n \<and> demo_word b = [0x61, 0x62] \<and> 0 < tn_leaf n"
    by (rule exI [of _ 5]) (simp add: demo_trie_def demo_word_def)
  moreover have "\<not> (\<exists>b n. demo_trie b = Some n \<and> demo_word b = [0x61] \<and> 0 < tn_leaf n)"
    using w by (auto simp: demo_trie_def demo_word_def split: if_splits)
  ultimately show ?thesis
    using trie_search_correct [OF demo_trie_ok, of "[0x61, 0x62]"] trie_search_correct [OF demo_trie_ok, of "[0x61]"] by simp
qed

theorem ac_trie_next_correct_witness:
  "\<exists>ms. feed demo_trie 3 3 [0x61, 0x62, 0x62] = Some ms \<and> length ms = 3"
  using ac_trie_next_correct [OF demo_ac_ok, of "[0x61, 0x62, 0x62]"] by auto

end
