(* ===== verification/MyTime.thy ===== *)
theory MyTime
  imports Prelude "HOL-Library.Word"
begin

text \<open>
  \<^verbatim>\<open>my_time.h\<close> and the structure of \<^verbatim>\<open>mysql_time.h\<close>: the limits of the time types and the check of a timestamp,
  \<open>validate_timestamp_range\<close>.
\<close>

section \<open>Limits\<close>

definition YY_PART_YEAR :: "32 word" where "YY_PART_YEAR = 70"
definition TIMESTAMP_MAX_YEAR :: "32 word" where "TIMESTAMP_MAX_YEAR = 2038"
definition TIMESTAMP_MIN_YEAR :: "32 word" where "TIMESTAMP_MIN_YEAR = 1900 + YY_PART_YEAR - 1"

definition TIME_MAX_HOUR :: int where "TIME_MAX_HOUR = 838"
definition TIME_MAX_MINUTE :: int where "TIME_MAX_MINUTE = 59"
definition TIME_MAX_SECOND :: int where "TIME_MAX_SECOND = 59"

definition TIME_MAX_VALUE :: int where
  "TIME_MAX_VALUE = TIME_MAX_HOUR * 10000 + TIME_MAX_MINUTE * 100 + TIME_MAX_SECOND"

definition TIME_MAX_VALUE_SECONDS :: int where
  "TIME_MAX_VALUE_SECONDS = TIME_MAX_HOUR * 3600 + TIME_MAX_MINUTE * 60 + TIME_MAX_SECOND"

section \<open>Times\<close>

datatype timestamp_type =
  MYSQL_TIMESTAMP_NONE | MYSQL_TIMESTAMP_ERROR | MYSQL_TIMESTAMP_DATE | MYSQL_TIMESTAMP_DATETIME | MYSQL_TIMESTAMP_TIME

record mysql_time =
  year :: "32 word"
  month :: "32 word"
  day :: "32 word"
  hour :: "32 word"
  minute :: "32 word"
  second :: "32 word"
  second_part :: "64 word"
  neg :: bool
  time_type :: timestamp_type

definition validate_timestamp_range :: "mysql_time \<Rightarrow> bool" where
  "validate_timestamp_range t =
     (if (year t > TIMESTAMP_MAX_YEAR \<or> year t < TIMESTAMP_MIN_YEAR) \<or>
         (year t = TIMESTAMP_MAX_YEAR \<and> (month t > 1 \<or> day t > 19)) \<or>
         (year t = TIMESTAMP_MIN_YEAR \<and> (month t < 12 \<or> day t < 31))
      then False else True)"

text \<open>
  For a month of the calendar the check holds just of the dates from the last day of 1969 to 19 January 2038, the
  days on which a timestamp of 32 bits lies in some time zone. The comment above the function promises the
  opposite values: FALSE for a value that seems sane.
\<close>

definition date_le :: "32 word \<times> 32 word \<times> 32 word \<Rightarrow> 32 word \<times> 32 word \<times> 32 word \<Rightarrow> bool" where
  "date_le = (\<lambda>(y, m, d) (y', m', d'). y < y' \<or> y = y' \<and> (m < m' \<or> m = m' \<and> d \<le> d'))"

lemma validate_timestamp_range_correct:
  assumes "1 \<le> month t" "month t \<le> 12"
  shows "validate_timestamp_range t \<longleftrightarrow>
    date_le (1969, 12, 31) (year t, month t, day t) \<and> date_le (year t, month t, day t) (2038, 1, 19)"
  using assms by (auto simp: validate_timestamp_range_def date_le_def TIMESTAMP_MAX_YEAR_def TIMESTAMP_MIN_YEAR_def YY_PART_YEAR_def
      not_less not_le le_less)

lemma time_limits: "TIME_MAX_VALUE = 8385959 \<and> TIME_MAX_VALUE_SECONDS = 3020399"
  by (simp add: TIME_MAX_VALUE_def TIME_MAX_VALUE_SECONDS_def TIME_MAX_HOUR_def TIME_MAX_MINUTE_def TIME_MAX_SECOND_def)

end
