(* ===== verification/GlobalMacros.thy ===== *)
theory GlobalMacros
  imports Prelude
begin

unbundle bit_operations_syntax

text \<open>
  Arithmetic of the headers: the macros of \<^verbatim>\<open>my_global.h\<close> that compare, mask and align, the deadline of
  \<^verbatim>\<open>my_pthread.h\<close>, the size of a variable-length number (\<^verbatim>\<open>my_vle.h\<close>), and the types of a column with the tests
  on them (\<^verbatim>\<open>mysql_com.h\<close>, \<^verbatim>\<open>mysql.h\<close>).

  Macros on unsigned operands are functions on words of any width; \<open>ulonglong\<close> and \<open>size_t\<close> have 64 bits.
\<close>

section \<open>Numbers and masks\<close>

definition CMP_NUM :: "int \<Rightarrow> int \<Rightarrow> int" where
  "CMP_NUM a b = (if a < b then - 1 else if a = b then 0 else 1)"

definition sgn_num :: "int \<Rightarrow> int" where
  "sgn_num a = (if a < 0 then - 1 else if a > 0 then 1 else 0)"

definition set_if_bigger :: "int \<Rightarrow> int \<Rightarrow> int" where
  "set_if_bigger a b = (if a < b then b else a)"

definition set_if_smaller :: "int \<Rightarrow> int \<Rightarrow> int" where
  "set_if_smaller a b = (if a > b then b else a)"

definition test_all_bits :: "'a::len word \<Rightarrow> 'a word \<Rightarrow> bool" where
  "test_all_bits a b \<longleftrightarrow> a AND b = b"

definition set_bits_of :: "nat \<Rightarrow> 'a::len word" where
  "set_bits_of bit_count = (if LENGTH('a) \<le> bit_count then NOT 0 else push_bit bit_count 1 - 1)"

definition MY_ALIGN :: "'a::len word \<Rightarrow> 'a word \<Rightarrow> 'a word" where
  "MY_ALIGN A L = (A + L - 1) AND NOT (L - 1)"

definition ALIGN_SIZE :: "64 word \<Rightarrow> 64 word" where
  "ALIGN_SIZE A = MY_ALIGN A 8"

definition MY_DIV_UP :: "'a::len word \<Rightarrow> 'a word \<Rightarrow> 'a word" where
  "MY_DIV_UP A B = (A + B - 1) div B"

definition my_vle_sizeof :: "64 word \<Rightarrow> 64 word" where
  "my_vle_sizeof n = (n * 8 + 6) div 7"

lemma CMP_NUM_sgn: "CMP_NUM a b = sgn_num (a - b)"
  by (simp add: CMP_NUM_def sgn_num_def)

lemma set_if_max_min: "set_if_bigger a b = max a b" "set_if_smaller a b = min a b"
  by (simp_all add: set_if_bigger_def set_if_smaller_def max_def min_def)

lemma test_all_bits_iff: "test_all_bits a b \<longleftrightarrow> (\<forall>i. bit b i \<longrightarrow> bit a i)"
proof
  assume "test_all_bits a b"
  then have "bit (a AND b) i = bit b i" for i by (simp add: test_all_bits_def)
  then show "\<forall>i. bit b i \<longrightarrow> bit a i" unfolding bit_and_iff by blast
next
  assume "\<forall>i. bit b i \<longrightarrow> bit a i"
  then show "test_all_bits a b" unfolding test_all_bits_def by (intro bit_word_eqI) (auto simp: bit_and_iff)
qed

lemma set_bits_of_mask: "set_bits_of n = (mask n :: 'a::len word)"
  by (auto simp: set_bits_of_def mask_eq_exp_minus_1 push_bit_eq_mult exp_eq_zero_iff)

section \<open>Alignment\<close>

lemma unat_sum: "unat a + unat b < 2 ^ LENGTH('a) \<Longrightarrow> unat (a + b :: 'a::len word) = unat a + unat b"
  by (metis unat_add_lem)

lemma round_up:
  fixes A L :: "'a::len word"
  assumes "L \<noteq> 0" "unat A + unat L \<le> 2 ^ LENGTH('a)"
  shows "unat (A + L - 1) = unat A + (unat L - 1)"
proof -
  have "unat (L - 1) = unat L - 1" using assms(1) by (simp add: unat_minus_one)
  moreover have "0 < unat L" using assms(1) unat_gt_0 by blast
  ultimately show ?thesis using assms(2) unat_sum [of A "L - 1"] by (simp add: add_diff_eq)
qed

lemma MY_ALIGN_value:
  fixes A :: "'a::len word"
  assumes "k < LENGTH('a)" "unat A + 2 ^ k \<le> 2 ^ LENGTH('a)"
  shows "unat (MY_ALIGN A (2 ^ k)) = (unat A + (2 ^ k - 1)) div 2 ^ k * 2 ^ k"
proof -
  have L: "unat (2 ^ k :: 'a word) = 2 ^ k" by (rule of_nat_inverse) (use assms(1) in simp_all)
  have "(2 ^ k :: 'a word) \<noteq> 0" using assms(1) by (simp add: exp_eq_zero_iff)
  then have u: "unat (A + 2 ^ k - 1) = unat A + (2 ^ k - 1)" using round_up [of "2 ^ k" A] L assms(2) by simp
  have "MY_ALIGN A (2 ^ k) = push_bit k (drop_bit k (A + 2 ^ k - 1))"
    unfolding MY_ALIGN_def mask_eq_exp_minus_1 [symmetric]
    by (rule bit_word_eqI) (auto simp: bit_and_iff bit_not_iff bit_mask_iff bit_push_bit_iff bit_drop_bit_eq)
  moreover have "unat (push_bit k (drop_bit k w)) = unat w div 2 ^ k * 2 ^ k" for w :: "'a word"
  proof -
    have "unat (drop_bit k w) = unat w div 2 ^ k" by (metis drop_bit_eq_div unat_drop_bit_eq)
    moreover have "unat w div 2 ^ k * 2 ^ k < 2 ^ LENGTH('a)"
      by (rule le_less_trans [OF div_times_less_eq_dividend]) simp
    ultimately show ?thesis using L by (simp add: push_bit_eq_mult unat_word_ariths mult.commute)
  qed
  ultimately show ?thesis using u by simp
qed

section \<open>The deadline of a wait\<close>

record timespec =
  tv_sec :: "64 word"
  tv_nsec :: "64 word"

definition set_timespec_time_nsec :: "64 word \<Rightarrow> 64 word \<Rightarrow> timespec" where
  "set_timespec_time_nsec TIME NSEC = (
     let nsec = NSEC;
         now = TIME + nsec div 100
     in \<lparr>tv_sec = now div 10000000, tv_nsec = now mod 10000000 * 100 + nsec mod 100\<rparr>)"

text \<open>\<open>my_getsystime\<close>, the time in units of 100 nanoseconds, is a parameter.\<close>

definition set_timespec_nsec :: "64 word \<Rightarrow> 64 word \<Rightarrow> timespec" where
  "set_timespec_nsec systime NSEC = set_timespec_time_nsec systime NSEC"

definition set_timespec :: "64 word \<Rightarrow> 64 word \<Rightarrow> timespec" where
  "set_timespec systime SEC = set_timespec_nsec systime (SEC * 1000000000)"

lemma set_timespec_time_nsec_value:
  assumes "unat TIME + unat NSEC div 100 < 2 ^ 64"
  shows "unat (tv_sec (set_timespec_time_nsec TIME NSEC)) = (unat TIME + unat NSEC div 100) div 10000000"
    "unat (tv_nsec (set_timespec_time_nsec TIME NSEC)) = (unat TIME + unat NSEC div 100) mod 10000000 * 100 + unat NSEC mod 100"
proof -
  define now where "now = TIME + NSEC div 100"
  have now: "unat now = unat TIME + unat NSEC div 100" using assms by (simp add: now_def unat_sum unat_div)
  then show "unat (tv_sec (set_timespec_time_nsec TIME NSEC)) = (unat TIME + unat NSEC div 100) div 10000000"
    by (simp add: set_timespec_time_nsec_def Let_def unat_div now_def)
  have "unat (now mod 10000000) = unat now mod 10000000" "unat (NSEC mod 100) = unat NSEC mod 100" by (simp_all add: unat_mod)
  then have "unat (now mod 10000000 * 100) = unat now mod 10000000 * 100" by (simp add: unat_word_ariths)
  then have "unat (now mod 10000000 * 100 + NSEC mod 100) = unat now mod 10000000 * 100 + unat NSEC mod 100"
    using \<open>unat (NSEC mod 100) = unat NSEC mod 100\<close> by (subst unat_sum) simp_all
  then show "unat (tv_nsec (set_timespec_time_nsec TIME NSEC)) = (unat TIME + unat NSEC div 100) mod 10000000 * 100 + unat NSEC mod 100"
    using now by (simp add: set_timespec_time_nsec_def Let_def now_def)
qed

section \<open>Results\<close>

text \<open>
  The aligned size is the least multiple of the alignment that is not smaller, unless the sum wraps.
\<close>

lemma MY_ALIGN_least:
  fixes A :: "'a::len word"
  assumes "k < LENGTH('a)" "unat A + 2 ^ k \<le> 2 ^ LENGTH('a)"
  shows "2 ^ k dvd unat (MY_ALIGN A (2 ^ k))" "unat A \<le> unat (MY_ALIGN A (2 ^ k))"
    "2 ^ k dvd m \<Longrightarrow> unat A \<le> m \<Longrightarrow> unat (MY_ALIGN A (2 ^ k)) \<le> m"
proof -
  note v = MY_ALIGN_value [OF assms]
  show "2 ^ k dvd unat (MY_ALIGN A (2 ^ k))" by (simp add: v)
  have "x < x div 2 ^ k * 2 ^ k + 2 ^ k" for x :: nat
    using div_mult_mod_eq [of x "2 ^ k"] mod_less_divisor [of "2 ^ k" x] by (metis add_less_cancel_left zero_less_numeral zero_less_power)
  from this [of "unat A + (2 ^ k - 1)"]
  have "unat A + (2 ^ k - 1) < (unat A + (2 ^ k - 1)) div 2 ^ k * 2 ^ k + 2 ^ k" .
  then show "unat A \<le> unat (MY_ALIGN A (2 ^ k))" unfolding v by simp
  show "unat (MY_ALIGN A (2 ^ k)) \<le> m" if d: "2 ^ k dvd m" "unat A \<le> m"
  proof -
    obtain q where q: "m = 2 ^ k * q" using d(1) by blast
    have "(unat A + (2 ^ k - 1)) div 2 ^ k \<le> (2 ^ k * q + (2 ^ k - 1)) div 2 ^ k" using d(2) q by (intro div_le_mono) simp
    also have "\<dots> = q" by (subst div_mult_self4) simp_all
    finally show ?thesis unfolding v q by simp
  qed
qed

text \<open>
  The deadline \<open>set_timespec_time_nsec\<close> computes is exact: the seconds and nanoseconds it stores are, to the
  nanosecond, the current time (in units of 100 nanoseconds) plus the duration, and the nanoseconds
  are below a second, unless the sum of the two overflows.
\<close>

lemma set_timespec_exact:
  assumes "unat TIME + unat NSEC div 100 < 2 ^ 64"
  shows "unat (tv_sec (set_timespec_time_nsec TIME NSEC)) * 10 ^ 9 + unat (tv_nsec (set_timespec_time_nsec TIME NSEC)) =
      unat TIME * 100 + unat NSEC \<and> unat (tv_nsec (set_timespec_time_nsec TIME NSEC)) < 10 ^ 9"
proof -
  have eq: "n div 10000000 * 10 ^ 9 + (n mod 10000000 * 100 + d mod 100) = n * 100 + d mod 100" for n d :: nat
    using arg_cong [OF div_mult_mod_eq [of n 10000000], of "\<lambda>n. n * 100"] by (simp only: distrib_right) simp
  have lt: "n mod 10000000 * 100 + d mod 100 < 10 ^ 9" for n d :: nat
    using mod_less_divisor [of 10000000 n] mod_less_divisor [of 100 d] by simp
  have rest: "(unat TIME + unat NSEC div 100) * 100 + unat NSEC mod 100 = unat TIME * 100 + unat NSEC"
    using div_mult_mod_eq [of "unat NSEC" 100] by (simp add: distrib_right)
  show ?thesis unfolding set_timespec_time_nsec_value [OF assms] by (simp only: eq lt rest)
qed

lemma set_timespec_exact_witness:
  "tv_sec (set_timespec_time_nsec 25 9999999999) = 10 \<and> unat (tv_nsec (set_timespec_time_nsec 25 9999999999)) = 2499"
proof -
  have "tv_sec (set_timespec_time_nsec 25 9999999999) = 10" by code_simp
  then show ?thesis using set_timespec_exact [of 25 9999999999] by simp
qed

end
