(* ===== verification/IoCache.thy ===== *)
theory IoCache
  imports ByteOrder
begin

text \<open>
  The buffered files of \<^verbatim>\<open>my_sys.h\<close>: the structure \<open>IO_CACHE\<close> and the macros that read and write through it.

  All pointers of a cache point into one allocation, \<open>memory\<close>, and are offsets in it. The functions a cache
  holds as pointers (\<open>read_function\<close>, \<open>write_function\<close>) and \<open>_my_b_get\<close> have no code in the repository: they are
  parameters, which act on the cache and on a state of the outside world of any type \<open>'f\<close>; \<open>C f\<close> is the content
  of the file in that state. What is relied on of these functions are the predicates \<open>fetches\<close> and \<open>gets\<close>, of
  functions that meet no read error, and \<open>stores\<close> and \<open>flushes\<close>, of functions that may fail at any call. The results
  are that a file read through the macros is the file, in order and up to its end, and a file written through them
  holds what was written up to the first failure, which the macro for single bytes does not report.
\<close>

section \<open>The structure\<close>

datatype cache_type = TYPE_NOT_SET | READ_CACHE | WRITE_CACHE | SEQ_READ_APPEND | READ_FIFO | READ_NET | WRITE_NET

text \<open>What \<open>current_pos\<close> and \<open>current_end\<close> point to: the positions for reading, or those for writing.\<close>

datatype positions = Reading | Writing

record io_cache =
  pos_in_file :: "64 word"
  end_of_file :: "64 word"
  read_pos :: nat
  read_end :: nat
  buffer :: ptr
  request_pos :: nat
  write_buffer :: nat
  append_read_pos :: nat
  write_pos :: nat
  write_end :: nat
  current :: positions
  cache_kind :: cache_type
  memory :: bytes

definition current_pos :: "io_cache \<Rightarrow> nat" where
  "current_pos c = (case current c of Reading \<Rightarrow> read_pos c | Writing \<Rightarrow> write_pos c)"

definition current_end :: "io_cache \<Rightarrow> nat" where
  "current_end c = (case current c of Reading \<Rightarrow> read_end c | Writing \<Rightarrow> write_end c)"

text \<open>The difference of two pointers, converted to \<open>size_t\<close>.\<close>

definition ptr_diff :: "nat \<Rightarrow> nat \<Rightarrow> 64 word" where
  "ptr_diff a b = word_of_int (int a - int b)"

type_synonym 'f read_fun = "io_cache \<Rightarrow> 'f \<Rightarrow> bytes \<Rightarrow> nat \<Rightarrow> (int \<times> io_cache \<times> 'f \<times> bytes) option"
type_synonym 'f get_fun = "io_cache \<Rightarrow> 'f \<Rightarrow> (int \<times> io_cache \<times> 'f) option"
type_synonym 'f write_fun = "io_cache \<Rightarrow> 'f \<Rightarrow> bytes \<Rightarrow> nat \<Rightarrow> (int \<times> io_cache \<times> 'f) option"

section \<open>The macros\<close>

definition my_b_clear :: "io_cache \<Rightarrow> io_cache" where
  "my_b_clear c = c\<lparr>buffer := None\<rparr>"

definition my_b_inited :: "io_cache \<Rightarrow> bool" where
  "my_b_inited c \<longleftrightarrow> buffer c \<noteq> None"

definition my_b_EOF :: int where
  "my_b_EOF = INT_MIN"

text \<open>\<open>memcpy\<close> of \<open>n\<close> bytes at an offset of an object.\<close>

definition slice :: "bytes \<Rightarrow> nat \<Rightarrow> nat \<Rightarrow> bytes option" where
  "slice b off n = (if off + n \<le> length b then Some (take n (drop off b)) else None)"

definition my_b_read :: "'f read_fun \<Rightarrow> io_cache \<Rightarrow> 'f \<Rightarrow> bytes \<Rightarrow> nat \<Rightarrow> (int \<times> io_cache \<times> 'f \<times> bytes) option" where
  "my_b_read R c f Buffer Count =
     (if read_pos c + Count \<le> read_end c
      then do {
        bs \<leftarrow> slice (memory c) (read_pos c) Count;
        Buffer' \<leftarrow> blit Buffer 0 bs;
        Some (0, c\<lparr>read_pos := read_pos c + Count\<rparr>, f, Buffer')
      }
      else R c f Buffer Count)"

definition my_b_write :: "'f write_fun \<Rightarrow> io_cache \<Rightarrow> 'f \<Rightarrow> bytes \<Rightarrow> nat \<Rightarrow> (int \<times> io_cache \<times> 'f) option" where
  "my_b_write W c f Buffer Count =
     (if write_pos c + Count \<le> write_end c
      then do {
        bs \<leftarrow> slice Buffer 0 Count;
        m \<leftarrow> blit (memory c) (write_pos c) bs;
        Some (0, c\<lparr>memory := m, write_pos := write_pos c + Count\<rparr>, f)
      }
      else W c f Buffer Count)"

definition my_b_get :: "'f get_fun \<Rightarrow> io_cache \<Rightarrow> 'f \<Rightarrow> (int \<times> io_cache \<times> 'f) option" where
  "my_b_get G c f =
     (if read_pos c \<noteq> read_end c
      then do {
        b \<leftarrow> rd (memory c) (read_pos c);
        Some (uint b, c\<lparr>read_pos := read_pos c + 1\<rparr>, f)
      }
      else G c f)"

text \<open>\<open>(*(info)->write_pos++) = (chr)\<close>.\<close>

definition put_byte :: "io_cache \<Rightarrow> 8 word \<Rightarrow> io_cache option" where
  "put_byte c chr = do {
     m \<leftarrow> wr (memory c) (write_pos c) chr;
     Some (c\<lparr>memory := m, write_pos := write_pos c + 1\<rparr>)
   }"

text \<open>\<open>V\<close> is \<open>_my_b_write\<close>; the macro does not look at its result.\<close>

definition my_b_write_byte :: "'f write_fun \<Rightarrow> io_cache \<Rightarrow> 'f \<Rightarrow> 8 word \<Rightarrow> (io_cache \<times> 'f) option" where
  "my_b_write_byte V c f chr =
     (if write_pos c < write_end c
      then do { c' \<leftarrow> put_byte c chr; Some (c', f) }
      else do {
        (r, c', f') \<leftarrow> V c f [] 0;
        c'' \<leftarrow> put_byte c' chr;
        Some (c'', f')
      })"

definition my_b_fill_cache :: "'f read_fun \<Rightarrow> io_cache \<Rightarrow> 'f \<Rightarrow> (int \<times> io_cache \<times> 'f \<times> bytes) option" where
  "my_b_fill_cache R c f = R (c\<lparr>read_end := read_pos c\<rparr>) f [] 0"

definition my_b_tell :: "io_cache \<Rightarrow> 64 word" where
  "my_b_tell c = pos_in_file c + ptr_diff (current_pos c) (request_pos c)"

definition my_b_get_buffer_start :: "io_cache \<Rightarrow> nat" where
  "my_b_get_buffer_start c = request_pos c"

definition my_b_get_bytes_in_buffer :: "io_cache \<Rightarrow> int" where
  "my_b_get_bytes_in_buffer c = int (read_end c) - int (my_b_get_buffer_start c)"

definition my_b_get_pos_in_file :: "io_cache \<Rightarrow> 64 word" where
  "my_b_get_pos_in_file c = pos_in_file c"

definition my_b_bytes_in_cache :: "io_cache \<Rightarrow> 64 word" where
  "my_b_bytes_in_cache c = ptr_diff (current_end c) (current_pos c)"

section \<open>Reading\<close>

text \<open>
  The invariant of a cache for reading: between \<open>request_pos\<close> and \<open>read_end\<close> the memory holds the bytes of the
  file from \<open>pos_in_file\<close> on, and \<open>read_pos\<close> is among them.
\<close>

definition read_ok :: "('f \<Rightarrow> bytes) \<Rightarrow> io_cache \<Rightarrow> 'f \<Rightarrow> bool" where
  "read_ok C c f \<longleftrightarrow> current c = Reading \<and> request_pos c \<le> read_pos c \<and> read_pos c \<le> read_end c \<and>
     read_end c \<le> length (memory c) \<and> length (C f) < 2 ^ 64 \<and>
     unat (pos_in_file c) + (read_end c - request_pos c) \<le> length (C f) \<and>
     take (read_end c - request_pos c) (drop (request_pos c) (memory c)) =
       take (read_end c - request_pos c) (drop (unat (pos_in_file c)) (C f))"

definition position :: "io_cache \<Rightarrow> nat" where
  "position c = unat (my_b_tell c)"

text \<open>
  \<open>read_function\<close>: called for more bytes than the cache holds (or for none, to fill the cache), it copies the
  bytes at the position of the cache and moves the position behind them; its result is not zero when the file
  has fewer bytes left. That reading the file itself fails, which the field \<open>error\<close> is for, is not part of the
  contract. The bytes from \<open>request_pos\<close> on are those of the file from \<open>pos_in_file\<close> on, as \<open>my_b_tell\<close> takes them to be.
\<close>

definition fetches :: "('f \<Rightarrow> bytes) \<Rightarrow> 'f read_fun \<Rightarrow> bool" where
  "fetches C R \<longleftrightarrow> (\<forall>c f dst n. read_ok C c f \<longrightarrow> n \<le> length dst \<longrightarrow>
     read_end c < read_pos c + n \<or> n = 0 \<and> read_pos c = read_end c \<longrightarrow>
     (\<exists>r c' f' dst'. R c f dst n = Some (r, c', f', dst') \<and> C f' = C f \<and>
        (if position c + n \<le> length (C f)
         then r = 0 \<and> dst' = take n (drop (position c) (C f)) @ drop n dst \<and> read_ok C c' f' \<and>
           position c' = position c + n
         else r \<noteq> 0)))"

text \<open>\<open>_my_b_get\<close>: called when the cache is used up, it returns the next byte, or \<open>my_b_EOF\<close> at the end.\<close>

definition gets :: "('f \<Rightarrow> bytes) \<Rightarrow> 'f get_fun \<Rightarrow> bool" where
  "gets C G \<longleftrightarrow> (\<forall>c f. read_ok C c f \<longrightarrow> read_pos c = read_end c \<longrightarrow>
     (\<exists>r c' f'. G c f = Some (r, c', f') \<and> C f' = C f \<and>
        (if position c < length (C f)
         then r = uint (C f ! position c) \<and> read_ok C c' f' \<and> position c' = position c + 1
         else r = my_b_EOF)))"

datatype read_request = Get | Read nat
datatype read_result = Byte int | Data bytes | Stop

text \<open>A client that reads with the macros until one of them reports the end or an error.\<close>

fun reads :: "'f read_fun \<Rightarrow> 'f get_fun \<Rightarrow> io_cache \<Rightarrow> 'f \<Rightarrow> read_request list \<Rightarrow> (read_result list \<times> io_cache \<times> 'f) option" where
  "reads R G c f [] = Some ([], c, f)"
| "reads R G c f (Get # qs) = do {
     (b, c', f') \<leftarrow> my_b_get G c f;
     if b = my_b_EOF then Some ([Stop], c', f')
     else do { (rs, r) \<leftarrow> reads R G c' f' qs; Some (Byte b # rs, r) }
   }"
| "reads R G c f (Read n # qs) = do {
     (e, c', f', bs) \<leftarrow> my_b_read R c f (replicate n 0) n;
     if e \<noteq> 0 then Some ([Stop], c', f')
     else do { (rs, r) \<leftarrow> reads R G c' f' qs; Some (Data bs # rs, r) }
   }"

text \<open>What a client that reads the file itself gets, from the position \<open>p\<close> on.\<close>

fun file_reads :: "bytes \<Rightarrow> nat \<Rightarrow> read_request list \<Rightarrow> read_result list" where
  "file_reads s p [] = []"
| "file_reads s p (Get # qs) =
     (if p < length s then Byte (uint (s ! p)) # file_reads s (p + 1) qs else [Stop])"
| "file_reads s p (Read n # qs) =
     (if p + n \<le> length s then Data (take n (drop p s)) # file_reads s (p + n) qs else [Stop])"

fun wanted :: "read_request \<Rightarrow> nat" where
  "wanted Get = 1"
| "wanted (Read n) = n"

lemma ptr_diff_le: "b \<le> a \<Longrightarrow> ptr_diff a b = of_nat (a - b)"
  by (simp add: ptr_diff_def flip: of_nat_diff)

lemma position_reading:
  assumes "read_ok C c f"
  shows "position c = unat (pos_in_file c) + (read_pos c - request_pos c)"
proof -
  have le: "unat (pos_in_file c) + (read_pos c - request_pos c) < 2 ^ 64"
    using assms by (auto simp: read_ok_def)
  have t: "my_b_tell c = of_nat (unat (pos_in_file c) + (read_pos c - request_pos c))"
    using assms by (simp add: my_b_tell_def current_pos_def read_ok_def ptr_diff_le)
  show ?thesis unfolding position_def by (rule of_nat_inverse [OF t [symmetric]]) (use le in simp)
qed

lemma cached_bytes:
  assumes "read_ok C c f" "read_pos c + n \<le> read_end c"
  shows "take n (drop (read_pos c) (memory c)) = take n (drop (position c) (C f))"
    "position c + n \<le> length (C f)"
proof -
  define l where "l = read_pos c - request_pos c"
  define w where "w = read_end c - request_pos c"
  have l: "read_pos c = request_pos c + l" "l + n \<le> w" using assms by (auto simp: read_ok_def l_def w_def)
  have "take w (drop (request_pos c) (memory c)) = take w (drop (unat (pos_in_file c)) (C f))"
    using assms(1) by (simp add: read_ok_def w_def)
  then have "take n (drop l (take w (drop (request_pos c) (memory c)))) =
      take n (drop l (take w (drop (unat (pos_in_file c)) (C f))))" by simp
  then show "take n (drop (read_pos c) (memory c)) = take n (drop (position c) (C f))"
    using l position_reading [OF assms(1)] by (simp add: drop_take l_def [symmetric] add.commute)
  show "position c + n \<le> length (C f)"
    using l position_reading [OF assms(1)] assms(1) by (simp add: l_def [symmetric] read_ok_def w_def)
qed

lemma read_ok_advance:
  assumes "read_ok C c f" "read_pos c + n \<le> read_end c"
  shows "read_ok C (c\<lparr>read_pos := read_pos c + n\<rparr>) f"
    "position (c\<lparr>read_pos := read_pos c + n\<rparr>) = position c + n"
proof -
  show ok: "read_ok C (c\<lparr>read_pos := read_pos c + n\<rparr>) f" using assms by (auto simp: read_ok_def)
  show "position (c\<lparr>read_pos := read_pos c + n\<rparr>) = position c + n"
    using position_reading [OF ok] position_reading [OF assms(1)] assms by (simp add: read_ok_def)
qed

lemma my_b_read_ok:
  assumes R: "fetches C R" and ok: "read_ok C c f" and n: "n \<le> length dst"
  shows "\<exists>r c' f' dst'. my_b_read R c f dst n = Some (r, c', f', dst') \<and> C f' = C f \<and>
    (if position c + n \<le> length (C f)
     then r = 0 \<and> dst' = take n (drop (position c) (C f)) @ drop n dst \<and> read_ok C c' f' \<and> position c' = position c + n
     else r \<noteq> 0)"
proof (cases "read_pos c + n \<le> read_end c")
  case True
  then show ?thesis
    using cached_bytes [OF ok True] read_ok_advance [OF ok True] ok n
    by (simp add: my_b_read_def slice_def read_ok_def blit_def)
next
  case False
  then show ?thesis using R ok n unfolding fetches_def my_b_read_def by simp
qed

lemma my_b_get_ok:
  assumes G: "gets C G" and ok: "read_ok C c f"
  shows "\<exists>r c' f'. my_b_get G c f = Some (r, c', f') \<and> C f' = C f \<and>
    (if position c < length (C f)
     then r = uint (C f ! position c) \<and> read_ok C c' f' \<and> position c' = position c + 1
     else r = my_b_EOF)"
proof (cases "read_pos c = read_end c")
  case True
  then show ?thesis using G ok unfolding gets_def my_b_get_def by simp
next
  case False
  then have l: "read_pos c + 1 \<le> read_end c" using ok by (simp add: read_ok_def)
  have "position c < length (C f)" "memory c ! read_pos c = C f ! position c"
    using cached_bytes [OF ok l] l ok by (auto simp: read_ok_def take_Suc_conv_app_nth hd_drop_conv_nth take_Suc)
  then show ?thesis
    using False l ok read_ok_advance [OF ok l] by (simp add: my_b_get_def read_ok_def)
qed

lemma byte_not_EOF [simp]: "uint (b :: 8 word) \<noteq> my_b_EOF"
  using uint_ge_0 [of b] unfolding my_b_EOF_def INT_MIN_def by linarith

lemma take_eq_mono: "take w xs = take w ys \<Longrightarrow> l \<le> w \<Longrightarrow> take l xs = take l ys"
  by (metis min.absorb1 take_take)

text \<open>The macro that fills the cache keeps the position, and what is read next.\<close>

lemma my_b_fill_cache_ok:
  assumes R: "fetches C R" and ok: "read_ok C c f"
  shows "\<exists>c' f' b. my_b_fill_cache R c f = Some (0, c', f', b) \<and> C f' = C f \<and> read_ok C c' f' \<and> position c' = position c"
proof -
  let ?c = "c\<lparr>read_end := read_pos c\<rparr>"
  have ok': "read_ok C ?c f"
    using ok take_eq_mono [of "read_end c - request_pos c" "drop (request_pos c) (memory c)"
        "drop (unat (pos_in_file c)) (C f)" "read_pos c - request_pos c"]
    by (auto simp: read_ok_def)
  have pos: "position ?c = position c"
    unfolding position_reading [OF ok'] position_reading [OF ok] by simp
  have le: "position c + 0 \<le> length (C f)" by (rule cached_bytes(2) [OF ok]) (use ok in \<open>simp add: read_ok_def\<close>)
  have "\<exists>r c' f' dst'. R ?c f [] 0 = Some (r, c', f', dst') \<and> C f' = C f \<and>
      (if position ?c + 0 \<le> length (C f)
       then r = 0 \<and> dst' = take 0 (drop (position ?c) (C f)) @ drop 0 [] \<and> read_ok C c' f' \<and> position c' = position ?c + 0
       else r \<noteq> 0)"
    by (rule R [unfolded fetches_def, rule_format, OF ok']) simp_all
  then show ?thesis using le pos by (auto simp: my_b_fill_cache_def)
qed

lemma reads_ok:
  assumes "fetches C R" "gets C G" "read_ok C c f"
  shows "\<exists>rs c' f'. reads R G c f qs = Some (rs, c', f') \<and> C f' = C f \<and> rs = file_reads (C f) (position c) qs \<and>
    (Stop \<notin> set rs \<longrightarrow> read_ok C c' f' \<and> position c' = position c + sum_list (map wanted qs))"
  using assms(3)
proof (induction qs arbitrary: c f)
  case Nil
  then show ?case by simp
next
  case (Cons q qs)
  show ?case
  proof (cases q)
    case Get
    obtain r c1 f1 where r: "my_b_get G c f = Some (r, c1, f1)" "C f1 = C f"
        "if position c < length (C f) then r = uint (C f ! position c) \<and> read_ok C c1 f1 \<and> position c1 = position c + 1
         else r = my_b_EOF"
      using my_b_get_ok [OF assms(2) Cons.prems] by blast
    show ?thesis
    proof (cases "position c < length (C f)")
      case True
      then show ?thesis using r Cons.IH [of c1 f1] Get by auto
    qed (use r Get in simp)
  next
    case (Read n)
    obtain r c1 f1 d where r: "my_b_read R c f (replicate n 0) n = Some (r, c1, f1, d)" "C f1 = C f"
        "if position c + n \<le> length (C f)
         then r = 0 \<and> d = take n (drop (position c) (C f)) @ drop n (replicate n 0) \<and> read_ok C c1 f1 \<and> position c1 = position c + n
         else r \<noteq> 0"
      using my_b_read_ok [OF assms(1) Cons.prems, of n "replicate n 0"] by (simp only: length_replicate) blast
    show ?thesis
    proof (cases "position c + n \<le> length (C f)")
      case True
      then show ?thesis using r Cons.IH [of c1 f1] Read by auto
    qed (use r Read in simp)
  qed
qed

section \<open>Writing\<close>

text \<open>
  The invariant of a cache for writing: the file ends where the bytes of the cache begin. What was written so
  far is the file with the bytes of the cache behind it.
\<close>

definition write_ok :: "('f \<Rightarrow> bytes) \<Rightarrow> io_cache \<Rightarrow> 'f \<Rightarrow> bool" where
  "write_ok C c f \<longleftrightarrow> current c = Writing \<and> request_pos c = write_buffer c \<and> write_buffer c \<le> write_pos c \<and>
     write_pos c \<le> write_end c \<and> write_end c \<le> length (memory c) \<and> write_buffer c < length (memory c) \<and>
     pos_in_file c = of_nat (length (C f))"

definition written :: "('f \<Rightarrow> bytes) \<Rightarrow> io_cache \<Rightarrow> 'f \<Rightarrow> bytes" where
  "written C c f = C f @ take (write_pos c - write_buffer c) (drop (write_buffer c) (memory c))"

text \<open>
  \<open>write_function\<close>: called with more bytes than there is room for, it takes them, or reports an error.
  \<open>_my_b_write\<close>, which \<open>my_b_write_byte\<close> calls without bytes, makes room and returns 0, or it fails, with another
  result and in any state of the cache.
\<close>

definition stores :: "('f \<Rightarrow> bytes) \<Rightarrow> 'f write_fun \<Rightarrow> bool" where
  "stores C W \<longleftrightarrow> (\<forall>c f src n. write_ok C c f \<longrightarrow> n \<le> length src \<longrightarrow> write_end c < write_pos c + n \<longrightarrow>
     (\<exists>r c' f'. W c f src n = Some (r, c', f') \<and>
        (r = 0 \<longrightarrow> write_ok C c' f' \<and> written C c' f' = written C c f @ take n src)))"

definition flushes :: "('f \<Rightarrow> bytes) \<Rightarrow> 'f write_fun \<Rightarrow> bool" where
  "flushes C W \<longleftrightarrow> (\<forall>c f. write_ok C c f \<longrightarrow> write_pos c = write_end c \<longrightarrow>
     (\<exists>r c' f'. W c f [] 0 = Some (r, c', f') \<and>
        (r = 0 \<longrightarrow> write_ok C c' f' \<and> written C c' f' = written C c f \<and> write_pos c' < write_end c')))"

datatype write_request = Put "8 word" | Write bytes

fun bytes_of :: "write_request \<Rightarrow> bytes" where
  "bytes_of (Put b) = [b]"
| "bytes_of (Write bs) = bs"

text \<open>A client that writes with the macros until one of them reports an error, which \<open>my_b_write_byte\<close> never does.\<close>

fun writes :: "'f write_fun \<Rightarrow> 'f write_fun \<Rightarrow> io_cache \<Rightarrow> 'f \<Rightarrow> write_request list \<Rightarrow> (bool \<times> io_cache \<times> 'f) option" where
  "writes W V c f [] = Some (True, c, f)"
| "writes W V c f (Put b # qs) = do {
     (c', f') \<leftarrow> my_b_write_byte V c f b;
     writes W V c' f' qs
   }"
| "writes W V c f (Write bs # qs) = do {
     (e, c', f') \<leftarrow> my_b_write W c f bs (length bs);
     if e \<noteq> 0 then Some (False, c', f') else writes W V c' f' qs
   }"

text \<open>\<open>_my_b_write\<close> fails, at the next byte and in a run of the client: nothing the client sees tells it.\<close>

definition room_fails :: "'f write_fun \<Rightarrow> io_cache \<Rightarrow> 'f \<Rightarrow> bool" where
  "room_fails V c f \<longleftrightarrow> \<not> write_pos c < write_end c \<and> (case V c f [] 0 of Some (r, _) \<Rightarrow> r \<noteq> 0 | None \<Rightarrow> True)"

fun unflushed :: "'f write_fun \<Rightarrow> 'f write_fun \<Rightarrow> io_cache \<Rightarrow> 'f \<Rightarrow> write_request list \<Rightarrow> bool" where
  "unflushed W V c f [] \<longleftrightarrow> False"
| "unflushed W V c f (Put b # qs) \<longleftrightarrow> room_fails V c f \<or>
     (case my_b_write_byte V c f b of Some (c', f') \<Rightarrow> unflushed W V c' f' qs | None \<Rightarrow> False)"
| "unflushed W V c f (Write bs # qs) \<longleftrightarrow>
     (case my_b_write W c f bs (length bs) of Some (e, c', f') \<Rightarrow> e = 0 \<and> unflushed W V c' f' qs | None \<Rightarrow> False)"

lemma tell_writing:
  assumes "write_ok C c f"
  shows "my_b_tell c = of_nat (length (written C c f))"
proof -
  obtain k where k: "write_pos c = write_buffer c + k" using assms le_Suc_ex unfolding write_ok_def by blast
  then have "my_b_tell c = of_nat (length (C f)) + of_nat k"
    using assms by (simp add: write_ok_def my_b_tell_def current_pos_def ptr_diff_le)
  moreover have "k \<le> length (memory c) - write_buffer c" using assms k by (auto simp: write_ok_def)
  ultimately show ?thesis using k by (simp add: written_def min.absorb2)
qed

lemma write_ok_put:
  assumes ok: "write_ok C c f" and l: "write_pos c + length bs \<le> write_end c"
  shows "\<exists>m. blit (memory c) (write_pos c) bs = Some m \<and>
    write_ok C (c\<lparr>memory := m, write_pos := write_pos c + length bs\<rparr>) f \<and>
    written C (c\<lparr>memory := m, write_pos := write_pos c + length bs\<rparr>) f = written C c f @ bs"
proof -
  define k where "k = write_pos c - write_buffer c"
  define m where "m = take (write_pos c) (memory c) @ bs @ drop (write_pos c + length bs) (memory c)"
  have k: "write_pos c = write_buffer c + k" using ok by (simp add: k_def write_ok_def)
  have len: "write_pos c + length bs \<le> length (memory c)" using ok l by (simp add: write_ok_def)
  have "length m = length (memory c)" using len by (simp add: m_def)
  then have "write_ok C (c\<lparr>memory := m, write_pos := write_pos c + length bs\<rparr>) f" using ok l by (simp add: write_ok_def)
  moreover have "take (k + length bs) (drop (write_buffer c) m) = take k (drop (write_buffer c) (memory c)) @ bs"
    using len k by (simp add: m_def take_drop add.commute)
  ultimately show ?thesis using len k by (simp add: blit_def m_def written_def add.assoc)
qed

lemma my_b_write_ok:
  assumes W: "stores C W" and ok: "write_ok C c f"
  shows "\<exists>r c' f'. my_b_write W c f bs (length bs) = Some (r, c', f') \<and>
    (r = 0 \<longrightarrow> write_ok C c' f' \<and> written C c' f' = written C c f @ bs)"
proof (cases "write_pos c + length bs \<le> write_end c")
  case True
  then show ?thesis using write_ok_put [OF ok True] by (auto simp: my_b_write_def slice_def)
next
  case False
  then show ?thesis using W [unfolded stores_def, rule_format, OF ok, of "length bs" bs] by (auto simp: my_b_write_def)
qed

lemma put_byte_ok:
  assumes ok: "write_ok C c f" and l: "write_pos c < write_end c"
  shows "\<exists>c'. put_byte c b = Some c' \<and> write_ok C c' f \<and> written C c' f = written C c f @ [b]"
proof -
  have len: "write_pos c < length (memory c)" using ok l by (simp add: write_ok_def)
  then have "blit (memory c) (write_pos c) [b] = Some ((memory c)[write_pos c := b])"
    by (simp add: blit_def upd_conv_take_nth_drop)
  then show ?thesis using write_ok_put [OF ok, of "[b]"] l len by (auto simp: put_byte_def)
qed

lemma my_b_write_byte_ok:
  assumes W: "flushes C W" and ok: "write_ok C c f" and r: "\<not> room_fails W c f"
  shows "\<exists>c' f'. my_b_write_byte W c f b = Some (c', f') \<and> write_ok C c' f' \<and> written C c' f' = written C c f @ [b]"
proof (cases "write_pos c < write_end c")
  case True
  then obtain c' where "put_byte c b = Some c'" "write_ok C c' f" "written C c' f = written C c f @ [b]"
    using put_byte_ok [OF ok] by blast
  then show ?thesis using True by (simp add: my_b_write_byte_def)
next
  case False
  then have "write_pos c = write_end c" using ok by (simp add: write_ok_def)
  then obtain c1 f1 where w: "W c f [] 0 = Some (0, c1, f1)" "write_ok C c1 f1" "written C c1 f1 = written C c f"
      "write_pos c1 < write_end c1"
    using W [unfolded flushes_def, rule_format, OF ok] r False by (auto simp: room_fails_def)
  then obtain c2 where "put_byte c1 b = Some c2" "write_ok C c2 f1" "written C c2 f1 = written C c1 f1 @ [b]"
    using put_byte_ok [OF w(2,4)] by blast
  then show ?thesis using False w(1,3) by (simp add: my_b_write_byte_def)
qed

lemma room_failsE:
  assumes "flushes C V" "write_ok C c f" "room_fails V c f"
  obtains r c' f' where "write_pos c = write_end c" "V c f [] 0 = Some (r, c', f')" "r \<noteq> 0"
    "my_b_write_byte V c f b = do { c'' \<leftarrow> put_byte c' b; Some (c'', f') }"
proof -
  have "write_pos c = write_end c" using assms(2,3) by (simp add: room_fails_def write_ok_def)
  then show thesis
    using that assms unfolding flushes_def room_fails_def by (fastforce simp: my_b_write_byte_def)
qed

lemma writes_ok:
  assumes "stores C W" "flushes C V" "write_ok C c f" "\<not> unflushed W V c f qs"
  shows "\<exists>b c' f'. writes W V c f qs = Some (b, c', f') \<and>
    (b \<longrightarrow> write_ok C c' f' \<and> written C c' f' = written C c f @ concat (map bytes_of qs))"
  using assms(3,4)
proof (induction qs arbitrary: c f)
  case Nil
  then show ?case by auto
next
  case (Cons q qs)
  show ?case
  proof (cases q)
    case (Put b)
    then obtain c1 f1 where "my_b_write_byte V c f b = Some (c1, f1)" "write_ok C c1 f1" "written C c1 f1 = written C c f @ [b]"
      using my_b_write_byte_ok [OF assms(2) Cons.prems(1), of b] Cons.prems(2) by auto
    then show ?thesis using Cons.IH [of c1 f1] Cons.prems(2) Put by auto
  next
    case (Write bs)
    obtain r c1 f1 where r: "my_b_write W c f bs (length bs) = Some (r, c1, f1)"
        "r = 0 \<longrightarrow> write_ok C c1 f1 \<and> written C c1 f1 = written C c f @ bs"
      using my_b_write_ok [OF assms(1) Cons.prems(1)] by blast
    then show ?thesis using Cons.IH [of c1 f1] Cons.prems(2) Write by (cases "r = 0") auto
  qed
qed

text \<open>
  The first failure of \<open>_my_b_write\<close>: it comes on a full cache when a byte is to be written, with all that was to be
  written before in place, and the client goes on with the byte stored behind the end.
\<close>

lemma writes_unflushed:
  assumes "stores C W" "flushes C V" "write_ok C c f" "unflushed W V c f qs"
  shows "\<exists>ps b rs c1 f1 r c2 f2. qs = ps @ Put b # rs \<and> writes W V c f ps = Some (True, c1, f1) \<and>
    write_ok C c1 f1 \<and> written C c1 f1 = written C c f @ concat (map bytes_of ps) \<and> write_pos c1 = write_end c1 \<and>
    V c1 f1 [] 0 = Some (r, c2, f2) \<and> r \<noteq> 0 \<and>
    writes W V c f qs = do { c3 \<leftarrow> put_byte c2 b; writes W V c3 f2 rs }"
  using assms(3,4)
proof (induction qs arbitrary: c f)
  case (Cons q qs)
  have step: ?case
    if h: "\<And>rs. writes W V c f (q # rs) = writes W V c1 f1 rs" "write_ok C c1 f1"
      "written C c1 f1 = written C c f @ bytes_of q" "unflushed W V c1 f1 qs" for c1 f1
  proof -
    obtain ps b rs c2 f2 r c3 f3 where x: "qs = ps @ Put b # rs" "writes W V c1 f1 ps = Some (True, c2, f2)"
        "write_ok C c2 f2" "written C c2 f2 = written C c1 f1 @ concat (map bytes_of ps)" "write_pos c2 = write_end c2"
        "V c2 f2 [] 0 = Some (r, c3, f3)" "r \<noteq> 0"
        "writes W V c1 f1 qs = do { c4 \<leftarrow> put_byte c3 b; writes W V c4 f3 rs }"
      using Cons.IH [OF h(2,4)] by blast
    show ?thesis
      by (rule exI [of _ "q # ps"], rule exI [of _ b], rule exI [of _ rs], rule exI [of _ c2], rule exI [of _ f2],
        rule exI [of _ r], rule exI [of _ c3], rule exI [of _ f3]) (use x h in simp)
  qed
  show ?case
  proof (cases q)
    case (Put b)
    show ?thesis
    proof (cases "room_fails V c f")
      case True
      then obtain r c' f' where x: "write_pos c = write_end c" "V c f [] 0 = Some (r, c', f')" "r \<noteq> 0"
          "my_b_write_byte V c f b = do { c'' \<leftarrow> put_byte c' b; Some (c'', f') }"
        using room_failsE [OF assms(2) Cons.prems(1)] by blast
      show ?thesis
        by (rule exI [of _ "[]"], rule exI [of _ b], rule exI [of _ qs], rule exI [of _ c], rule exI [of _ f],
          rule exI [of _ r], rule exI [of _ c'], rule exI [of _ f']) (use x Put Cons.prems(1) in simp)
    next
      case False
      then obtain c1 f1 where "my_b_write_byte V c f b = Some (c1, f1)" "write_ok C c1 f1" "written C c1 f1 = written C c f @ [b]"
        using my_b_write_byte_ok [OF assms(2) Cons.prems(1), of b] by blast
      then show ?thesis using step [of c1 f1] Cons.prems(2) Put False by simp
    qed
  next
    case (Write bs)
    obtain r c1 f1 where "my_b_write W c f bs (length bs) = Some (r, c1, f1)"
        "r = 0 \<longrightarrow> write_ok C c1 f1 \<and> written C c1 f1 = written C c f @ bs"
      using my_b_write_ok [OF assms(1) Cons.prems(1)] by blast
    then show ?thesis using step [of c1 f1] Cons.prems(2) Write by simp
  qed
qed simp

section \<open>Example functions\<close>

text \<open>A file in memory, read through a cache that is refilled from the position after each call.\<close>

definition refill :: "io_cache \<Rightarrow> bytes \<Rightarrow> nat \<Rightarrow> io_cache" where
  "refill c s p = (let m = min (length (memory c)) (length s - p) in
     c\<lparr>pos_in_file := of_nat p, request_pos := 0, read_pos := 0, read_end := m,
       memory := take m (drop p s) @ drop m (memory c)\<rparr>)"

definition demo_fetch :: "bytes read_fun" where
  "demo_fetch c s dst n =
     (if position c + n \<le> length s
      then Some (0, refill c s (position c + n), s, take n (drop (position c) s) @ drop n dst)
      else Some (1, c, s, dst))"

definition demo_get :: "bytes get_fun" where
  "demo_get c s =
     (if position c < length s then Some (uint (s ! position c), refill c s (position c + 1), s)
      else Some (my_b_EOF, c, s))"

text \<open>A file that is written through its cache, and one whose disk is full.\<close>

definition demo_store :: "bytes write_fun" where
  "demo_store c s src n = (let t = written id c s @ take n src in
     Some (0, c\<lparr>pos_in_file := of_nat (length t), write_pos := write_buffer c, write_end := length (memory c)\<rparr>, t))"

definition demo_full :: "bytes write_fun" where
  "demo_full c s src n = Some (1, c, s)"

lemma refill_ok:
  assumes "read_ok id c s" "p \<le> length s"
  shows "read_ok id (refill c s p) s" "position (refill c s p) = p"
proof -
  have "unat (of_nat p :: 64 word) = p"
    by (rule of_nat_inverse [OF refl]) (use assms in \<open>simp add: read_ok_def\<close>)
  then show ok: "read_ok id (refill c s p) s"
    using assms by (auto simp: read_ok_def refill_def Let_def)
  show "position (refill c s p) = p"
    unfolding position_reading [OF ok] using \<open>unat (of_nat p :: 64 word) = p\<close> by (simp add: refill_def Let_def)
qed

lemma demo_fetches: "fetches id demo_fetch"
  unfolding fetches_def demo_fetch_def by (simp add: refill_ok)

lemma demo_gets: "gets id demo_get"
  unfolding gets_def demo_get_def by (simp add: refill_ok Suc_leI)

lemma demo_stores: "stores id demo_store"
  unfolding stores_def demo_store_def
  by (auto simp: write_ok_def Let_def) (simp add: written_def)

lemma demo_flushes: "flushes id demo_store"
  unfolding flushes_def demo_store_def
  by (auto simp: write_ok_def Let_def) (simp add: written_def)

lemma demo_full_flushes: "flushes id demo_full"
  by (simp add: flushes_def demo_full_def)

definition demo_cache :: "positions \<Rightarrow> io_cache" where
  "demo_cache p = \<lparr>pos_in_file = 0, end_of_file = 0, read_pos = 0, read_end = 0, buffer = Some 0, request_pos = 0,
     write_buffer = 0, append_read_pos = 0, write_pos = 0, write_end = 3, current = p, cache_kind = READ_CACHE,
     memory = replicate 3 0\<rparr>"

section \<open>Results\<close>

text \<open>
  C32: Reading through the macros is reading the file: whatever mixture of \<open>my_b_get\<close> and \<open>my_b_read\<close> a client
  uses, and wherever the boundaries of the cache lie, it gets the bytes of the file from its position on, in
  order and none twice, until the file has fewer bytes than it asks for; \<open>my_b_tell\<close> is the position behind what was read.
\<close>

theorem my_b_reads_file:
  assumes "fetches C R" "gets C G" "read_ok C c f"
  shows "\<exists>rs c' f'. reads R G c f qs = Some (rs, c', f') \<and> rs = file_reads (C f) (unat (my_b_tell c)) qs \<and>
    (Stop \<notin> set rs \<longrightarrow> unat (my_b_tell c') = unat (my_b_tell c) + sum_list (map wanted qs))"
  using reads_ok [OF assms, of qs] unfolding position_def by blast

theorem my_b_reads_file_witness:
  "\<exists>c' f'. reads demo_fetch demo_get (demo_cache Reading) [1, 2, 3, 4, 5, 6, 7] [Get, Read 2, Read 3, Get, Get] =
     Some ([Byte 1, Data [2, 3], Data [4, 5, 6], Byte 7, Stop], c', f')"
proof -
  have ok: "read_ok id (demo_cache Reading) [1, 2, 3, 4, 5, 6, 7]" by (simp add: read_ok_def demo_cache_def)
  have t: "unat (my_b_tell (demo_cache Reading)) = 0"
    by (simp add: my_b_tell_def demo_cache_def current_pos_def ptr_diff_def)
  have "file_reads [1, 2, 3, 4, 5, 6, 7] 0 [Get, Read 2, Read 3, Get, Get] =
      [Byte 1, Data [2, 3], Data [4, 5, 6], Byte 7, Stop]" by code_simp
  then show ?thesis using my_b_reads_file [OF demo_fetches demo_gets ok, of "[Get, Read 2, Read 3, Get, Get]"] t by auto
qed

text \<open>
  C33: Writing through the macros is appending to the file, up to the first failure, reported or not. Whatever mixture
  of \<open>my_b_write_byte\<close> and \<open>my_b_write\<close> a client uses, as long as \<open>_my_b_write\<close> makes the room \<open>my_b_write_byte\<close> asks it
  for: unless a write reports an error, the file and the cache together hold what was there followed by all that was
  written, in order, and \<open>my_b_tell\<close> is its length. The first time \<open>_my_b_write\<close> fails, all that was to be written
  before is in place, and no error is reported: the byte is stored where \<open>write_pos\<close> then points and the client goes
  on; if that is the end of the memory of the cache, the byte is written outside it.
\<close>

theorem my_b_writes_file:
  assumes "stores C W" "flushes C V" "write_ok C c f"
  shows "(\<not> unflushed W V c f qs \<longrightarrow>
      (\<exists>b c' f'. writes W V c f qs = Some (b, c', f') \<and>
        (b \<longrightarrow> written C c' f' = written C c f @ concat (map bytes_of qs) \<and>
          my_b_tell c' = of_nat (length (written C c f) + length (concat (map bytes_of qs)))))) \<and>
    (unflushed W V c f qs \<longrightarrow>
      (\<exists>ps b rs c1 f1 r c2 f2. qs = ps @ Put b # rs \<and> writes W V c f ps = Some (True, c1, f1) \<and>
        written C c1 f1 = written C c f @ concat (map bytes_of ps) \<and>
        my_b_tell c1 = of_nat (length (written C c f) + length (concat (map bytes_of ps))) \<and>
        write_pos c1 = write_end c1 \<and> V c1 f1 [] 0 = Some (r, c2, f2) \<and> r \<noteq> 0 \<and>
        writes W V c f qs = do { c3 \<leftarrow> put_byte c2 b; writes W V c3 f2 rs } \<and>
        (length (memory c2) \<le> write_pos c2 \<longrightarrow> writes W V c f qs = None)))"
proof (intro conjI impI)
  assume "\<not> unflushed W V c f qs"
  then show "\<exists>b c' f'. writes W V c f qs = Some (b, c', f') \<and>
      (b \<longrightarrow> written C c' f' = written C c f @ concat (map bytes_of qs) \<and>
        my_b_tell c' = of_nat (length (written C c f) + length (concat (map bytes_of qs))))"
    using writes_ok [OF assms] tell_writing by fastforce
next
  assume "unflushed W V c f qs"
  then obtain ps b rs c1 f1 r c2 f2 where x: "qs = ps @ Put b # rs" "writes W V c f ps = Some (True, c1, f1)"
      "write_ok C c1 f1" "written C c1 f1 = written C c f @ concat (map bytes_of ps)" "write_pos c1 = write_end c1"
      "V c1 f1 [] 0 = Some (r, c2, f2)" "r \<noteq> 0" "writes W V c f qs = do { c3 \<leftarrow> put_byte c2 b; writes W V c3 f2 rs }"
    using writes_unflushed [OF assms] by blast
  have "length (memory c2) \<le> write_pos c2 \<Longrightarrow> put_byte c2 b = None" by (simp add: put_byte_def wr_def)
  then show "\<exists>ps b rs c1 f1 r c2 f2. qs = ps @ Put b # rs \<and> writes W V c f ps = Some (True, c1, f1) \<and>
      written C c1 f1 = written C c f @ concat (map bytes_of ps) \<and>
      my_b_tell c1 = of_nat (length (written C c f) + length (concat (map bytes_of ps))) \<and>
      write_pos c1 = write_end c1 \<and> V c1 f1 [] 0 = Some (r, c2, f2) \<and> r \<noteq> 0 \<and>
      writes W V c f qs = do { c3 \<leftarrow> put_byte c2 b; writes W V c3 f2 rs } \<and>
      (length (memory c2) \<le> write_pos c2 \<longrightarrow> writes W V c f qs = None)"
    using x tell_writing [OF x(3)] by (intro exI [of _ ps] exI [of _ b] exI [of _ rs] exI [of _ c1] exI [of _ f1]
      exI [of _ r] exI [of _ c2] exI [of _ f2]) simp
qed

text \<open>The client of the first part writes through; that of the second overruns its cache of three bytes with the fourth.\<close>

theorem my_b_writes_file_witness:
  "(\<exists>c' f'. writes demo_store demo_store ((demo_cache Writing)\<lparr>pos_in_file := 1\<rparr>) [9] [Put 1, Write [2, 3, 4], Put 5] = Some (True, c', f') \<and>
     written id c' f' = [9, 1, 2, 3, 4, 5] \<and> my_b_tell c' = 6) \<and>
   writes demo_store demo_full ((demo_cache Writing)\<lparr>pos_in_file := 1\<rparr>) [9] [Put 1, Put 2, Put 3, Put 4] = None \<and>
   (\<exists>ps b rs c1 f1. [Put 1, Put 2, Put 3, Put 4] = ps @ Put b # rs \<and>
     writes demo_store demo_full ((demo_cache Writing)\<lparr>pos_in_file := 1\<rparr>) [9] ps = Some (True, c1, f1) \<and>
     written id c1 f1 = 9 # concat (map bytes_of ps) \<and> write_pos c1 = write_end c1)"
proof (intro conjI)
  let ?c = "(demo_cache Writing)\<lparr>pos_in_file := 1\<rparr>"
  note ev = room_fails_def my_b_write_byte_def my_b_write_def put_byte_def wr_def slice_def blit_def demo_store_def
    demo_full_def written_def demo_cache_def Let_def
  have ok: "write_ok id ?c [9]" by (simp add: write_ok_def demo_cache_def)
  have "written id ?c [9] = [9]" by (simp add: written_def demo_cache_def)
  moreover have "\<not> unflushed demo_store demo_store ?c [9] [Put 1, Write [2, 3, 4], Put 5]" by (simp add: ev)
  moreover have "\<exists>c' f'. writes demo_store demo_store ?c [9] [Put 1, Write [2, 3, 4], Put 5] = Some (True, c', f')"
    by (simp add: ev)
  ultimately show "\<exists>c' f'. writes demo_store demo_store ?c [9] [Put 1, Write [2, 3, 4], Put 5] = Some (True, c', f') \<and>
      written id c' f' = [9, 1, 2, 3, 4, 5] \<and> my_b_tell c' = 6"
    using my_b_writes_file [OF demo_stores demo_flushes ok, of "[Put 1, Write [2, 3, 4], Put 5]"] by auto
  show "writes demo_store demo_full ?c [9] [Put 1, Put 2, Put 3, Put 4] = None" by (simp add: ev)
  have "unflushed demo_store demo_full ?c [9] [Put 1, Put 2, Put 3, Put 4]" by (simp add: ev)
  then show "\<exists>ps b rs c1 f1. [Put 1, Put 2, Put 3, Put 4] = ps @ Put b # rs \<and>
      writes demo_store demo_full ?c [9] ps = Some (True, c1, f1) \<and>
      written id c1 f1 = 9 # concat (map bytes_of ps) \<and> write_pos c1 = write_end c1"
    using my_b_writes_file [OF demo_stores demo_full_flushes ok, of "[Put 1, Put 2, Put 3, Put 4]"]
      \<open>written id ?c [9] = [9]\<close> by auto
qed

text \<open>
  \<open>my_b_write_byte\<close> does not look at the result of the function that makes room: when that fails and leaves the
  cache full, the byte goes behind the end of the cache, outside its memory if the cache ends there.
\<close>

lemma my_b_write_byte_unchecked:
  assumes "write_pos c = write_end c" "W c f [] 0 = Some (r, c, f)"
  shows "my_b_write_byte W c f b =
    (if write_end c < length (memory c)
     then Some (c\<lparr>memory := (memory c)[write_end c := b], write_pos := write_end c + 1\<rparr>, f) else None)"
  using assms by (simp add: my_b_write_byte_def put_byte_def wr_def)

end
