(* ===== verification/Counters.thy ===== *)
theory Counters
  imports Prelude
begin

text \<open>
  The shared counters of \<^verbatim>\<open>my_pthread.h\<close>: \<open>thread_safe_add\<close> and its relatives change a variable under a mutex;
  \<open>statistic_add\<close>, without \<open>SAFE_STATISTICS\<close>, changes it without. An addition \<open>V += C\<close> is two steps of the
  machine, the load of the variable and the store of the sum, between which any other thread may run. Each thread
  has a list of steps and a register, and a schedule is a list of the threads whose turn it is; a
  thread that waits for the mutex wastes its turn.
\<close>

section \<open>The machine\<close>

datatype instr = Lock | Load | Store_sum "64 word" | Unlock

record counter_state =
  counter :: "64 word"
  owner :: "nat option"
  threads :: "(instr list \<times> 64 word) list"

definition exec :: "nat \<Rightarrow> counter_state \<Rightarrow> counter_state option" where
  "exec t s =
     (if t < length (threads s)
      then case threads s ! t of
          ([], r) \<Rightarrow> None
        | (Lock # is, r) \<Rightarrow>
            if owner s = None then Some (s\<lparr>owner := Some t, threads := (threads s)[t := (is, r)]\<rparr>) else None
        | (Load # is, r) \<Rightarrow> Some (s\<lparr>threads := (threads s)[t := (is, counter s)]\<rparr>)
        | (Store_sum C # is, r) \<Rightarrow> Some (s\<lparr>counter := r + C, threads := (threads s)[t := (is, r)]\<rparr>)
        | (Unlock # is, r) \<Rightarrow> Some (s\<lparr>owner := None, threads := (threads s)[t := (is, r)]\<rparr>)
      else None)"

definition turn :: "nat \<Rightarrow> counter_state \<Rightarrow> counter_state" where
  "turn t s = (case exec t s of None \<Rightarrow> s | Some s' \<Rightarrow> s')"

definition finished :: "counter_state \<Rightarrow> bool" where
  "finished s \<longleftrightarrow> (\<forall>p\<in>set (threads s). fst p = [])"

section \<open>The macros\<close>

definition thread_safe_add :: "64 word \<Rightarrow> instr list" where
  "thread_safe_add C = [Lock, Load, Store_sum C, Unlock]"

definition thread_safe_sub :: "64 word \<Rightarrow> instr list" where
  "thread_safe_sub C = [Lock, Load, Store_sum (- C), Unlock]"

definition thread_safe_increment :: "instr list" where
  "thread_safe_increment = [Lock, Load, Store_sum 1, Unlock]"

definition thread_safe_decrement :: "instr list" where
  "thread_safe_decrement = [Lock, Load, Store_sum (- 1), Unlock]"

text \<open>Without \<open>SAFE_STATISTICS\<close>.\<close>

definition statistic_add :: "64 word \<Rightarrow> instr list" where
  "statistic_add C = [Load, Store_sum C]"

definition statistic_increment :: "instr list" where
  "statistic_increment = [Load, Store_sum 1]"

datatype counter_op = Increment | Decrement | Add "64 word" | Sub "64 word"

fun op_code :: "counter_op \<Rightarrow> instr list" where
  "op_code Increment = thread_safe_increment"
| "op_code Decrement = thread_safe_decrement"
| "op_code (Add C) = thread_safe_add C"
| "op_code (Sub C) = thread_safe_sub C"

fun op_sum :: "counter_op \<Rightarrow> 64 word" where
  "op_sum Increment = 1"
| "op_sum Decrement = - 1"
| "op_sum (Add C) = C"
| "op_sum (Sub C) = - C"

definition start :: "64 word \<Rightarrow> counter_op list list \<Rightarrow> counter_state" where
  "start v opss = \<lparr>counter = v, owner = None, threads = map (\<lambda>ops. (concat (map op_code ops), 0)) opss\<rparr>"

section \<open>The invariant\<close>

lemmas op_code_defs = thread_safe_increment_def thread_safe_decrement_def thread_safe_add_def thread_safe_sub_def

lemma op_code_eq: "op_code p = [Lock, Load, Store_sum (op_sum p), Unlock]"
  by (cases p) (simp_all add: op_code_defs)

text \<open>Where a thread can be: outside the operations, or inside one and then it has the mutex.\<close>

inductive thread_ok :: "nat option \<Rightarrow> 64 word \<Rightarrow> nat \<Rightarrow> instr list \<times> 64 word \<Rightarrow> bool" for ow v t where
  outside: "ow \<noteq> Some t \<Longrightarrow> thread_ok ow v t (concat (map op_code ops), r)"
| locked: "ow = Some t \<Longrightarrow> thread_ok ow v t (Load # Store_sum C # Unlock # concat (map op_code ops), r)"
| loaded: "ow = Some t \<Longrightarrow> thread_ok ow v t (Store_sum C # Unlock # concat (map op_code ops), v)"
| stored: "ow = Some t \<Longrightarrow> thread_ok ow v t (Unlock # concat (map op_code ops), r)"

fun pending :: "instr list \<Rightarrow> 64 word" where
  "pending [] = 0"
| "pending (Store_sum C # is) = C + pending is"
| "pending (_ # is) = pending is"

definition left :: "counter_state \<Rightarrow> 64 word" where
  "left s = sum_list (map (pending \<circ> fst) (threads s))"

definition counter_inv :: "counter_state \<Rightarrow> bool" where
  "counter_inv s \<longleftrightarrow> (\<forall>t < length (threads s). thread_ok (owner s) (counter s) t (threads s ! t)) \<and>
     (\<forall>t. owner s = Some t \<longrightarrow> t < length (threads s))"

lemma concat_op_code: "concat (map op_code ops) = [] \<and> ops = [] \<or>
    (\<exists>p ps. ops = p # ps \<and> concat (map op_code ops) = Lock # Load # Store_sum (op_sum p) # Unlock # concat (map op_code ps))"
  by (cases ops) (simp_all add: op_code_eq)

lemma thread_ok_other:
  assumes "thread_ok ow v u x" "ow \<noteq> Some u" "ow' \<noteq> Some u"
  shows "thread_ok ow' v' u x"
  using assms by (auto elim!: thread_ok.cases intro: thread_ok.intros)

lemma sum_list_replace:
  "t < length xs \<Longrightarrow> sum_list (xs[t := y]) = sum_list xs + (y - xs ! t :: 'a::ab_group_add)"
  by (induction xs arbitrary: t) (auto simp: algebra_simps split: nat.split)

text \<open>One step keeps the invariant, and what the counter gains is no longer left to do.\<close>

lemma exec_ok:
  assumes inv: "counter_inv s" and e: "exec t s = Some s'"
  shows "counter_inv s' \<and> counter s' + left s' = counter s + left s \<and> length (threads s') = length (threads s)"
proof -
  obtain "is" r where t: "t < length (threads s)" "threads s ! t = (is, r)"
    using e by (cases "threads s ! t") (auto simp: exec_def split: if_splits)
  have ok: "thread_ok (owner s) (counter s) t (is, r)" using inv t by (auto simp: counter_inv_def)
  have l: "sum_list (map (pending \<circ> fst) ((threads s)[t := (js, q)])) = left s + (pending js - pending is)" for js q
    using t by (simp add: left_def map_update sum_list_replace)
  have inv': "counter_inv s'"
    if s': "threads s' = (threads s)[t := x]" "thread_ok (owner s') (counter s') t x"
      "\<And>u. owner s' = Some u \<Longrightarrow> u < length (threads s')"
      "\<And>u. u \<noteq> t \<Longrightarrow> owner s' = owner s \<and> counter s' = counter s \<or> owner s \<noteq> Some u \<and> owner s' \<noteq> Some u" for x
    unfolding counter_inv_def
  proof (intro conjI allI impI)
    fix u assume u: "u < length (threads s')"
    show "thread_ok (owner s') (counter s') u (threads s' ! u)"
    proof (cases "u = t")
      case False
      then have "thread_ok (owner s) (counter s) u (threads s ! u)" using inv u s'(1) by (simp add: counter_inv_def)
      then show ?thesis using s'(1) s'(4) [OF False] False by (metis nth_list_update_neq thread_ok_other)
    qed (use s' t in simp)
  qed (rule s'(3))
  from ok show ?thesis
  proof cases
    case (outside ops)
    then obtain p ps where p: "is = Lock # Load # Store_sum (op_sum p) # Unlock # concat (map op_code ps)"
      using e t concat_op_code [of ops] by (auto simp: exec_def)
    then have s': "owner s = None" "s' = s\<lparr>owner := Some t, threads := (threads s)[t := (tl is, r)]\<rparr>"
      using e t by (auto simp: exec_def split: if_splits)
    have "counter_inv s'" by (rule inv' [of "(tl is, r)"]) (use s' p in \<open>auto simp: counter_inv_def t intro: thread_ok.locked\<close>)
    then show ?thesis using l s' p by (auto simp: left_def)
  next
    case (locked C ops)
    then have s': "s' = s\<lparr>threads := (threads s)[t := (tl is, counter s)]\<rparr>" using e t by (auto simp: exec_def)
    have "counter_inv s'" by (rule inv' [of "(tl is, counter s)"]) (use s' locked in \<open>auto simp: counter_inv_def t intro: thread_ok.loaded\<close>)
    then show ?thesis using l s' locked by (auto simp: left_def)
  next
    case (loaded C ops)
    then have s': "s' = s\<lparr>counter := r + C, threads := (threads s)[t := (tl is, r)]\<rparr>" using e t by (auto simp: exec_def)
    have "counter_inv s'" by (rule inv' [of "(tl is, r)"]) (use s' loaded in \<open>auto simp: counter_inv_def t intro: thread_ok.stored\<close>)
    then show ?thesis using l s' loaded by (auto simp: left_def)
  next
    case (stored ops)
    then have s': "s' = s\<lparr>owner := None, threads := (threads s)[t := (tl is, r)]\<rparr>" using e t by (auto simp: exec_def)
    have "counter_inv s'" by (rule inv' [of "(tl is, r)"]) (use s' stored in \<open>auto simp: counter_inv_def t intro: thread_ok.outside\<close>)
    then show ?thesis using l s' stored by (auto simp: left_def)
  qed
qed

lemma turn_ok:
  "counter_inv s \<Longrightarrow> counter_inv (turn t s) \<and> counter (turn t s) + left (turn t s) = counter s + left s \<and>
     length (threads (turn t s)) = length (threads s)"
  using exec_ok by (auto simp: turn_def split: option.splits)

lemma schedule_ok:
  "counter_inv s \<Longrightarrow> counter_inv (fold turn ts s) \<and> counter (fold turn ts s) + left (fold turn ts s) = counter s + left s"
proof (induction ts arbitrary: s)
  case (Cons t ts)
  then show ?case using turn_ok [of s t] by simp
qed simp

lemma pending_append: "pending (xs @ ys) = pending xs + pending ys"
  by (induction xs rule: pending.induct) simp_all

lemma pending_ops: "pending (concat (map op_code ops)) = sum_list (map op_sum ops)"
  by (induction ops) (simp_all add: pending_append op_code_eq)

lemma start_ok: "counter_inv (start v opss)" "left (start v opss) = sum_list (map op_sum (concat opss))"
proof -
  show "counter_inv (start v opss)" by (auto simp: counter_inv_def start_def intro: thread_ok.outside)
  show "left (start v opss) = sum_list (map op_sum (concat opss))"
    by (induction opss) (simp_all add: left_def start_def pending_ops o_def)
qed

lemma finished_left: "finished s \<Longrightarrow> left s = 0"
proof -
  have "\<forall>p\<in>set xs. fst p = [] \<Longrightarrow> sum_list (map (pending \<circ> fst) xs) = 0" for xs :: "(instr list \<times> 64 word) list"
    by (induction xs) auto
  then show "finished s \<Longrightarrow> left s = 0" by (simp add: finished_def left_def)
qed

section \<open>No deadlock\<close>

text \<open>The steps that are left.\<close>

definition work :: "counter_state \<Rightarrow> nat" where
  "work s = sum_list (map (length \<circ> fst) (threads s))"

lemma sum_list_decrease: "t < length xs \<Longrightarrow> y < xs ! t \<Longrightarrow> sum_list (xs[t := y]) < (sum_list xs :: nat)"
  by (induction xs arbitrary: t) (auto split: nat.split)

lemma exec_work: "exec t s = Some s' \<Longrightarrow> work s' < work s"
  unfolding work_def
  by (auto simp: exec_def map_update split: if_splits prod.splits list.splits instr.splits intro!: sum_list_decrease)

text \<open>While some thread is not finished, some thread can make a step: its owner, when the mutex is taken.\<close>

lemma some_step:
  assumes inv: "counter_inv s" and nf: "\<not> finished s"
  shows "\<exists>t s'. exec t s = Some s'"
proof (cases "owner s")
  case None
  obtain p where "p \<in> set (threads s)" "fst p \<noteq> []" using nf by (auto simp: finished_def)
  then obtain t i "is" r where t: "t < length (threads s)" "threads s ! t = (i # is, r)"
    by (metis in_set_conv_nth neq_Nil_conv prod.collapse)
  then show ?thesis using None by (intro exI [of _ t]) (auto simp: exec_def split: instr.splits)
next
  case (Some t)
  then have t: "t < length (threads s)" using inv by (simp add: counter_inv_def)
  have "thread_ok (Some t) (counter s) t (threads s ! t)" using inv t Some by (auto simp: counter_inv_def)
  then show ?thesis using t by (intro exI [of _ t]) (auto simp: exec_def elim!: thread_ok.cases)
qed

lemma can_finish: "counter_inv s \<Longrightarrow> \<exists>ts. finished (fold turn ts s)"
proof (induction "work s" arbitrary: s rule: less_induct)
  case less
  show ?case
  proof (cases "finished s")
    case True
    then show ?thesis by (intro exI [of _ "[]"]) simp
  next
    case False
    then obtain t s' where e: "exec t s = Some s'" using some_step less.prems by blast
    then obtain ts where "finished (fold turn ts s')" using less.hyps [OF exec_work [OF e]] exec_ok [OF less.prems e] by blast
    then show ?thesis using e by (intro exI [of _ "t # ts"]) (simp add: turn_def)
  qed
qed

section \<open>Results\<close>

text \<open>
  C30: No update of a counter under the mutex is lost: whatever the schedule of the threads, when all are finished
  the counter has its first value plus what all threads added, minus what they subtracted (modulo two to the
  64); and from every state a schedule leads to, the threads can still finish, so none is in a deadlock.
\<close>

theorem safe_counters:
  "(finished (fold turn ts (start v opss)) \<longrightarrow>
      counter (fold turn ts (start v opss)) = v + sum_list (map op_sum (concat opss))) \<and>
   (\<exists>us. finished (fold turn us (fold turn ts (start v opss))))"
proof -
  let ?s = "fold turn ts (start v opss)"
  have s: "counter_inv ?s" "counter ?s + left ?s = v + sum_list (map op_sum (concat opss))"
    using schedule_ok [OF start_ok(1), of ts v opss] start_ok(2) [of v opss] by (simp_all add: start_def)
  then show ?thesis using finished_left [of ?s] can_finish [OF s(1)] by auto
qed

theorem safe_counters_witness:
  "counter (fold turn [0, 1, 0, 0, 1, 0, 1, 1, 1, 1] (start 5 [[Increment], [Sub 3]])) = 3"
proof -
  have "finished (fold turn [0, 1, 0, 0, 1, 0, 1, 1, 1, 1] (start 5 [[Increment], [Sub 3]]))" by code_simp
  then show ?thesis using safe_counters [of "[0, 1, 0, 0, 1, 0, 1, 1, 1, 1]" 5 "[[Increment], [Sub 3]]"] by simp
qed

text \<open>Without the mutex updates are lost, as the comment of the header says: two increments can count as one.\<close>

lemma statistic_lost_update:
  "let s = fold turn [0, 1, 0, 1] \<lparr>counter = 0, owner = None, threads = [(statistic_increment, 0), (statistic_increment, 0)]\<rparr>
   in finished s \<and> counter s = 1"
  by code_simp

end
