(* ===== verification/AmqpTypes.thy ===== *)
theory AmqpTypes
  imports Prelude "HOL-Library.Product_Lexorder"
begin

unbundle bit_operations_syntax

text \<open>
  The data of \<^verbatim>\<open>amqp.h\<close>, the header of the RabbitMQ client the tasks use: byte strings, tables and their
  tagged values, frames, replies, status codes and the version number.

  A pointer is an address or NULL; the member of a union that was written last is a constructor. Floating-point
  numbers are their bytes.
\<close>

section \<open>Values\<close>

type_synonym amqp_boolean_t = int
type_synonym amqp_method_number_t = "32 word"
type_synonym amqp_flags_t = "32 word"
type_synonym amqp_channel_t = "16 word"

record amqp_bytes_t =
  len :: "64 word"
  bytes :: ptr

record amqp_decimal_t =
  decimals :: "8 word"
  decimal_value :: "32 word"

record amqp_table_t =
  num_entries :: int
  entries :: ptr

record amqp_array_t =
  array_num_entries :: int
  array_entries :: ptr

datatype (discs_sels) amqp_value =
    V_boolean amqp_boolean_t
  | V_i8 "8 word" | V_u8 "8 word"
  | V_i16 "16 word" | V_u16 "16 word"
  | V_i32 "32 word" | V_u32 "32 word"
  | V_i64 "64 word" | V_u64 "64 word"
  | V_f32 "8 word list" | V_f64 "8 word list"
  | V_decimal amqp_decimal_t
  | V_bytes amqp_bytes_t
  | V_table amqp_table_t
  | V_array amqp_array_t

record amqp_field_value_t =
  kind :: char
  field_value :: amqp_value

record amqp_table_entry_t =
  entry_key :: amqp_bytes_t
  entry_value :: amqp_field_value_t

datatype amqp_field_value_kind_t =
    AMQP_FIELD_KIND_BOOLEAN | AMQP_FIELD_KIND_I8 | AMQP_FIELD_KIND_U8 | AMQP_FIELD_KIND_I16 | AMQP_FIELD_KIND_U16
  | AMQP_FIELD_KIND_I32 | AMQP_FIELD_KIND_U32 | AMQP_FIELD_KIND_I64 | AMQP_FIELD_KIND_U64 | AMQP_FIELD_KIND_F32
  | AMQP_FIELD_KIND_F64 | AMQP_FIELD_KIND_DECIMAL | AMQP_FIELD_KIND_UTF8 | AMQP_FIELD_KIND_ARRAY
  | AMQP_FIELD_KIND_TIMESTAMP | AMQP_FIELD_KIND_TABLE | AMQP_FIELD_KIND_VOID | AMQP_FIELD_KIND_BYTES

fun kind_code :: "amqp_field_value_kind_t \<Rightarrow> char" where
  "kind_code AMQP_FIELD_KIND_BOOLEAN = CHR ''t''"
| "kind_code AMQP_FIELD_KIND_I8 = CHR ''b''"
| "kind_code AMQP_FIELD_KIND_U8 = CHR ''B''"
| "kind_code AMQP_FIELD_KIND_I16 = CHR ''s''"
| "kind_code AMQP_FIELD_KIND_U16 = CHR ''u''"
| "kind_code AMQP_FIELD_KIND_I32 = CHR ''I''"
| "kind_code AMQP_FIELD_KIND_U32 = CHR ''i''"
| "kind_code AMQP_FIELD_KIND_I64 = CHR ''l''"
| "kind_code AMQP_FIELD_KIND_U64 = CHR ''L''"
| "kind_code AMQP_FIELD_KIND_F32 = CHR ''f''"
| "kind_code AMQP_FIELD_KIND_F64 = CHR ''d''"
| "kind_code AMQP_FIELD_KIND_DECIMAL = CHR ''D''"
| "kind_code AMQP_FIELD_KIND_UTF8 = CHR ''S''"
| "kind_code AMQP_FIELD_KIND_ARRAY = CHR ''A''"
| "kind_code AMQP_FIELD_KIND_TIMESTAMP = CHR ''T''"
| "kind_code AMQP_FIELD_KIND_TABLE = CHR ''F''"
| "kind_code AMQP_FIELD_KIND_VOID = CHR ''V''"
| "kind_code AMQP_FIELD_KIND_BYTES = CHR ''x''"

text \<open>The member of the union a kind of value is kept in, by the comments of the union and of the enumeration.\<close>

definition kind_fits :: "amqp_field_value_kind_t \<Rightarrow> amqp_value \<Rightarrow> bool" where
  "kind_fits k v = (case k of
       AMQP_FIELD_KIND_BOOLEAN \<Rightarrow> is_V_boolean v
     | AMQP_FIELD_KIND_I8 \<Rightarrow> is_V_i8 v
     | AMQP_FIELD_KIND_U8 \<Rightarrow> is_V_u8 v
     | AMQP_FIELD_KIND_I16 \<Rightarrow> is_V_i16 v
     | AMQP_FIELD_KIND_U16 \<Rightarrow> is_V_u16 v
     | AMQP_FIELD_KIND_I32 \<Rightarrow> is_V_i32 v
     | AMQP_FIELD_KIND_U32 \<Rightarrow> is_V_u32 v
     | AMQP_FIELD_KIND_I64 \<Rightarrow> is_V_i64 v
     | AMQP_FIELD_KIND_U64 \<Rightarrow> is_V_u64 v
     | AMQP_FIELD_KIND_F32 \<Rightarrow> is_V_f32 v
     | AMQP_FIELD_KIND_F64 \<Rightarrow> is_V_f64 v
     | AMQP_FIELD_KIND_DECIMAL \<Rightarrow> is_V_decimal v
     | AMQP_FIELD_KIND_UTF8 \<Rightarrow> is_V_bytes v
     | AMQP_FIELD_KIND_ARRAY \<Rightarrow> is_V_array v
     | AMQP_FIELD_KIND_TIMESTAMP \<Rightarrow> is_V_u64 v
     | AMQP_FIELD_KIND_TABLE \<Rightarrow> is_V_table v
     | AMQP_FIELD_KIND_VOID \<Rightarrow> True
     | AMQP_FIELD_KIND_BYTES \<Rightarrow> is_V_bytes v)"

section \<open>Pools, methods and frames\<close>

record amqp_pool_blocklist_t =
  num_blocks :: int
  blocklist :: ptr

record amqp_pool_t =
  pagesize :: "64 word"
  pages :: amqp_pool_blocklist_t
  large_blocks :: amqp_pool_blocklist_t
  next_page :: int
  alloc_block :: ptr
  alloc_used :: "64 word"

record amqp_method_t =
  id :: amqp_method_number_t
  decoded :: ptr

record frame_properties =
  frame_class_id :: "16 word"
  body_size :: "64 word"
  properties_decoded :: ptr
  raw :: amqp_bytes_t

record frame_protocol_header =
  transport_high :: "8 word"
  transport_low :: "8 word"
  protocol_version_major :: "8 word"
  protocol_version_minor :: "8 word"

datatype frame_payload =
    Method amqp_method_t | Properties frame_properties | Body_fragment amqp_bytes_t | Protocol_header frame_protocol_header

record amqp_frame_t =
  frame_type :: "8 word"
  channel :: amqp_channel_t
  payload :: frame_payload

datatype amqp_response_type =
  AMQP_RESPONSE_NONE | AMQP_RESPONSE_NORMAL | AMQP_RESPONSE_LIBRARY_EXCEPTION | AMQP_RESPONSE_SERVER_EXCEPTION

record amqp_rpc_reply_t =
  reply_type :: amqp_response_type
  reply :: amqp_method_t
  library_error :: int

section \<open>Status codes\<close>

datatype amqp_status_enum =
    AMQP_STATUS_OK | AMQP_STATUS_NO_MEMORY | AMQP_STATUS_BAD_AMQP_DATA | AMQP_STATUS_UNKNOWN_CLASS
  | AMQP_STATUS_UNKNOWN_METHOD | AMQP_STATUS_HOSTNAME_RESOLUTION_FAILED
  | AMQP_STATUS_INCOMPATIBLE_AMQP_VERSION | AMQP_STATUS_CONNECTION_CLOSED | AMQP_STATUS_BAD_URL
  | AMQP_STATUS_SOCKET_ERROR | AMQP_STATUS_INVALID_PARAMETER | AMQP_STATUS_TABLE_TOO_BIG
  | AMQP_STATUS_WRONG_METHOD | AMQP_STATUS_TIMEOUT | AMQP_STATUS_TIMER_FAILURE
  | AMQP_STATUS_HEARTBEAT_TIMEOUT | AMQP_STATUS_UNEXPECTED_STATE | AMQP_STATUS_SOCKET_CLOSED
  | AMQP_STATUS_SOCKET_INUSE | AMQP_STATUS_BROKER_UNSUPPORTED_SASL_METHOD | AMQP_STATUS_UNSUPPORTED
  | AMQP_STATUS_NEXT_VALUE | AMQP_STATUS_TCP_ERROR | AMQP_STATUS_TCP_SOCKETLIB_INIT_ERROR
  | AMQP_STATUS_TCP_NEXT_VALUE | AMQP_STATUS_SSL_ERROR | AMQP_STATUS_SSL_HOSTNAME_VERIFY_FAILED
  | AMQP_STATUS_SSL_PEER_VERIFY_FAILED | AMQP_STATUS_SSL_CONNECTION_FAILED | AMQP_STATUS_SSL_NEXT_VALUE

primrec status_code :: "amqp_status_enum \<Rightarrow> int" where
  "status_code AMQP_STATUS_OK = 0"
| "status_code AMQP_STATUS_NO_MEMORY = - 1"
| "status_code AMQP_STATUS_BAD_AMQP_DATA = - 2"
| "status_code AMQP_STATUS_UNKNOWN_CLASS = - 3"
| "status_code AMQP_STATUS_UNKNOWN_METHOD = - 4"
| "status_code AMQP_STATUS_HOSTNAME_RESOLUTION_FAILED = - 5"
| "status_code AMQP_STATUS_INCOMPATIBLE_AMQP_VERSION = - 6"
| "status_code AMQP_STATUS_CONNECTION_CLOSED = - 7"
| "status_code AMQP_STATUS_BAD_URL = - 8"
| "status_code AMQP_STATUS_SOCKET_ERROR = - 9"
| "status_code AMQP_STATUS_INVALID_PARAMETER = - 10"
| "status_code AMQP_STATUS_TABLE_TOO_BIG = - 11"
| "status_code AMQP_STATUS_WRONG_METHOD = - 12"
| "status_code AMQP_STATUS_TIMEOUT = - 13"
| "status_code AMQP_STATUS_TIMER_FAILURE = - 14"
| "status_code AMQP_STATUS_HEARTBEAT_TIMEOUT = - 15"
| "status_code AMQP_STATUS_UNEXPECTED_STATE = - 16"
| "status_code AMQP_STATUS_SOCKET_CLOSED = - 17"
| "status_code AMQP_STATUS_SOCKET_INUSE = - 18"
| "status_code AMQP_STATUS_BROKER_UNSUPPORTED_SASL_METHOD = - 19"
| "status_code AMQP_STATUS_UNSUPPORTED = - 20"
| "status_code AMQP_STATUS_NEXT_VALUE = - 21"
| "status_code AMQP_STATUS_TCP_ERROR = - 256"
| "status_code AMQP_STATUS_TCP_SOCKETLIB_INIT_ERROR = - 257"
| "status_code AMQP_STATUS_TCP_NEXT_VALUE = - 258"
| "status_code AMQP_STATUS_SSL_ERROR = - 512"
| "status_code AMQP_STATUS_SSL_HOSTNAME_VERIFY_FAILED = - 513"
| "status_code AMQP_STATUS_SSL_PEER_VERIFY_FAILED = - 514"
| "status_code AMQP_STATUS_SSL_CONNECTION_FAILED = - 515"
| "status_code AMQP_STATUS_SSL_NEXT_VALUE = - 516"

text \<open>A client tests a status against the codes, so the order of the values is that of their codes.\<close>

lemma status_code_inject [simp]: "status_code x = status_code y \<longleftrightarrow> x = y"
  by (cases x; cases y) simp_all

instantiation amqp_status_enum :: linorder
begin

definition less_eq_amqp_status_enum :: "amqp_status_enum \<Rightarrow> amqp_status_enum \<Rightarrow> bool" where
  "less_eq_amqp_status_enum x y \<longleftrightarrow> status_code x \<le> status_code y"

definition less_amqp_status_enum :: "amqp_status_enum \<Rightarrow> amqp_status_enum \<Rightarrow> bool" where
  "less_amqp_status_enum x y \<longleftrightarrow> status_code x < status_code y"

instance
  by standard (auto simp: less_eq_amqp_status_enum_def less_amqp_status_enum_def)

end

text \<open>Every value but \<open>AMQP_STATUS_OK\<close> is below it.\<close>

lemma status_errors: "x < AMQP_STATUS_OK \<longleftrightarrow> x \<noteq> AMQP_STATUS_OK"
  by (cases x) (simp_all add: less_amqp_status_enum_def)

section \<open>The version\<close>

definition AMQP_VERSION_CODE :: "int \<Rightarrow> int \<Rightarrow> int \<Rightarrow> int \<Rightarrow> int" where
  "AMQP_VERSION_CODE major minor patch release =
     push_bit 24 major OR push_bit 16 minor OR push_bit 8 patch OR release"

definition AMQP_VERSION :: int where
  "AMQP_VERSION = AMQP_VERSION_CODE 0 8 1 0"

lemma or_bytes: "0 \<le> b \<Longrightarrow> b < 2 ^ n \<Longrightarrow> push_bit n a OR b = a * 2 ^ n + (b :: int)"
proof -
  assume b: "0 \<le> b" "b < 2 ^ n"
  have "take_bit n b = b" using b by (simp add: take_bit_int_eq_self)
  then have "\<not> n \<le> i" if i: "bit b i" for i using i by (metis bit_take_bit_iff linorder_not_le)
  then have "push_bit n a AND b = 0" by (intro bit_eqI) (auto simp: bit_and_iff bit_push_bit_iff)
  then show ?thesis by (metis disjunctive_add_eq_or push_bit_eq_mult)
qed

definition version_part :: "int \<Rightarrow> bool" where
  "version_part n \<longleftrightarrow> 0 \<le> n \<and> n < 256"

lemma AMQP_VERSION_CODE_value:
  assumes "version_part minor" "version_part patch" "version_part release"
  shows "AMQP_VERSION_CODE major minor patch release = ((major * 256 + minor) * 256 + patch) * 256 + release"
proof -
  have a: "push_bit 8 patch OR release = patch * 256 + release" "patch * 256 + release < 2 ^ 16" "0 \<le> patch * 256 + release"
    using assms or_bytes [of release 8 patch] by (auto simp: version_part_def)
  have b: "push_bit 16 minor OR (patch * 256 + release) = minor * 2 ^ 16 + (patch * 256 + release)"
      "minor * 2 ^ 16 + (patch * 256 + release) < 2 ^ 24" "0 \<le> minor * 2 ^ 16 + (patch * 256 + release)"
    using assms a or_bytes [of "patch * 256 + release" 16 minor] by (auto simp: version_part_def)
  show ?thesis
    using or_bytes [OF b(3,2), of major] a b by (simp add: AMQP_VERSION_CODE_def or.assoc)
qed

text \<open>Version codes compare as the versions do, part by part.\<close>

lemma AMQP_VERSION_CODE_order:
  assumes "version_part i" "version_part p" "version_part r" "version_part i'" "version_part p'" "version_part r'"
  shows "AMQP_VERSION_CODE j i p r < AMQP_VERSION_CODE j' i' p' r' \<longleftrightarrow> (j, i, p, r) < (j', i', p', r')"
proof -
  have step: "a * 256 + x < b * 256 + y \<longleftrightarrow> a < b \<or> a = b \<and> x < y" if xy: "version_part x" "version_part y" for a b x y
    using xy by (auto simp: version_part_def)
  have same: "a * 256 + x = b * 256 + y \<longleftrightarrow> a = b \<and> x = y" if xy: "version_part x" "version_part y" for a b x y
    using step [OF xy, of a b] step [OF xy(2,1), of b a]
    by (metis linorder_less_linear order_less_irrefl)
  show ?thesis
    unfolding AMQP_VERSION_CODE_value [OF assms(1-3)] AMQP_VERSION_CODE_value [OF assms(4-6)] less_prod_simp order_le_less
      step [OF assms(3,6)] step [OF assms(2,5)] step [OF assms(1,4)] same [OF assms(2,5)] same [OF assms(1,4)]
    by blast
qed

end
