(* ===== verification/AmqpMethods.thy ===== *)
theory AmqpMethods
  imports AmqpTypes
begin

text \<open>
  The structures of \<^verbatim>\<open>amqp_framing.h\<close>: one for the fields of every method of the protocol, and one for the
  properties of every class, in the order of the header. Field names that Isabelle reserves have a prime;
  \<open>flags\<close> is \<open>_flags\<close>.
\<close>

section \<open>Connection methods\<close>

record amqp_connection_start_t =
  version_major :: "8 word"
  version_minor :: "8 word"
  server_properties :: amqp_table_t
  mechanisms :: amqp_bytes_t
  locales :: amqp_bytes_t

record amqp_connection_start_ok_t =
  client_properties :: amqp_table_t
  mechanism :: amqp_bytes_t
  response :: amqp_bytes_t
  locale' :: amqp_bytes_t

record amqp_connection_secure_t =
  challenge :: amqp_bytes_t

record amqp_connection_secure_ok_t =
  response :: amqp_bytes_t

record amqp_connection_tune_t =
  channel_max :: "16 word"
  frame_max :: "32 word"
  heartbeat :: "16 word"

record amqp_connection_tune_ok_t =
  channel_max :: "16 word"
  frame_max :: "32 word"
  heartbeat :: "16 word"

record amqp_connection_open_t =
  virtual_host :: amqp_bytes_t
  capabilities :: amqp_bytes_t
  insist :: amqp_boolean_t

record amqp_connection_open_ok_t =
  known_hosts :: amqp_bytes_t

record amqp_connection_close_t =
  reply_code :: "16 word"
  reply_text :: amqp_bytes_t
  class_id :: "16 word"
  method_id :: "16 word"

record amqp_connection_close_ok_t =
  dummy :: "8 word"

record amqp_connection_blocked_t =
  reason :: amqp_bytes_t

record amqp_connection_unblocked_t =
  dummy :: "8 word"

section \<open>Channel methods\<close>

record amqp_channel_open_t =
  out_of_band :: amqp_bytes_t

record amqp_channel_open_ok_t =
  channel_id :: amqp_bytes_t

record amqp_channel_flow_t =
  active' :: amqp_boolean_t

record amqp_channel_flow_ok_t =
  active' :: amqp_boolean_t

record amqp_channel_close_t =
  reply_code :: "16 word"
  reply_text :: amqp_bytes_t
  class_id :: "16 word"
  method_id :: "16 word"

record amqp_channel_close_ok_t =
  dummy :: "8 word"

section \<open>Access methods\<close>

record amqp_access_request_t =
  realm :: amqp_bytes_t
  exclusive :: amqp_boolean_t
  passive' :: amqp_boolean_t
  active' :: amqp_boolean_t
  write' :: amqp_boolean_t
  read' :: amqp_boolean_t

record amqp_access_request_ok_t =
  ticket :: "16 word"

section \<open>Exchange methods\<close>

record amqp_exchange_declare_t =
  ticket :: "16 word"
  exchange :: amqp_bytes_t
  type' :: amqp_bytes_t
  passive' :: amqp_boolean_t
  durable :: amqp_boolean_t
  auto_delete :: amqp_boolean_t
  internal :: amqp_boolean_t
  nowait :: amqp_boolean_t
  arguments :: amqp_table_t

record amqp_exchange_declare_ok_t =
  dummy :: "8 word"

record amqp_exchange_delete_t =
  ticket :: "16 word"
  exchange :: amqp_bytes_t
  if_unused :: amqp_boolean_t
  nowait :: amqp_boolean_t

record amqp_exchange_delete_ok_t =
  dummy :: "8 word"

record amqp_exchange_bind_t =
  ticket :: "16 word"
  destination :: amqp_bytes_t
  source' :: amqp_bytes_t
  routing_key :: amqp_bytes_t
  nowait :: amqp_boolean_t
  arguments :: amqp_table_t

record amqp_exchange_bind_ok_t =
  dummy :: "8 word"

record amqp_exchange_unbind_t =
  ticket :: "16 word"
  destination :: amqp_bytes_t
  source' :: amqp_bytes_t
  routing_key :: amqp_bytes_t
  nowait :: amqp_boolean_t
  arguments :: amqp_table_t

record amqp_exchange_unbind_ok_t =
  dummy :: "8 word"

section \<open>Queue methods\<close>

record amqp_queue_declare_t =
  ticket :: "16 word"
  queue :: amqp_bytes_t
  passive' :: amqp_boolean_t
  durable :: amqp_boolean_t
  exclusive :: amqp_boolean_t
  auto_delete :: amqp_boolean_t
  nowait :: amqp_boolean_t
  arguments :: amqp_table_t

record amqp_queue_declare_ok_t =
  queue :: amqp_bytes_t
  message_count :: "32 word"
  consumer_count :: "32 word"

record amqp_queue_bind_t =
  ticket :: "16 word"
  queue :: amqp_bytes_t
  exchange :: amqp_bytes_t
  routing_key :: amqp_bytes_t
  nowait :: amqp_boolean_t
  arguments :: amqp_table_t

record amqp_queue_bind_ok_t =
  dummy :: "8 word"

record amqp_queue_purge_t =
  ticket :: "16 word"
  queue :: amqp_bytes_t
  nowait :: amqp_boolean_t

record amqp_queue_purge_ok_t =
  message_count :: "32 word"

record amqp_queue_delete_t =
  ticket :: "16 word"
  queue :: amqp_bytes_t
  if_unused :: amqp_boolean_t
  if_empty :: amqp_boolean_t
  nowait :: amqp_boolean_t

record amqp_queue_delete_ok_t =
  message_count :: "32 word"

record amqp_queue_unbind_t =
  ticket :: "16 word"
  queue :: amqp_bytes_t
  exchange :: amqp_bytes_t
  routing_key :: amqp_bytes_t
  arguments :: amqp_table_t

record amqp_queue_unbind_ok_t =
  dummy :: "8 word"

section \<open>Basic methods\<close>

record amqp_basic_qos_t =
  prefetch_size :: "32 word"
  prefetch_count :: "16 word"
  global' :: amqp_boolean_t

record amqp_basic_qos_ok_t =
  dummy :: "8 word"

record amqp_basic_consume_t =
  ticket :: "16 word"
  queue :: amqp_bytes_t
  consumer_tag :: amqp_bytes_t
  no_local :: amqp_boolean_t
  no_ack :: amqp_boolean_t
  exclusive :: amqp_boolean_t
  nowait :: amqp_boolean_t
  arguments :: amqp_table_t

record amqp_basic_consume_ok_t =
  consumer_tag :: amqp_bytes_t

record amqp_basic_cancel_t =
  consumer_tag :: amqp_bytes_t
  nowait :: amqp_boolean_t

record amqp_basic_cancel_ok_t =
  consumer_tag :: amqp_bytes_t

record amqp_basic_publish_t =
  ticket :: "16 word"
  exchange :: amqp_bytes_t
  routing_key :: amqp_bytes_t
  mandatory :: amqp_boolean_t
  immediate :: amqp_boolean_t

record amqp_basic_return_t =
  reply_code :: "16 word"
  reply_text :: amqp_bytes_t
  exchange :: amqp_bytes_t
  routing_key :: amqp_bytes_t

record amqp_basic_deliver_t =
  consumer_tag :: amqp_bytes_t
  delivery_tag :: "64 word"
  redelivered :: amqp_boolean_t
  exchange :: amqp_bytes_t
  routing_key :: amqp_bytes_t

record amqp_basic_get_t =
  ticket :: "16 word"
  queue :: amqp_bytes_t
  no_ack :: amqp_boolean_t

record amqp_basic_get_ok_t =
  delivery_tag :: "64 word"
  redelivered :: amqp_boolean_t
  exchange :: amqp_bytes_t
  routing_key :: amqp_bytes_t
  message_count :: "32 word"

record amqp_basic_get_empty_t =
  cluster_id :: amqp_bytes_t

record amqp_basic_ack_t =
  delivery_tag :: "64 word"
  multiple :: amqp_boolean_t

record amqp_basic_reject_t =
  delivery_tag :: "64 word"
  requeue :: amqp_boolean_t

record amqp_basic_recover_async_t =
  requeue :: amqp_boolean_t

record amqp_basic_recover_t =
  requeue :: amqp_boolean_t

record amqp_basic_recover_ok_t =
  dummy :: "8 word"

record amqp_basic_nack_t =
  delivery_tag :: "64 word"
  multiple :: amqp_boolean_t
  requeue :: amqp_boolean_t

section \<open>Tx methods\<close>

record amqp_tx_select_t =
  dummy :: "8 word"

record amqp_tx_select_ok_t =
  dummy :: "8 word"

record amqp_tx_commit_t =
  dummy :: "8 word"

record amqp_tx_commit_ok_t =
  dummy :: "8 word"

record amqp_tx_rollback_t =
  dummy :: "8 word"

record amqp_tx_rollback_ok_t =
  dummy :: "8 word"

section \<open>Confirm methods\<close>

record amqp_confirm_select_t =
  nowait :: amqp_boolean_t

record amqp_confirm_select_ok_t =
  dummy :: "8 word"

section \<open>Properties\<close>

record amqp_connection_properties_t =
  flags :: amqp_flags_t
  dummy :: "8 word"

record amqp_channel_properties_t =
  flags :: amqp_flags_t
  dummy :: "8 word"

record amqp_access_properties_t =
  flags :: amqp_flags_t
  dummy :: "8 word"

record amqp_exchange_properties_t =
  flags :: amqp_flags_t
  dummy :: "8 word"

record amqp_queue_properties_t =
  flags :: amqp_flags_t
  dummy :: "8 word"

record amqp_basic_properties_t =
  flags :: amqp_flags_t
  content_type :: amqp_bytes_t
  content_encoding :: amqp_bytes_t
  headers :: amqp_table_t
  delivery_mode :: "8 word"
  priority :: "8 word"
  correlation_id :: amqp_bytes_t
  reply_to :: amqp_bytes_t
  expiration :: amqp_bytes_t
  message_id :: amqp_bytes_t
  timestamp :: "64 word"
  type' :: amqp_bytes_t
  user_id :: amqp_bytes_t
  app_id :: amqp_bytes_t
  cluster_id :: amqp_bytes_t

record amqp_tx_properties_t =
  flags :: amqp_flags_t
  dummy :: "8 word"

record amqp_confirm_properties_t =
  flags :: amqp_flags_t
  dummy :: "8 word"

end
