(* ===== verification/Amqp.thy ===== *)
theory Amqp
  imports AmqpMethods
begin

text \<open>
  The methods of the protocol as the client sees them: \<open>amqp_method_t\<close> has the number of a method and a pointer
  the client casts to the structure of that method. The header gives the number of every structure; no number is
  given twice, so that the number decides the structure, and its upper half is the number of its class.
\<close>

section \<open>The objects behind \<open>decoded\<close>\<close>

datatype connection_method =
    Connection_start amqp_connection_start_t
  | Connection_start_ok amqp_connection_start_ok_t
  | Connection_secure amqp_connection_secure_t
  | Connection_secure_ok amqp_connection_secure_ok_t
  | Connection_tune amqp_connection_tune_t
  | Connection_tune_ok amqp_connection_tune_ok_t
  | Connection_open amqp_connection_open_t
  | Connection_open_ok amqp_connection_open_ok_t
  | Connection_close amqp_connection_close_t
  | Connection_close_ok amqp_connection_close_ok_t
  | Connection_blocked amqp_connection_blocked_t
  | Connection_unblocked amqp_connection_unblocked_t

datatype channel_method =
    Channel_open amqp_channel_open_t
  | Channel_open_ok amqp_channel_open_ok_t
  | Channel_flow amqp_channel_flow_t
  | Channel_flow_ok amqp_channel_flow_ok_t
  | Channel_close amqp_channel_close_t
  | Channel_close_ok amqp_channel_close_ok_t

datatype access_method =
    Access_request amqp_access_request_t
  | Access_request_ok amqp_access_request_ok_t

datatype exchange_method =
    Exchange_declare amqp_exchange_declare_t
  | Exchange_declare_ok amqp_exchange_declare_ok_t
  | Exchange_delete amqp_exchange_delete_t
  | Exchange_delete_ok amqp_exchange_delete_ok_t
  | Exchange_bind amqp_exchange_bind_t
  | Exchange_bind_ok amqp_exchange_bind_ok_t
  | Exchange_unbind amqp_exchange_unbind_t
  | Exchange_unbind_ok amqp_exchange_unbind_ok_t

datatype queue_method =
    Queue_declare amqp_queue_declare_t
  | Queue_declare_ok amqp_queue_declare_ok_t
  | Queue_bind amqp_queue_bind_t
  | Queue_bind_ok amqp_queue_bind_ok_t
  | Queue_purge amqp_queue_purge_t
  | Queue_purge_ok amqp_queue_purge_ok_t
  | Queue_delete amqp_queue_delete_t
  | Queue_delete_ok amqp_queue_delete_ok_t
  | Queue_unbind amqp_queue_unbind_t
  | Queue_unbind_ok amqp_queue_unbind_ok_t

datatype basic_method =
    Basic_qos amqp_basic_qos_t
  | Basic_qos_ok amqp_basic_qos_ok_t
  | Basic_consume amqp_basic_consume_t
  | Basic_consume_ok amqp_basic_consume_ok_t
  | Basic_cancel amqp_basic_cancel_t
  | Basic_cancel_ok amqp_basic_cancel_ok_t
  | Basic_publish amqp_basic_publish_t
  | Basic_return amqp_basic_return_t
  | Basic_deliver amqp_basic_deliver_t
  | Basic_get amqp_basic_get_t
  | Basic_get_ok amqp_basic_get_ok_t
  | Basic_get_empty amqp_basic_get_empty_t
  | Basic_ack amqp_basic_ack_t
  | Basic_reject amqp_basic_reject_t
  | Basic_recover_async amqp_basic_recover_async_t
  | Basic_recover amqp_basic_recover_t
  | Basic_recover_ok amqp_basic_recover_ok_t
  | Basic_nack amqp_basic_nack_t

datatype tx_method =
    Tx_select amqp_tx_select_t
  | Tx_select_ok amqp_tx_select_ok_t
  | Tx_commit amqp_tx_commit_t
  | Tx_commit_ok amqp_tx_commit_ok_t
  | Tx_rollback amqp_tx_rollback_t
  | Tx_rollback_ok amqp_tx_rollback_ok_t

datatype confirm_method =
    Confirm_select amqp_confirm_select_t
  | Confirm_select_ok amqp_confirm_select_ok_t

datatype amqp_object =
    Connection connection_method
  | Channel channel_method
  | Access access_method
  | Exchange exchange_method
  | Queue queue_method
  | Basic basic_method
  | Tx tx_method
  | Confirm confirm_method

section \<open>Method numbers\<close>

primrec connection_number :: "connection_method \<Rightarrow> amqp_method_number_t" where
  "connection_number (Connection_start _) = 0x000A000A"
| "connection_number (Connection_start_ok _) = 0x000A000B"
| "connection_number (Connection_secure _) = 0x000A0014"
| "connection_number (Connection_secure_ok _) = 0x000A0015"
| "connection_number (Connection_tune _) = 0x000A001E"
| "connection_number (Connection_tune_ok _) = 0x000A001F"
| "connection_number (Connection_open _) = 0x000A0028"
| "connection_number (Connection_open_ok _) = 0x000A0029"
| "connection_number (Connection_close _) = 0x000A0032"
| "connection_number (Connection_close_ok _) = 0x000A0033"
| "connection_number (Connection_blocked _) = 0x000A003C"
| "connection_number (Connection_unblocked _) = 0x000A003D"

primrec channel_number :: "channel_method \<Rightarrow> amqp_method_number_t" where
  "channel_number (Channel_open _) = 0x0014000A"
| "channel_number (Channel_open_ok _) = 0x0014000B"
| "channel_number (Channel_flow _) = 0x00140014"
| "channel_number (Channel_flow_ok _) = 0x00140015"
| "channel_number (Channel_close _) = 0x00140028"
| "channel_number (Channel_close_ok _) = 0x00140029"

primrec access_number :: "access_method \<Rightarrow> amqp_method_number_t" where
  "access_number (Access_request _) = 0x001E000A"
| "access_number (Access_request_ok _) = 0x001E000B"

primrec exchange_number :: "exchange_method \<Rightarrow> amqp_method_number_t" where
  "exchange_number (Exchange_declare _) = 0x0028000A"
| "exchange_number (Exchange_declare_ok _) = 0x0028000B"
| "exchange_number (Exchange_delete _) = 0x00280014"
| "exchange_number (Exchange_delete_ok _) = 0x00280015"
| "exchange_number (Exchange_bind _) = 0x0028001E"
| "exchange_number (Exchange_bind_ok _) = 0x0028001F"
| "exchange_number (Exchange_unbind _) = 0x00280028"
| "exchange_number (Exchange_unbind_ok _) = 0x00280033"

primrec queue_number :: "queue_method \<Rightarrow> amqp_method_number_t" where
  "queue_number (Queue_declare _) = 0x0032000A"
| "queue_number (Queue_declare_ok _) = 0x0032000B"
| "queue_number (Queue_bind _) = 0x00320014"
| "queue_number (Queue_bind_ok _) = 0x00320015"
| "queue_number (Queue_purge _) = 0x0032001E"
| "queue_number (Queue_purge_ok _) = 0x0032001F"
| "queue_number (Queue_delete _) = 0x00320028"
| "queue_number (Queue_delete_ok _) = 0x00320029"
| "queue_number (Queue_unbind _) = 0x00320032"
| "queue_number (Queue_unbind_ok _) = 0x00320033"

primrec basic_number :: "basic_method \<Rightarrow> amqp_method_number_t" where
  "basic_number (Basic_qos _) = 0x003C000A"
| "basic_number (Basic_qos_ok _) = 0x003C000B"
| "basic_number (Basic_consume _) = 0x003C0014"
| "basic_number (Basic_consume_ok _) = 0x003C0015"
| "basic_number (Basic_cancel _) = 0x003C001E"
| "basic_number (Basic_cancel_ok _) = 0x003C001F"
| "basic_number (Basic_publish _) = 0x003C0028"
| "basic_number (Basic_return _) = 0x003C0032"
| "basic_number (Basic_deliver _) = 0x003C003C"
| "basic_number (Basic_get _) = 0x003C0046"
| "basic_number (Basic_get_ok _) = 0x003C0047"
| "basic_number (Basic_get_empty _) = 0x003C0048"
| "basic_number (Basic_ack _) = 0x003C0050"
| "basic_number (Basic_reject _) = 0x003C005A"
| "basic_number (Basic_recover_async _) = 0x003C0064"
| "basic_number (Basic_recover _) = 0x003C006E"
| "basic_number (Basic_recover_ok _) = 0x003C006F"
| "basic_number (Basic_nack _) = 0x003C0078"

primrec tx_number :: "tx_method \<Rightarrow> amqp_method_number_t" where
  "tx_number (Tx_select _) = 0x005A000A"
| "tx_number (Tx_select_ok _) = 0x005A000B"
| "tx_number (Tx_commit _) = 0x005A0014"
| "tx_number (Tx_commit_ok _) = 0x005A0015"
| "tx_number (Tx_rollback _) = 0x005A001E"
| "tx_number (Tx_rollback_ok _) = 0x005A001F"

primrec confirm_number :: "confirm_method \<Rightarrow> amqp_method_number_t" where
  "confirm_number (Confirm_select _) = 0x0055000A"
| "confirm_number (Confirm_select_ok _) = 0x0055000B"

primrec object_number :: "amqp_object \<Rightarrow> amqp_method_number_t" where
  "object_number (Connection m) = connection_number m"
| "object_number (Channel m) = channel_number m"
| "object_number (Access m) = access_number m"
| "object_number (Exchange m) = exchange_number m"
| "object_number (Queue m) = queue_number m"
| "object_number (Basic m) = basic_number m"
| "object_number (Tx m) = tx_number m"
| "object_number (Confirm m) = confirm_number m"

text \<open>The names of the structures.\<close>

primrec connection_struct :: "connection_method \<Rightarrow> string" where
  "connection_struct (Connection_start _) = ''amqp_connection_start_t''"
| "connection_struct (Connection_start_ok _) = ''amqp_connection_start_ok_t''"
| "connection_struct (Connection_secure _) = ''amqp_connection_secure_t''"
| "connection_struct (Connection_secure_ok _) = ''amqp_connection_secure_ok_t''"
| "connection_struct (Connection_tune _) = ''amqp_connection_tune_t''"
| "connection_struct (Connection_tune_ok _) = ''amqp_connection_tune_ok_t''"
| "connection_struct (Connection_open _) = ''amqp_connection_open_t''"
| "connection_struct (Connection_open_ok _) = ''amqp_connection_open_ok_t''"
| "connection_struct (Connection_close _) = ''amqp_connection_close_t''"
| "connection_struct (Connection_close_ok _) = ''amqp_connection_close_ok_t''"
| "connection_struct (Connection_blocked _) = ''amqp_connection_blocked_t''"
| "connection_struct (Connection_unblocked _) = ''amqp_connection_unblocked_t''"

primrec channel_struct :: "channel_method \<Rightarrow> string" where
  "channel_struct (Channel_open _) = ''amqp_channel_open_t''"
| "channel_struct (Channel_open_ok _) = ''amqp_channel_open_ok_t''"
| "channel_struct (Channel_flow _) = ''amqp_channel_flow_t''"
| "channel_struct (Channel_flow_ok _) = ''amqp_channel_flow_ok_t''"
| "channel_struct (Channel_close _) = ''amqp_channel_close_t''"
| "channel_struct (Channel_close_ok _) = ''amqp_channel_close_ok_t''"

primrec access_struct :: "access_method \<Rightarrow> string" where
  "access_struct (Access_request _) = ''amqp_access_request_t''"
| "access_struct (Access_request_ok _) = ''amqp_access_request_ok_t''"

primrec exchange_struct :: "exchange_method \<Rightarrow> string" where
  "exchange_struct (Exchange_declare _) = ''amqp_exchange_declare_t''"
| "exchange_struct (Exchange_declare_ok _) = ''amqp_exchange_declare_ok_t''"
| "exchange_struct (Exchange_delete _) = ''amqp_exchange_delete_t''"
| "exchange_struct (Exchange_delete_ok _) = ''amqp_exchange_delete_ok_t''"
| "exchange_struct (Exchange_bind _) = ''amqp_exchange_bind_t''"
| "exchange_struct (Exchange_bind_ok _) = ''amqp_exchange_bind_ok_t''"
| "exchange_struct (Exchange_unbind _) = ''amqp_exchange_unbind_t''"
| "exchange_struct (Exchange_unbind_ok _) = ''amqp_exchange_unbind_ok_t''"

primrec queue_struct :: "queue_method \<Rightarrow> string" where
  "queue_struct (Queue_declare _) = ''amqp_queue_declare_t''"
| "queue_struct (Queue_declare_ok _) = ''amqp_queue_declare_ok_t''"
| "queue_struct (Queue_bind _) = ''amqp_queue_bind_t''"
| "queue_struct (Queue_bind_ok _) = ''amqp_queue_bind_ok_t''"
| "queue_struct (Queue_purge _) = ''amqp_queue_purge_t''"
| "queue_struct (Queue_purge_ok _) = ''amqp_queue_purge_ok_t''"
| "queue_struct (Queue_delete _) = ''amqp_queue_delete_t''"
| "queue_struct (Queue_delete_ok _) = ''amqp_queue_delete_ok_t''"
| "queue_struct (Queue_unbind _) = ''amqp_queue_unbind_t''"
| "queue_struct (Queue_unbind_ok _) = ''amqp_queue_unbind_ok_t''"

primrec basic_struct :: "basic_method \<Rightarrow> string" where
  "basic_struct (Basic_qos _) = ''amqp_basic_qos_t''"
| "basic_struct (Basic_qos_ok _) = ''amqp_basic_qos_ok_t''"
| "basic_struct (Basic_consume _) = ''amqp_basic_consume_t''"
| "basic_struct (Basic_consume_ok _) = ''amqp_basic_consume_ok_t''"
| "basic_struct (Basic_cancel _) = ''amqp_basic_cancel_t''"
| "basic_struct (Basic_cancel_ok _) = ''amqp_basic_cancel_ok_t''"
| "basic_struct (Basic_publish _) = ''amqp_basic_publish_t''"
| "basic_struct (Basic_return _) = ''amqp_basic_return_t''"
| "basic_struct (Basic_deliver _) = ''amqp_basic_deliver_t''"
| "basic_struct (Basic_get _) = ''amqp_basic_get_t''"
| "basic_struct (Basic_get_ok _) = ''amqp_basic_get_ok_t''"
| "basic_struct (Basic_get_empty _) = ''amqp_basic_get_empty_t''"
| "basic_struct (Basic_ack _) = ''amqp_basic_ack_t''"
| "basic_struct (Basic_reject _) = ''amqp_basic_reject_t''"
| "basic_struct (Basic_recover_async _) = ''amqp_basic_recover_async_t''"
| "basic_struct (Basic_recover _) = ''amqp_basic_recover_t''"
| "basic_struct (Basic_recover_ok _) = ''amqp_basic_recover_ok_t''"
| "basic_struct (Basic_nack _) = ''amqp_basic_nack_t''"

primrec tx_struct :: "tx_method \<Rightarrow> string" where
  "tx_struct (Tx_select _) = ''amqp_tx_select_t''"
| "tx_struct (Tx_select_ok _) = ''amqp_tx_select_ok_t''"
| "tx_struct (Tx_commit _) = ''amqp_tx_commit_t''"
| "tx_struct (Tx_commit_ok _) = ''amqp_tx_commit_ok_t''"
| "tx_struct (Tx_rollback _) = ''amqp_tx_rollback_t''"
| "tx_struct (Tx_rollback_ok _) = ''amqp_tx_rollback_ok_t''"

primrec confirm_struct :: "confirm_method \<Rightarrow> string" where
  "confirm_struct (Confirm_select _) = ''amqp_confirm_select_t''"
| "confirm_struct (Confirm_select_ok _) = ''amqp_confirm_select_ok_t''"

primrec object_struct :: "amqp_object \<Rightarrow> string" where
  "object_struct (Connection m) = connection_struct m"
| "object_struct (Channel m) = channel_struct m"
| "object_struct (Access m) = access_struct m"
| "object_struct (Exchange m) = exchange_struct m"
| "object_struct (Queue m) = queue_struct m"
| "object_struct (Basic m) = basic_struct m"
| "object_struct (Tx m) = tx_struct m"
| "object_struct (Confirm m) = confirm_struct m"

section \<open>Classes\<close>

datatype amqp_class =
  Connection_class | Channel_class | Access_class | Exchange_class | Queue_class | Basic_class | Tx_class | Confirm_class

primrec class_number :: "amqp_class \<Rightarrow> nat" where
  "class_number Connection_class = 0x000A"
| "class_number Channel_class = 0x0014"
| "class_number Access_class = 0x001E"
| "class_number Exchange_class = 0x0028"
| "class_number Queue_class = 0x0032"
| "class_number Basic_class = 0x003C"
| "class_number Tx_class = 0x005A"
| "class_number Confirm_class = 0x0055"

primrec object_class :: "amqp_object \<Rightarrow> amqp_class" where
  "object_class (Connection _) = Connection_class"
| "object_class (Channel _) = Channel_class"
| "object_class (Access _) = Access_class"
| "object_class (Exchange _) = Exchange_class"
| "object_class (Queue _) = Queue_class"
| "object_class (Basic _) = Basic_class"
| "object_class (Tx _) = Tx_class"
| "object_class (Confirm _) = Confirm_class"

text \<open>The bits of \<open>_flags\<close> that say which properties of a message are set.\<close>

datatype basic_property =
    Content_type
  | Content_encoding
  | Headers
  | Delivery_mode
  | Priority
  | Correlation_id
  | Reply_to
  | Expiration
  | Message_id
  | Timestamp
  | Type
  | User_id
  | App_id
  | Cluster_id

primrec basic_flag :: "basic_property \<Rightarrow> amqp_flags_t" where
  "basic_flag Content_type = push_bit 15 1"
| "basic_flag Content_encoding = push_bit 14 1"
| "basic_flag Headers = push_bit 13 1"
| "basic_flag Delivery_mode = push_bit 12 1"
| "basic_flag Priority = push_bit 11 1"
| "basic_flag Correlation_id = push_bit 10 1"
| "basic_flag Reply_to = push_bit 9 1"
| "basic_flag Expiration = push_bit 8 1"
| "basic_flag Message_id = push_bit 7 1"
| "basic_flag Timestamp = push_bit 6 1"
| "basic_flag Type = push_bit 5 1"
| "basic_flag User_id = push_bit 4 1"
| "basic_flag App_id = push_bit 3 1"
| "basic_flag Cluster_id = push_bit 2 1"

section \<open>The number decides the structure\<close>

text \<open>
  The table of the header read a second time, as one list of all numbers with their structures, against which the
  functions above are checked: no number and no structure is in it twice.
\<close>

definition method_table :: "(amqp_method_number_t \<times> string) list" where
  "method_table = [
     (0x000A000A, ''amqp_connection_start_t''),
     (0x000A000B, ''amqp_connection_start_ok_t''),
     (0x000A0014, ''amqp_connection_secure_t''),
     (0x000A0015, ''amqp_connection_secure_ok_t''),
     (0x000A001E, ''amqp_connection_tune_t''),
     (0x000A001F, ''amqp_connection_tune_ok_t''),
     (0x000A0028, ''amqp_connection_open_t''),
     (0x000A0029, ''amqp_connection_open_ok_t''),
     (0x000A0032, ''amqp_connection_close_t''),
     (0x000A0033, ''amqp_connection_close_ok_t''),
     (0x000A003C, ''amqp_connection_blocked_t''),
     (0x000A003D, ''amqp_connection_unblocked_t''),
     (0x0014000A, ''amqp_channel_open_t''),
     (0x0014000B, ''amqp_channel_open_ok_t''),
     (0x00140014, ''amqp_channel_flow_t''),
     (0x00140015, ''amqp_channel_flow_ok_t''),
     (0x00140028, ''amqp_channel_close_t''),
     (0x00140029, ''amqp_channel_close_ok_t''),
     (0x001E000A, ''amqp_access_request_t''),
     (0x001E000B, ''amqp_access_request_ok_t''),
     (0x0028000A, ''amqp_exchange_declare_t''),
     (0x0028000B, ''amqp_exchange_declare_ok_t''),
     (0x00280014, ''amqp_exchange_delete_t''),
     (0x00280015, ''amqp_exchange_delete_ok_t''),
     (0x0028001E, ''amqp_exchange_bind_t''),
     (0x0028001F, ''amqp_exchange_bind_ok_t''),
     (0x00280028, ''amqp_exchange_unbind_t''),
     (0x00280033, ''amqp_exchange_unbind_ok_t''),
     (0x0032000A, ''amqp_queue_declare_t''),
     (0x0032000B, ''amqp_queue_declare_ok_t''),
     (0x00320014, ''amqp_queue_bind_t''),
     (0x00320015, ''amqp_queue_bind_ok_t''),
     (0x0032001E, ''amqp_queue_purge_t''),
     (0x0032001F, ''amqp_queue_purge_ok_t''),
     (0x00320028, ''amqp_queue_delete_t''),
     (0x00320029, ''amqp_queue_delete_ok_t''),
     (0x00320032, ''amqp_queue_unbind_t''),
     (0x00320033, ''amqp_queue_unbind_ok_t''),
     (0x003C000A, ''amqp_basic_qos_t''),
     (0x003C000B, ''amqp_basic_qos_ok_t''),
     (0x003C0014, ''amqp_basic_consume_t''),
     (0x003C0015, ''amqp_basic_consume_ok_t''),
     (0x003C001E, ''amqp_basic_cancel_t''),
     (0x003C001F, ''amqp_basic_cancel_ok_t''),
     (0x003C0028, ''amqp_basic_publish_t''),
     (0x003C0032, ''amqp_basic_return_t''),
     (0x003C003C, ''amqp_basic_deliver_t''),
     (0x003C0046, ''amqp_basic_get_t''),
     (0x003C0047, ''amqp_basic_get_ok_t''),
     (0x003C0048, ''amqp_basic_get_empty_t''),
     (0x003C0050, ''amqp_basic_ack_t''),
     (0x003C005A, ''amqp_basic_reject_t''),
     (0x003C0064, ''amqp_basic_recover_async_t''),
     (0x003C006E, ''amqp_basic_recover_t''),
     (0x003C006F, ''amqp_basic_recover_ok_t''),
     (0x003C0078, ''amqp_basic_nack_t''),
     (0x005A000A, ''amqp_tx_select_t''),
     (0x005A000B, ''amqp_tx_select_ok_t''),
     (0x005A0014, ''amqp_tx_commit_t''),
     (0x005A0015, ''amqp_tx_commit_ok_t''),
     (0x005A001E, ''amqp_tx_rollback_t''),
     (0x005A001F, ''amqp_tx_rollback_ok_t''),
     (0x0055000A, ''amqp_confirm_select_t''),
     (0x0055000B, ''amqp_confirm_select_ok_t'')]"

lemma method_table_distinct: "distinct (map fst method_table)" "distinct (map snd method_table)"
  by code_simp+

lemma method_table_object: "map_of method_table (object_number x) = Some (object_struct x)"
  by (cases x; rename_tac m; case_tac m) (simp_all add: method_table_def)

lemma object_number_struct: "object_number x = object_number y \<longleftrightarrow> object_struct x = object_struct y"
proof -
  have "inj_on snd (set method_table)" using method_table_distinct by (simp add: distinct_map)
  moreover have "(object_number z, object_struct z) \<in> set method_table" for z
    by (rule map_of_SomeD [OF method_table_object])
  ultimately have "object_struct x = object_struct y \<Longrightarrow> object_number x = object_number y"
    by (metis inj_onD prod.inject snd_conv)
  then show ?thesis using method_table_object [of x] method_table_object [of y] by fastforce
qed

lemma object_number_class: "unat (object_number x) div 2 ^ 16 = class_number (object_class x)"
  by (cases x; rename_tac m; case_tac m) simp_all

end
