(* ===== verification/Flags.thy ===== *)
theory Flags
  imports Prelude
begin

text \<open>
  The options of the headers: groups of bits that callers combine with \<open>|\<close> and the callee tests with \<open>&\<close>. The
  locale \<open>flag_group\<close> has the laws of a group whose flags are different single bits: from a combination exactly the
  flags put into it are read back, and clearing one leaves the others. It is interpreted for every group. Zero, the
  default of some groups, is no flag.
\<close>

unbundle bit_operations_syntax

section \<open>The groups\<close>

definition ha_open :: "(string \<times> 32 word) list" where
  "ha_open = [
     (''HA_OPEN_WAIT_IF_LOCKED'', 1), (''HA_OPEN_IGNORE_IF_LOCKED'', 2), (''HA_OPEN_TMP_TABLE'', 4),
     (''HA_OPEN_DELAY_KEY_WRITE'', 8), (''HA_OPEN_ABORT_IF_CRASHED'', 16), (''HA_OPEN_FOR_REPAIR'', 32),
     (''HA_OPEN_FROM_SQL_LAYER'', 64), (''HA_OPEN_MMAP'', 128), (''HA_OPEN_COPY'', 256),
     (''HA_OPEN_INTERNAL_TABLE'', 512)]"

definition key_flags :: "(string \<times> 32 word) list" where
  "key_flags = [
     (''HA_NOSAME'', 1), (''HA_PACK_KEY'', 2), (''HA_AUTO_KEY'', 16), (''HA_BINARY_PACK_KEY'', 32),
     (''HA_FULLTEXT'', 128), (''HA_UNIQUE_CHECK'', 256), (''HA_SPATIAL'', 1024), (''HA_NULL_ARE_EQUAL'', 2048),
     (''HA_GENERATED_KEY'', 8192), (''HA_RTREE_INDEX'', 16384)]"

definition key_seg_flags :: "(string \<times> 32 word) list" where
  "key_seg_flags = [
     (''HA_SPACE_PACK'', 1), (''HA_PART_KEY_SEG'', 4), (''HA_VAR_LENGTH_PART'', 8), (''HA_NULL_PART'', 16),
     (''HA_BLOB_PART'', 32), (''HA_SWAP_KEY'', 64), (''HA_REVERSE_SORT'', 128), (''HA_NO_SORT'', 256),
     (''HA_END_SPACE_ARE_EQUAL'', 512), (''HA_BIT_PART'', 1024)]"

definition option_bits :: "(string \<times> 32 word) list" where
  "option_bits = [
     (''HA_OPTION_PACK_RECORD'', 1), (''HA_OPTION_PACK_KEYS'', 2), (''HA_OPTION_COMPRESS_RECORD'', 4),
     (''HA_OPTION_LONG_BLOB_PTR'', 8), (''HA_OPTION_TMP_TABLE'', 16), (''HA_OPTION_CHECKSUM'', 32),
     (''HA_OPTION_DELAY_KEY_WRITE'', 64), (''HA_OPTION_NO_PACK_KEYS'', 128),
     (''HA_OPTION_CREATE_FROM_ENGINE'', 256), (''HA_OPTION_RELIES_ON_SQL_LAYER'', 512),
     (''HA_OPTION_NULL_FIELDS'', 1024), (''HA_OPTION_PAGE_CHECKSUM'', 2048),
     (''HA_OPTION_TEMP_COMPRESS_RECORD'', 32768), (''HA_OPTION_READ_ONLY_DATA'', 65536),
     (''HA_OPTION_NO_CHECKSUM'', 131072), (''HA_OPTION_NO_DELAY_KEY_WRITE'', 262144)]"

definition create_bits :: "(string \<times> 32 word) list" where
  "create_bits = [
     (''HA_DONT_TOUCH_DATA'', 1), (''HA_PACK_RECORD'', 2), (''HA_CREATE_TMP_TABLE'', 4),
     (''HA_CREATE_CHECKSUM'', 8), (''HA_CREATE_KEEP_FILES'', 16), (''HA_CREATE_PAGE_CHECKSUM'', 32),
     (''HA_CREATE_DELAY_KEY_WRITE'', 64), (''HA_CREATE_RELIES_ON_SQL_LAYER'', 128)]"

definition status_bits :: "(string \<times> 32 word) list" where
  "status_bits = [
     (''HA_STATUS_POS'', 1), (''HA_STATUS_NO_LOCK'', 2), (''HA_STATUS_TIME'', 4), (''HA_STATUS_CONST'', 8),
     (''HA_STATUS_VARIABLE'', 16), (''HA_STATUS_ERRKEY'', 32), (''HA_STATUS_AUTO'', 64)]"

definition search_bits :: "(string \<times> 32 word) list" where
  "search_bits = [
     (''SEARCH_FIND'', 1), (''SEARCH_NO_FIND'', 2), (''SEARCH_SAME'', 4), (''SEARCH_BIGGER'', 8),
     (''SEARCH_SMALLER'', 16), (''SEARCH_SAVE_BUFF'', 32), (''SEARCH_UPDATE'', 64), (''SEARCH_PREFIX'', 128),
     (''SEARCH_LAST'', 256), (''MBR_CONTAIN'', 512), (''MBR_INTERSECT'', 1024), (''MBR_WITHIN'', 2048),
     (''MBR_DISJOINT'', 4096), (''MBR_EQUAL'', 8192), (''MBR_DATA'', 16384),
     (''SEARCH_NULL_ARE_EQUAL'', 32768), (''SEARCH_NULL_ARE_NOT_EQUAL'', 65536), (''SEARCH_INSERT'', 131072),
     (''SEARCH_PART_KEY'', 262144), (''SEARCH_USER_KEY_HAS_TRANSID'', 524288),
     (''SEARCH_PAGE_KEY_HAS_TRANSID'', 1048576)]"

definition opt_bits :: "(string \<times> 32 word) list" where
  "opt_bits = [
     (''QUICK_USED'', 1), (''READ_CACHE_USED'', 2), (''READ_CHECK_USED'', 4), (''KEY_READ_USED'', 8),
     (''WRITE_CACHE_USED'', 16), (''OPT_NO_ROWS'', 32)]"

definition state_bits :: "(string \<times> 32 word) list" where
  "state_bits = [
     (''HA_STATE_CHANGED'', 1), (''HA_STATE_AKTIV'', 2), (''HA_STATE_WRITTEN'', 4), (''HA_STATE_DELETED'', 8),
     (''HA_STATE_NEXT_FOUND'', 16), (''HA_STATE_PREV_FOUND'', 32), (''HA_STATE_NO_KEY'', 64),
     (''HA_STATE_KEY_CHANGED'', 128), (''HA_STATE_WRITE_AT_END'', 256), (''HA_STATE_BUFF_SAVED'', 512),
     (''HA_STATE_ROW_CHANGED'', 1024), (''HA_STATE_EXTEND_BLOCK'', 2048), (''HA_STATE_RNEXT_SAME'', 4096)]"

definition range_bits :: "(string \<times> 32 word) list" where
  "range_bits = [
     (''NO_MIN_RANGE'', 1), (''NO_MAX_RANGE'', 2), (''NEAR_MIN'', 4), (''NEAR_MAX'', 8),
     (''UNIQUE_RANGE'', 16), (''EQ_RANGE'', 32), (''NULL_RANGE'', 64), (''GEOM_FLAG'', 128),
     (''SKIP_RANGE'', 256), (''EMPTY_RANGE'', 512)]"

definition refresh_bits :: "(string \<times> 32 word) list" where
  "refresh_bits = [
     (''REFRESH_GRANT'', 1), (''REFRESH_LOG'', 2), (''REFRESH_TABLES'', 4), (''REFRESH_HOSTS'', 8),
     (''REFRESH_STATUS'', 16), (''REFRESH_THREADS'', 32), (''REFRESH_SLAVE'', 64), (''REFRESH_MASTER'', 128),
     (''REFRESH_READ_LOCK'', 16384), (''REFRESH_FAST'', 32768), (''REFRESH_QUERY_CACHE'', 65536),
     (''REFRESH_QUERY_CACHE_FREE'', 131072), (''REFRESH_DES_KEY_FILE'', 262144),
     (''REFRESH_USER_RESOURCES'', 524288), (''REFRESH_BACKUP_LOG'', 2097152)]"

definition client_bits :: "(string \<times> 32 word) list" where
  "client_bits = [
     (''CLIENT_LONG_PASSWORD'', 1), (''CLIENT_FOUND_ROWS'', 2), (''CLIENT_LONG_FLAG'', 4),
     (''CLIENT_CONNECT_WITH_DB'', 8), (''CLIENT_NO_SCHEMA'', 16), (''CLIENT_COMPRESS'', 32),
     (''CLIENT_ODBC'', 64), (''CLIENT_LOCAL_FILES'', 128), (''CLIENT_IGNORE_SPACE'', 256),
     (''CLIENT_PROTOCOL_41'', 512), (''CLIENT_INTERACTIVE'', 1024), (''CLIENT_SSL'', 2048),
     (''CLIENT_IGNORE_SIGPIPE'', 4096), (''CLIENT_TRANSACTIONS'', 8192), (''CLIENT_RESERVED'', 16384),
     (''CLIENT_SECURE_CONNECTION'', 32768), (''CLIENT_MULTI_STATEMENTS'', 65536),
     (''CLIENT_MULTI_RESULTS'', 131072), (''CLIENT_PS_MULTI_RESULTS'', 262144),
     (''CLIENT_SSL_VERIFY_SERVER_CERT'', 1073741824), (''CLIENT_REMEMBER_OPTIONS'', 2147483648)]"

definition server_bits :: "(string \<times> 32 word) list" where
  "server_bits = [
     (''SERVER_STATUS_IN_TRANS'', 1), (''SERVER_STATUS_AUTOCOMMIT'', 2), (''SERVER_MORE_RESULTS_EXISTS'', 8),
     (''SERVER_QUERY_NO_GOOD_INDEX_USED'', 16), (''SERVER_QUERY_NO_INDEX_USED'', 32),
     (''SERVER_STATUS_CURSOR_EXISTS'', 64), (''SERVER_STATUS_LAST_ROW_SENT'', 128),
     (''SERVER_STATUS_DB_DROPPED'', 256), (''SERVER_STATUS_NO_BACKSLASH_ESCAPES'', 512),
     (''SERVER_STATUS_METADATA_CHANGED'', 1024), (''SERVER_QUERY_WAS_SLOW'', 2048),
     (''SERVER_PS_OUT_PARAMS'', 4096)]"

definition format_bits :: "(string \<times> 32 word) list" where
  "format_bits = [
     (''MY_REPLACE_DIR'', 1), (''MY_REPLACE_EXT'', 2), (''MY_UNPACK_FILENAME'', 4), (''MY_PACK_FILENAME'', 8),
     (''MY_RESOLVE_SYMLINKS'', 16), (''MY_RETURN_REAL_PATH'', 32), (''MY_SAFE_PATH'', 64),
     (''MY_RELATIVE_PATH'', 128), (''MY_APPEND_EXT'', 256)]"

definition shutdown_bits :: "(string \<times> 32 word) list" where
  "shutdown_bits = [
     (''MYSQL_SHUTDOWN_KILLABLE_CONNECT'', 1), (''MYSQL_SHUTDOWN_KILLABLE_TRANS'', 2),
     (''MYSQL_SHUTDOWN_KILLABLE_LOCK_TABLE'', 4), (''MYSQL_SHUTDOWN_KILLABLE_UPDATE'', 8)]"

definition decimal_errors :: "(string \<times> 32 word) list" where
  "decimal_errors = [
     (''E_DEC_TRUNCATED'', 1), (''E_DEC_OVERFLOW'', 2), (''E_DEC_DIV_ZERO'', 4), (''E_DEC_BAD_NUM'', 8),
     (''E_DEC_OOM'', 16)]"

definition cjson_bits :: "(string \<times> 32 word) list" where
  "cjson_bits = [
     (''cJSON_False'', 1), (''cJSON_True'', 2), (''cJSON_NULL'', 4), (''cJSON_Number'', 8),
     (''cJSON_String'', 16), (''cJSON_Array'', 32), (''cJSON_Object'', 64), (''cJSON_Raw'', 128),
     (''cJSON_IsReference'', 256), (''cJSON_StringIsConst'', 512)]"

definition automatic_key_bits :: "(string \<times> 32 word) list" where
  "automatic_key_bits = [
     (''HA_SPACE_PACK_USED'', 4), (''HA_VAR_LENGTH_KEY'', 8), (''HA_NULL_PART_KEY'', 64),
     (''HA_USES_COMMENT'', 4096), (''HA_USES_PARSER'', 16384), (''HA_USES_BLOCK_SIZE'', 32768),
     (''HA_SORT_ALLOWS_SAME'', 512)]"

definition field_flags :: "(string \<times> 32 word) list" where
  "field_flags = [
     (''NOT_NULL_FLAG'', 1), (''PRI_KEY_FLAG'', 2), (''UNIQUE_KEY_FLAG'', 4), (''MULTIPLE_KEY_FLAG'', 8),
     (''BLOB_FLAG'', 16), (''UNSIGNED_FLAG'', 32), (''ZEROFILL_FLAG'', 64), (''BINARY_FLAG'', 128),
     (''ENUM_FLAG'', 256), (''AUTO_INCREMENT_FLAG'', 512), (''TIMESTAMP_FLAG'', 1024), (''SET_FLAG'', 2048),
     (''NO_DEFAULT_VALUE_FLAG'', 4096), (''ON_UPDATE_NOW_FLAG'', 8192), (''NUM_FLAG'', 32768),
     (''PART_KEY_FLAG'', 16384), (''UNIQUE_FLAG'', 65536), (''BINCMP_FLAG'', 131072),
     (''GET_FIXED_FIELDS_FLAG'', 262144), (''FIELD_IN_PART_FUNC_FLAG'', 524288),
     (''FIELD_IN_ADD_INDEX'', 1048576), (''FIELD_IS_RENAMED'', 2097152)]"

definition GROUP_FLAG :: "32 word" where
  "GROUP_FLAG = 32768"

definition HA_KEY_HAS_PART_KEY_SEG :: "32 word" where
  "HA_KEY_HAS_PART_KEY_SEG = 65536"

definition E_DEC_ERROR :: "32 word" where
  "E_DEC_ERROR = 31"

definition E_DEC_FATAL_ERROR :: "32 word" where
  "E_DEC_FATAL_ERROR = 30"

definition flag :: "(string \<times> 32 word) list \<Rightarrow> string \<Rightarrow> 32 word" where
  "flag fl x = (case map_of fl x of None \<Rightarrow> 0 | Some v \<Rightarrow> v)"

section \<open>Combining and testing\<close>

definition values_of :: "(string \<times> 32 word) list \<Rightarrow> 32 word list" where
  "values_of fl = map snd fl"

definition combine :: "32 word list \<Rightarrow> 32 word" where
  "combine xs = foldr (OR) xs 0"

definition has :: "32 word \<Rightarrow> 32 word \<Rightarrow> bool" where
  "has m f \<longleftrightarrow> m AND f \<noteq> 0"

definition without :: "32 word \<Rightarrow> 32 word \<Rightarrow> 32 word" where
  "without m f = m AND NOT f"

lemma has_bit: "has m (2 ^ k) \<longleftrightarrow> bit m k"
  by (simp add: has_def and_exp_eq_0_iff_not_bit)

lemma bit_combine: "bit (combine xs) k \<longleftrightarrow> (\<exists>x\<in>set xs. bit x k)"
  by (induction xs) (auto simp: combine_def bit_simps)

lemma bit_single: "k < 32 \<Longrightarrow> bit (2 ^ j :: 32 word) k \<longleftrightarrow> k = j"
  by (auto simp: bit_simps)

locale flag_group =
  fixes flags :: "(string \<times> 32 word) list" and ks :: "nat list"
  assumes bits: "map snd flags = map (\<lambda>k. 2 ^ k) ks"
    and small: "list_all (\<lambda>k. k < 32) ks"
    and different: "distinct ks"
begin

lemma single: "f \<in> set (values_of flags) \<Longrightarrow> \<exists>k\<in>set ks. f = 2 ^ k \<and> k < 32"
  using small by (auto simp: values_of_def bits list_all_iff)

lemma has_combine:
  assumes "f \<in> set (values_of flags)" "set xs \<subseteq> set (values_of flags)"
  shows "has (combine xs) f \<longleftrightarrow> f \<in> set xs"
proof -
  obtain k where k: "f = 2 ^ k" "k < 32" using single [OF assms(1)] by blast
  have "x = f" if "x \<in> set xs" "bit x k" for x
  proof -
    have "x \<in> set (values_of flags)" using assms(2) that(1) by blast
    then obtain j where "x = 2 ^ j" using single by blast
    then show ?thesis using that(2) k by (simp add: bit_single)
  qed
  moreover have "bit f k" using k by (simp add: bit_single)
  ultimately show ?thesis using k has_bit [of _ k] by (auto simp: bit_combine)
qed

lemma has_without:
  assumes "f \<in> set (values_of flags)" "g \<in> set (values_of flags)"
  shows "has (without m f) g \<longleftrightarrow> has m g \<and> g \<noteq> f"
proof -
  obtain j k where jk: "f = 2 ^ j" "j < 32" "g = 2 ^ k" "k < 32" using single assms by metis
  then have "g = f \<longleftrightarrow> k = j" using bit_single [of k j] bit_single [of k k] by metis
  then show ?thesis using jk by (auto simp: has_bit without_def bit_simps)
qed

lemma has_join:
  assumes "f \<in> set (values_of flags)" "g \<in> set (values_of flags)"
  shows "has (m OR f) g \<longleftrightarrow> has m g \<or> g = f"
proof -
  obtain j k where jk: "f = 2 ^ j" "j < 32" "g = 2 ^ k" "k < 32" using single assms by metis
  then have "g = f \<longleftrightarrow> k = j" using bit_single [of k j] bit_single [of k k] by metis
  then show ?thesis using jk by (auto simp: has_bit bit_simps)
qed

end

interpretation ha_open: flag_group ha_open "[0, 1, 2, 3, 4, 5, 6, 7, 8, 9]"
  by unfold_locales (simp_all add: ha_open_def)

interpretation key_flags: flag_group key_flags "[0, 1, 4, 5, 7, 8, 10, 11, 13, 14]"
  by unfold_locales (simp_all add: key_flags_def)

interpretation key_seg_flags: flag_group key_seg_flags "[0, 2, 3, 4, 5, 6, 7, 8, 9, 10]"
  by unfold_locales (simp_all add: key_seg_flags_def)

interpretation option_bits: flag_group option_bits "[0, 1, 2, 3, 4, 5, 6, 7, 8, 9, 10, 11, 15, 16, 17, 18]"
  by unfold_locales (simp_all add: option_bits_def)

interpretation create_bits: flag_group create_bits "[0, 1, 2, 3, 4, 5, 6, 7]"
  by unfold_locales (simp_all add: create_bits_def)

interpretation status_bits: flag_group status_bits "[0, 1, 2, 3, 4, 5, 6]"
  by unfold_locales (simp_all add: status_bits_def)

interpretation search_bits: flag_group search_bits "[0, 1, 2, 3, 4, 5, 6, 7, 8, 9, 10, 11, 12, 13, 14, 15, 16, 17, 18, 19, 20]"
  by unfold_locales (simp_all add: search_bits_def)

interpretation opt_bits: flag_group opt_bits "[0, 1, 2, 3, 4, 5]"
  by unfold_locales (simp_all add: opt_bits_def)

interpretation state_bits: flag_group state_bits "[0, 1, 2, 3, 4, 5, 6, 7, 8, 9, 10, 11, 12]"
  by unfold_locales (simp_all add: state_bits_def)

interpretation range_bits: flag_group range_bits "[0, 1, 2, 3, 4, 5, 6, 7, 8, 9]"
  by unfold_locales (simp_all add: range_bits_def)

interpretation refresh_bits: flag_group refresh_bits "[0, 1, 2, 3, 4, 5, 6, 7, 14, 15, 16, 17, 18, 19, 21]"
  by unfold_locales (simp_all add: refresh_bits_def)

interpretation client_bits: flag_group client_bits "[0, 1, 2, 3, 4, 5, 6, 7, 8, 9, 10, 11, 12, 13, 14, 15, 16, 17, 18, 30, 31]"
  by unfold_locales (simp_all add: client_bits_def)

interpretation server_bits: flag_group server_bits "[0, 1, 3, 4, 5, 6, 7, 8, 9, 10, 11, 12]"
  by unfold_locales (simp_all add: server_bits_def)

interpretation format_bits: flag_group format_bits "[0, 1, 2, 3, 4, 5, 6, 7, 8]"
  by unfold_locales (simp_all add: format_bits_def)

interpretation shutdown_bits: flag_group shutdown_bits "[0, 1, 2, 3]"
  by unfold_locales (simp_all add: shutdown_bits_def)

interpretation decimal_errors: flag_group decimal_errors "[0, 1, 2, 3, 4]"
  by unfold_locales (simp_all add: decimal_errors_def)

interpretation cjson_bits: flag_group cjson_bits "[0, 1, 2, 3, 4, 5, 6, 7, 8, 9]"
  by unfold_locales (simp_all add: cjson_bits_def)

interpretation automatic_key_bits: flag_group automatic_key_bits "[2, 3, 6, 12, 14, 15, 9]"
  by unfold_locales (simp_all add: automatic_key_bits_def)

interpretation field_flags: flag_group field_flags "[0, 1, 2, 3, 4, 5, 6, 7, 8, 9, 10, 11, 12, 13, 15, 14, 16, 17, 18, 19, 20, 21]"
  by unfold_locales (simp_all add: field_flags_def)

section \<open>Derived masks\<close>

definition HA_KEYFLAG_MASK :: "32 word" where
  "HA_KEYFLAG_MASK = combine (values_of key_flags)"

definition CLIENT_ALL_FLAGS :: "32 word" where
  "CLIENT_ALL_FLAGS = combine (values_of client_bits)"

definition CLIENT_BASIC_FLAGS :: "32 word" where
  "CLIENT_BASIC_FLAGS = without (without (without CLIENT_ALL_FLAGS (flag client_bits ''CLIENT_SSL''))
     (flag client_bits ''CLIENT_COMPRESS'')) (flag client_bits ''CLIENT_SSL_VERIFY_SERVER_CERT'')"

definition SERVER_STATUS_CLEAR_SET :: "32 word" where
  "SERVER_STATUS_CLEAR_SET = combine (map (flag server_bits) [''SERVER_QUERY_NO_GOOD_INDEX_USED'',
     ''SERVER_QUERY_NO_INDEX_USED'', ''SERVER_MORE_RESULTS_EXISTS'', ''SERVER_STATUS_METADATA_CHANGED''])"

definition groups :: "(string \<times> 32 word) list list" where
  "groups = [ha_open, key_flags, key_seg_flags, option_bits, create_bits, status_bits, search_bits, opt_bits,
     state_bits, range_bits, refresh_bits, client_bits, server_bits, format_bits, shutdown_bits, decimal_errors,
     cjson_bits, automatic_key_bits, field_flags]"

lemma flag_values:
  "flag client_bits ''CLIENT_SSL'' = 2048" "flag client_bits ''CLIENT_COMPRESS'' = 32"
  "flag client_bits ''CLIENT_SSL_VERIFY_SERVER_CERT'' = 1073741824"
  "flag key_flags ''HA_RTREE_INDEX'' = 16384" "flag automatic_key_bits ''HA_USES_PARSER'' = 16384"
  "flag field_flags ''NUM_FLAG'' = 32768"
  by (simp_all add: flag_def client_bits_def key_flags_def automatic_key_bits_def field_flags_def)

lemma optional_flags: "{2048, 32, 1073741824} \<subseteq> set (values_of client_bits)"
  by (simp add: values_of_def client_bits_def)

text \<open>The errors of decimals: all of them, and all but the loss of precision.\<close>

lemma decimal_masks:
  "E_DEC_ERROR = combine (values_of decimal_errors)" "E_DEC_FATAL_ERROR = without E_DEC_ERROR (flag decimal_errors ''E_DEC_TRUNCATED'')"
  by (simp_all add: E_DEC_ERROR_def E_DEC_FATAL_ERROR_def combine_def without_def values_of_def flag_def decimal_errors_def)

section \<open>Properties\<close>

text \<open>
  The options of every group survive their encoding: of any flags of the group that are combined, a test finds
  exactly these; setting a flag or clearing it changes the answer for no other flag of the group.
\<close>

lemma options_recovered:
  assumes "fl \<in> set groups" "set xs \<subseteq> set (values_of fl)" "f \<in> set (values_of fl)" "g \<in> set (values_of fl)"
  shows "(has (combine xs) f \<longleftrightarrow> f \<in> set xs) \<and> (has (m OR f) g \<longleftrightarrow> has m g \<or> g = f) \<and>
    (has (without m f) g \<longleftrightarrow> has m g \<and> g \<noteq> f)"
proof -
  have "\<exists>ks. flag_group fl ks"
    using assms(1) unfolding groups_def
    by (simp only: list.set insert_iff empty_iff) (elim disjE; auto intro: ha_open.flag_group_axioms key_flags.flag_group_axioms key_seg_flags.flag_group_axioms option_bits.flag_group_axioms create_bits.flag_group_axioms status_bits.flag_group_axioms search_bits.flag_group_axioms opt_bits.flag_group_axioms state_bits.flag_group_axioms range_bits.flag_group_axioms refresh_bits.flag_group_axioms client_bits.flag_group_axioms server_bits.flag_group_axioms format_bits.flag_group_axioms shutdown_bits.flag_group_axioms decimal_errors.flag_group_axioms cjson_bits.flag_group_axioms automatic_key_bits.flag_group_axioms field_flags.flag_group_axioms)
  then obtain ks where "flag_group fl ks" ..
  then show ?thesis
    using flag_group.has_combine [OF _ assms(3,2)] flag_group.has_join [OF _ assms(3,4)]
      flag_group.has_without [OF _ assms(3,4)] by blast
qed

lemma options_recovered_witness:
  "has (combine [2, 256]) 256 \<and> \<not> has (combine [2, 256]) 128 \<and> \<not> has (without 258 2) 2"
  using options_recovered [of ha_open "[2, 256]" 256 2] options_recovered [of ha_open "[2, 256]" 128 128]
    options_recovered [of ha_open "[]" 2 2 258]
  by (simp add: groups_def values_of_def ha_open_def)

text \<open>
  The capabilities of a client: \<open>CLIENT_ALL_FLAGS\<close> has every one, \<open>CLIENT_BASIC_FLAGS\<close> exactly those that do not
  depend on the build, which leaves out SSL, compression and the check of the server's certificate.
\<close>

lemma client_capabilities:
  assumes "f \<in> set (values_of client_bits)"
  shows "has CLIENT_ALL_FLAGS f \<and>
    (has CLIENT_BASIC_FLAGS f \<longleftrightarrow> f \<notin> flag client_bits ` {''CLIENT_SSL'', ''CLIENT_COMPRESS'', ''CLIENT_SSL_VERIFY_SERVER_CERT''})"
proof -
  have all: "has CLIENT_ALL_FLAGS f"
    using client_bits.has_combine [OF assms, of "values_of client_bits"] assms by (simp add: CLIENT_ALL_FLAGS_def)
  have "2048 \<in> set (values_of client_bits)" "32 \<in> set (values_of client_bits)" "1073741824 \<in> set (values_of client_bits)"
    using optional_flags by simp_all
  then show ?thesis
    using all client_bits.has_without [OF _ assms] by (auto simp: CLIENT_BASIC_FLAGS_def flag_values)
qed

lemma client_capabilities_witness: "\<not> has CLIENT_BASIC_FLAGS 2048 \<and> has CLIENT_BASIC_FLAGS 512"
  using client_capabilities [of 2048] client_capabilities [of 512]
  by (simp add: values_of_def client_bits_def flag_def)

text \<open>
  Flags that collide: in the flags of a key an R-tree cannot be told from a parser, in those of a field a number
  not from a group, and the mark of a partial key segment is lost in the 16 bits the key flags have room for.
\<close>

lemma colliding_flags:
  "has m (flag key_flags ''HA_RTREE_INDEX'') = has m (flag automatic_key_bits ''HA_USES_PARSER'') \<and>
   has m (flag field_flags ''NUM_FLAG'') = has m GROUP_FLAG \<and>
   \<not> has (ucast (ucast m :: 16 word)) HA_KEY_HAS_PART_KEY_SEG"
proof (intro conjI)
  have "HA_KEY_HAS_PART_KEY_SEG = 2 ^ 16" by (simp add: HA_KEY_HAS_PART_KEY_SEG_def)
  then show "\<not> has (ucast (ucast m :: 16 word)) HA_KEY_HAS_PART_KEY_SEG"
    using has_bit [of "ucast (ucast m :: 16 word)" 16] by (simp add: bit_simps)
qed (simp_all add: flag_values GROUP_FLAG_def)

end
