(* ===== verification/CEnum.thy ===== *)
theory CEnum
  imports Prelude
begin

text \<open>
  The enumerations of the headers. In C an enumerator is a name for an \<open>int\<close>: its value where it has one, and
  otherwise one more than the enumerator before it, or 0. A declaration is its list of names and values, and
  \<open>c_enum\<close> gives the numbers. The macros that classify field types compare such numbers.
\<close>

section \<open>The declarations\<close>

fun c_enum_from :: "int \<Rightarrow> (string \<times> int option) list \<Rightarrow> (string \<times> int) list" where
  "c_enum_from n [] = []"
| "c_enum_from n ((x, v) # es) = (let k = (case v of None \<Rightarrow> n | Some k \<Rightarrow> k) in (x, k) # c_enum_from (k + 1) es)"

definition c_enum :: "(string \<times> int option) list \<Rightarrow> (string \<times> int) list" where
  "c_enum es = c_enum_from 0 es"

definition ha_rkey_function :: "(string \<times> int option) list" where
  "ha_rkey_function = [
     (''HA_READ_KEY_EXACT'', None), (''HA_READ_KEY_OR_NEXT'', None), (''HA_READ_KEY_OR_PREV'', None),
     (''HA_READ_AFTER_KEY'', None), (''HA_READ_BEFORE_KEY'', None), (''HA_READ_PREFIX'', None),
     (''HA_READ_PREFIX_LAST'', None), (''HA_READ_PREFIX_LAST_OR_PREV'', None), (''HA_READ_MBR_CONTAIN'', None),
     (''HA_READ_MBR_INTERSECT'', None), (''HA_READ_MBR_WITHIN'', None), (''HA_READ_MBR_DISJOINT'', None),
     (''HA_READ_MBR_EQUAL'', None)]"

definition ha_key_alg :: "(string \<times> int option) list" where
  "ha_key_alg = [
     (''HA_KEY_ALG_UNDEF'', Some 0), (''HA_KEY_ALG_BTREE'', Some 1), (''HA_KEY_ALG_RTREE'', Some 2),
     (''HA_KEY_ALG_HASH'', Some 3), (''HA_KEY_ALG_FULLTEXT'', Some 4)]"

definition ha_build_method :: "(string \<times> int option) list" where
  "ha_build_method = [
     (''HA_BUILD_DEFAULT'', None), (''HA_BUILD_ONLINE'', None), (''HA_BUILD_OFFLINE'', None)]"

definition ha_storage_media :: "(string \<times> int option) list" where
  "ha_storage_media = [
     (''HA_SM_DEFAULT'', Some 0), (''HA_SM_DISK'', Some 1), (''HA_SM_MEMORY'', Some 2)]"

definition ha_extra_function :: "(string \<times> int option) list" where
  "ha_extra_function = [
     (''HA_EXTRA_NORMAL'', Some 0), (''HA_EXTRA_QUICK'', Some 1), (''HA_EXTRA_NOT_USED'', Some 2),
     (''HA_EXTRA_CACHE'', Some 3), (''HA_EXTRA_NO_CACHE'', Some 4), (''HA_EXTRA_NO_READCHECK'', Some 5),
     (''HA_EXTRA_READCHECK'', Some 6), (''HA_EXTRA_KEYREAD'', Some 7), (''HA_EXTRA_NO_KEYREAD'', Some 8),
     (''HA_EXTRA_NO_USER_CHANGE'', Some 9), (''HA_EXTRA_KEY_CACHE'', Some 10),
     (''HA_EXTRA_NO_KEY_CACHE'', Some 11), (''HA_EXTRA_WAIT_LOCK'', Some 12),
     (''HA_EXTRA_NO_WAIT_LOCK'', Some 13), (''HA_EXTRA_WRITE_CACHE'', Some 14),
     (''HA_EXTRA_FLUSH_CACHE'', Some 15), (''HA_EXTRA_NO_KEYS'', Some 16),
     (''HA_EXTRA_KEYREAD_CHANGE_POS'', Some 17), (''HA_EXTRA_REMEMBER_POS'', Some 18),
     (''HA_EXTRA_RESTORE_POS'', Some 19), (''HA_EXTRA_REINIT_CACHE'', Some 20),
     (''HA_EXTRA_FORCE_REOPEN'', Some 21), (''HA_EXTRA_FLUSH'', None), (''HA_EXTRA_NO_ROWS'', None),
     (''HA_EXTRA_RESET_STATE'', None), (''HA_EXTRA_IGNORE_DUP_KEY'', None),
     (''HA_EXTRA_NO_IGNORE_DUP_KEY'', None), (''HA_EXTRA_PREPARE_FOR_DROP'', None),
     (''HA_EXTRA_PREPARE_FOR_UPDATE'', None), (''HA_EXTRA_PRELOAD_BUFFER_SIZE'', None),
     (''HA_EXTRA_CHANGE_KEY_TO_UNIQUE'', None), (''HA_EXTRA_CHANGE_KEY_TO_DUP'', None),
     (''HA_EXTRA_KEYREAD_PRESERVE_FIELDS'', None), (''HA_EXTRA_MMAP'', None),
     (''HA_EXTRA_IGNORE_NO_KEY'', None), (''HA_EXTRA_NO_IGNORE_NO_KEY'', None),
     (''HA_EXTRA_MARK_AS_LOG_TABLE'', None), (''HA_EXTRA_WRITE_CAN_REPLACE'', None),
     (''HA_EXTRA_WRITE_CANNOT_REPLACE'', None), (''HA_EXTRA_DELETE_CANNOT_BATCH'', None),
     (''HA_EXTRA_UPDATE_CANNOT_BATCH'', None), (''HA_EXTRA_INSERT_WITH_UPDATE'', None),
     (''HA_EXTRA_PREPARE_FOR_RENAME'', None), (''HA_EXTRA_ADD_CHILDREN_LIST'', None),
     (''HA_EXTRA_ATTACH_CHILDREN'', None), (''HA_EXTRA_IS_ATTACHED_CHILDREN'', None),
     (''HA_EXTRA_DETACH_CHILDREN'', None), (''HA_EXTRA_ORDERBY_LIMIT'', None),
     (''HA_EXTRA_NO_ORDERBY_LIMIT'', None), (''HA_EXTRA_PREPARE_FOR_FORCED_CLOSE'', None),
     (''HA_EXTRA_ALLOW_LOG_DELETE'', None)]"

definition ha_panic_function :: "(string \<times> int option) list" where
  "ha_panic_function = [
     (''HA_PANIC_CLOSE'', None), (''HA_PANIC_WRITE'', None), (''HA_PANIC_READ'', None)]"

definition ha_base_keytype :: "(string \<times> int option) list" where
  "ha_base_keytype = [
     (''HA_KEYTYPE_END'', Some 0), (''HA_KEYTYPE_TEXT'', Some 1), (''HA_KEYTYPE_BINARY'', Some 2),
     (''HA_KEYTYPE_SHORT_INT'', Some 3), (''HA_KEYTYPE_LONG_INT'', Some 4), (''HA_KEYTYPE_FLOAT'', Some 5),
     (''HA_KEYTYPE_DOUBLE'', Some 6), (''HA_KEYTYPE_NUM'', Some 7), (''HA_KEYTYPE_USHORT_INT'', Some 8),
     (''HA_KEYTYPE_ULONG_INT'', Some 9), (''HA_KEYTYPE_LONGLONG'', Some 10),
     (''HA_KEYTYPE_ULONGLONG'', Some 11), (''HA_KEYTYPE_INT24'', Some 12), (''HA_KEYTYPE_UINT24'', Some 13),
     (''HA_KEYTYPE_INT8'', Some 14), (''HA_KEYTYPE_VARTEXT1'', Some 15), (''HA_KEYTYPE_VARBINARY1'', Some 16),
     (''HA_KEYTYPE_VARTEXT2'', Some 17), (''HA_KEYTYPE_VARBINARY2'', Some 18), (''HA_KEYTYPE_BIT'', Some 19)]"

definition en_fieldtype :: "(string \<times> int option) list" where
  "en_fieldtype = [
     (''FIELD_LAST'', Some (- 1)), (''FIELD_NORMAL'', None), (''FIELD_SKIP_ENDSPACE'', None),
     (''FIELD_SKIP_PRESPACE'', None), (''FIELD_SKIP_ZERO'', None), (''FIELD_BLOB'', None),
     (''FIELD_CONSTANT'', None), (''FIELD_INTERVALL'', None), (''FIELD_ZERO'', None),
     (''FIELD_VARCHAR'', None), (''FIELD_CHECK'', None), (''FIELD_enum_val_count'', None)]"

definition data_file_type :: "(string \<times> int option) list" where
  "data_file_type = [
     (''STATIC_RECORD'', None), (''DYNAMIC_RECORD'', None), (''COMPRESSED_RECORD'', None),
     (''BLOCK_RECORD'', None)]"

definition enum_server_command :: "(string \<times> int option) list" where
  "enum_server_command = [
     (''COM_SLEEP'', None), (''COM_QUIT'', None), (''COM_INIT_DB'', None), (''COM_QUERY'', None),
     (''COM_FIELD_LIST'', None), (''COM_CREATE_DB'', None), (''COM_DROP_DB'', None), (''COM_REFRESH'', None),
     (''COM_SHUTDOWN'', None), (''COM_STATISTICS'', None), (''COM_PROCESS_INFO'', None),
     (''COM_CONNECT'', None), (''COM_PROCESS_KILL'', None), (''COM_DEBUG'', None), (''COM_PING'', None),
     (''COM_TIME'', None), (''COM_DELAYED_INSERT'', None), (''COM_CHANGE_USER'', None),
     (''COM_BINLOG_DUMP'', None), (''COM_TABLE_DUMP'', None), (''COM_CONNECT_OUT'', None),
     (''COM_REGISTER_SLAVE'', None), (''COM_STMT_PREPARE'', None), (''COM_STMT_EXECUTE'', None),
     (''COM_STMT_SEND_LONG_DATA'', None), (''COM_STMT_CLOSE'', None), (''COM_STMT_RESET'', None),
     (''COM_SET_OPTION'', None), (''COM_STMT_FETCH'', None), (''COM_DAEMON'', None), (''COM_END'', None)]"

definition enum_field_types :: "(string \<times> int option) list" where
  "enum_field_types = [
     (''MYSQL_TYPE_DECIMAL'', None), (''MYSQL_TYPE_TINY'', None), (''MYSQL_TYPE_SHORT'', None),
     (''MYSQL_TYPE_LONG'', None), (''MYSQL_TYPE_FLOAT'', None), (''MYSQL_TYPE_DOUBLE'', None),
     (''MYSQL_TYPE_NULL'', None), (''MYSQL_TYPE_TIMESTAMP'', None), (''MYSQL_TYPE_LONGLONG'', None),
     (''MYSQL_TYPE_INT24'', None), (''MYSQL_TYPE_DATE'', None), (''MYSQL_TYPE_TIME'', None),
     (''MYSQL_TYPE_DATETIME'', None), (''MYSQL_TYPE_YEAR'', None), (''MYSQL_TYPE_NEWDATE'', None),
     (''MYSQL_TYPE_VARCHAR'', None), (''MYSQL_TYPE_BIT'', None), (''MYSQL_TYPE_NEWDECIMAL'', Some 246),
     (''MYSQL_TYPE_ENUM'', Some 247), (''MYSQL_TYPE_SET'', Some 248), (''MYSQL_TYPE_TINY_BLOB'', Some 249),
     (''MYSQL_TYPE_MEDIUM_BLOB'', Some 250), (''MYSQL_TYPE_LONG_BLOB'', Some 251),
     (''MYSQL_TYPE_BLOB'', Some 252), (''MYSQL_TYPE_VAR_STRING'', Some 253), (''MYSQL_TYPE_STRING'', Some 254),
     (''MYSQL_TYPE_GEOMETRY'', Some 255), (''MAX_NO_FIELD_TYPES'', None)]"

definition mysql_enum_shutdown_level :: "(string \<times> int option) list" where
  "mysql_enum_shutdown_level = [
     (''SHUTDOWN_DEFAULT'', Some 0), (''SHUTDOWN_WAIT_CONNECTIONS'', Some 1),
     (''SHUTDOWN_WAIT_TRANSACTIONS'', Some 2), (''SHUTDOWN_WAIT_UPDATES'', Some 8),
     (''SHUTDOWN_WAIT_ALL_BUFFERS'', Some 16), (''SHUTDOWN_WAIT_CRITICAL_BUFFERS'', Some 17),
     (''KILL_QUERY'', Some 254), (''KILL_CONNECTION'', Some 255)]"

definition enum_cursor_type :: "(string \<times> int option) list" where
  "enum_cursor_type = [
     (''CURSOR_TYPE_NO_CURSOR'', Some 0), (''CURSOR_TYPE_READ_ONLY'', Some 1),
     (''CURSOR_TYPE_FOR_UPDATE'', Some 2), (''CURSOR_TYPE_SCROLLABLE'', Some 4)]"

definition enum_mysql_set_option :: "(string \<times> int option) list" where
  "enum_mysql_set_option = [
     (''MYSQL_OPTION_MULTI_STATEMENTS_ON'', None), (''MYSQL_OPTION_MULTI_STATEMENTS_OFF'', None)]"

definition mysql_option :: "(string \<times> int option) list" where
  "mysql_option = [
     (''MYSQL_OPT_CONNECT_TIMEOUT'', None), (''MYSQL_OPT_COMPRESS'', None), (''MYSQL_OPT_NAMED_PIPE'', None),
     (''MYSQL_INIT_COMMAND'', None), (''MYSQL_READ_DEFAULT_FILE'', None), (''MYSQL_READ_DEFAULT_GROUP'', None),
     (''MYSQL_SET_CHARSET_DIR'', None), (''MYSQL_SET_CHARSET_NAME'', None), (''MYSQL_OPT_LOCAL_INFILE'', None),
     (''MYSQL_OPT_PROTOCOL'', None), (''MYSQL_SHARED_MEMORY_BASE_NAME'', None),
     (''MYSQL_OPT_READ_TIMEOUT'', None), (''MYSQL_OPT_WRITE_TIMEOUT'', None), (''MYSQL_OPT_USE_RESULT'', None),
     (''MYSQL_OPT_USE_REMOTE_CONNECTION'', None), (''MYSQL_OPT_USE_EMBEDDED_CONNECTION'', None),
     (''MYSQL_OPT_GUESS_CONNECTION'', None), (''MYSQL_SET_CLIENT_IP'', None), (''MYSQL_SECURE_AUTH'', None),
     (''MYSQL_REPORT_DATA_TRUNCATION'', None), (''MYSQL_OPT_RECONNECT'', None),
     (''MYSQL_OPT_SSL_VERIFY_SERVER_CERT'', None)]"

definition mysql_status :: "(string \<times> int option) list" where
  "mysql_status = [
     (''MYSQL_STATUS_READY'', None), (''MYSQL_STATUS_GET_RESULT'', None), (''MYSQL_STATUS_USE_RESULT'', None)]"

definition mysql_protocol_type :: "(string \<times> int option) list" where
  "mysql_protocol_type = [
     (''MYSQL_PROTOCOL_DEFAULT'', None), (''MYSQL_PROTOCOL_TCP'', None), (''MYSQL_PROTOCOL_SOCKET'', None),
     (''MYSQL_PROTOCOL_PIPE'', None), (''MYSQL_PROTOCOL_MEMORY'', None)]"

definition enum_mysql_stmt_state :: "(string \<times> int option) list" where
  "enum_mysql_stmt_state = [
     (''MYSQL_STMT_INIT_DONE'', Some 1), (''MYSQL_STMT_PREPARE_DONE'', None),
     (''MYSQL_STMT_EXECUTE_DONE'', None), (''MYSQL_STMT_FETCH_DONE'', None)]"

definition enum_stmt_attr_type :: "(string \<times> int option) list" where
  "enum_stmt_attr_type = [
     (''STMT_ATTR_UPDATE_MAX_LENGTH'', None), (''STMT_ATTR_CURSOR_TYPE'', None),
     (''STMT_ATTR_PREFETCH_ROWS'', None)]"

definition interval_type :: "(string \<times> int option) list" where
  "interval_type = [
     (''INTERVAL_YEAR'', None), (''INTERVAL_QUARTER'', None), (''INTERVAL_MONTH'', None),
     (''INTERVAL_WEEK'', None), (''INTERVAL_DAY'', None), (''INTERVAL_HOUR'', None),
     (''INTERVAL_MINUTE'', None), (''INTERVAL_SECOND'', None), (''INTERVAL_MICROSECOND'', None),
     (''INTERVAL_YEAR_MONTH'', None), (''INTERVAL_DAY_HOUR'', None), (''INTERVAL_DAY_MINUTE'', None),
     (''INTERVAL_DAY_SECOND'', None), (''INTERVAL_HOUR_MINUTE'', None), (''INTERVAL_HOUR_SECOND'', None),
     (''INTERVAL_MINUTE_SECOND'', None), (''INTERVAL_DAY_MICROSECOND'', None),
     (''INTERVAL_HOUR_MICROSECOND'', None), (''INTERVAL_MINUTE_MICROSECOND'', None),
     (''INTERVAL_SECOND_MICROSECOND'', None), (''INTERVAL_LAST'', None)]"

definition loglevel :: "(string \<times> int option) list" where
  "loglevel = [
     (''ERROR_LEVEL'', None), (''WARNING_LEVEL'', None), (''INFORMATION_LEVEL'', None)]"

definition flush_type :: "(string \<times> int option) list" where
  "flush_type = [
     (''FLUSH_KEEP'', None), (''FLUSH_RELEASE'', None), (''FLUSH_IGNORE_CHANGED'', None),
     (''FLUSH_FORCE_WRITE'', None), (''FLUSH_KEEP_LAZY'', None)]"

definition file_type :: "(string \<times> int option) list" where
  "file_type = [
     (''UNOPEN'', Some 0), (''FILE_BY_OPEN'', None), (''FILE_BY_CREATE'', None), (''STREAM_BY_FOPEN'', None),
     (''STREAM_BY_FDOPEN'', None), (''FILE_BY_MKSTEMP'', None), (''FILE_BY_DUP'', None)]"

definition my_lex_states :: "(string \<times> int option) list" where
  "my_lex_states = [
     (''MY_LEX_START'', None), (''MY_LEX_CHAR'', None), (''MY_LEX_IDENT'', None), (''MY_LEX_IDENT_SEP'', None),
     (''MY_LEX_IDENT_START'', None), (''MY_LEX_REAL'', None), (''MY_LEX_HEX_NUMBER'', None),
     (''MY_LEX_BIN_NUMBER'', None), (''MY_LEX_CMP_OP'', None), (''MY_LEX_LONG_CMP_OP'', None),
     (''MY_LEX_STRING'', None), (''MY_LEX_COMMENT'', None), (''MY_LEX_END'', None),
     (''MY_LEX_OPERATOR_OR_IDENT'', None), (''MY_LEX_NUMBER_IDENT'', None), (''MY_LEX_INT_OR_REAL'', None),
     (''MY_LEX_REAL_OR_POINT'', None), (''MY_LEX_BOOL'', None), (''MY_LEX_EOL'', None),
     (''MY_LEX_ESCAPE'', None), (''MY_LEX_LONG_COMMENT'', None), (''MY_LEX_END_LONG_COMMENT'', None),
     (''MY_LEX_SEMICOLON'', None), (''MY_LEX_SET_VAR'', None), (''MY_LEX_USER_END'', None),
     (''MY_LEX_HOSTNAME'', None), (''MY_LEX_SKIP'', None), (''MY_LEX_USER_VARIABLE_DELIMITER'', None),
     (''MY_LEX_SYSTEM_VAR'', None), (''MY_LEX_IDENT_OR_KEYWORD'', None), (''MY_LEX_IDENT_OR_HEX'', None),
     (''MY_LEX_IDENT_OR_BIN'', None), (''MY_LEX_IDENT_OR_NCHAR'', None),
     (''MY_LEX_STRING_OR_DELIMITER'', None)]"

definition thr_lock_type :: "(string \<times> int option) list" where
  "thr_lock_type = [
     (''TL_IGNORE'', Some (- 1)), (''TL_UNLOCK'', None), (''TL_READ_DEFAULT'', None), (''TL_READ'', None),
     (''TL_READ_WITH_SHARED_LOCKS'', None), (''TL_READ_HIGH_PRIORITY'', None), (''TL_READ_NO_INSERT'', None),
     (''TL_WRITE_ALLOW_WRITE'', None), (''TL_WRITE_ALLOW_READ'', None), (''TL_WRITE_CONCURRENT_INSERT'', None),
     (''TL_WRITE_DELAYED'', None), (''TL_WRITE_DEFAULT'', None), (''TL_WRITE_LOW_PRIORITY'', None),
     (''TL_WRITE'', None), (''TL_WRITE_ONLY'', None)]"

definition enum_thr_lock_result :: "(string \<times> int option) list" where
  "enum_thr_lock_result = [
     (''THR_LOCK_SUCCESS'', Some 0), (''THR_LOCK_ABORTED'', Some 1), (''THR_LOCK_WAIT_TIMEOUT'', Some 2),
     (''THR_LOCK_DEADLOCK'', Some 3)]"

definition decimal_round_mode :: "(string \<times> int option) list" where
  "decimal_round_mode = [
     (''TRUNCATE'', Some 0), (''HALF_EVEN'', None), (''HALF_UP'', None), (''CEILING'', None),
     (''FLOOR'', None)]"

definition my_gcvt_arg_type :: "(string \<times> int option) list" where
  "my_gcvt_arg_type = [
     (''MY_GCVT_ARG_FLOAT'', None), (''MY_GCVT_ARG_DOUBLE'', None)]"

definition get_opt_arg_type :: "(string \<times> int option) list" where
  "get_opt_arg_type = [
     (''NO_ARG'', None), (''OPT_ARG'', None), (''REQUIRED_ARG'', None)]"

definition my_xml_node_type :: "(string \<times> int option) list" where
  "my_xml_node_type = [
     (''MY_XML_NODE_TAG'', None), (''MY_XML_NODE_ATTR'', None), (''MY_XML_NODE_TEXT'', None)]"

definition tree_walk :: "(string \<times> int option) list" where
  "tree_walk = [
     (''left_root_right'', None), (''right_root_left'', None)]"

definition tree_free :: "(string \<times> int option) list" where
  "tree_free = [
     (''free_init'', None), (''free_free'', None), (''free_end'', None)]"

definition HA_MAX_KEYTYPE :: int where
  "HA_MAX_KEYTYPE = 31"

section \<open>The rule of C\<close>

lemma c_enum_from_simps [simp]:
  "c_enum_from n [] = []" "c_enum_from n ((x, None) # es) = (x, n) # c_enum_from (n + 1) es"
  "c_enum_from n ((x, Some k) # es) = (x, k) # c_enum_from (k + 1) es"
  by simp_all

text \<open>An enumerator without value is one more than the one before it.\<close>

lemma c_enum_next:
  "Suc i < length es \<Longrightarrow> snd (es ! Suc i) = None \<Longrightarrow> snd (c_enum_from n es ! Suc i) = snd (c_enum_from n es ! i) + 1"
proof (induction es arbitrary: i n)
  case (Cons e es)
  obtain x v where e: "e = (x, v)" by (cases e)
  obtain y u es' where es: "es = (y, u) # es'" using Cons.prems(1) by (cases es) auto
  show ?case
  proof (cases i)
    case 0
    then have "u = None" using Cons.prems(2) es by simp
    then show ?thesis using e es 0 by (cases v) simp_all
  next
    case (Suc j)
    then show ?thesis using Cons e by (cases v) simp_all
  qed
qed simp

text \<open>Without values the numbers count from 0.\<close>

lemma c_enum_count: "\<forall>e\<in>set es. snd e = None \<Longrightarrow> map snd (c_enum_from n es) = [n..n + int (length es) - 1]"
proof (induction es arbitrary: n)
  case (Cons e es)
  obtain x where "e = (x, None)" using Cons.prems by (cases e) auto
  then show ?case using Cons.IH [of "n + 1"] Cons.prems by (simp add: upto_rec1 algebra_simps)
qed simp

lemma c_enum_ascending: "\<forall>e\<in>set es. snd e = None \<Longrightarrow> distinct (map snd (c_enum es))"
  by (simp add: c_enum_def c_enum_count)

lemma c_enum_from_length [simp]: "length (c_enum_from n es) = length es"
  by (induction n es rule: c_enum_from.induct) (simp_all add: Let_def)

text \<open>Only the values matter for the numbers.\<close>

fun numbers_from :: "int \<Rightarrow> int option list \<Rightarrow> int list" where
  "numbers_from n [] = []"
| "numbers_from n (None # vs) = n # numbers_from (n + 1) vs"
| "numbers_from n (Some k # vs) = k # numbers_from (k + 1) vs"

lemma c_enum_numbers: "map snd (c_enum es) = numbers_from 0 (map snd es)"
proof -
  have "map snd (c_enum_from n es) = numbers_from n (map snd es)" for n
  proof (induction es arbitrary: n)
    case (Cons e es)
    then show ?case by (cases e; cases "snd e") simp_all
  qed simp
  then show ?thesis by (simp add: c_enum_def)
qed

fun ascending :: "int list \<Rightarrow> bool" where
  "ascending (x # y # zs) \<longleftrightarrow> x < y \<and> ascending (y # zs)"
| "ascending _ = True"

lemma ascending_distinct: "ascending xs \<Longrightarrow> distinct xs \<and> (\<forall>x\<in>set (tl xs). hd xs < x)"
  by (induction xs rule: ascending.induct) fastforce+

lemma ascending_member: "ascending (x # xs) \<Longrightarrow> y \<in> set xs \<Longrightarrow> x < y"
  using ascending_distinct by fastforce

section \<open>Limits the headers rely on\<close>

text \<open>The key types are below \<open>HA_MAX_KEYTYPE\<close>; a command fits a byte, and \<open>COM_END\<close> is the last.\<close>

lemma key_types_max: "\<forall>k\<in>set (map snd (c_enum ha_base_keytype)). 0 \<le> k \<and> k \<le> HA_MAX_KEYTYPE"
  by (simp add: c_enum_numbers ha_base_keytype_def HA_MAX_KEYTYPE_def)

lemma commands_fit: "map snd (c_enum enum_server_command) = [0..30]"
  by (simp add: c_enum_def c_enum_count enum_server_command_def upto_rec1)

text \<open>A packed file has at most 32 kinds of fields.\<close>

lemma field_kinds: "\<forall>k\<in>set (map snd (c_enum en_fieldtype)). k < 32"
  by (simp add: c_enum_numbers en_fieldtype_def)

text \<open>The levels of a shutdown grow with their hardness, as numeric comparisons of them need.\<close>

lemma shutdown_levels: "ascending (map snd (c_enum mysql_enum_shutdown_level))"
  by (simp add: c_enum_numbers mysql_enum_shutdown_level_def)

section \<open>The classes of the field types\<close>

definition enumerator :: "(string \<times> int option) list \<Rightarrow> string \<Rightarrow> int" where
  "enumerator es x = (case map_of (c_enum es) x of None \<Rightarrow> - 2 | Some n \<Rightarrow> n)"

text \<open>\<open>IS_NUM\<close>, \<open>IS_LONGDATA\<close> and \<open>INTERNAL_NUM_FIELD\<close> on the number of the type (and the length of the field).\<close>

definition MYSQL_TYPE :: "string \<Rightarrow> int" where
  "MYSQL_TYPE x = enumerator enum_field_types (''MYSQL_TYPE_'' @ x)"

definition IS_NUM :: "int \<Rightarrow> bool" where
  "IS_NUM t \<longleftrightarrow> t \<le> MYSQL_TYPE ''INT24'' \<or> t = MYSQL_TYPE ''YEAR'' \<or> t = MYSQL_TYPE ''NEWDECIMAL''"

definition IS_LONGDATA :: "int \<Rightarrow> bool" where
  "IS_LONGDATA t \<longleftrightarrow> MYSQL_TYPE ''TINY_BLOB'' \<le> t \<and> t \<le> MYSQL_TYPE ''STRING''"

definition INTERNAL_NUM_FIELD :: "int \<Rightarrow> int \<Rightarrow> bool" where
  "INTERNAL_NUM_FIELD t len \<longleftrightarrow>
     t \<le> MYSQL_TYPE ''INT24'' \<and> (t \<noteq> MYSQL_TYPE ''TIMESTAMP'' \<or> len = 14 \<or> len = 8) \<or> t = MYSQL_TYPE ''YEAR''"

lemma field_type_numbers:
  "MYSQL_TYPE ''INT24'' = 9" "MYSQL_TYPE ''TIMESTAMP'' = 7" "MYSQL_TYPE ''NULL'' = 6" "MYSQL_TYPE ''YEAR'' = 13"
  "MYSQL_TYPE ''NEWDECIMAL'' = 246" "MYSQL_TYPE ''TINY_BLOB'' = 249" "MYSQL_TYPE ''STRING'' = 254"
  by (simp_all add: MYSQL_TYPE_def enumerator_def c_enum_def enum_field_types_def)

text \<open>
  For the types of \<open>enum_field_types\<close>: \<open>IS_NUM\<close> holds of the types from decimal to 24-bit integers, of the year
  and of the new decimal, and so also of NULL and of the timestamp; \<open>IS_LONGDATA\<close> of the blobs and the two string types,
  but not of VARCHAR or GEOMETRY. No type has both, every type but the end mark fits a byte, and the two number
  classes differ on the new decimal and on timestamps of an odd length only.
\<close>

lemma field_type_classes:
  "map fst (filter (\<lambda>(x, t). IS_NUM t) (c_enum enum_field_types)) = map (\<lambda>x. ''MYSQL_TYPE_'' @ x)
     [''DECIMAL'', ''TINY'', ''SHORT'', ''LONG'', ''FLOAT'', ''DOUBLE'', ''NULL'', ''TIMESTAMP'', ''LONGLONG'', ''INT24'',
      ''YEAR'', ''NEWDECIMAL''] \<and>
   map fst (filter (\<lambda>(x, t). IS_LONGDATA t) (c_enum enum_field_types)) = map (\<lambda>x. ''MYSQL_TYPE_'' @ x)
     [''TINY_BLOB'', ''MEDIUM_BLOB'', ''LONG_BLOB'', ''BLOB'', ''VAR_STRING'', ''STRING''] \<and>
   (\<forall>t\<in>set (map snd (c_enum enum_field_types)). \<not> (IS_NUM t \<and> IS_LONGDATA t) \<and> 0 \<le> t \<and> t \<le> 256) \<and>
   INTERNAL_NUM_FIELD t len = (IS_NUM t \<and> t \<noteq> 246 \<and> (t = 7 \<longrightarrow> len = 14 \<or> len = 8))"
proof (intro conjI)
  note d = IS_NUM_def IS_LONGDATA_def field_type_numbers
  show "map fst (filter (\<lambda>(x, t). IS_NUM t) (c_enum enum_field_types)) = map (\<lambda>x. ''MYSQL_TYPE_'' @ x)
     [''DECIMAL'', ''TINY'', ''SHORT'', ''LONG'', ''FLOAT'', ''DOUBLE'', ''NULL'', ''TIMESTAMP'', ''LONGLONG'', ''INT24'',
      ''YEAR'', ''NEWDECIMAL'']"
    by (simp add: d c_enum_def enum_field_types_def)
  show "map fst (filter (\<lambda>(x, t). IS_LONGDATA t) (c_enum enum_field_types)) = map (\<lambda>x. ''MYSQL_TYPE_'' @ x)
     [''TINY_BLOB'', ''MEDIUM_BLOB'', ''LONG_BLOB'', ''BLOB'', ''VAR_STRING'', ''STRING'']"
    by (simp add: d c_enum_def enum_field_types_def)
  show "\<forall>t\<in>set (map snd (c_enum enum_field_types)). \<not> (IS_NUM t \<and> IS_LONGDATA t) \<and> 0 \<le> t \<and> t \<le> 256"
    by (simp add: d c_enum_numbers enum_field_types_def)
  show "INTERNAL_NUM_FIELD t len = (IS_NUM t \<and> t \<noteq> 246 \<and> (t = 7 \<longrightarrow> len = 14 \<or> len = 8))"
    by (auto simp: d INTERNAL_NUM_FIELD_def)
qed

lemma field_type_classes_witness: "IS_NUM 7 \<and> \<not> INTERNAL_NUM_FIELD 7 19 \<and> INTERNAL_NUM_FIELD 7 14"
  using field_type_classes [of 7 19] field_type_classes [of 7 14] by (simp add: IS_NUM_def field_type_numbers)

end
