(* ===== verification/Thai.thy ===== *)
theory Thai
  imports CEnum
begin

text \<open>
  The classification of Thai characters in \<^verbatim>\<open>t_ctype.h\<close>. The table \<open>t_ctype\<close> has five entries for each byte; it is
  defined outside the repository and a parameter here. The macros test bits of its last entry; the symbols of the four
  levels are enumerations that start behind the indices of the entries.
\<close>

unbundle bit_operations_syntax

section \<open>The symbols\<close>

definition TOT_LEVELS :: int where
  "TOT_LEVELS = 5"

definition LAST_LEVEL :: nat where
  "LAST_LEVEL = 4"

definition l1_symbols :: "(string \<times> int option) list" where
  "l1_symbols = [
     (''L1_08'', Some TOT_LEVELS), (''L1_18'', None), (''L1_28'', None), (''L1_38'', None), (''L1_48'', None),
     (''L1_58'', None), (''L1_68'', None), (''L1_78'', None), (''L1_88'', None), (''L1_98'', None),
     (''L1_A8'', None), (''L1_B8'', None), (''L1_C8'', None), (''L1_D8'', None), (''L1_E8'', None),
     (''L1_F8'', None), (''L1_G8'', None), (''L1_H8'', None), (''L1_I8'', None), (''L1_J8'', None),
     (''L1_K8'', None), (''L1_L8'', None), (''L1_M8'', None), (''L1_N8'', None), (''L1_O8'', None),
     (''L1_P8'', None), (''L1_Q8'', None), (''L1_R8'', None), (''L1_S8'', None), (''L1_T8'', None),
     (''L1_U8'', None), (''L1_V8'', None), (''L1_W8'', None), (''L1_X8'', None), (''L1_Y8'', None),
     (''L1_Z8'', None), (''L1_KO_KAI'', None), (''L1_KHO_KHAI'', None), (''L1_KHO_KHUAT'', None),
     (''L1_KHO_KHWAI'', None), (''L1_KHO_KHON'', None), (''L1_KHO_RAKHANG'', None), (''L1_NGO_NGU'', None),
     (''L1_CHO_CHAN'', None), (''L1_CHO_CHING'', None), (''L1_CHO_CHANG'', None), (''L1_SO_SO'', None),
     (''L1_CHO_CHOE'', None), (''L1_YO_YING'', None), (''L1_DO_CHADA'', None), (''L1_TO_PATAK'', None),
     (''L1_THO_THAN'', None), (''L1_THO_NANGMONTHO'', None), (''L1_THO_PHUTHAO'', None), (''L1_NO_NEN'', None),
     (''L1_DO_DEK'', None), (''L1_TO_TAO'', None), (''L1_THO_THUNG'', None), (''L1_THO_THAHAN'', None),
     (''L1_THO_THONG'', None), (''L1_NO_NU'', None), (''L1_BO_BAIMAI'', None), (''L1_PO_PLA'', None),
     (''L1_PHO_PHUNG'', None), (''L1_FO_FA'', None), (''L1_PHO_PHAN'', None), (''L1_FO_FAN'', None),
     (''L1_PHO_SAMPHAO'', None), (''L1_MO_MA'', None), (''L1_YO_YAK'', None), (''L1_RO_RUA'', None),
     (''L1_RU'', None), (''L1_LO_LING'', None), (''L1_LU'', None), (''L1_WO_WAEN'', None),
     (''L1_SO_SALA'', None), (''L1_SO_RUSI'', None), (''L1_SO_SUA'', None), (''L1_HO_HIP'', None),
     (''L1_LO_CHULA'', None), (''L1_O_ANG'', None), (''L1_HO_NOKHUK'', None), (''L1_NKHIT'', None),
     (''L1_SARA_A'', None), (''L1_MAI_HAN_AKAT'', None), (''L1_SARA_AA'', None), (''L1_SARA_AM'', None),
     (''L1_SARA_I'', None), (''L1_SARA_II'', None), (''L1_SARA_UE'', None), (''L1_SARA_UEE'', None),
     (''L1_SARA_U'', None), (''L1_SARA_UU'', None), (''L1_SARA_E'', None), (''L1_SARA_AE'', None),
     (''L1_SARA_O'', None), (''L1_SARA_AI_MAIMUAN'', None), (''L1_SARA_AI_MAIMALAI'', None)]"

definition l2_symbols :: "(string \<times> int option) list" where
  "l2_symbols = [
     (''L2_BLANK'', Some TOT_LEVELS), (''L2_THAII'', None), (''L2_YAMAK'', None), (''L2_PINTHU'', None),
     (''L2_GARAN'', None), (''L2_TYKHU'', None), (''L2_TONE1'', None), (''L2_TONE2'', None),
     (''L2_TONE3'', None), (''L2_TONE4'', None)]"

definition l3_symbols :: "(string \<times> int option) list" where
  "l3_symbols = [
     (''L3_BLANK'', Some TOT_LEVELS), (''L3_SPACE'', None), (''L3_NB_SACE'', None), (''L3_LOW_LINE'', None),
     (''L3_HYPHEN'', None), (''L3_COMMA'', None), (''L3_SEMICOLON'', None), (''L3_COLON'', None),
     (''L3_EXCLAMATION'', None), (''L3_QUESTION'', None), (''L3_SOLIDUS'', None), (''L3_FULL_STOP'', None),
     (''L3_PAIYAN_NOI'', None), (''L3_MAI_YAMOK'', None), (''L3_GRAVE'', None), (''L3_CIRCUMFLEX'', None),
     (''L3_TILDE'', None), (''L3_APOSTROPHE'', None), (''L3_QUOTATION'', None), (''L3_L_PARANTHESIS'', None),
     (''L3_L_BRACKET'', None), (''L3_L_BRACE'', None), (''L3_R_BRACE'', None), (''L3_R_BRACKET'', None),
     (''L3_R_PARENTHESIS'', None), (''L3_AT'', None), (''L3_BAHT'', None), (''L3_DOLLAR'', None),
     (''L3_FONGMAN'', None), (''L3_ANGKHANKHU'', None), (''L3_KHOMUT'', None), (''L3_ASTERISK'', None),
     (''L3_BK_SOLIDUS'', None), (''L3_AMPERSAND'', None), (''L3_NUMBER'', None), (''L3_PERCENT'', None),
     (''L3_PLUS'', None), (''L3_LESS_THAN'', None), (''L3_EQUAL'', None), (''L3_GREATER_THAN'', None),
     (''L3_V_LINE'', None)]"

definition l4_symbols :: "(string \<times> int option) list" where
  "l4_symbols = [
     (''L4_BLANK'', Some TOT_LEVELS), (''L4_MIN'', None), (''L4_CAP'', None), (''L4_EXT'', None)]"

definition level_symbols :: "(string \<times> int option) list" where
  "level_symbols = [
     (''L_UPRUPR'', Some TOT_LEVELS), (''L_UPPER'', None), (''L_MIDDLE'', None), (''L_LOWER'', None)]"

section \<open>The bits and the classes\<close>

definition t_level :: "32 word" where
  "t_level = 8"

definition t_consnt :: "32 word" where
  "t_consnt = 16"

definition t_ldvowel :: "32 word" where
  "t_ldvowel = 32"

definition t_fllwvowel :: "32 word" where
  "t_fllwvowel = 64"

definition t_uprvowel :: "32 word" where
  "t_uprvowel = 128"

definition t_lwrvowel :: "32 word" where
  "t_lwrvowel = 256"

definition t_tone :: "32 word" where
  "t_tone = 512"

definition t_diacrt1 :: "32 word" where
  "t_diacrt1 = 1024"

definition t_diacrt2 :: "32 word" where
  "t_diacrt2 = 2048"

definition t_combine :: "32 word" where
  "t_combine = 4096"

definition t_stone :: "32 word" where
  "t_stone = 8192"

definition t_tdig :: "32 word" where
  "t_tdig = 16384"

definition t_rearvowel :: "32 word" where
  "t_rearvowel = t_fllwvowel OR t_uprvowel OR t_lwrvowel"

definition t_diacrt :: "32 word" where
  "t_diacrt = t_diacrt1 OR t_diacrt2"

type_synonym t_ctype = "8 word \<Rightarrow> nat \<Rightarrow> 32 word"

definition t_is :: "t_ctype \<Rightarrow> 8 word \<Rightarrow> 32 word" where
  "t_is tab ch = tab ch LAST_LEVEL"

text \<open>The C tests are for a non-zero value.\<close>

definition t_test :: "t_ctype \<Rightarrow> 8 word \<Rightarrow> 32 word \<Rightarrow> bool" where
  "t_test tab ch f \<longleftrightarrow> t_is tab ch AND f \<noteq> 0"

definition levelof :: "t_ctype \<Rightarrow> 8 word \<Rightarrow> 32 word" where
  "levelof tab ch = t_is tab ch AND t_level"

definition isthai :: "8 word \<Rightarrow> bool" where
  "isthai ch \<longleftrightarrow> 128 \<le> ch"

definition istalpha :: "t_ctype \<Rightarrow> 8 word \<Rightarrow> bool" where
  "istalpha tab ch \<longleftrightarrow> t_test tab ch (t_consnt OR t_ldvowel OR t_rearvowel OR t_tone OR t_diacrt1 OR t_diacrt2)"

definition isconsnt :: "t_ctype \<Rightarrow> 8 word \<Rightarrow> bool" where
  "isconsnt tab ch \<longleftrightarrow> t_test tab ch t_consnt"

definition isldvowel :: "t_ctype \<Rightarrow> 8 word \<Rightarrow> bool" where
  "isldvowel tab ch \<longleftrightarrow> t_test tab ch t_ldvowel"

definition isfllwvowel :: "t_ctype \<Rightarrow> 8 word \<Rightarrow> bool" where
  "isfllwvowel tab ch \<longleftrightarrow> t_test tab ch t_fllwvowel"

definition ismidvowel :: "t_ctype \<Rightarrow> 8 word \<Rightarrow> bool" where
  "ismidvowel tab ch \<longleftrightarrow> t_test tab ch (t_ldvowel OR t_fllwvowel)"

definition isuprvowel :: "t_ctype \<Rightarrow> 8 word \<Rightarrow> bool" where
  "isuprvowel tab ch \<longleftrightarrow> t_test tab ch t_uprvowel"

definition islwrvowel :: "t_ctype \<Rightarrow> 8 word \<Rightarrow> bool" where
  "islwrvowel tab ch \<longleftrightarrow> t_test tab ch t_lwrvowel"

definition isuprlwrvowel :: "t_ctype \<Rightarrow> 8 word \<Rightarrow> bool" where
  "isuprlwrvowel tab ch \<longleftrightarrow> t_test tab ch (t_lwrvowel OR t_uprvowel)"

definition isrearvowel :: "t_ctype \<Rightarrow> 8 word \<Rightarrow> bool" where
  "isrearvowel tab ch \<longleftrightarrow> t_test tab ch t_rearvowel"

definition isvowel :: "t_ctype \<Rightarrow> 8 word \<Rightarrow> bool" where
  "isvowel tab ch \<longleftrightarrow> t_test tab ch (t_ldvowel OR t_rearvowel)"

definition istone :: "t_ctype \<Rightarrow> 8 word \<Rightarrow> bool" where
  "istone tab ch \<longleftrightarrow> t_test tab ch t_tone"

definition isunldable :: "t_ctype \<Rightarrow> 8 word \<Rightarrow> bool" where
  "isunldable tab ch \<longleftrightarrow> t_test tab ch (t_rearvowel OR t_tone OR t_diacrt1 OR t_diacrt2)"

definition iscombinable :: "t_ctype \<Rightarrow> 8 word \<Rightarrow> bool" where
  "iscombinable tab ch \<longleftrightarrow> t_test tab ch t_combine"

definition istdigit :: "t_ctype \<Rightarrow> 8 word \<Rightarrow> bool" where
  "istdigit tab ch \<longleftrightarrow> t_test tab ch t_tdig"

definition isstone :: "t_ctype \<Rightarrow> 8 word \<Rightarrow> bool" where
  "isstone tab ch \<longleftrightarrow> t_test tab ch t_stone"

definition isdiacrt1 :: "t_ctype \<Rightarrow> 8 word \<Rightarrow> bool" where
  "isdiacrt1 tab ch \<longleftrightarrow> t_test tab ch t_diacrt1"

definition isdiacrt2 :: "t_ctype \<Rightarrow> 8 word \<Rightarrow> bool" where
  "isdiacrt2 tab ch \<longleftrightarrow> t_test tab ch t_diacrt2"

definition isdiacrt :: "t_ctype \<Rightarrow> 8 word \<Rightarrow> bool" where
  "isdiacrt tab ch \<longleftrightarrow> t_test tab ch t_diacrt"

section \<open>What the classes are\<close>

lemma test_or: "t_test tab ch (f OR g) \<longleftrightarrow> t_test tab ch f \<or> t_test tab ch g"
proof -
  have "x AND (f OR g) \<noteq> 0 \<longleftrightarrow> x AND f \<noteq> 0 \<or> x AND g \<noteq> 0" for x :: "32 word"
    by (simp only: bit.conj_disj_distrib or_eq_0_iff de_Morgan_conj)
  then show ?thesis by (simp add: t_test_def)
qed

lemmas classes = istalpha_def isconsnt_def isldvowel_def isfllwvowel_def ismidvowel_def isuprvowel_def islwrvowel_def
  isuprlwrvowel_def isrearvowel_def isvowel_def istone_def isunldable_def isdiacrt1_def isdiacrt2_def isdiacrt_def

text \<open>
  Whatever the table of Thai characters holds, the composite classes are the unions of the simple ones: a letter is
  a consonant, a vowel, a tone mark or a diacritic; a vowel is a leading or following one or stands above or below; and
  every letter is a consonant, a leading vowel or one of those that may not lead.
\<close>

lemma thai_classes:
  "(istalpha tab ch \<longleftrightarrow> isconsnt tab ch \<or> isvowel tab ch \<or> istone tab ch \<or> isdiacrt tab ch) \<and>
   (isvowel tab ch \<longleftrightarrow> ismidvowel tab ch \<or> isuprlwrvowel tab ch) \<and>
   (isvowel tab ch \<longleftrightarrow> isldvowel tab ch \<or> isrearvowel tab ch) \<and>
   (isrearvowel tab ch \<longleftrightarrow> isfllwvowel tab ch \<or> isuprlwrvowel tab ch) \<and>
   (istalpha tab ch \<longleftrightarrow> isconsnt tab ch \<or> isldvowel tab ch \<or> isunldable tab ch)"
  by (auto simp: classes t_rearvowel_def t_diacrt_def test_or)

text \<open>The symbols of all levels are different from the indices of the levels, and ordered as they are listed.\<close>

lemma symbol_numbers:
  "map snd (c_enum l2_symbols) = [5..14]" "map snd (c_enum l4_symbols) = [5..8]" "map snd (c_enum level_symbols) = [5..8]"
  by (simp_all add: c_enum_numbers l2_symbols_def l4_symbols_def level_symbols_def TOT_LEVELS_def upto_rec1)

lemma symbols_ascend: "ascending (map snd (c_enum l1_symbols))" "ascending (map snd (c_enum l3_symbols))"
  by (simp_all add: c_enum_numbers l1_symbols_def l3_symbols_def TOT_LEVELS_def)

end
