(* ===== verification/Cjson.thy ===== *)
theory Cjson
  imports LinkedHeap
begin

text \<open>
  The data of \<^verbatim>\<open>cJSON.h\<close> and its macros with code: the loop \<open>cJSON_ArrayForEach\<close> over the items of an array or
  object and \<open>cJSON_SetIntValue\<close>. The items are nodes on a heap, linked by \<open>next\<close>; the body of the loop is a parameter
  that may change the heap. The library's functions are only declared in the repository.
\<close>

section \<open>The items\<close>

text \<open>\<open>'d\<close> stands for \<open>double\<close>.\<close>

record 'd cJSON =
  cj_next :: ptr
  cj_prev :: ptr
  cj_child :: ptr
  cj_type :: int
  cj_valuestring :: ptr
  cj_valueint :: int
  cj_valuedouble :: 'd
  cj_string :: ptr

type_synonym 'd items = "'d cJSON heap"

interpretation cjson: linked cj_next "\<lambda>q c. c\<lparr>cj_next := q\<rparr>"
  by unfold_locales simp

section \<open>The loop over the items\<close>

text \<open>
  The body gets the item and the state (the heap and what the body keeps); afterwards the loop follows \<open>next\<close> of
  the item in the heap the body left.
\<close>

partial_function (option) each_item ::
  "(nat \<Rightarrow> 'd items \<times> 'a \<Rightarrow> ('d items \<times> 'a) option) \<Rightarrow> ptr \<Rightarrow> 'd items \<times> 'a \<Rightarrow> ('d items \<times> 'a) option" where
  "each_item body element s =
     (case element of
        None \<Rightarrow> Some s
      | Some a \<Rightarrow> do {
          s \<leftarrow> body a s;
          c \<leftarrow> fst s a;
          each_item body (cj_next c) s
        })"

definition cJSON_ArrayForEach ::
  "(nat \<Rightarrow> 'd items \<times> 'a \<Rightarrow> ('d items \<times> 'a) option) \<Rightarrow> ptr \<Rightarrow> 'd items \<times> 'a \<Rightarrow> ('d items \<times> 'a) option" where
  "cJSON_ArrayForEach body array s =
     (case array of
        None \<Rightarrow> each_item body None s
      | Some p \<Rightarrow> do { c \<leftarrow> fst s p; each_item body (cj_child c) s })"

text \<open>
  \<open>valueint\<close> is assigned from the double, as C evaluates the chain; \<open>dbl\<close> and \<open>int_of\<close> are the conversions of the
  machine.
\<close>

definition cJSON_SetIntValue :: "(int \<Rightarrow> 'd) \<Rightarrow> ('d \<Rightarrow> int) \<Rightarrow> ptr \<Rightarrow> int \<Rightarrow> 'd items \<Rightarrow> (int \<times> 'd items) option" where
  "cJSON_SetIntValue dbl int_of object number h =
     (case object of
        None \<Rightarrow> Some (number, h)
      | Some a \<Rightarrow> do {
          c \<leftarrow> h a;
          let d = dbl number;
          Some (int_of d, h(a \<mapsto> c\<lparr>cj_valuedouble := d, cj_valueint := int_of d\<rparr>))
        })"

section \<open>What the loop does\<close>

text \<open>The body on the items of a list, in order.\<close>

fun fold_items :: "(nat \<Rightarrow> 's \<Rightarrow> 's option) \<Rightarrow> nat list \<Rightarrow> 's \<Rightarrow> 's option" where
  "fold_items body [] s = Some s"
| "fold_items body (a # as) s = body a s \<bind> fold_items body as"

text \<open>A body that leaves the links of the items it does not stand on, and that of its own, alone.\<close>

definition keeps_links :: "(nat \<Rightarrow> 'd items \<times> 'a \<Rightarrow> ('d items \<times> 'a) option) \<Rightarrow> bool" where
  "keeps_links body \<longleftrightarrow> (\<forall>a s s'. body a s = Some s' \<longrightarrow> (\<forall>b. map_option cj_next (fst s' b) = map_option cj_next (fst s b)))"

lemma each_item_fold:
  assumes k: "keeps_links body"
  shows "lpath cj_next (fst s) p as None \<Longrightarrow> each_item body p s = fold_items body as s"
proof (induction as arbitrary: p s)
  case Nil
  then show ?case by (simp add: each_item.simps)
next
  case (Cons a as)
  obtain c where c: "p = Some a" "fst s a = Some c" "lpath cj_next (fst s) (cj_next c) as None"
    using Cons.prems by (auto split: option.splits)
  show ?case
  proof (cases "body a s")
    case None
    then show ?thesis using c(1) by (subst each_item.simps) simp
  next
    case (Some s1)
    then have l: "\<forall>b. map_option cj_next (fst s1 b) = map_option cj_next (fst s b)"
      using k unfolding keeps_links_def by blast
    then obtain c1 where c1: "fst s1 a = Some c1" "cj_next c1 = cj_next c" using c(2) by (metis map_option_eq_Some)
    have "lpath cj_next (fst s1) (cj_next c1) as None"
      using c(3) c1(2) l lpath_same_links [of as cj_next "fst s1" "fst s"] by simp
    then show ?thesis using Cons.IH Some c(1) c1(1) by (subst each_item.simps) simp
  qed
qed

text \<open>The size of an array by the loop.\<close>

definition count_body :: "nat \<Rightarrow> 'd items \<times> nat \<Rightarrow> ('d items \<times> nat) option" where
  "count_body a s = Some (fst s, Suc (snd s))"

lemma count_items: "fold_items count_body as s = Some (fst s, snd s + length as)"
  by (induction as arbitrary: s) (simp_all add: count_body_def)

lemma count_keeps: "keeps_links count_body"
  by (simp add: keeps_links_def count_body_def)

section \<open>Properties\<close>

text \<open>
  C39: \<open>cJSON_ArrayForEach\<close> runs its body once on every item of the array, in order, and stops where the body fails,
  provided the body leaves the links of the items alone; the loop returns on every array. A body that frees the item
  it is given is not allowed: the loop then reads the freed item.
\<close>

theorem foreach_visits_items:
  assumes "h p = Some c" "lpath cj_next h (cj_child c) as None"
  shows "(keeps_links body \<longrightarrow> cJSON_ArrayForEach body (Some p) (h, x) = fold_items body as (h, x)) \<and>
    (as \<noteq> [] \<longrightarrow> cJSON_ArrayForEach (\<lambda>a s. Some ((fst s)(a := None), snd s)) (Some p) (h, x) = None) \<and>
    cJSON_ArrayForEach count_body (Some p) (h, n) = Some (h, n + length as)"
proof (intro conjI impI)
  show "cJSON_ArrayForEach body (Some p) (h, x) = fold_items body as (h, x)" if "keeps_links body"
    using each_item_fold [OF that, of "(h, x)"] assms by (simp add: cJSON_ArrayForEach_def)
  show "cJSON_ArrayForEach (\<lambda>a s. Some ((fst s)(a := None), snd s)) (Some p) (h, x) = None" if ne: "as \<noteq> []"
  proof -
    obtain a where "cj_child c = Some a" using assms(2) ne by (cases as) auto
    then show ?thesis using assms(1) by (simp add: cJSON_ArrayForEach_def each_item.simps)
  qed
  show "cJSON_ArrayForEach count_body (Some p) (h, n) = Some (h, n + length as)"
    using each_item_fold [OF count_keeps, of "(h, n)"] assms by (simp add: cJSON_ArrayForEach_def count_items)
qed

definition sample_items :: "int items" where
  "sample_items = (let z = \<lparr>cj_next = None, cj_prev = None, cj_child = None, cj_type = 8, cj_valuestring = None,
       cj_valueint = 0, cj_valuedouble = 0, cj_string = None\<rparr>
     in [1 \<mapsto> z\<lparr>cj_type := 32, cj_child := Some 2\<rparr>, 2 \<mapsto> z\<lparr>cj_next := Some 3\<rparr>, 3 \<mapsto> z])"

theorem foreach_visits_items_witness:
  "cJSON_ArrayForEach count_body (Some 1) (sample_items, 0) = Some (sample_items, 2)"
  using foreach_visits_items [of sample_items 1 _ "[2, 3]" count_body 0 0] by (simp add: sample_items_def Let_def)

text \<open>Setting an integer keeps both numbers of an item equal, where the conversion is exact.\<close>

lemma set_int_value:
  assumes "h a = Some c" "int_of (dbl n) = n"
  shows "\<exists>c'. cJSON_SetIntValue dbl int_of (Some a) n h = Some (n, h(a \<mapsto> c')) \<and> cj_valueint c' = n \<and>
    cj_valuedouble c' = dbl n \<and> cj_next c' = cj_next c"
  by (rule exI [of _ "c\<lparr>cj_valuedouble := dbl n, cj_valueint := n\<rparr>"])
    (simp add: assms cJSON_SetIntValue_def Let_def)

end
