(* ===== verification/Spec2Isabelle.thy ===== *)
theory Spec2Isabelle
  imports ServiceResults Interrupts MachineBytes BitMacros Bitmap Uctype MString Atomic Trie MyTime GlobalMacros IoCache
    Counters Amqp ErrorCodes Flags Thai Cjson
begin

text \<open>
  A verification development for TimeProgect, a daemon that runs tasks at fixed intervals. The tasks are
  shared libraries; a configuration file gives each a section of key/value pairs. The repository holds the
  daemon (\<^verbatim>\<open>src/main.c\<close>), its log library (\<^verbatim>\<open>src/logLog.c\<close>, \<^verbatim>\<open>src/logLog.h\<close>), the structures both share
  (\<^verbatim>\<open>src/type.h\<close>), and the headers of the client libraries the tasks are built with (\<^verbatim>\<open>inc/mysql\<close>,
  \<^verbatim>\<open>inc/amqp.h\<close>, \<^verbatim>\<open>inc/cjson\<close>), of which those with code in them are modelled here as well.

  \<^bold>\<open>The program.\<close> \<open>main\<close> reads its options, opens the log, forks, and leaves the work to the child. The child
  loads the configuration file into one block of text (\<open>loadFile\<close>), parses the block into a list of sections
  (\<open>readFile\<close>), opens every library of a directory and makes a task of it (\<open>loadLib\<close>, \<open>cycmake\<close>), gives every
  section to the library of its name and drops the tasks without section (\<open>toSetCycdata\<close>, \<open>freeCycdata\<close>),
  initialises the tasks (\<open>TimeInit\<close>) and then only waits. SIGALRM, once a second, counts the ticks of every
  task and runs those that are due (\<open>cycleTimeMethod\<close>, \<open>TimeDo\<close>); SIGUSR1 ends the program (\<open>gameover\<close>). The
  parts share the global variables of \<^verbatim>\<open>main.c\<close>: the task list \<open>cychead\<close> with its tail \<open>cycheadnext\<close>, the
  section list \<open>filehead\<close>, the block \<open>shead\<close> and the log \<open>mainld\<close>.

  \<^bold>\<open>The model of the program.\<close> The state is the record \<open>world\<close>: one heap per structure type, the globals,
  files and streams, library handles, and the trace of the calls into the libraries. An operation is a
  function from the state to an option: \<open>None\<close> is undefined behaviour (a NULL or dangling pointer, an
  access outside an array, overflow of an \<open>int\<close>) or a loop that does not return; a theorem that an
  operation is \<open>Some\<close> therefore says that it is safe and returns. Return codes and early returns are values.
  Loops over linked lists are partial functions, shown to return on the lists the program builds; the other
  loops are total, with a measure. No fuel is used. What is not in the repository is the record \<open>env\<close>: refused
  allocations, the clock, the directory listing, the dynamic linker and the methods of the libraries.

  \<^item> \<open>Prelude\<close>: checked access to buffers (\<open>rd\<close>, \<open>wr\<close>, \<open>blit\<close>), C integers, the collections of rewrite rules.
  \<^item> \<open>LinkedHeap\<close>: singly linked lists on a heap, as the locale \<open>linked\<close> of their laws, interpreted for the
    three node types of the program.
  \<^item> \<open>CString\<close>: \<open>trimspace\<close> and \<open>strIsSame\<close> equal list functions on the strings of their buffers.
  \<^item> \<open>World\<close>: the structures of \<^verbatim>\<open>type.h\<close> and \<^verbatim>\<open>logLog.h\<close>, the state and the parameters.
  \<^item> \<open>LogLog\<close>: \<open>logInit\<close>, \<open>logDel\<close>, \<open>logInf\<close>, \<open>isneedcp\<close>, \<open>charChange\<close>: what one line does to the files, with and
    without rotation; the bound on the size of a log; no resource is leaked. The locale \<open>logger\<close> is what the
    rest of the program needs of a log.
  \<^item> \<open>ConfLoad\<close>, \<open>ConfRead\<close>, \<open>ConfFile\<close>: \<open>loadFile\<close>, \<open>fetchInf\<close>, \<open>readFile\<close>, \<open>freeFiledate\<close>, \<open>palyFiledate\<close>,
    \<open>filedatefind\<close>: equality with a grammar of the file on lines, the round trip of a printed
    configuration, exact release.
  \<^item> \<open>CycList\<close>: \<open>cycmake\<close>, \<open>freeCycdata\<close> and the invariant of the task list.
  \<^item> \<open>Scheduler\<close>: \<open>TimeDo\<close>, \<open>cycleTimeMethod\<close>, \<open>TimeInit\<close>: the order of the pipeline, what one alarm does to every
    task, how often a task runs in any number of alarms.
  \<^item> \<open>Shutdown\<close>: \<open>TimeDel\<close>, \<open>gameover\<close>: everything is released exactly once.
  \<^item> \<open>Binder\<close>: \<open>toSetCycdata\<close> implements a specification on names.
  \<^item> \<open>Loader\<close>: \<open>loadLib\<close> for every listing of the directory.
  \<^item> \<open>Daemon\<close>, \<open>Safety\<close>, \<open>Startup\<close>: \<open>main\<close>, its phases and the transition system \<open>step\<close> in which both signals may be
    handled between any two phases; its invariant, by the locale \<open>transition_system\<close>; safety of every
    reachable state, refinement of \<open>main\<close> by the steps, and that every run ends or reaches the waiting loop.
  \<^item> \<open>Rounds\<close>: the same daemon one level finer, \<open>fine_step\<close>: a signal may also come between any two entries of the
    library directory and between any two rounds of the loops of \<open>toSetCycdata\<close>, and SIGUSR1 between any two rounds of
    the alarm handler. Every reachable state is as safe (\<open>rounds_responsive\<close>), and \<open>step\<close> and \<open>main\<close> refine it. The
    one case its steps leave out is a signal during \<open>gameover\<close>, which is not safe (\<open>alarm_in_gameover\<close>).
  \<^item> \<open>Settling\<close>: under any stream of signals the daemon comes to the waiting loop or its end (\<open>daemon_settles\<close>), by the
    locale \<open>fair_system\<close> of systems whose own steps lower a rank that signals keep.
  \<^item> \<open>RoundResults\<close>, \<open>LoadResults\<close>, \<open>StartupSpec\<close>, \<open>StartupResults\<close>: what the interrupted daemon computes. The sections it
    reads, the tasks it loads and the bindings do not depend on the signals: the start succeeds exactly if the
    text of the configuration file and the listing of the directory are \<open>startable\<close>, and leaves the list of tasks that
    \<open>assigned\<close> computes from them (\<open>startup_despite_signals\<close>).
  \<^item> \<open>ServiceResults\<close>: what the daemon does once it waits: each alarm goes through exactly these tasks and calls the
    functions the linker found in their libraries (\<open>daemon_serves\<close>).
  \<^item> \<open>Interrupts\<close>: SIGUSR1 in the middle of the alarm handler is safe. \<open>Shutdown\<close> has the opposite case: an
    alarm in the middle of \<open>gameover\<close> reads freed memory, as does a second \<open>gameover\<close> (\<open>alarm_in_gameover\<close>).

  \<^bold>\<open>The headers.\<close> Macros and inline functions of the MySQL client headers, each on the memory it is given:

  \<^item> \<open>ByteOrder\<close>: the integer macros of \<^verbatim>\<open>my_global.h\<close> (portable and for x86) and \<^verbatim>\<open>myisampack.h\<close>. The locale
    \<open>byte_codec\<close> has the laws of a pair of macros and is interpreted for each; the results are the round
    trips of unsigned and signed numbers, the equality of the two forms, and the order of the keys.
  \<^item> \<open>MachineBytes\<close>: the macros that move the bytes of floating-point objects, for each layout of the machine,
    as permutations (locale \<open>byte_object\<close>), and the reads and writes in machine format.
  \<^item> \<open>BitMacros\<close>: the functions of \<^verbatim>\<open>my_bit.h\<close>, with their two tables as parameters.
  \<^item> \<open>Bitmap\<close>: \<^verbatim>\<open>my_bitmap.h\<close> as operations on the set of bits.
  \<^item> \<open>UctypePages\<close>, \<open>Uctype\<close>: the tables of \<^verbatim>\<open>my_uctype.h\<close> and the classification macros of \<^verbatim>\<open>m_ctype.h\<close>.
  \<^item> \<open>MString\<close>: \<open>skip_trailing_space\<close> of \<^verbatim>\<open>m_string.h\<close>, which reads four bytes at a time, equals the plain loop.
  \<^item> \<open>Atomic\<close>: the operations of \<^verbatim>\<open>my_atomic.h\<close> made from compare-and-swap, under every schedule of the threads.
    Sums are words, which wrap around; in C the overflow of an \<open>int32\<close> is undefined, and the result is about sums that
    do not overflow or a compiler that wraps.
  \<^item> \<open>Trie\<close>: look-up and the Aho-Corasick step of \<^verbatim>\<open>my_trie.h\<close>.
  \<^item> \<open>MyTime\<close>: the limits and the timestamp check of \<^verbatim>\<open>my_time.h\<close>.
  \<^item> \<open>GlobalMacros\<close>: comparison, masks and alignment (\<^verbatim>\<open>my_global.h\<close>), and the deadline of \<^verbatim>\<open>my_pthread.h\<close>, exact
    to the nanosecond.
  \<^item> \<open>Counters\<close>: the counters of \<^verbatim>\<open>my_pthread.h\<close>, with and without the mutex, under every schedule.
  \<^item> \<open>IoCache\<close>: the buffered files of \<^verbatim>\<open>my_sys.h\<close>: reading and writing through the macros is reading and writing
    the file, up to the first failure of a write. The functions a cache calls are parameters with the contracts
    \<open>fetches\<close>, \<open>gets\<close> (which meet no read error), \<open>stores\<close> and \<open>flushes\<close> (which may fail at any call).
  \<^item> \<open>AmqpTypes\<close>, \<open>AmqpMethods\<close>, \<open>Amqp\<close>: the data of the RabbitMQ client (\<^verbatim>\<open>amqp.h\<close>, \<^verbatim>\<open>amqp_framing.h\<close>): no number
    belongs to two methods, and its upper half is the class; version codes compare as versions.
  \<^item> \<open>Cjson\<close>: the items of \<^verbatim>\<open>cJSON.h\<close> and its loop over them, for any body.
  \<^item> \<open>ErrorCodes\<close>: the error numbers of the system library, the storage engines, the server and the client
    (\<^verbatim>\<open>mysys_err.h\<close>, \<^verbatim>\<open>my_base.h\<close>, \<^verbatim>\<open>mysqld_error.h\<close>, \<^verbatim>\<open>errmsg.h\<close>): no number has two meanings, and every number
    has its place in the array of messages.
  \<^item> \<open>CEnum\<close>: the enumerations, numbered by the rule of C, and the macros that classify field types.
  \<^item> \<open>Flags\<close>: the groups of option bits, with the locale \<open>flag_group\<close> for combining and testing them.
  \<^item> \<open>Thai\<close>: the classes of Thai characters of \<^verbatim>\<open>t_ctype.h\<close>.

  \<^bold>\<open>Assumptions.\<close> Those on the libraries are the contract \<open>tame\<close> of their methods: a
  method returns, writes at most \<open>tidata\<close> and \<open>para\<close> of its own task, the first within a
  relation \<open>T\<close>, and leaves the log usable. It does not give its task a log of its own, so that the
  branches of \<^verbatim>\<open>main.c\<close> that delete such a log are in the model but are not taken.
  \<open>task_period\<close> and \<open>alarms_invariant\<close> are for \<open>T\<close> the equality: there no
  method sets \<open>tidata\<close>. Those on the host are \<open>host_ok\<close> (allocations succeed,
  \<open>asctime\<close> gives its 25 characters, \<open>open\<close> gives an \<open>int\<close>),
  \<open>env_ok\<close> (counters set by the methods do not overflow, the listing of the library directory is one a
  file system can give, the path of that directory has at most 25 characters, so that with a name and the slash it
  fits the array of 64, messages of the linker are short enough for a log line, and the path of the configuration file
  is shorter than 801 characters) and \<open>at_start\<close> (every file is at most a billion characters long).
  \<open>fgets\<close> ends at the end of the file and meets no read error. For the text that is read, the
  configuration file must be another file than the log (\<open>not_log\<close>: not its path, nor the name it is moved
  to, nor a link to it). Each has an instance in a witness. Where the code breaks without such an assumption, a
  theorem says so: a directory with a long path overruns an array (\<open>loadLib_path_overflow\<close>), freeing the
  last task leaves the tail pointer dangling (\<open>freeCycdata_dangling_tail\<close>), the last line of a file
  without newline is lost (\<open>loadFile_drops_last_line\<close>), a log that cannot be opened again after its
  rotation leaves \<open>mainld\<close> dangling (\<open>logLog_reopen_fails\<close>).

  \<^bold>\<open>Bounds.\<close> The sizes of the arrays are those of the code: lines of 1024 characters, of which \<open>fgets\<close> fills 1022,
  names of 32 bytes, paths of 64, log lines of 1024. Signed arithmetic of the program is checked at 32
  bits; the words of the headers have the width of their C types on a 64-bit Linux.

  \<^bold>\<open>Not modelled.\<close> A signal inside a round: the steps handle signals between the phases and between the rounds of
  the loops named above, not within one call of \<open>malloc\<close>, a log line or a method. The redirection of the standard
  streams, the expansion of format strings (the text is a parameter), and printing to the screen. The rest of the
  headers: declarations, structures without operations and configuration, the bits of \<^verbatim>\<open>my_sys.h\<close> whose meaning
  depends on the function they are passed to, inline assembly, and the functions they only declare, whose code is in
  libraries outside the repository.
\<close>

end
